(* ===== verification/Prelude.thy ===== *)
theory Prelude
  imports Main "HOL-Library.Word"
begin

text \<open>
  Shared vocabulary of the development: the machine types of the 32-bit target,
  the result of a fallible routine (a value, an error code, or a panic), the
  \<open>NonZero\<close> constructors of the Rust core library, the collections of
  rewrite rules the component theories fill, and generic facts on lists and
  words that more than one component needs.
\<close>

unbundle bit_operations_syntax

section \<open>Machine types\<close>

text \<open>
  The kernel is built for a 32-bit RISC-V target, so \<open>usize\<close> and \<open>u32\<close> are both
  32 bits wide. Arithmetic wraps: the release profile is compiled without
  overflow checks.
\<close>

type_synonym usize = "32 word"
type_synonym u32 = "32 word"
type_synonym u16 = "16 word"
type_synonym u8 = "8 word"

text \<open>Eight machine words: the registers that carry a system call or its result.\<close>

type_synonym args8 =
  "usize \<times> usize \<times> usize \<times> usize \<times> usize \<times> usize \<times> usize \<times> usize"

section \<open>Results of fallible code\<close>

text \<open>
  A routine returns normally, returns an error to its caller, or panics
  (\<open>unwrap\<close> on an absent value, a failed assertion, an index out of range).
\<close>

datatype ('e, 'a) outcome = Ok 'a | Err 'e | Panic

fun bind_outcome :: "('e, 'a) outcome \<Rightarrow> ('a \<Rightarrow> ('e, 'b) outcome) \<Rightarrow> ('e, 'b) outcome" where
  "bind_outcome (Ok x) f = f x"
| "bind_outcome (Err e) f = Err e"
| "bind_outcome Panic f = Panic"

definition unwrap :: "'a option \<Rightarrow> ('e, 'a) outcome" where
  "unwrap x = (case x of None \<Rightarrow> Panic | Some y \<Rightarrow> Ok y)"

definition ok_or :: "'a option \<Rightarrow> 'e \<Rightarrow> ('e, 'a) outcome" where
  "ok_or x e = (case x of None \<Rightarrow> Err e | Some y \<Rightarrow> Ok y)"

definition is_ok :: "('e, 'a) outcome \<Rightarrow> bool" where
  "is_ok r = (case r of Ok _ \<Rightarrow> True | _ \<Rightarrow> False)"

section \<open>Non-zero integers\<close>

text \<open>
  \<open>NonZero::new\<close> of the core library, and the inverse reading of an optional
  non-zero value as a plain word (\<open>unwrap_or(0)\<close>). A value of a non-zero type is
  kept as a plain word; the well-formedness predicates of the components say
  that it is not zero.
\<close>

definition nonzero :: "'a::len word \<Rightarrow> 'a word option" where
  "nonzero w = (if w = 0 then None else Some w)"

definition nz_or_zero :: "'a::len word option \<Rightarrow> 'a word" where
  "nz_or_zero x = (case x of None \<Rightarrow> 0 | Some w \<Rightarrow> w)"

definition wf_nz :: "'a::len word option \<Rightarrow> bool" where
  "wf_nz x = (x \<noteq> Some 0)"

section \<open>Rule collections\<close>

text \<open>
  \<open>wf_simps\<close>: unfolding of the well-formedness predicates.
  \<open>codec_simps\<close>: the definitions of the encoders and decoders.
\<close>

named_theorems wf_simps
named_theorems codec_simps

declare wf_nz_def [wf_simps]

section \<open>Generic facts\<close>

lemma bind_Ok_iff [simp]:
  "(bind_outcome r f = Ok y) = (\<exists>x. r = Ok x \<and> f x = Ok y)"
  by (cases r) auto

lemma bind_Err_iff:
  "(bind_outcome r f = Err x) = (r = Err x \<or> (\<exists>y. r = Ok y \<and> f y = Err x))"
  by (cases r) simp_all

lemma bind_Panic_iff:
  "(bind_outcome r f = Panic) = (r = Panic \<or> (\<exists>x. r = Ok x \<and> f x = Panic))"
  by (cases r) auto

lemma is_ok_simps [simp]:
  "is_ok (Ok x)" "\<not> is_ok (Err e)" "\<not> is_ok Panic"
  by (simp_all add: is_ok_def)

lemma is_ok_iff: "is_ok r = (\<exists>x. r = Ok x)"
  by (cases r) auto

lemma unwrap_simps [simp]:
  "unwrap None = Panic" "unwrap (Some x) = Ok x"
  by (simp_all add: unwrap_def)

lemma ok_or_simps [simp]:
  "ok_or None e = Err e" "ok_or (Some x) e = Ok x"
  by (simp_all add: ok_or_def)

lemma nonzero_eq_Some [simp]: "(nonzero w = Some v) = (v = w \<and> w \<noteq> 0)"
  by (auto simp: nonzero_def)

lemma nonzero_eq_None [simp]: "(nonzero w = None) = (w = 0)"
  by (simp add: nonzero_def)

lemma nonzero_zero [simp]: "nonzero 0 = None"
  by (simp add: nonzero_def)

lemma nonzero_pos [simp]: "w \<noteq> 0 \<Longrightarrow> nonzero w = Some w"
  by (simp add: nonzero_def)

lemma nz_or_zero_simps [simp]: "nz_or_zero None = 0" "nz_or_zero (Some w) = w"
  by (simp_all add: nz_or_zero_def)

lemma nonzero_nz_or_zero [simp]: "wf_nz x \<Longrightarrow> nonzero (nz_or_zero x) = x"
  by (cases x) (auto simp: wf_nz_def)

lemma nz_or_zero_nonzero [simp]: "nz_or_zero (nonzero w) = w"
  by (simp add: nonzero_def)

lemma wf_nz_nonzero [simp]: "wf_nz (nonzero w)"
  by (simp add: wf_nz_def)

lemma ucast_u8_usize [simp]: "ucast (ucast (w :: u8) :: usize) = w"
  by (rule bit_word_eqI) (simp add: bit_ucast_iff)

lemma ucast_u8_usize_eq_0 [simp]: "((ucast (w :: u8) :: usize) = 0) = (w = 0)"
proof
  assume "(ucast w :: usize) = 0"
  hence "(ucast (ucast w :: usize) :: u8) = ucast (0 :: usize)" by simp
  thus "w = 0" by simp
qed simp

lemma unsigned_u8_less: "unat (p :: u8) < 256"
proof -
  have "unat p < 2 ^ LENGTH(8)" by (rule unsigned_less)
  thus ?thesis by simp
qed

lemma ucast_u8_le_ff [simp]: "(ucast (p :: u8) :: usize) \<le> 0xff"
proof -
  have "unat (ucast p :: usize) \<le> 255"
    using unsigned_u8_less [of p] by (simp add: unsigned_ucast_eq take_bit_nat_eq_self)
  thus ?thesis by (simp add: word_le_nat_alt)
qed

lemma ucast_u16_u8 [simp]: "ucast (ucast (p :: u8) :: u16) = p"
  by (rule bit_word_eqI) (simp add: bit_ucast_iff)

lemma ucast_u16_eq_0 [simp]: "((ucast (p :: u8) :: u16) = 0) = (p = 0)"
proof
  assume "(ucast p :: u16) = 0"
  hence "(ucast (ucast p :: u16) :: u8) = ucast (0 :: u16)" by simp
  thus "p = 0" by simp
qed simp

lemma ucast_u16_le_ff [simp]: "(ucast (p :: u8) :: u16) \<le> 0xff"
proof -
  have "unat (ucast p :: u16) \<le> 255"
    using unsigned_u8_less [of p] by (simp add: unsigned_ucast_eq take_bit_nat_eq_self)
  thus ?thesis by (simp add: word_le_nat_alt)
qed

lemma ucast_u16_pos: "p \<le> 0xff \<Longrightarrow> p \<noteq> 0 \<Longrightarrow> (ucast (p :: u16) :: u8) \<noteq> 0"
proof
  assume p: "p \<le> 0xff" "p \<noteq> 0" and z: "(ucast p :: u8) = 0"
  have "unat p \<le> 255" using p(1) by (simp add: word_le_nat_alt)
  hence "unat (ucast p :: u8) = unat p" by (simp add: unsigned_ucast_eq take_bit_nat_eq_self)
  with z p(2) show False by (simp add: unat_eq_0)
qed

lemma byte_masks: "(0xff :: usize) = mask 8" "(0xffff :: usize) = mask 16"
  "(0x00ff0000 :: usize) = push_bit 16 (mask 8)"
  by (simp_all add: mask_eq_exp_minus_1)

lemma take_bit_usize_self: "unat (w :: usize) < 2 ^ n \<Longrightarrow> take_bit n w = w"
proof -
  assume a: "unat w < 2 ^ n"
  have "unat (take_bit n w) = unat w" using a by (simp add: unsigned_take_bit_eq take_bit_nat_eq_self)
  thus ?thesis by (simp add: word_unat_eq_iff)
qed

lemma high_bit_usize: "unat (w :: usize) < 2 ^ n \<Longrightarrow> n \<le> k \<Longrightarrow> \<not> bit w k"
  using take_bit_usize_self [of w n] bit_take_bit_iff [of n w k] by auto

lemma ucast_and_ff: "(ucast ((w :: usize) AND 0xff) :: u8) = ucast w"
  unfolding byte_masks by (rule bit_word_eqI) (simp add: bit_simps)

end
