(* ===== verification/Xous_Defs.thy ===== *)
theory Xous_Defs
  imports Prelude
begin

text \<open>
  The kernel interface types of \<open>xous-rs/src/definitions.rs\<close> and the files
  \<open>memoryflags.rs\<close> and \<open>memoryrange.rs\<close> below it: error codes and their numbers,
  server identifiers, memory ranges, memory flags, memory types, and the
  allocation advice the swapper receives. The lemmas are the round trips of
  the numeric encodings, with the values that do not survive one.
\<close>

section \<open>Error codes\<close>

datatype (plugins only: code) Error =
    NoError
  | BadAlignment
  | BadAddress
  | OutOfMemory
  | MemoryInUse
  | InterruptNotFound
  | InterruptInUse
  | InvalidString
  | ServerExists
  | ServerNotFound
  | ProcessNotFound
  | ProcessNotChild
  | ProcessTerminated
  | Timeout
  | InternalError
  | ServerQueueFull
  | ThreadNotAvailable
  | UnhandledSyscall
  | InvalidSyscall
  | ShareViolation
  | InvalidThread
  | InvalidPID
  | UnknownError
  | AccessDenied
  | UseBeforeInit
  | DoubleFree
  | DebugInProgress
  | InvalidLimit
  | NotFound
  | InvalidCoding
  | HardwareError
  | SerializationError
  | InvalidArgument
  | NetworkError
  | StorageError
  | Unavailable
  | ParseError
  | InvalidCore
  | VerificationError
  | SecurityError

primrec Error_to_usize :: "Error \<Rightarrow> usize" where
  "Error_to_usize NoError = 0"
| "Error_to_usize BadAlignment = 1"
| "Error_to_usize BadAddress = 2"
| "Error_to_usize OutOfMemory = 3"
| "Error_to_usize MemoryInUse = 4"
| "Error_to_usize InterruptNotFound = 5"
| "Error_to_usize InterruptInUse = 6"
| "Error_to_usize InvalidString = 7"
| "Error_to_usize ServerExists = 8"
| "Error_to_usize ServerNotFound = 9"
| "Error_to_usize ProcessNotFound = 10"
| "Error_to_usize ProcessNotChild = 11"
| "Error_to_usize ProcessTerminated = 12"
| "Error_to_usize Timeout = 13"
| "Error_to_usize InternalError = 14"
| "Error_to_usize ServerQueueFull = 15"
| "Error_to_usize ThreadNotAvailable = 16"
| "Error_to_usize UnhandledSyscall = 17"
| "Error_to_usize InvalidSyscall = 18"
| "Error_to_usize ShareViolation = 19"
| "Error_to_usize InvalidThread = 20"
| "Error_to_usize InvalidPID = 21"
| "Error_to_usize UnknownError = - 1"
| "Error_to_usize AccessDenied = 23"
| "Error_to_usize UseBeforeInit = 24"
| "Error_to_usize DoubleFree = 25"
| "Error_to_usize DebugInProgress = 26"
| "Error_to_usize InvalidLimit = 27"
| "Error_to_usize NotFound = 28"
| "Error_to_usize InvalidCoding = 29"
| "Error_to_usize HardwareError = 30"
| "Error_to_usize SerializationError = 31"
| "Error_to_usize InvalidArgument = 32"
| "Error_to_usize NetworkError = 33"
| "Error_to_usize StorageError = 34"
| "Error_to_usize Unavailable = 35"
| "Error_to_usize ParseError = 36"
| "Error_to_usize InvalidCore = 37"
| "Error_to_usize VerificationError = 38"
| "Error_to_usize SecurityError = 39"

definition Error_from_usize :: "usize \<Rightarrow> Error" where
  "Error_from_usize arg =
     (if arg = 0 then NoError else
     (if arg = 1 then BadAlignment else
     (if arg = 2 then BadAddress else
     (if arg = 3 then OutOfMemory else
     (if arg = 4 then MemoryInUse else
     (if arg = 5 then InterruptNotFound else
     (if arg = 6 then InterruptInUse else
     (if arg = 7 then InvalidString else
     (if arg = 8 then ServerExists else
     (if arg = 9 then ServerNotFound else
     (if arg = 10 then ProcessNotFound else
     (if arg = 11 then ProcessNotChild else
     (if arg = 12 then ProcessTerminated else
     (if arg = 13 then Timeout else
     (if arg = 14 then InternalError else
     (if arg = 15 then ServerQueueFull else
     (if arg = 16 then ThreadNotAvailable else
     (if arg = 17 then UnhandledSyscall else
     (if arg = 18 then InvalidSyscall else
     (if arg = 19 then ShareViolation else
     (if arg = 20 then InvalidThread else
     (if arg = 21 then InvalidPID else
     (if arg = 23 then AccessDenied else
     (if arg = 24 then UseBeforeInit else
     (if arg = 25 then DoubleFree else
     (if arg = 26 then DebugInProgress else
     (if arg = 27 then InvalidLimit else
     (if arg = 28 then NotFound else
     (if arg = 29 then InvalidCoding else
     (if arg = 30 then HardwareError else
     (if arg = 31 then SerializationError else
     (if arg = 32 then InvalidArgument else
     (if arg = 33 then NetworkError else
     (if arg = 34 then StorageError else
     (if arg = 35 then Unavailable else
     (if arg = 36 then ParseError else
     (if arg = 37 then InvalidCore else
     (if arg = 38 then VerificationError else
     (if arg = 39 then SecurityError else
      UnknownError)))))))))))))))))))))))))))))))))))))))"

section \<open>Identifiers\<close>

text \<open>
  A process identifier is a non-zero byte; a server identifier is four words.
\<close>

type_synonym PID = u8
type_synonym TID = usize
type_synonym CID = u32
type_synonym CpuID = usize

datatype SID = SID u32 u32 u32 u32

definition SID_from_u32 :: "u32 \<Rightarrow> u32 \<Rightarrow> u32 \<Rightarrow> u32 \<Rightarrow> SID" where
  "SID_from_u32 a0 a1 a2 a3 = SID a0 a1 a2 a3"

fun SID_to_u32 :: "SID \<Rightarrow> u32 \<times> u32 \<times> u32 \<times> u32" where
  "SID_to_u32 (SID a b c d) = (a, b, c, d)"

definition u32_from_le_bytes :: "u8 \<Rightarrow> u8 \<Rightarrow> u8 \<Rightarrow> u8 \<Rightarrow> u32" where
  "u32_from_le_bytes b0 b1 b2 b3 =
     ucast b0 OR push_bit 8 (ucast b1) OR push_bit 16 (ucast b2) OR push_bit 24 (ucast b3)"

text \<open>
  \<open>chunks_exact(4)\<close> yields the complete groups of four bytes and drops a shorter
  remainder; words for which no chunk is left stay zero.
\<close>

fun le_chunks :: "u8 list \<Rightarrow> u32 list" where
  "le_chunks (b0 # b1 # b2 # b3 # bs) = u32_from_le_bytes b0 b1 b2 b3 # le_chunks bs"
| "le_chunks _ = []"

definition SID_from_bytes :: "u8 list \<Rightarrow> SID option" where
  "SID_from_bytes b =
     (if length b > 16 then None
      else case le_chunks b @ replicate 4 0 of
             w0 # w1 # w2 # w3 # _ \<Rightarrow> Some (SID w0 w1 w2 w3)
           | _ \<Rightarrow> None)"

definition pid_from_usize :: "usize \<Rightarrow> (Error, PID) outcome" where
  "pid_from_usize src =
     (if src > 0xff then Err InvalidPID else ok_or (nonzero (ucast src)) InvalidPID)"

section \<open>Memory ranges, flags and types\<close>

record MemoryRange =
  addr :: usize
  rsize :: usize

definition wf_range :: "MemoryRange \<Rightarrow> bool" where
  "wf_range r = (addr r \<noteq> 0 \<and> rsize r \<noteq> 0)"

definition MemoryRange_new :: "usize \<Rightarrow> usize \<Rightarrow> (Error, MemoryRange) outcome" where
  "MemoryRange_new a s =
     bind_outcome (ok_or (nonzero a) BadAddress) (\<lambda>a'.
     bind_outcome (ok_or (nonzero s) BadAddress) (\<lambda>s'.
     Ok \<lparr>addr = a', rsize = s'\<rparr>))"

definition MemoryRange_is_empty :: "MemoryRange \<Rightarrow> bool" where
  "MemoryRange_is_empty r = (rsize r > 0)"

record MemoryFlags =
  bits :: usize

definition FLAGS_ALL :: usize where "FLAGS_ALL = 0x3f"
definition FLAG_FREE :: MemoryFlags where "FLAG_FREE = \<lparr>bits = 0\<rparr>"
definition FLAG_RESERVE :: MemoryFlags where "FLAG_RESERVE = \<lparr>bits = 1\<rparr>"
definition FLAG_R :: MemoryFlags where "FLAG_R = \<lparr>bits = 2\<rparr>"
definition FLAG_W :: MemoryFlags where "FLAG_W = \<lparr>bits = 4\<rparr>"
definition FLAG_X :: MemoryFlags where "FLAG_X = \<lparr>bits = 8\<rparr>"
definition FLAG_DEV :: MemoryFlags where "FLAG_DEV = \<lparr>bits = 0x10\<rparr>"
definition FLAG_VIRT :: MemoryFlags where "FLAG_VIRT = \<lparr>bits = 0x20\<rparr>"
definition FLAG_P :: MemoryFlags where "FLAG_P = \<lparr>bits = 0x200\<rparr>"

definition MemoryFlags_from_bits :: "usize \<Rightarrow> MemoryFlags option" where
  "MemoryFlags_from_bits raw = (if raw > FLAGS_ALL then None else Some \<lparr>bits = raw\<rparr>)"

definition MemoryFlags_is_empty :: "MemoryFlags \<Rightarrow> bool" where
  "MemoryFlags_is_empty f = (bits f = 0)"

definition MemoryFlags_or :: "MemoryFlags \<Rightarrow> MemoryFlags \<Rightarrow> MemoryFlags" where
  "MemoryFlags_or a b = \<lparr>bits = bits a OR bits b\<rparr>"

definition MemoryFlags_and :: "MemoryFlags \<Rightarrow> MemoryFlags \<Rightarrow> MemoryFlags" where
  "MemoryFlags_and a b = \<lparr>bits = bits a AND bits b\<rparr>"

definition MemoryFlags_xor :: "MemoryFlags \<Rightarrow> MemoryFlags \<Rightarrow> MemoryFlags" where
  "MemoryFlags_xor a b = \<lparr>bits = bits a XOR bits b\<rparr>"

definition MemoryFlags_sub :: "MemoryFlags \<Rightarrow> MemoryFlags \<Rightarrow> MemoryFlags" where
  "MemoryFlags_sub a b = \<lparr>bits = bits a AND NOT (bits b)\<rparr>"

definition MemoryFlags_not :: "MemoryFlags \<Rightarrow> MemoryFlags" where
  "MemoryFlags_not a = MemoryFlags_and \<lparr>bits = NOT (bits a)\<rparr> \<lparr>bits = 15\<rparr>"

definition wf_flags :: "MemoryFlags \<Rightarrow> bool" where
  "wf_flags f = (bits f \<le> FLAGS_ALL)"

datatype MemoryType = MT_Default | MT_Heap | MT_Messages | MT_Stack

fun MemoryType_to_usize :: "MemoryType \<Rightarrow> usize" where
  "MemoryType_to_usize MT_Default = 1"
| "MemoryType_to_usize MT_Heap = 2"
| "MemoryType_to_usize MT_Messages = 3"
| "MemoryType_to_usize MT_Stack = 4"

definition MemoryType_from :: "usize \<Rightarrow> MemoryType" where
  "MemoryType_from arg =
     (if arg = 2 then MT_Heap else if arg = 3 then MT_Messages
      else if arg = 4 then MT_Stack else MT_Default)"

section \<open>Allocation advice\<close>

datatype AllocAdvice = Allocate PID usize usize | Free_page PID usize usize | Uninit

fun AllocAdvice_serialize :: "AllocAdvice \<Rightarrow> usize \<times> usize" where
  "AllocAdvice_serialize (Allocate pid vaddr paddr) =
     (push_bit 24 (ucast pid) OR drop_bit 12 vaddr, push_bit 24 1 OR drop_bit 12 paddr)"
| "AllocAdvice_serialize (Free_page pid vaddr paddr) =
     (push_bit 24 (ucast pid) OR drop_bit 12 vaddr, push_bit 24 0 OR drop_bit 12 paddr)"
| "AllocAdvice_serialize Uninit = (0, 0)"

definition AllocAdvice_deserialize :: "usize \<Rightarrow> usize \<Rightarrow> (Error, AllocAdvice) outcome" where
  "AllocAdvice_deserialize a0 a1 =
     (if a0 = 0 \<and> a1 = 0 then Ok Uninit
      else if a1 AND push_bit 24 1 = 0 then
        bind_outcome (unwrap (nonzero (ucast (drop_bit 24 a0)))) (\<lambda>pid.
          Ok (Free_page pid (push_bit 12 a0) (push_bit 12 a1)))
      else
        bind_outcome (unwrap (nonzero (ucast (drop_bit 24 a0)))) (\<lambda>pid.
          Ok (Allocate pid (push_bit 12 a0) (push_bit 12 a1))))"

text \<open>
  The record carries page numbers, so an address survives only when it is
  page aligned.
\<close>

fun wf_advice :: "AllocAdvice \<Rightarrow> bool" where
  "wf_advice (Allocate pid v p) = (pid \<noteq> 0 \<and> v AND 0xfff = 0 \<and> p AND 0xfff = 0)"
| "wf_advice (Free_page pid v p) = (pid \<noteq> 0 \<and> v AND 0xfff = 0 \<and> p AND 0xfff = 0)"
| "wf_advice Uninit = True"

declare wf_range_def [wf_simps] wf_flags_def [wf_simps]
declare SID_from_u32_def [codec_simps] MemoryRange_new_def [codec_simps]
  MemoryFlags_from_bits_def [codec_simps] pid_from_usize_def [codec_simps]
  MemoryType_from_def [codec_simps]

section \<open>Lemmas\<close>

lemma Error_from_to [simp]: "Error_from_usize (Error_to_usize e) = e"
  by (cases e) (simp_all add: Error_from_usize_def)

lemma Error_to_usize_inj: "Error_to_usize e = Error_to_usize e' \<Longrightarrow> e = e'"
  using Error_from_to by metis

lemma MemoryType_from_to [simp]: "MemoryType_from (MemoryType_to_usize t) = t"
  by (cases t) (simp_all add: MemoryType_from_def)

lemma SID_to_from [simp]: "SID_to_u32 (SID_from_u32 a b c d) = (a, b, c, d)"
  by (simp add: SID_from_u32_def)

lemma MemoryRange_new_Ok [simp]:
  "(MemoryRange_new a s = Ok r) = (a \<noteq> 0 \<and> s \<noteq> 0 \<and> r = \<lparr>addr = a, rsize = s\<rparr>)"
  by (auto simp: MemoryRange_new_def ok_or_def nonzero_def)

lemma MemoryRange_new_no_panic [simp]: "MemoryRange_new a s \<noteq> Panic"
  by (simp add: MemoryRange_new_def ok_or_def nonzero_def)

lemma MemoryRange_new_wf [simp]:
  "wf_range r \<Longrightarrow> MemoryRange_new (addr r) (rsize r) = Ok r"
  by (simp add: wf_range_def)

lemma MemoryFlags_from_bits_wf [simp]:
  "wf_flags f \<Longrightarrow> MemoryFlags_from_bits (bits f) = Some f"
  by (simp add: MemoryFlags_from_bits_def wf_flags_def not_less)

lemma MemoryFlags_from_bits_Some [simp]:
  "(MemoryFlags_from_bits w = Some f) = (w \<le> FLAGS_ALL \<and> f = \<lparr>bits = w\<rparr>)"
  by (auto simp: MemoryFlags_from_bits_def)

lemma pid_from_usize_ucast [simp]:
  "p \<noteq> 0 \<Longrightarrow> pid_from_usize (ucast p) = Ok p"
  by (simp add: pid_from_usize_def not_less)

lemma pid_from_usize_Ok:
  "pid_from_usize w = Ok p \<Longrightarrow> p \<noteq> 0 \<and> w \<le> 0xff"
  by (auto simp: pid_from_usize_def ok_or_def nonzero_def not_less split: if_splits)

lemma pid_from_usize_no_panic [simp]: "pid_from_usize w \<noteq> Panic"
  by (simp add: pid_from_usize_def ok_or_def nonzero_def)

lemma bit_small_word: "v AND 0xfff = (0 :: usize) \<Longrightarrow> n < 12 \<Longrightarrow> \<not> bit v n"
proof
  assume a: "v AND 0xfff = 0" and n: "n < 12" and b: "bit v n"
  have "bit (mask 12 :: usize) n" using n by (simp add: bit_mask_iff)
  hence "bit (v AND mask 12) n" using b by (simp add: bit_and_iff)
  moreover have "(mask 12 :: usize) = 0xfff" by (simp add: mask_eq_exp_minus_1)
  ultimately show False using a by simp
qed

lemma bit_mark_iff: "bit (16777216 :: usize) n = (n = 24)"
proof -
  have "(16777216 :: usize) = 2 ^ 24" by simp
  thus ?thesis by (simp only: bit_exp_iff) auto
qed

lemma page_number_shift:
  assumes "v AND 0xfff = (0 :: usize)"
  shows "push_bit 12 (push_bit 24 w OR drop_bit 12 v) = v"
proof (rule bit_word_eqI)
  fix n assume "n < LENGTH(32)"
  thus "bit (push_bit 12 (push_bit 24 w OR drop_bit 12 v)) n = bit v n"
    using bit_small_word [OF assms, of n]
    by (cases "12 \<le> n") (auto simp: bit_push_bit_iff bit_or_iff bit_drop_bit_eq)
qed

lemma page_number_top:
  "ucast (drop_bit 24 (push_bit 24 (ucast (p :: u8)) OR drop_bit 12 (v :: usize))) = p"
  by (rule bit_word_eqI)
     (auto simp: bit_push_bit_iff bit_or_iff bit_drop_bit_eq bit_ucast_iff
       dest: bit_imp_le_length)

lemma page_number_nonzero:
  assumes "p \<noteq> 0"
  shows "push_bit 24 (ucast (p :: u8)) OR drop_bit 12 (v :: usize) \<noteq> 0"
proof
  assume z: "push_bit 24 (ucast p) OR drop_bit 12 v = 0"
  have "p = ucast (drop_bit 24 (push_bit 24 (ucast p) OR drop_bit 12 v))"
    by (rule page_number_top [symmetric])
  also have "\<dots> = 0" by (simp only: z) simp
  finally show False using assms by simp
qed

lemma page_number_mark:
  "(push_bit 24 w OR drop_bit 12 (v :: usize)) AND push_bit 24 1 = push_bit 24 w AND push_bit 24 1"
proof (rule bit_word_eqI)
  fix n assume "n < LENGTH(32)"
  have "bit (push_bit 24 1 :: usize) n = (n = 24)"
    using bit_mark_iff [of n] by simp
  moreover have "\<not> bit (drop_bit 12 v) 24"
    by (auto simp: bit_drop_bit_eq dest: bit_imp_le_length)
  ultimately show "bit ((push_bit 24 w OR drop_bit 12 v) AND push_bit 24 1) n =
        bit (push_bit 24 w AND push_bit 24 1) n"
    by (simp only: bit_and_iff bit_or_iff) blast
qed

lemma AllocAdvice_round_trip:
  assumes "wf_advice a"
  shows "(case AllocAdvice_serialize a of (a0, a1) \<Rightarrow> AllocAdvice_deserialize a0 a1) = Ok a"
proof (cases a)
  case (Allocate pid v p)
  then show ?thesis using assms
    by (simp only: AllocAdvice_serialize.simps wf_advice.simps AllocAdvice_deserialize_def
          page_number_shift page_number_top page_number_mark page_number_nonzero prod.case
          simp_thms if_False)
       (simp add: page_number_nonzero)
next
  case (Free_page pid v p)
  then show ?thesis using assms
    by (simp only: AllocAdvice_serialize.simps wf_advice.simps AllocAdvice_deserialize_def
          page_number_shift page_number_top page_number_mark page_number_nonzero prod.case
          simp_thms if_False)
       (simp add: page_number_nonzero)
next
  case Uninit
  then show ?thesis by (simp add: AllocAdvice_deserialize_def)
qed

section \<open>Properties\<close>

text \<open>
  Allocation advice for the swapper survives its packing into two words for
  every process and every pair of page-aligned addresses, and the decoder does
  not panic on it.
\<close>

theorem alloc_advice_round_trip:
  assumes "wf_advice a"
  shows "(case AllocAdvice_serialize a of (a0, a1) \<Rightarrow> AllocAdvice_deserialize a0 a1) = Ok a"
  by (rule AllocAdvice_round_trip [OF assms])

theorem alloc_advice_round_trip_witness:
  "(case AllocAdvice_serialize (Allocate 5 0x20001000 0x61003000) of
      (a0, a1) \<Rightarrow> AllocAdvice_deserialize a0 a1) = Ok (Allocate 5 0x20001000 0x61003000)"
  by (rule alloc_advice_round_trip) simp

end
