(* ===== verification/Messages.thy ===== *)
theory Messages
  imports Xous_Defs
begin

text \<open>
  Messages and system-call results: \<open>xous-rs/src/definitions/messages/\<close>
  (memory and scalar messages, the message envelope, the sender token), the
  \<open>Result\<close> enumeration of \<open>xous-rs/src/definitions.rs\<close> with its register
  encoding, and the process-startup record of \<open>xous-rs/src/arch/riscv/process.rs\<close>.
\<close>

section \<open>Messages\<close>

record MemoryMessage =
  mm_id :: usize
  mm_buf :: MemoryRange
  mm_offset :: "usize option"
  mm_valid :: "usize option"

record ScalarMessage =
  sm_id :: usize
  sm_arg1 :: usize
  sm_arg2 :: usize
  sm_arg3 :: usize
  sm_arg4 :: usize

datatype Message =
    MutableBorrow MemoryMessage
  | Borrow MemoryMessage
  | Move MemoryMessage
  | Scalar ScalarMessage
  | BlockingScalar ScalarMessage

type_synonym args5 = "usize \<times> usize \<times> usize \<times> usize \<times> usize"

definition MemoryMessage_from_usize ::
  "usize \<Rightarrow> usize \<Rightarrow> usize \<Rightarrow> usize \<Rightarrow> usize \<Rightarrow> MemoryMessage option" where
  "MemoryMessage_from_usize i a s off val =
     (case nonzero a of
        None \<Rightarrow> None
      | Some a' \<Rightarrow>
          (case nonzero s of
             None \<Rightarrow> None
           | Some s' \<Rightarrow>
               Some \<lparr>mm_id = i, mm_buf = \<lparr>addr = a', rsize = s'\<rparr>,
                     mm_offset = nonzero off, mm_valid = nonzero val\<rparr>))"

definition MemoryMessage_to_usize :: "MemoryMessage \<Rightarrow> args5" where
  "MemoryMessage_to_usize m =
     (mm_id m, addr (mm_buf m), rsize (mm_buf m),
      nz_or_zero (mm_offset m), nz_or_zero (mm_valid m))"

definition ScalarMessage_from_usize ::
  "usize \<Rightarrow> usize \<Rightarrow> usize \<Rightarrow> usize \<Rightarrow> usize \<Rightarrow> ScalarMessage" where
  "ScalarMessage_from_usize i a1 a2 a3 a4 =
     \<lparr>sm_id = i, sm_arg1 = a1, sm_arg2 = a2, sm_arg3 = a3, sm_arg4 = a4\<rparr>"

definition ScalarMessage_to_usize :: "ScalarMessage \<Rightarrow> args5" where
  "ScalarMessage_to_usize s = (sm_id s, sm_arg1 s, sm_arg2 s, sm_arg3 s, sm_arg4 s)"

fun is_blocking :: "Message \<Rightarrow> bool" where
  "is_blocking (MutableBorrow _) = True"
| "is_blocking (Borrow _) = True"
| "is_blocking (BlockingScalar _) = True"
| "is_blocking (Move _) = False"
| "is_blocking (Scalar _) = False"

fun has_memory :: "Message \<Rightarrow> bool" where
  "has_memory (MutableBorrow _) = True"
| "has_memory (Borrow _) = True"
| "has_memory (Move _) = True"
| "has_memory (BlockingScalar _) = False"
| "has_memory (Scalar _) = False"

definition is_scalar :: "Message \<Rightarrow> bool" where
  "is_scalar m = (\<not> has_memory m)"

fun memory_message :: "Message \<Rightarrow> MemoryMessage option" where
  "memory_message (MutableBorrow m) = Some m"
| "memory_message (Borrow m) = Some m"
| "memory_message (Move m) = Some m"
| "memory_message (BlockingScalar _) = None"
| "memory_message (Scalar _) = None"

fun memory_message_mut :: "Message \<Rightarrow> MemoryMessage option" where
  "memory_message_mut (MutableBorrow m) = Some m"
| "memory_message_mut (Move m) = Some m"
| "memory_message_mut (BlockingScalar _) = None"
| "memory_message_mut (Scalar _) = None"
| "memory_message_mut (Borrow _) = None"

fun scalar_message :: "Message \<Rightarrow> ScalarMessage option" where
  "scalar_message (MutableBorrow _) = None"
| "scalar_message (Borrow _) = None"
| "scalar_message (Move _) = None"
| "scalar_message (BlockingScalar s) = Some s"
| "scalar_message (Scalar s) = Some s"

definition Message_memory :: "Message \<Rightarrow> MemoryRange option" where
  "Message_memory m = map_option mm_buf (memory_message m)"

fun message_type :: "Message \<Rightarrow> usize" where
  "message_type (MutableBorrow _) = 1"
| "message_type (Borrow _) = 2"
| "message_type (Move _) = 3"
| "message_type (Scalar _) = 4"
| "message_type (BlockingScalar _) = 5"

fun Message_id :: "Message \<Rightarrow> usize" where
  "Message_id (MutableBorrow m) = mm_id m"
| "Message_id (Borrow m) = mm_id m"
| "Message_id (Move m) = mm_id m"
| "Message_id (Scalar s) = sm_id s"
| "Message_id (BlockingScalar s) = sm_id s"

fun Message_set_id :: "usize \<Rightarrow> Message \<Rightarrow> Message" where
  "Message_set_id i (MutableBorrow m) = MutableBorrow (m\<lparr>mm_id := i\<rparr>)"
| "Message_set_id i (Borrow m) = Borrow (m\<lparr>mm_id := i\<rparr>)"
| "Message_set_id i (Move m) = Move (m\<lparr>mm_id := i\<rparr>)"
| "Message_set_id i (Scalar s) = Scalar (s\<lparr>sm_id := i\<rparr>)"
| "Message_set_id i (BlockingScalar s) = BlockingScalar (s\<lparr>sm_id := i\<rparr>)"

fun Message_to_usize :: "Message \<Rightarrow> usize \<times> args5" where
  "Message_to_usize (MutableBorrow m) = (0, MemoryMessage_to_usize m)"
| "Message_to_usize (Borrow m) = (1, MemoryMessage_to_usize m)"
| "Message_to_usize (Move m) = (2, MemoryMessage_to_usize m)"
| "Message_to_usize (Scalar s) = (3, ScalarMessage_to_usize s)"
| "Message_to_usize (BlockingScalar s) = (4, ScalarMessage_to_usize s)"

text \<open>
  The system-call decoder numbers the message kinds from one (\<open>message_type\<close>);
  the result decoder below numbers them from zero (\<open>Message_to_usize\<close>).
\<close>

fun Message_try_from :: "usize \<times> args5 \<Rightarrow> Message option" where
  "Message_try_from (t, i, a, s, off, val) =
     (let mem = (case MemoryRange_new a s of
                   Ok r \<Rightarrow> Some \<lparr>mm_id = i, mm_buf = r, mm_offset = nonzero off,
                                 mm_valid = nonzero val\<rparr>
                 | _ \<Rightarrow> None);
          sc = \<lparr>sm_id = i, sm_arg1 = a, sm_arg2 = s, sm_arg3 = off, sm_arg4 = val\<rparr>
      in if t = 1 then map_option MutableBorrow mem
         else if t = 2 then map_option Borrow mem
         else if t = 3 then map_option Move mem
         else if t = 4 then Some (Scalar sc)
         else if t = 5 then Some (BlockingScalar sc)
         else None)"

section \<open>Sender tokens and envelopes\<close>

record MessageSender =
  sender_data :: usize

definition MessageSender_pid :: "MessageSender \<Rightarrow> PID option" where
  "MessageSender_pid s = nonzero (ucast (drop_bit 24 (sender_data s) AND 0xff))"

record MessageEnvelope =
  env_sender :: MessageSender
  env_body :: Message

definition Envelope_to_usize :: "MessageEnvelope \<Rightarrow> usize \<times> usize \<times> args5" where
  "Envelope_to_usize e = (sender_data (env_sender e), Message_to_usize (env_body e))"

section \<open>Process startup\<close>

record ProcessStartup =
  ps_pid :: PID
  ps_connection :: CID

definition ProcessStartup_to_args :: "ProcessStartup \<Rightarrow> usize \<times> usize \<times> args5" where
  "ProcessStartup_to_args p = (ucast (ps_pid p), ps_connection p, 0, 0, 0, 0, 0)"

definition ProcessStartup_from_args :: "args8 \<Rightarrow> ProcessStartup" where
  "ProcessStartup_from_args src =
     (case src of (_, s1, s2, _) \<Rightarrow>
        \<lparr>ps_pid = (case nonzero (ucast s1) of Some p \<Rightarrow> p | None \<Rightarrow> 255),
         ps_connection = s2\<rparr>)"

section \<open>Results of system calls\<close>

datatype (plugins only: code) Result =
    Res_Ok
  | Res_Error Error
  | Res_MemoryAddress usize
  | Res_MemoryRange MemoryRange
  | Res_ReadyThreads usize usize usize usize usize usize usize
  | Res_ResumeProcess
  | Res_ServerID SID
  | Res_ConnectionID CID
  | Res_NewServerID SID CID
  | Res_MessageEnvelope MessageEnvelope
  | Res_ThreadID TID
  | Res_ProcessID PID
  | Res_Unimplemented
  | Res_BlockedProcess
  | Res_Scalar1 usize
  | Res_Scalar2 usize usize
  | Res_RetryCall
  | Res_None
  | Res_MemoryReturned "usize option" "usize option"
  | Res_NewProcess ProcessStartup
  | Res_Scalar5 usize usize usize usize usize
  | Res_Message Message
  | Res_UnknownResult usize usize usize usize usize usize usize

text \<open>
  \<open>Result::to_args\<close>. The opcode 21 of \<open>Unimplemented\<close> is the one the source
  writes, although its own numbering comment and \<open>from_args\<close> give it 12.
\<close>

primrec Result_to_args :: "Result \<Rightarrow> args8" where
  "Result_to_args Res_Ok = (0, 0, 0, 0, 0, 0, 0, 0)"
| "Result_to_args (Res_Error e) = (1, Error_to_usize e, 0, 0, 0, 0, 0, 0)"
| "Result_to_args (Res_MemoryAddress a) = (2, a, 0, 0, 0, 0, 0, 0)"
| "Result_to_args (Res_MemoryRange r) = (3, addr r, rsize r, 0, 0, 0, 0, 0)"
| "Result_to_args (Res_ReadyThreads n p0 c0 p1 c1 p2 c2) = (4, n, p0, c0, p1, c1, p2, c2)"
| "Result_to_args Res_ResumeProcess = (5, 0, 0, 0, 0, 0, 0, 0)"
| "Result_to_args (Res_ServerID sid) =
     (case SID_to_u32 sid of (s0, s1, s2, s3) \<Rightarrow> (6, s0, s1, s2, s3, 0, 0, 0))"
| "Result_to_args (Res_ConnectionID cid) = (7, cid, 0, 0, 0, 0, 0, 0)"
| "Result_to_args (Res_MessageEnvelope me) = (9, Envelope_to_usize me)"
| "Result_to_args (Res_ThreadID ctx) = (10, ctx, 0, 0, 0, 0, 0, 0)"
| "Result_to_args (Res_ProcessID pid) = (11, ucast pid, 0, 0, 0, 0, 0, 0)"
| "Result_to_args Res_Unimplemented = (21, 0, 0, 0, 0, 0, 0, 0)"
| "Result_to_args Res_BlockedProcess = (13, 0, 0, 0, 0, 0, 0, 0)"
| "Result_to_args (Res_Scalar1 a) = (14, a, 0, 0, 0, 0, 0, 0)"
| "Result_to_args (Res_Scalar2 a b) = (15, a, b, 0, 0, 0, 0, 0)"
| "Result_to_args (Res_NewServerID sid cid) =
     (case SID_to_u32 sid of (s0, s1, s2, s3) \<Rightarrow> (8, s0, s1, s2, s3, cid, 0, 0))"
| "Result_to_args Res_RetryCall = (16, 0, 0, 0, 0, 0, 0, 0)"
| "Result_to_args Res_None = (17, 0, 0, 0, 0, 0, 0, 0)"
| "Result_to_args (Res_MemoryReturned off val) =
     (18, nz_or_zero off, nz_or_zero val, 0, 0, 0, 0, 0)"
| "Result_to_args (Res_NewProcess p) = (19, ProcessStartup_to_args p)"
| "Result_to_args (Res_Scalar5 a b c d e) = (20, a, b, c, d, e, 0, 0)"
| "Result_to_args (Res_Message m) =
     (case Message_to_usize m of (t, i, a, s, off, val) \<Rightarrow> (21, t, i, a, s, off, val, 0))"
| "Result_to_args (Res_UnknownResult a1 a2 a3 a4 a5 a6 a7) = (- 1, a1, a2, a3, a4, a5, a6, a7)"

text \<open>
  The message part of a result: both \<open>MessageEnvelope\<close> and \<open>Message\<close> decode
  their payload with the same match; an absent address or an unknown kind is
  an internal error.
\<close>

definition decode_message ::
  "usize \<Rightarrow> usize \<Rightarrow> usize \<Rightarrow> usize \<Rightarrow> usize \<Rightarrow> usize \<Rightarrow> Message option" where
  "decode_message t a b c d e =
     (if t = 0 then map_option MutableBorrow (MemoryMessage_from_usize a b c d e)
      else if t = 1 then map_option Borrow (MemoryMessage_from_usize a b c d e)
      else if t = 2 then map_option Move (MemoryMessage_from_usize a b c d e)
      else if t = 3 then Some (Scalar (ScalarMessage_from_usize a b c d e))
      else if t = 4 then Some (BlockingScalar (ScalarMessage_from_usize a b c d e))
      else None)"

fun Result_from_args :: "args8 \<Rightarrow> (Error, Result) outcome" where
  "Result_from_args (s0, s1, s2, s3, s4, s5, s6, s7) =
     (if s0 = 0 then Ok Res_Ok
      else if s0 = 1 then Ok (Res_Error (Error_from_usize s1))
      else if s0 = 2 then
        Ok (case nonzero s1 of None \<Rightarrow> Res_Error InternalError | Some s \<Rightarrow> Res_MemoryAddress s)
      else if s0 = 3 then
        Ok (case nonzero s1 of
              None \<Rightarrow> Res_Error InternalError
            | Some a \<Rightarrow>
                (case nonzero s2 of
                   None \<Rightarrow> Res_Error InternalError
                 | Some s \<Rightarrow> Res_MemoryRange \<lparr>addr = a, rsize = s\<rparr>))
      else if s0 = 4 then Ok (Res_ReadyThreads s1 s2 s3 s4 s5 s6 s7)
      else if s0 = 5 then Ok Res_ResumeProcess
      else if s0 = 6 then Ok (Res_ServerID (SID_from_u32 s1 s2 s3 s4))
      else if s0 = 7 then Ok (Res_ConnectionID s1)
      else if s0 = 8 then Ok (Res_NewServerID (SID_from_u32 s1 s2 s3 s4) s5)
      else if s0 = 9 then
        Ok (case decode_message s2 s3 s4 s5 s6 s7 of
              None \<Rightarrow> Res_Error InternalError
            | Some m \<Rightarrow>
                Res_MessageEnvelope \<lparr>env_sender = \<lparr>sender_data = s1\<rparr>, env_body = m\<rparr>)
      else if s0 = 10 then Ok (Res_ThreadID s1)
      else if s0 = 11 then
        bind_outcome (unwrap (nonzero (ucast s1))) (\<lambda>pid. Ok (Res_ProcessID pid))
      else if s0 = 12 then Ok Res_Unimplemented
      else if s0 = 13 then Ok Res_BlockedProcess
      else if s0 = 14 then Ok (Res_Scalar1 s1)
      else if s0 = 15 then Ok (Res_Scalar2 s1 s2)
      else if s0 = 16 then Ok Res_RetryCall
      else if s0 = 17 then Ok Res_None
      else if s0 = 18 then Ok (Res_MemoryReturned (nonzero s1) (nonzero s2))
      else if s0 = 19 then
        Ok (Res_NewProcess (ProcessStartup_from_args (s0, s1, s2, s3, s4, s5, s6, s7)))
      else if s0 = 20 then Ok (Res_Scalar5 s1 s2 s3 s4 s5)
      else if s0 = 21 then
        Ok (case decode_message s1 s2 s3 s4 s5 s6 of
              None \<Rightarrow> Res_Error InternalError
            | Some m \<Rightarrow> Res_Message m)
      else Ok (Res_UnknownResult s0 s1 s2 s3 s4 s5 s6))"

fun Result_memory :: "Result \<Rightarrow> MemoryRange option" where
  "Result_memory (Res_MessageEnvelope e) = Message_memory (env_body e)"
| "Result_memory (Res_Message m) = Message_memory m"
| "Result_memory _ = None"

section \<open>Well-formed values\<close>

definition wf_memory_message :: "MemoryMessage \<Rightarrow> bool" where
  "wf_memory_message m = (wf_range (mm_buf m) \<and> wf_nz (mm_offset m) \<and> wf_nz (mm_valid m))"

definition wf_message :: "Message \<Rightarrow> bool" where
  "wf_message m = (case memory_message m of None \<Rightarrow> True | Some mm \<Rightarrow> wf_memory_message mm)"

fun wf_result :: "Result \<Rightarrow> bool" where
  "wf_result (Res_MemoryAddress a) = (a \<noteq> 0)"
| "wf_result (Res_MemoryRange r) = wf_range r"
| "wf_result (Res_MessageEnvelope e) = wf_message (env_body e)"
| "wf_result (Res_ProcessID p) = (p \<noteq> 0)"
| "wf_result (Res_MemoryReturned off val) = (wf_nz off \<and> wf_nz val)"
| "wf_result (Res_NewProcess p) = (ps_pid p \<noteq> 0)"
| "wf_result (Res_Message m) = wf_message m"
| "wf_result _ = True"

text \<open>The two results whose encoding and decoding disagree.\<close>

fun result_codec_ok :: "Result \<Rightarrow> bool" where
  "result_codec_ok Res_Unimplemented = False"
| "result_codec_ok (Res_UnknownResult _ _ _ _ _ _ _) = False"
| "result_codec_ok _ = True"

declare wf_memory_message_def [wf_simps] wf_message_def [wf_simps]
declare MemoryMessage_to_usize_def [codec_simps] MemoryMessage_from_usize_def [codec_simps]
  ScalarMessage_to_usize_def [codec_simps] ScalarMessage_from_usize_def [codec_simps]
  Envelope_to_usize_def [codec_simps] ProcessStartup_to_args_def [codec_simps]
  ProcessStartup_from_args_def [codec_simps] decode_message_def [codec_simps]

section \<open>Lemmas\<close>

lemma MemoryMessage_round_trip [simp]:
  "wf_memory_message m \<Longrightarrow>
     MemoryMessage_from_usize (mm_id m) (addr (mm_buf m)) (rsize (mm_buf m))
       (nz_or_zero (mm_offset m)) (nz_or_zero (mm_valid m)) = Some m"
  by (simp add: MemoryMessage_from_usize_def wf_memory_message_def wf_range_def)

lemma ScalarMessage_round_trip [simp]:
  "ScalarMessage_from_usize (sm_id s) (sm_arg1 s) (sm_arg2 s) (sm_arg3 s) (sm_arg4 s) = s"
  by (simp add: ScalarMessage_from_usize_def)

lemma decode_message_round_trip:
  "wf_message m \<Longrightarrow>
     (case Message_to_usize m of (t, a, b, c, d, e) \<Rightarrow> decode_message t a b c d e) = Some m"
  by (cases m)
     (simp_all add: decode_message_def MemoryMessage_to_usize_def ScalarMessage_to_usize_def
       wf_message_def)

lemma Message_try_from_round_trip:
  "wf_message m \<Longrightarrow> Message_try_from (message_type m, snd (Message_to_usize m)) = Some m"
  by (cases m)
     (simp_all add: MemoryMessage_to_usize_def ScalarMessage_to_usize_def wf_message_def
       wf_memory_message_def)

lemma Message_try_from_wf: "Message_try_from x = Some m \<Longrightarrow> wf_message m"
  by (cases x)
     (auto simp: Let_def wf_message_def wf_memory_message_def wf_range_def
       split: if_splits outcome.splits)

lemma decode_message_wf: "decode_message t a b c d e = Some m \<Longrightarrow> wf_message m"
  by (auto simp: decode_message_def wf_message_def wf_memory_message_def wf_range_def
       MemoryMessage_from_usize_def split: if_splits option.splits)

lemma Result_round_trip:
  assumes "wf_result r" and "result_codec_ok r"
  shows "Result_from_args (Result_to_args r) = Ok r"
proof (cases r)
  case (Res_MessageEnvelope e)
  with assms show ?thesis
    using decode_message_round_trip [of "env_body e"]
    by (cases "Message_to_usize (env_body e)") (simp add: Envelope_to_usize_def)
next
  case (Res_Message m)
  with assms show ?thesis
    using decode_message_round_trip [of m] by (cases "Message_to_usize m") simp
next
  case (Res_ServerID sid)
  then show ?thesis by (cases sid) (simp add: SID_from_u32_def)
next
  case (Res_NewServerID sid cid)
  then show ?thesis by (cases sid) (simp add: SID_from_u32_def)
qed (use assms in \<open>simp_all add: ProcessStartup_to_args_def ProcessStartup_from_args_def
       wf_range_def\<close>)

section \<open>Properties\<close>

text \<open>
  C24. Every well-formed system-call result survives its register encoding:
  error codes, memory ranges, server identifiers, envelopes with their message
  and sender, and process-startup records all decode to the value that was
  encoded. The two exceptions are \<open>Unimplemented\<close> and \<open>UnknownResult\<close>.
\<close>

theorem result_round_trip:
  assumes "wf_result r" and "result_codec_ok r"
  shows "Result_from_args (Result_to_args r) = Ok r"
  by (rule Result_round_trip [OF assms])

theorem result_round_trip_witness:
  "Result_from_args (Result_to_args (Res_MessageEnvelope
     \<lparr>env_sender = \<lparr>sender_data = 0x05020001\<rparr>,
      env_body = BlockingScalar \<lparr>sm_id = 1, sm_arg1 = 2, sm_arg2 = 3, sm_arg3 = 4, sm_arg4 = 5\<rparr>\<rparr>))
   = Ok (Res_MessageEnvelope
     \<lparr>env_sender = \<lparr>sender_data = 0x05020001\<rparr>,
      env_body = BlockingScalar \<lparr>sm_id = 1, sm_arg1 = 2, sm_arg2 = 3, sm_arg3 = 4, sm_arg4 = 5\<rparr>\<rparr>)"
  by (rule result_round_trip) (simp_all add: wf_message_def)

text \<open>
  The encoding of \<open>Unimplemented\<close> is read back as an internal error: it is
  written with opcode 21, which the decoder reads as a message whose buffer
  address is zero, while the decoder expects \<open>Unimplemented\<close> under opcode 12.
  An unknown result comes back with its arguments shifted by one.
\<close>

theorem unimplemented_result_misread:
  "Result_from_args (Result_to_args Res_Unimplemented) = Ok (Res_Error InternalError)
   \<and> Result_from_args (12, 0, 0, 0, 0, 0, 0, 0) = Ok Res_Unimplemented
   \<and> Result_from_args (Result_to_args (Res_UnknownResult a b c d e f g)) =
       Ok (Res_UnknownResult (- 1) a b c d e f)"
  by (simp add: decode_message_def MemoryMessage_from_usize_def)

end
