(* ===== verification/SysCall.thy ===== *)
theory SysCall
  imports Messages
begin

text \<open>
  System calls: the \<open>SysCall\<close> enumeration of \<open>xous-rs/src/syscall.rs\<close>, its
  numbers, the register encoding \<open>as_args\<close> and decoding \<open>from_args\<close> on either
  side of the trap, and the classification of calls an interrupt handler may
  make. The features \<open>v2p\<close>, \<open>swap\<close> and \<open>raw-trng\<close> are on, as in the badge build.
\<close>

section \<open>Arguments of thread and process creation\<close>

record ThreadInit =
  ti_call :: usize
  ti_stack :: MemoryRange
  ti_arg1 :: usize
  ti_arg2 :: usize
  ti_arg3 :: usize
  ti_arg4 :: usize

definition thread_to_args :: "usize \<Rightarrow> ThreadInit \<Rightarrow> args8" where
  "thread_to_args sc i =
     (sc, ti_call i, addr (ti_stack i), rsize (ti_stack i),
      ti_arg1 i, ti_arg2 i, ti_arg3 i, ti_arg4 i)"

definition args_to_thread ::
  "usize \<Rightarrow> usize \<Rightarrow> usize \<Rightarrow> usize \<Rightarrow> usize \<Rightarrow> usize \<Rightarrow> usize \<Rightarrow> (Error, ThreadInit) outcome" where
  "args_to_thread a1 a2 a3 a4 a5 a6 a7 =
     (case MemoryRange_new a2 a3 of
        Ok r \<Rightarrow> Ok \<lparr>ti_call = a1, ti_stack = r, ti_arg1 = a4, ti_arg2 = a5,
                     ti_arg3 = a6, ti_arg4 = a7\<rparr>
      | _ \<Rightarrow> Err InvalidSyscall)"

record ProcessInit =
  pi_stack :: MemoryRange
  pi_text :: MemoryRange
  pi_text_destination :: usize
  pi_start :: usize

definition process_init_to_args ::
  "ProcessInit \<Rightarrow> usize \<times> usize \<times> usize \<times> usize \<times> usize \<times> usize \<times> usize" where
  "process_init_to_args p =
     (addr (pi_stack p), rsize (pi_stack p), addr (pi_text p), rsize (pi_text p),
      pi_text_destination p, pi_start p, 0)"

definition args_to_process_init ::
  "usize \<Rightarrow> usize \<Rightarrow> usize \<Rightarrow> usize \<Rightarrow> usize \<Rightarrow> usize \<Rightarrow> usize \<Rightarrow> (Error, ProcessInit) outcome" where
  "args_to_process_init s0 s1 s2 s3 s4 s5 s6 =
     (case MemoryRange_new s0 s1 of
        Ok stack \<Rightarrow>
          (case MemoryRange_new s2 s3 of
             Ok txt \<Rightarrow>
               bind_outcome (ok_or (nonzero s4) OutOfMemory) (\<lambda>dest.
               bind_outcome (ok_or (nonzero s5) OutOfMemory) (\<lambda>start.
               Ok \<lparr>pi_stack = stack, pi_text = txt, pi_text_destination = dest,
                    pi_start = start\<rparr>))
           | _ \<Rightarrow> Err OutOfMemory)
      | _ \<Rightarrow> Err OutOfMemory)"

section \<open>The calls and their numbers\<close>

datatype (plugins only: code) SysCall =
    MapMemory "usize option" "usize option" usize MemoryFlags
  | UnmapMemory MemoryRange
  | SetMemRegion PID MemoryType usize usize
  | IncreaseHeap usize MemoryFlags
  | DecreaseHeap usize
  | UpdateMemoryFlags MemoryRange MemoryFlags "PID option"
  | Yield
  | WaitEvent
  | ReceiveMessage SID
  | TryReceiveMessage SID
  | ReturnToParent PID CpuID
  | ClaimInterrupt usize usize "usize option"
  | FreeInterrupt usize
  | SwitchTo PID usize
  | ReadyThreads PID
  | CreateServerWithAddress SID
  | Connect SID
  | TryConnect SID
  | SendMessage CID Message
  | TrySendMessage CID Message
  | ReturnMemory MessageSender MemoryRange "usize option" "usize option"
  | ReturnScalar1 MessageSender usize
  | ReturnScalar2 MessageSender usize usize
  | CreateThread ThreadInit
  | CreateProcess ProcessInit
  | TerminateProcess u32
  | Shutdown
  | CreateServer
  | CreateServerId
  | ConnectForProcess PID SID
  | GetThreadId
  | GetProcessId
  | DestroyServer SID
  | Disconnect CID
  | JoinThread TID
  | SetExceptionHandler usize usize
  | AdjustProcessLimit usize usize usize
  | VirtToPhys usize
  | ReturnScalar5 MessageSender usize usize usize usize usize
  | ReplyAndReceiveNext MessageSender usize usize usize usize usize usize
  | VirtToPhysPid PID usize
  | RegisterSwapper u32 u32 u32 u32 usize usize
  | SwapOp usize usize usize usize usize usize usize
  | RawTrng usize usize usize usize usize usize usize
  | PlatformSpecific usize usize usize usize usize usize usize
  | Invalid usize usize usize usize usize usize usize

datatype (plugins only: code) SysCallNumber =
    Num_Invalid
  | Num_MapMemory
  | Num_Yield
  | Num_ReturnToParent
  | Num_ClaimInterrupt
  | Num_FreeInterrupt
  | Num_SwitchTo
  | Num_ReadyThreads
  | Num_WaitEvent
  | Num_IncreaseHeap
  | Num_DecreaseHeap
  | Num_UpdateMemoryFlags
  | Num_SetMemRegion
  | Num_CreateServerWithAddress
  | Num_ReceiveMessage
  | Num_SendMessage
  | Num_Connect
  | Num_CreateThread
  | Num_UnmapMemory
  | Num_ReturnMemory
  | Num_CreateProcess
  | Num_TerminateProcess
  | Num_Shutdown
  | Num_TrySendMessage
  | Num_TryConnect
  | Num_ReturnScalar1
  | Num_ReturnScalar2
  | Num_TryReceiveMessage
  | Num_CreateServer
  | Num_ConnectForProcess
  | Num_CreateServerId
  | Num_GetThreadId
  | Num_GetProcessId
  | Num_DestroyServer
  | Num_Disconnect
  | Num_JoinThread
  | Num_SetExceptionHandler
  | Num_AdjustProcessLimit
  | Num_VirtToPhys
  | Num_ReturnScalar5
  | Num_ReplyAndReceiveNext
  | Num_VirtToPhysPid
  | Num_RegisterSwapper
  | Num_SwapOp
  | Num_RawTrng
  | Num_PlatformSpecific

primrec SysCallNumber_as_usize :: "SysCallNumber \<Rightarrow> usize" where
  "SysCallNumber_as_usize Num_Invalid = 0"
| "SysCallNumber_as_usize Num_MapMemory = 2"
| "SysCallNumber_as_usize Num_Yield = 3"
| "SysCallNumber_as_usize Num_ReturnToParent = 4"
| "SysCallNumber_as_usize Num_ClaimInterrupt = 5"
| "SysCallNumber_as_usize Num_FreeInterrupt = 6"
| "SysCallNumber_as_usize Num_SwitchTo = 7"
| "SysCallNumber_as_usize Num_ReadyThreads = 8"
| "SysCallNumber_as_usize Num_WaitEvent = 9"
| "SysCallNumber_as_usize Num_IncreaseHeap = 10"
| "SysCallNumber_as_usize Num_DecreaseHeap = 11"
| "SysCallNumber_as_usize Num_UpdateMemoryFlags = 12"
| "SysCallNumber_as_usize Num_SetMemRegion = 13"
| "SysCallNumber_as_usize Num_CreateServerWithAddress = 14"
| "SysCallNumber_as_usize Num_ReceiveMessage = 15"
| "SysCallNumber_as_usize Num_SendMessage = 16"
| "SysCallNumber_as_usize Num_Connect = 17"
| "SysCallNumber_as_usize Num_CreateThread = 18"
| "SysCallNumber_as_usize Num_UnmapMemory = 19"
| "SysCallNumber_as_usize Num_ReturnMemory = 20"
| "SysCallNumber_as_usize Num_CreateProcess = 21"
| "SysCallNumber_as_usize Num_TerminateProcess = 22"
| "SysCallNumber_as_usize Num_Shutdown = 23"
| "SysCallNumber_as_usize Num_TrySendMessage = 24"
| "SysCallNumber_as_usize Num_TryConnect = 25"
| "SysCallNumber_as_usize Num_ReturnScalar1 = 26"
| "SysCallNumber_as_usize Num_ReturnScalar2 = 27"
| "SysCallNumber_as_usize Num_TryReceiveMessage = 28"
| "SysCallNumber_as_usize Num_CreateServer = 29"
| "SysCallNumber_as_usize Num_ConnectForProcess = 30"
| "SysCallNumber_as_usize Num_CreateServerId = 31"
| "SysCallNumber_as_usize Num_GetThreadId = 32"
| "SysCallNumber_as_usize Num_GetProcessId = 33"
| "SysCallNumber_as_usize Num_DestroyServer = 34"
| "SysCallNumber_as_usize Num_Disconnect = 35"
| "SysCallNumber_as_usize Num_JoinThread = 36"
| "SysCallNumber_as_usize Num_SetExceptionHandler = 37"
| "SysCallNumber_as_usize Num_AdjustProcessLimit = 38"
| "SysCallNumber_as_usize Num_VirtToPhys = 39"
| "SysCallNumber_as_usize Num_ReturnScalar5 = 40"
| "SysCallNumber_as_usize Num_ReplyAndReceiveNext = 41"
| "SysCallNumber_as_usize Num_VirtToPhysPid = 42"
| "SysCallNumber_as_usize Num_RegisterSwapper = 43"
| "SysCallNumber_as_usize Num_SwapOp = 44"
| "SysCallNumber_as_usize Num_RawTrng = 45"
| "SysCallNumber_as_usize Num_PlatformSpecific = 46"

definition SysCallNumber_from :: "usize \<Rightarrow> SysCallNumber" where
  "SysCallNumber_from val =
     (if val = 2 then Num_MapMemory else
     (if val = 3 then Num_Yield else
     (if val = 4 then Num_ReturnToParent else
     (if val = 5 then Num_ClaimInterrupt else
     (if val = 6 then Num_FreeInterrupt else
     (if val = 7 then Num_SwitchTo else
     (if val = 8 then Num_ReadyThreads else
     (if val = 9 then Num_WaitEvent else
     (if val = 10 then Num_IncreaseHeap else
     (if val = 11 then Num_DecreaseHeap else
     (if val = 12 then Num_UpdateMemoryFlags else
     (if val = 13 then Num_SetMemRegion else
     (if val = 14 then Num_CreateServerWithAddress else
     (if val = 15 then Num_ReceiveMessage else
     (if val = 16 then Num_SendMessage else
     (if val = 17 then Num_Connect else
     (if val = 18 then Num_CreateThread else
     (if val = 19 then Num_UnmapMemory else
     (if val = 20 then Num_ReturnMemory else
     (if val = 21 then Num_CreateProcess else
     (if val = 22 then Num_TerminateProcess else
     (if val = 23 then Num_Shutdown else
     (if val = 24 then Num_TrySendMessage else
     (if val = 25 then Num_TryConnect else
     (if val = 26 then Num_ReturnScalar1 else
     (if val = 27 then Num_ReturnScalar2 else
     (if val = 28 then Num_TryReceiveMessage else
     (if val = 29 then Num_CreateServer else
     (if val = 30 then Num_ConnectForProcess else
     (if val = 31 then Num_CreateServerId else
     (if val = 32 then Num_GetThreadId else
     (if val = 33 then Num_GetProcessId else
     (if val = 34 then Num_DestroyServer else
     (if val = 35 then Num_Disconnect else
     (if val = 36 then Num_JoinThread else
     (if val = 37 then Num_SetExceptionHandler else
     (if val = 38 then Num_AdjustProcessLimit else
     (if val = 39 then Num_VirtToPhys else
     (if val = 40 then Num_ReturnScalar5 else
     (if val = 41 then Num_ReplyAndReceiveNext else
     (if val = 42 then Num_VirtToPhysPid else
     (if val = 43 then Num_RegisterSwapper else
     (if val = 44 then Num_SwapOp else
     (if val = 45 then Num_RawTrng else
     (if val = 46 then Num_PlatformSpecific else
      Num_Invalid)))))))))))))))))))))))))))))))))))))))))))))"

section \<open>Encoding\<close>

definition send_message_args :: "SysCallNumber \<Rightarrow> CID \<Rightarrow> Message \<Rightarrow> args8" where
  "send_message_args n a1 m =
     (SysCallNumber_as_usize n, a1, message_type m,
      (case m of
         MutableBorrow mm \<Rightarrow> MemoryMessage_to_usize mm
       | Borrow mm \<Rightarrow> MemoryMessage_to_usize mm
       | Move mm \<Rightarrow> MemoryMessage_to_usize mm
       | Scalar sc \<Rightarrow> ScalarMessage_to_usize sc
       | BlockingScalar sc \<Rightarrow> ScalarMessage_to_usize sc))"

definition sid_args :: "SysCallNumber \<Rightarrow> SID \<Rightarrow> args8" where
  "sid_args n sid =
     (case SID_to_u32 sid of (s0, s1, s2, s3) \<Rightarrow>
        (SysCallNumber_as_usize n, s0, s1, s2, s3, 0, 0, 0))"

primrec as_args :: "SysCall \<Rightarrow> args8" where
  "as_args (MapMemory a1 a2 a3 a4) =
     (SysCallNumber_as_usize Num_MapMemory, nz_or_zero a1, nz_or_zero a2, a3, bits a4, 0, 0, 0)"
| "as_args (UnmapMemory r) =
     (SysCallNumber_as_usize Num_UnmapMemory, addr r, rsize r, 0, 0, 0, 0, 0)"
| "as_args Yield =
     (SysCallNumber_as_usize Num_Yield, 0, 0, 0, 0, 0, 0, 0)"
| "as_args WaitEvent =
     (SysCallNumber_as_usize Num_WaitEvent, 0, 0, 0, 0, 0, 0, 0)"
| "as_args (ReceiveMessage sid) =
     sid_args Num_ReceiveMessage sid"
| "as_args (TryReceiveMessage sid) =
     sid_args Num_TryReceiveMessage sid"
| "as_args (ConnectForProcess pid sid) =
     (case SID_to_u32 sid of (s0, s1, s2, s3) \<Rightarrow>
        (SysCallNumber_as_usize Num_ConnectForProcess, ucast pid, s0, s1, s2, s3, 0, 0))"
| "as_args CreateServerId =
     (SysCallNumber_as_usize Num_CreateServerId, 0, 0, 0, 0, 0, 0, 0)"
| "as_args (ReturnToParent a1 a2) =
     (SysCallNumber_as_usize Num_ReturnToParent, ucast a1, a2, 0, 0, 0, 0, 0)"
| "as_args (ClaimInterrupt a1 a2 a3) =
     (SysCallNumber_as_usize Num_ClaimInterrupt, a1, a2, nz_or_zero a3, 0, 0, 0, 0)"
| "as_args (FreeInterrupt a1) =
     (SysCallNumber_as_usize Num_FreeInterrupt, a1, 0, 0, 0, 0, 0, 0)"
| "as_args (SwitchTo a1 a2) =
     (SysCallNumber_as_usize Num_SwitchTo, ucast a1, a2, 0, 0, 0, 0, 0)"
| "as_args (ReadyThreads a1) =
     (SysCallNumber_as_usize Num_ReadyThreads, ucast a1, 0, 0, 0, 0, 0, 0)"
| "as_args (IncreaseHeap a1 a2) =
     (SysCallNumber_as_usize Num_IncreaseHeap, a1, bits a2, 0, 0, 0, 0, 0)"
| "as_args (DecreaseHeap a1) =
     (SysCallNumber_as_usize Num_DecreaseHeap, a1, 0, 0, 0, 0, 0, 0)"
| "as_args (UpdateMemoryFlags a1 a2 a3) =
     (SysCallNumber_as_usize Num_UpdateMemoryFlags, addr a1, rsize a1, bits a2, ucast (nz_or_zero a3), 0, 0, 0)"
| "as_args (SetMemRegion a1 a2 a3 a4) =
     (SysCallNumber_as_usize Num_SetMemRegion, ucast a1, MemoryType_to_usize a2, a3, a4, 0, 0, 0)"
| "as_args (CreateServerWithAddress sid) =
     sid_args Num_CreateServerWithAddress sid"
| "as_args CreateServer =
     (SysCallNumber_as_usize Num_CreateServer, 0, 0, 0, 0, 0, 0, 0)"
| "as_args (Connect sid) =
     sid_args Num_Connect sid"
| "as_args (SendMessage a1 a2) =
     send_message_args Num_SendMessage a1 a2"
| "as_args (ReturnMemory sender buf off val) =
     (SysCallNumber_as_usize Num_ReturnMemory, sender_data sender, addr buf, rsize buf, nz_or_zero off, nz_or_zero val, 0, 0)"
| "as_args (ReplyAndReceiveNext sender arg0 arg1 arg2 arg3 arg4 return_type) =
     (SysCallNumber_as_usize Num_ReplyAndReceiveNext, sender_data sender, arg0, arg1, arg2, arg3, arg4, return_type)"
| "as_args (CreateThread init) =
     thread_to_args (SysCallNumber_as_usize Num_CreateThread) init"
| "as_args (CreateProcess init) =
     (SysCallNumber_as_usize Num_CreateProcess, process_init_to_args init)"
| "as_args (TerminateProcess exit_code) =
     (SysCallNumber_as_usize Num_TerminateProcess, exit_code, 0, 0, 0, 0, 0, 0)"
| "as_args Shutdown =
     (SysCallNumber_as_usize Num_Shutdown, 0, 0, 0, 0, 0, 0, 0)"
| "as_args (TryConnect sid) =
     sid_args Num_TryConnect sid"
| "as_args (TrySendMessage a1 a2) =
     send_message_args Num_TrySendMessage a1 a2"
| "as_args (ReturnScalar1 sender arg1) =
     (SysCallNumber_as_usize Num_ReturnScalar1, sender_data sender, arg1, 0, 0, 0, 0, 0)"
| "as_args (ReturnScalar2 sender arg1 arg2) =
     (SysCallNumber_as_usize Num_ReturnScalar2, sender_data sender, arg1, arg2, 0, 0, 0, 0)"
| "as_args GetThreadId =
     (SysCallNumber_as_usize Num_GetThreadId, 0, 0, 0, 0, 0, 0, 0)"
| "as_args GetProcessId =
     (SysCallNumber_as_usize Num_GetProcessId, 0, 0, 0, 0, 0, 0, 0)"
| "as_args (DestroyServer sid) =
     sid_args Num_DestroyServer sid"
| "as_args (Disconnect cid) =
     (SysCallNumber_as_usize Num_Disconnect, cid, 0, 0, 0, 0, 0, 0)"
| "as_args (JoinThread tid) =
     (SysCallNumber_as_usize Num_JoinThread, tid, 0, 0, 0, 0, 0, 0)"
| "as_args (SetExceptionHandler pc sp) =
     (SysCallNumber_as_usize Num_SetExceptionHandler, pc, sp, 0, 0, 0, 0, 0)"
| "as_args (AdjustProcessLimit index current new) =
     (SysCallNumber_as_usize Num_AdjustProcessLimit, index, current, new, 0, 0, 0, 0)"
| "as_args (VirtToPhys vaddr) =
     (SysCallNumber_as_usize Num_VirtToPhys, vaddr, 0, 0, 0, 0, 0, 0)"
| "as_args (ReturnScalar5 sender arg1 arg2 arg3 arg4 arg5) =
     (SysCallNumber_as_usize Num_ReturnScalar5, sender_data sender, arg1, arg2, arg3, arg4, arg5, 0)"
| "as_args (VirtToPhysPid pid vaddr) =
     (SysCallNumber_as_usize Num_VirtToPhysPid, ucast pid, vaddr, 0, 0, 0, 0, 0)"
| "as_args (RegisterSwapper s0 s1 s2 s3 handler state) =
     (SysCallNumber_as_usize Num_RegisterSwapper, s0, s1, s2, s3, handler, state, 0)"
| "as_args (SwapOp a1 a2 a3 a4 a5 a6 a7) =
     (SysCallNumber_as_usize Num_SwapOp, a1, a2, a3, a4, a5, a6, a7)"
| "as_args (RawTrng a1 a2 a3 a4 a5 a6 a7) =
     (SysCallNumber_as_usize Num_RawTrng, a1, a2, a3, a4, a5, a6, a7)"
| "as_args (PlatformSpecific a1 a2 a3 a4 a5 a6 a7) =
     (SysCallNumber_as_usize Num_PlatformSpecific, a1, a2, a3, a4, a5, a6, a7)"
| "as_args (Invalid a1 a2 a3 a4 a5 a6 a7) =
     (SysCallNumber_as_usize Num_Invalid, a1, a2, a3, a4, a5, a6, a7)"

section \<open>Decoding\<close>

text \<open>
  \<open>TrySendMessage\<close> repeats the match on the message kind; a zero address or
  size there is the error \<open>BadAddress\<close> of \<open>MemoryRange::new\<close>, where \<open>SendMessage\<close>
  yields \<open>Invalid\<close> instead.
\<close>

definition decode_try_send ::
  "usize \<Rightarrow> usize \<Rightarrow> usize \<Rightarrow> usize \<Rightarrow> usize \<Rightarrow> usize \<Rightarrow> usize \<Rightarrow> (Error, SysCall) outcome" where
  "decode_try_send a1 a2 a3 a4 a5 a6 a7 =
     (let mem = (\<lambda>k. bind_outcome (MemoryRange_new a4 a5) (\<lambda>r.
                   Ok (TrySendMessage a1 (k \<lparr>mm_id = a3, mm_buf = r, mm_offset = nonzero a6,
                                             mm_valid = nonzero a7\<rparr>))));
          sc = \<lparr>sm_id = a3, sm_arg1 = a4, sm_arg2 = a5, sm_arg3 = a6, sm_arg4 = a7\<rparr>
      in if a2 = 1 then mem MutableBorrow
         else if a2 = 2 then mem Borrow
         else if a2 = 3 then mem Move
         else if a2 = 4 then Ok (TrySendMessage a1 (Scalar sc))
         else if a2 = 5 then Ok (TrySendMessage a1 (BlockingScalar sc))
         else Ok (Invalid a1 a2 a3 a4 a5 a6 a7))"

definition decode_send ::
  "usize \<Rightarrow> usize \<Rightarrow> usize \<Rightarrow> usize \<Rightarrow> usize \<Rightarrow> usize \<Rightarrow> usize \<Rightarrow> SysCall" where
  "decode_send a1 a2 a3 a4 a5 a6 a7 =
     (case Message_try_from (a2, a3, a4, a5, a6, a7) of
        Some m \<Rightarrow> SendMessage a1 m
      | None \<Rightarrow> Invalid a1 a2 a3 a4 a5 a6 a7)"

definition from_args ::
  "usize \<Rightarrow> usize \<Rightarrow> usize \<Rightarrow> usize \<Rightarrow> usize \<Rightarrow> usize \<Rightarrow> usize \<Rightarrow> usize \<Rightarrow> (Error, SysCall) outcome" where
  "from_args a0 a1 a2 a3 a4 a5 a6 a7 =
     (case SysCallNumber_from a0 of
        Num_MapMemory \<Rightarrow>
          bind_outcome (ok_or (nonzero a3) InvalidSyscall) (\<lambda>s.
          bind_outcome (ok_or (MemoryFlags_from_bits a4) InvalidSyscall) (\<lambda>f.
          Ok (MapMemory (nonzero a1) (nonzero a2) s f)))
      | Num_UnmapMemory \<Rightarrow>
          (case MemoryRange_new a1 a2 of Ok r \<Rightarrow> Ok (UnmapMemory r) | _ \<Rightarrow> Err InvalidSyscall)
      | Num_Yield \<Rightarrow> Ok Yield
      | Num_WaitEvent \<Rightarrow> Ok WaitEvent
      | Num_ReceiveMessage \<Rightarrow> Ok (ReceiveMessage (SID_from_u32 a1 a2 a3 a4))
      | Num_TryReceiveMessage \<Rightarrow> Ok (TryReceiveMessage (SID_from_u32 a1 a2 a3 a4))
      | Num_ReturnToParent \<Rightarrow>
          bind_outcome (pid_from_usize a1) (\<lambda>p. Ok (ReturnToParent p a2))
      | Num_ClaimInterrupt \<Rightarrow>
          bind_outcome (ok_or (nonzero a2) InvalidSyscall) (\<lambda>f.
          Ok (ClaimInterrupt a1 f (nonzero a3)))
      | Num_FreeInterrupt \<Rightarrow> Ok (FreeInterrupt a1)
      | Num_SwitchTo \<Rightarrow> bind_outcome (pid_from_usize a1) (\<lambda>p. Ok (SwitchTo p a2))
      | Num_ReadyThreads \<Rightarrow> bind_outcome (pid_from_usize a1) (\<lambda>p. Ok (ReadyThreads p))
      | Num_IncreaseHeap \<Rightarrow>
          bind_outcome (ok_or (MemoryFlags_from_bits a2) InvalidSyscall) (\<lambda>f.
          Ok (IncreaseHeap a1 f))
      | Num_DecreaseHeap \<Rightarrow> Ok (DecreaseHeap a1)
      | Num_UpdateMemoryFlags \<Rightarrow>
          bind_outcome (MemoryRange_new a1 a2) (\<lambda>r.
          bind_outcome (ok_or (MemoryFlags_from_bits a3) InvalidSyscall) (\<lambda>f.
          Ok (UpdateMemoryFlags r f (nonzero (ucast a4)))))
      | Num_SetMemRegion \<Rightarrow>
          bind_outcome (pid_from_usize a1) (\<lambda>p.
          bind_outcome (ok_or (nonzero a3) InvalidSyscall) (\<lambda>a.
          Ok (SetMemRegion p (MemoryType_from a2) a a4)))
      | Num_CreateServerWithAddress \<Rightarrow> Ok (CreateServerWithAddress (SID_from_u32 a1 a2 a3 a4))
      | Num_CreateServer \<Rightarrow> Ok CreateServer
      | Num_Connect \<Rightarrow> Ok (Connect (SID_from_u32 a1 a2 a3 a4))
      | Num_SendMessage \<Rightarrow> Ok (decode_send a1 a2 a3 a4 a5 a6 a7)
      | Num_ReturnMemory \<Rightarrow>
          bind_outcome (MemoryRange_new a2 a3) (\<lambda>r.
          Ok (ReturnMemory \<lparr>sender_data = a1\<rparr> r (nonzero a4) (nonzero a5)))
      | Num_ReplyAndReceiveNext \<Rightarrow>
          Ok (ReplyAndReceiveNext \<lparr>sender_data = a1\<rparr> a2 a3 a4 a5 a6 a7)
      | Num_CreateThread \<Rightarrow>
          bind_outcome (args_to_thread a1 a2 a3 a4 a5 a6 a7) (\<lambda>t. Ok (CreateThread t))
      | Num_CreateProcess \<Rightarrow>
          bind_outcome (args_to_process_init a1 a2 a3 a4 a5 a6 a7) (\<lambda>p. Ok (CreateProcess p))
      | Num_TerminateProcess \<Rightarrow> Ok (TerminateProcess a1)
      | Num_Shutdown \<Rightarrow> Ok Shutdown
      | Num_TryConnect \<Rightarrow> Ok (TryConnect (SID_from_u32 a1 a2 a3 a4))
      | Num_TrySendMessage \<Rightarrow> decode_try_send a1 a2 a3 a4 a5 a6 a7
      | Num_ReturnScalar1 \<Rightarrow> Ok (ReturnScalar1 \<lparr>sender_data = a1\<rparr> a2)
      | Num_ReturnScalar2 \<Rightarrow> Ok (ReturnScalar2 \<lparr>sender_data = a1\<rparr> a2 a3)
      | Num_ConnectForProcess \<Rightarrow>
          bind_outcome (ok_or (nonzero (ucast a1)) InvalidSyscall) (\<lambda>p.
          Ok (ConnectForProcess p (SID_from_u32 a2 a3 a4 a5)))
      | Num_CreateServerId \<Rightarrow> Ok CreateServerId
      | Num_GetThreadId \<Rightarrow> Ok GetThreadId
      | Num_GetProcessId \<Rightarrow> Ok GetProcessId
      | Num_DestroyServer \<Rightarrow> Ok (DestroyServer (SID_from_u32 a1 a2 a3 a4))
      | Num_Disconnect \<Rightarrow> Ok (Disconnect a1)
      | Num_JoinThread \<Rightarrow> Ok (JoinThread a1)
      | Num_SetExceptionHandler \<Rightarrow> Ok (SetExceptionHandler a1 a2)
      | Num_AdjustProcessLimit \<Rightarrow> Ok (AdjustProcessLimit a1 a2 a3)
      | Num_VirtToPhys \<Rightarrow> Ok (VirtToPhys a1)
      | Num_VirtToPhysPid \<Rightarrow> bind_outcome (pid_from_usize a1) (\<lambda>p. Ok (VirtToPhysPid p a2))
      | Num_ReturnScalar5 \<Rightarrow> Ok (ReturnScalar5 \<lparr>sender_data = a1\<rparr> a2 a3 a4 a5 a6)
      | Num_RegisterSwapper \<Rightarrow> Ok (RegisterSwapper a1 a2 a3 a4 a5 a6)
      | Num_SwapOp \<Rightarrow> Ok (SwapOp a1 a2 a3 a4 a5 a6 a7)
      | Num_RawTrng \<Rightarrow> Ok (RawTrng a1 a2 a3 a4 a5 a6 a7)
      | Num_PlatformSpecific \<Rightarrow> Ok (PlatformSpecific a1 a2 a3 a4 a5 a6 a7)
      | Num_Invalid \<Rightarrow> Ok (Invalid a1 a2 a3 a4 a5 a6 a7))"

definition decode_args :: "args8 \<Rightarrow> (Error, SysCall) outcome" where
  "decode_args a = (case a of (a0, a1, a2, a3, a4, a5, a6, a7) \<Rightarrow> from_args a0 a1 a2 a3 a4 a5 a6 a7)"

section \<open>Classification\<close>

definition SysCall_has_memory :: "SysCall \<Rightarrow> bool" where
  "SysCall_has_memory call =
     (case call of
        TrySendMessage _ m \<Rightarrow> has_memory m
      | SendMessage _ m \<Rightarrow> has_memory m
      | ReturnMemory _ _ _ _ \<Rightarrow> True
      | ReplyAndReceiveNext _ _ _ _ _ _ t \<Rightarrow> (t = - 1)
      | _ \<Rightarrow> False)"

definition is_return_memory :: "SysCall \<Rightarrow> bool" where
  "is_return_memory call =
     (case call of
        ReturnMemory _ _ _ _ \<Rightarrow> True
      | ReplyAndReceiveNext _ _ _ _ _ _ t \<Rightarrow> (t = - 1)
      | _ \<Rightarrow> False)"

definition SysCall_memory :: "SysCall \<Rightarrow> MemoryRange option" where
  "SysCall_memory call =
     (case call of
        TrySendMessage _ m \<Rightarrow> Message_memory m
      | SendMessage _ m \<Rightarrow> Message_memory m
      | ReturnMemory _ r _ _ \<Rightarrow> Some r
      | ReplyAndReceiveNext _ _ a1 a2 _ _ t \<Rightarrow>
          (if t = - 1 then (case MemoryRange_new a1 a2 of Ok r \<Rightarrow> Some r | _ \<Rightarrow> None) else None)
      | _ \<Rightarrow> None)"

fun Message_replace_memory :: "MemoryRange \<Rightarrow> Message \<Rightarrow> Message" where
  "Message_replace_memory new (Move m) = Move (m\<lparr>mm_buf := new\<rparr>)"
| "Message_replace_memory new (Borrow m) = Borrow (m\<lparr>mm_buf := new\<rparr>)"
| "Message_replace_memory new (MutableBorrow m) = MutableBorrow (m\<lparr>mm_buf := new\<rparr>)"
| "Message_replace_memory new m = m"

definition replace_memory :: "MemoryRange \<Rightarrow> SysCall \<Rightarrow> SysCall" where
  "replace_memory new call =
     (case call of
        TrySendMessage c m \<Rightarrow> TrySendMessage c (Message_replace_memory new m)
      | SendMessage c m \<Rightarrow> SendMessage c (Message_replace_memory new m)
      | ReturnMemory s r off val \<Rightarrow> ReturnMemory s new off val
      | ReplyAndReceiveNext s a0 a1 a2 a3 a4 t \<Rightarrow>
          (if t = - 1 then ReplyAndReceiveNext s a0 (addr new) (rsize new) a3 a4 t
           else ReplyAndReceiveNext s a0 a1 a2 a3 a4 t)
      | c \<Rightarrow> c)"

definition can_call_from_interrupt :: "SysCall \<Rightarrow> bool" where
  "can_call_from_interrupt call =
     (case call of
        TrySendMessage _ m \<Rightarrow> (\<not> is_blocking m)
      | SwapOp _ _ _ _ _ _ _ \<Rightarrow> True
      | TryConnect _ \<Rightarrow> True
      | FreeInterrupt _ \<Rightarrow> True
      | ClaimInterrupt _ _ _ \<Rightarrow> True
      | TryReceiveMessage _ \<Rightarrow> True
      | ReturnToParent _ _ \<Rightarrow> True
      | ReturnScalar5 _ _ _ _ _ _ \<Rightarrow> True
      | ReturnScalar2 _ _ _ \<Rightarrow> True
      | ReturnScalar1 _ _ \<Rightarrow> True
      | ReturnMemory _ _ _ _ \<Rightarrow> True
      | _ \<Rightarrow> False)"

section \<open>Well-formed calls\<close>

definition wf_process_init :: "ProcessInit \<Rightarrow> bool" where
  "wf_process_init p =
     (wf_range (pi_stack p) \<and> wf_range (pi_text p) \<and> pi_text_destination p \<noteq> 0 \<and> pi_start p \<noteq> 0)"

text \<open>
  What the types of the source guarantee of a call (non-zero addresses, sizes
  and process identifiers), and that its memory flags are known ones.
\<close>

definition wf_syscall :: "SysCall \<Rightarrow> bool" where
  "wf_syscall call =
     (case call of
        MapMemory a1 a2 s f \<Rightarrow> (wf_nz a1 \<and> wf_nz a2 \<and> s \<noteq> 0 \<and> wf_flags f)
      | UnmapMemory r \<Rightarrow> wf_range r
      | SetMemRegion p _ a _ \<Rightarrow> (p \<noteq> 0 \<and> a \<noteq> 0)
      | IncreaseHeap _ f \<Rightarrow> wf_flags f
      | UpdateMemoryFlags r f p \<Rightarrow> (wf_range r \<and> wf_flags f \<and> wf_nz p)
      | ReturnToParent p _ \<Rightarrow> (p \<noteq> 0)
      | ClaimInterrupt _ f a \<Rightarrow> (f \<noteq> 0 \<and> wf_nz a)
      | SwitchTo p _ \<Rightarrow> (p \<noteq> 0)
      | ReadyThreads p \<Rightarrow> (p \<noteq> 0)
      | SendMessage _ m \<Rightarrow> wf_message m
      | TrySendMessage _ m \<Rightarrow> wf_message m
      | ReturnMemory _ r off val \<Rightarrow> (wf_range r \<and> wf_nz off \<and> wf_nz val)
      | CreateThread t \<Rightarrow> wf_range (ti_stack t)
      | CreateProcess p \<Rightarrow> wf_process_init p
      | ConnectForProcess p _ \<Rightarrow> (p \<noteq> 0)
      | VirtToPhysPid p _ \<Rightarrow> (p \<noteq> 0)
      | _ \<Rightarrow> True)"

declare wf_process_init_def [wf_simps]
declare thread_to_args_def [codec_simps] args_to_thread_def [codec_simps]
  process_init_to_args_def [codec_simps] args_to_process_init_def [codec_simps]
  sid_args_def [codec_simps] decode_send_def [codec_simps] decode_try_send_def [codec_simps]

section \<open>Lemmas\<close>

text \<open>
  The numbers stay folded in the proofs below: a decoder applied to
  \<open>SysCallNumber_as_usize n\<close> reduces by the round trip of the numbers alone.
\<close>

lemma SysCallNumber_round_trip [simp]: "SysCallNumber_from (SysCallNumber_as_usize n) = n"
  by (cases n) (simp_all add: SysCallNumber_from_def)

declare SysCallNumber_as_usize.simps [simp del]

lemma args_to_thread_round_trip [simp]:
  "wf_range (ti_stack t) \<Longrightarrow>
     args_to_thread (ti_call t) (addr (ti_stack t)) (rsize (ti_stack t))
       (ti_arg1 t) (ti_arg2 t) (ti_arg3 t) (ti_arg4 t) = Ok t"
  by (simp add: args_to_thread_def)

lemma args_to_process_init_round_trip [simp]:
  "wf_process_init p \<Longrightarrow>
     args_to_process_init (addr (pi_stack p)) (rsize (pi_stack p)) (addr (pi_text p))
       (rsize (pi_text p)) (pi_text_destination p) (pi_start p) x = Ok p"
  by (simp add: args_to_process_init_def wf_process_init_def)

lemma decode_args_sid [simp]:
  "decode_args (sid_args n (SID s0 s1 s2 s3)) =
     from_args (SysCallNumber_as_usize n) s0 s1 s2 s3 0 0 0"
  by (simp add: decode_args_def sid_args_def)

lemma decode_args_send:
  assumes "wf_message m"
  shows "decode_args (send_message_args Num_SendMessage c m) = Ok (SendMessage c m)"
    and "decode_args (send_message_args Num_TrySendMessage c m) = Ok (TrySendMessage c m)"
  using assms
  by (cases m;
      simp add: decode_args_def from_args_def send_message_args_def decode_send_def
        decode_try_send_def wf_message_def wf_memory_message_def MemoryMessage_to_usize_def
        ScalarMessage_to_usize_def)+

lemma from_args_round_trip:
  assumes "wf_syscall c"
  shows "decode_args (as_args c) = Ok c"
proof (cases c)
  case (SendMessage cid m)
  with assms show ?thesis by (simp add: wf_syscall_def decode_args_send)
next
  case (TrySendMessage cid m)
  with assms show ?thesis by (simp add: wf_syscall_def decode_args_send)
next
  case (ReceiveMessage sid)
  then show ?thesis by (cases sid) (simp add: from_args_def SID_from_u32_def)
next
  case (TryReceiveMessage sid)
  then show ?thesis by (cases sid) (simp add: from_args_def SID_from_u32_def)
next
  case (CreateServerWithAddress sid)
  then show ?thesis by (cases sid) (simp add: from_args_def SID_from_u32_def)
next
  case (Connect sid)
  then show ?thesis by (cases sid) (simp add: from_args_def SID_from_u32_def)
next
  case (TryConnect sid)
  then show ?thesis by (cases sid) (simp add: from_args_def SID_from_u32_def)
next
  case (DestroyServer sid)
  then show ?thesis by (cases sid) (simp add: from_args_def SID_from_u32_def)
next
  case (ConnectForProcess pid sid)
  with assms show ?thesis
    by (cases sid)
       (simp add: from_args_def SID_from_u32_def decode_args_def wf_syscall_def)
qed (use assms in \<open>simp_all only: as_args.simps decode_args_def prod.case from_args_def
       SysCallNumber_round_trip SysCallNumber.case wf_syscall_def SysCall.case
       thread_to_args_def process_init_to_args_def\<close>,
     simp_all)

lemma args_to_thread_wf: "args_to_thread a b c d e f g = Ok t \<Longrightarrow> wf_range (ti_stack t)"
  by (auto simp: args_to_thread_def wf_range_def split: outcome.splits)

lemma args_to_process_init_wf:
  "args_to_process_init a b c d e f g = Ok p \<Longrightarrow> wf_process_init p"
  by (auto simp: args_to_process_init_def wf_process_init_def wf_range_def ok_or_def nonzero_def
        split: outcome.splits if_splits)

lemma args_codec_no_panic [simp]:
  "args_to_thread a b c d e f g \<noteq> Panic" "args_to_process_init a b c d e f g \<noteq> Panic"
  by (simp_all add: args_to_thread_def args_to_process_init_def ok_or_def nonzero_def
        split: outcome.split)

lemma decode_send_wf: "wf_syscall (decode_send a b c d e f g)"
  by (auto simp: decode_send_def wf_syscall_def intro: Message_try_from_wf
        simp del: Message_try_from.simps split: option.split)

lemma decode_try_send_wf: "decode_try_send a b c d e f g = Ok s \<Longrightarrow> wf_syscall s"
  by (auto simp: decode_try_send_def wf_syscall_def wf_message_def wf_memory_message_def
        wf_range_def Let_def split: if_splits)

lemma decode_try_send_no_panic [simp]: "decode_try_send a b c d e f g \<noteq> Panic"
  by (simp add: decode_try_send_def Let_def bind_Panic_iff)

lemma from_args_wf:
  assumes "from_args a0 a1 a2 a3 a4 a5 a6 a7 = Ok c"
  shows "wf_syscall c"
proof (cases "SysCallNumber_from a0")
  case Num_SendMessage
  with assms show ?thesis using decode_send_wf by (auto simp: from_args_def)
next
  case Num_TrySendMessage
  with assms show ?thesis by (simp add: from_args_def decode_try_send_wf)
qed (use assms in \<open>auto simp: from_args_def ok_or_def wf_syscall_def wf_range_def
       wf_flags_def nonzero_def wf_nz_def dest: pid_from_usize_Ok args_to_thread_wf args_to_process_init_wf
       split: option.splits outcome.splits if_splits\<close>)

lemma from_args_no_panic: "from_args a0 a1 a2 a3 a4 a5 a6 a7 \<noteq> Panic"
  by (cases "SysCallNumber_from a0")
     (auto simp: from_args_def ok_or_def bind_Panic_iff split: option.splits outcome.splits)

lemma Message_replace_memory_memory:
  "has_memory m \<Longrightarrow> Message_memory (Message_replace_memory r m) = Some r"
  by (cases m) (simp_all add: Message_memory_def)

lemma SysCall_replace_memory:
  assumes "SysCall_has_memory c" and "wf_range r"
  shows "SysCall_memory (replace_memory r c) = Some r"
  using assms
  by (cases c)
     (auto simp: SysCall_has_memory_def SysCall_memory_def replace_memory_def
       Message_replace_memory_memory wf_range_def)

lemma Message_replace_memory_none: "\<not> has_memory m \<Longrightarrow> Message_replace_memory r m = m"
  by (cases m) simp_all

lemma replace_memory_none: "\<not> SysCall_has_memory c \<Longrightarrow> replace_memory r c = c"
  by (cases c)
     (simp_all add: SysCall_has_memory_def replace_memory_def Message_replace_memory_none)

section \<open>Properties\<close>

text \<open>
  C13. Every well-formed system call survives the trap: decoding the eight
  registers that \<open>as_args\<close> produces gives the call back, for each of the 46
  calls, including the nested message of a send, the thread and process
  initialisation records, and the optional non-zero arguments.
\<close>

theorem syscall_round_trip:
  assumes "wf_syscall c"
  shows "decode_args (as_args c) = Ok c"
  by (rule from_args_round_trip [OF assms])

theorem syscall_round_trip_witness:
  "decode_args (as_args (SendMessage 3 (MutableBorrow
      \<lparr>mm_id = 7, mm_buf = \<lparr>addr = 0x40000000, rsize = 4096\<rparr>, mm_offset = None,
       mm_valid = Some 12\<rparr>)))
   = Ok (SendMessage 3 (MutableBorrow
      \<lparr>mm_id = 7, mm_buf = \<lparr>addr = 0x40000000, rsize = 4096\<rparr>, mm_offset = None,
       mm_valid = Some 12\<rparr>))"
  by (rule syscall_round_trip)
     (simp add: wf_syscall_def wf_message_def wf_memory_message_def wf_range_def wf_nz_def)

text \<open>
  C14. The kernel's decoder accepts arbitrary register contents without
  panicking, and whatever call it accepts satisfies the type invariants the
  handlers rely on: addresses, sizes and process identifiers are non-zero and
  memory flags are known ones.
\<close>

theorem decoded_syscall_well_formed:
  "from_args a0 a1 a2 a3 a4 a5 a6 a7 \<noteq> Panic \<and>
   (from_args a0 a1 a2 a3 a4 a5 a6 a7 = Ok c \<longrightarrow> wf_syscall c)"
  using from_args_no_panic from_args_wf by blast

theorem decoded_syscall_well_formed_witness:
  "from_args 7 5 2 0 0 0 0 0 = Ok (SwitchTo 5 2) \<and> wf_syscall (SwitchTo 5 2)"
proof
  show a: "from_args 7 5 2 0 0 0 0 0 = Ok (SwitchTo 5 2)"
    by (simp add: from_args_def SysCallNumber_from_def pid_from_usize_def)
  show "wf_syscall (SwitchTo 5 2)"
    using decoded_syscall_well_formed [of 7 5 2 0 0 0 0 0 "SwitchTo 5 2"] a by blast
qed

text \<open>
  Rewriting the memory range of a call that carries memory (a memory
  message or a returned buffer) makes the new range the one the call carries,
  and leaves calls without memory alone.
\<close>

theorem replace_memory_correct:
  assumes "wf_range r"
  shows "if SysCall_has_memory c then SysCall_memory (replace_memory r c) = Some r
         else replace_memory r c = c"
  using SysCall_replace_memory [OF _ assms] replace_memory_none by simp

theorem replace_memory_correct_witness:
  "SysCall_memory (replace_memory \<lparr>addr = 0x1000, rsize = 64\<rparr>
     (ReplyAndReceiveNext \<lparr>sender_data = 1\<rparr> 0 5 6 0 0 (- 1)))
   = Some \<lparr>addr = 0x1000, rsize = 64\<rparr>"
  using replace_memory_correct [of "\<lparr>addr = 0x1000, rsize = 64\<rparr>"
      "ReplyAndReceiveNext \<lparr>sender_data = 1\<rparr> 0 5 6 0 0 (- 1)"]
  by (simp add: wf_range_def SysCall_has_memory_def)

end
