(* ===== verification/Server.thy ===== *)
theory Server
  imports Messages
begin

text \<open>
  The message queue of a server, \<open>kernel/src/server.rs\<close>. A server owns one page
  of slots used as a ring: clients fill an empty slot and stamp it with the tail
  generation, the server takes the slot stamped with the head generation, and a
  blocking message leaves a token in its slot until the reply comes back. The
  theory has the ring with its index arithmetic, the reply tokens, and the mask of
  threads waiting to receive. It proves that the ring refines a first-in
  first-out list of messages (locale \<open>fifo_queue\<close>), that tokens stay where they
  are until they are redeemed (locale \<open>token_queue\<close>), and that the capacity test
  made before a message is delivered is exactly the condition under which it is
  accepted. Destruction of a server is not here: it needs the process table.
\<close>

section \<open>Sender identifiers\<close>

record SenderID =
  snd_sidx :: usize
  snd_idx :: usize
  snd_pid :: "PID option"

definition SenderID_from_usize :: "usize \<Rightarrow> SenderID" where
  "SenderID_from_usize item =
     \<lparr>snd_sidx = drop_bit 16 item AND 0xff, snd_idx = item AND 0xffff,
      snd_pid = nonzero (ucast (drop_bit 24 item))\<rparr>"

definition SenderID_to_usize :: "SenderID \<Rightarrow> usize" where
  "SenderID_to_usize v =
     push_bit 24 (ucast (nz_or_zero (snd_pid v))) OR
     (push_bit 16 (snd_sidx v) AND 0x00ff0000) OR
     (snd_idx v AND 0xffff)"

definition SenderID_from_sender :: "MessageSender \<Rightarrow> SenderID" where
  "SenderID_from_sender m = SenderID_from_usize (sender_data m)"

definition SenderID_to_sender :: "SenderID \<Rightarrow> MessageSender" where
  "SenderID_to_sender v = \<lparr>sender_data = SenderID_to_usize v\<rparr>"

section \<open>Queue slots\<close>

datatype WaitingMessage =
    WM_None
  | BorrowedMemory PID TID usize usize usize
  | MovedMemory
  | WM_ScalarMessage PID TID
  | ForgetMemory MemoryRange

text \<open>
  The fields of a slot: client process, client thread, generation, client memory
  address (reserved for scalars), message identifier, and four words (the scalar
  arguments, or server address, size, offset and valid length of a buffer).
\<close>

datatype QueuedMessage =
    Q_Empty
  | Q_BlockingScalarMessage u16 u8 u8 usize usize usize usize usize usize
  | Q_ScalarMessage u16 u8 u8 usize usize usize usize usize usize
  | Q_MemoryMessageSend u16 u8 u8 usize usize usize usize usize usize
  | Q_MemoryMessageROLend u16 u8 u8 usize usize usize usize usize usize
  | Q_MemoryMessageRWLend u16 u8 u8 usize usize usize usize usize usize
  | Q_MemoryMessageROLendTerminated u16 u8 u8 usize usize usize usize usize usize
  | Q_MemoryMessageRWLendTerminated u16 u8 u8 usize usize usize usize usize usize
  | Q_BlockingScalarTerminated u16 u8 u8 usize usize usize usize usize usize
  | Q_WaitingReturnMemory u16 u8 u8 usize usize usize
  | Q_WaitingForget u16 u8 u8 usize usize usize
  | Q_WaitingReturnScalar u16 u8 u8 usize

definition is_in_server :: "QueuedMessage \<Rightarrow> bool" where
  "is_in_server m =
     (case m of
        Q_WaitingForget _ _ _ _ _ _ \<Rightarrow> True
      | Q_WaitingReturnMemory _ _ _ _ _ _ \<Rightarrow> True
      | Q_WaitingReturnScalar _ _ _ _ \<Rightarrow> True
      | _ \<Rightarrow> False)"

text \<open>
  The ring indices are natural numbers: they are compared with the length of the
  queue and reset to zero before they can grow, so they never wrap. The slice
  \<open>queue\<close> is its contents and the address it lies at.
\<close>

record Server =
  sid :: SID
  srv_pid :: PID
  queue_head :: nat
  queue_tail :: nat
  head_generation :: u8
  tail_generation :: u8
  queue :: "QueuedMessage list"
  ready_threads :: usize
  queue_ptr :: usize

text \<open>
  \<open>Server::init\<close>. The queue is laid over the backing page, whose length is
  divided by the 32 bytes of a slot; the page is zeroed, which is the
  representation of \<open>Empty\<close>.
\<close>

definition Server_init ::
  "Server option \<Rightarrow> PID \<Rightarrow> SID \<Rightarrow> MemoryRange \<Rightarrow> (Error, Server) outcome" where
  "Server_init new pid s backing =
     (if new \<noteq> None then Err MemoryInUse
      else Ok \<lparr>sid = s, srv_pid = pid, queue_head = 0, queue_tail = 0,
               head_generation = 0, tail_generation = 0,
               queue = replicate (unat (rsize backing) div 32) Q_Empty, ready_threads = 0,
               queue_ptr = addr backing\<rparr>)"

definition ring_next :: "nat \<Rightarrow> nat \<Rightarrow> nat" where
  "ring_next len i = (if i + 1 \<ge> len then 0 else i + 1)"

section \<open>Process termination\<close>

definition discard_entry :: "PID \<Rightarrow> QueuedMessage \<Rightarrow> QueuedMessage" where
  "discard_entry pid m =
     (case m of
        Q_MemoryMessageROLend p t i a1 a2 a3 a4 a5 a6 \<Rightarrow>
          if p = ucast pid then Q_MemoryMessageROLendTerminated p t i a1 a2 a3 a4 a5 a6 else m
      | Q_MemoryMessageRWLend p t i a1 a2 a3 a4 a5 a6 \<Rightarrow>
          if p = ucast pid then Q_MemoryMessageRWLendTerminated p t i a1 a2 a3 a4 a5 a6 else m
      | Q_BlockingScalarMessage p t i a1 a2 a3 a4 a5 a6 \<Rightarrow>
          if p = ucast pid then Q_BlockingScalarTerminated p t i a1 a2 a3 a4 a5 a6 else m
      | _ \<Rightarrow> m)"

definition discard_messages_for_pid :: "PID \<Rightarrow> Server \<Rightarrow> Server" where
  "discard_messages_for_pid pid s = s\<lparr>queue := map (discard_entry pid) (queue s)\<rparr>"

section \<open>Redeeming a reply token\<close>

text \<open>
  After the tail slot is freed the tail moves on to the next slot in use, but not
  past the head. The loop ends after at most one round of the ring.
\<close>

fun advance_tail :: "nat \<Rightarrow> Server \<Rightarrow> (Error, Server) outcome" where
  "advance_tail 0 s = Panic"
| "advance_tail (Suc n) s =
     (if queue_tail s = queue_head s then Ok s
      else if queue_tail s \<ge> length (queue s) then Panic
      else if queue s ! queue_tail s = Q_Empty then
        advance_tail n (s\<lparr>queue_tail := ring_next (length (queue s)) (queue_tail s)\<rparr>)
      else Ok s)"

text \<open>The fields the source extracts from a token: \<open>(pid, tid, server_addr, client_addr, len, forget, is_memory)\<close>.\<close>

definition waiting_fields ::
  "QueuedMessage \<Rightarrow> (u16 \<times> u8 \<times> usize \<times> usize \<times> usize \<times> bool \<times> bool) option" where
  "waiting_fields m =
     (case m of
        Q_WaitingReturnMemory p t _ sa ca len \<Rightarrow> Some (p, t, sa, ca, len, False, True)
      | Q_WaitingForget p t _ sa ca len \<Rightarrow> Some (p, t, sa, ca, len, True, True)
      | Q_WaitingReturnScalar p t _ ra \<Rightarrow> Some (p, t, ra, 0, 0, True, False)
      | _ \<Rightarrow> None)"

definition free_token :: "nat \<Rightarrow> Server \<Rightarrow> (Error, Server) outcome" where
  "free_token i s =
     (let s1 = s\<lparr>queue := (queue s)[i := Q_Empty]\<rparr>
      in if i = queue_tail s1 then
           advance_tail (Suc (length (queue s1)))
             (s1\<lparr>queue_tail := ring_next (length (queue s1)) (queue_tail s1)\<rparr>)
         else Ok s1)"

definition waiting_result ::
  "u16 \<times> u8 \<times> usize \<times> usize \<times> usize \<times> bool \<times> bool \<Rightarrow> (Error, WaitingMessage) outcome" where
  "waiting_result fs =
     (case fs of (p, t, sa, ca, len, forget, is_memory) \<Rightarrow>
        if \<not> is_memory then
          bind_outcome (unwrap (nonzero (ucast p))) (\<lambda>pid. Ok (WM_ScalarMessage pid (ucast t)))
        else if forget then
          bind_outcome (MemoryRange_new sa len) (\<lambda>r. Ok (ForgetMemory r))
        else (case nonzero sa of
                None \<Rightarrow> Ok MovedMemory
              | Some sa' \<Rightarrow>
                  bind_outcome (unwrap (nonzero ca)) (\<lambda>ca'.
                  bind_outcome (unwrap (nonzero len)) (\<lambda>len'.
                  bind_outcome (unwrap (nonzero (ucast p))) (\<lambda>pid.
                  Ok (BorrowedMemory pid (ucast t) sa' ca' len'))))))"

text \<open>
  \<open>take_waiting_message\<close>. The returned error of a zero-length forgotten range comes
  after the slot has been freed, so the state is part of every outcome.
\<close>

definition take_waiting_message ::
  "nat \<Rightarrow> MemoryRange option \<Rightarrow> Server \<Rightarrow> (Error, WaitingMessage) outcome \<times> Server" where
  "take_waiting_message i buf s =
     (if i \<ge> length (queue s) then (Err BadAddress, s)
      else case waiting_fields (queue s ! i) of
             None \<Rightarrow> (Ok WM_None, s)
           | Some (p, t, sa, ca, len, forget, is_memory) \<Rightarrow>
               if is_memory \<and> (case buf of None \<Rightarrow> False
                                  | Some b \<Rightarrow> sa \<noteq> addr b \<or> len \<noteq> rsize b)
               then (Err BadAddress, s)
               else (case free_token i s of
                       Ok s' \<Rightarrow> (waiting_result (p, t, sa, ca, len, forget, is_memory), s')
                     | _ \<Rightarrow> (Panic, s)))"

section \<open>Receiving a message\<close>

text \<open>
  What one slot offers to a server waiting for generation \<open>g\<close>: nothing, a buffer
  with a zero address or size (the \<open>?\<close> of the source leaves the function with
  \<open>None\<close>), a panic (the client identifier does not fit a byte), or an envelope
  together with what replaces the slot: a reply token, or \<open>Empty\<close> when no reply
  is owed.
\<close>

datatype slot_match = No_match | Bad_range | Match_panic | Match MessageEnvelope QueuedMessage

definition slot_envelope :: "usize \<Rightarrow> nat \<Rightarrow> u16 \<Rightarrow> Message \<Rightarrow> MessageEnvelope" where
  "slot_envelope sidx qi p body =
     \<lparr>env_sender = SenderID_to_sender
        \<lparr>snd_sidx = sidx, snd_idx = of_nat qi, snd_pid = nonzero (ucast p)\<rparr>,
      env_body = body\<rparr>"

definition match_memory ::
  "(MemoryMessage \<Rightarrow> Message) \<Rightarrow> QueuedMessage \<Rightarrow> usize \<Rightarrow> nat \<Rightarrow> u16 \<Rightarrow>
     usize \<Rightarrow> usize \<Rightarrow> usize \<Rightarrow> usize \<Rightarrow> usize \<Rightarrow> slot_match" where
  "match_memory kind response sidx qi p i sa bs off val =
     (if p > 0xff then Match_panic
      else case MemoryRange_new sa bs of
             Ok r \<Rightarrow> Match (slot_envelope sidx qi p
                       (kind \<lparr>mm_id = i, mm_buf = r, mm_offset = nonzero off,
                              mm_valid = nonzero val\<rparr>)) response
           | _ \<Rightarrow> Bad_range)"

definition match_scalar ::
  "(ScalarMessage \<Rightarrow> Message) \<Rightarrow> QueuedMessage \<Rightarrow> usize \<Rightarrow> nat \<Rightarrow> u16 \<Rightarrow>
     usize \<Rightarrow> usize \<Rightarrow> usize \<Rightarrow> usize \<Rightarrow> usize \<Rightarrow> slot_match" where
  "match_scalar kind response sidx qi p i a1 a2 a3 a4 =
     (if p > 0xff then Match_panic
      else Match (slot_envelope sidx qi p
             (kind \<lparr>sm_id = i, sm_arg1 = a1, sm_arg2 = a2, sm_arg3 = a3, sm_arg4 = a4\<rparr>)) response)"

definition match_slot :: "u8 \<Rightarrow> usize \<Rightarrow> nat \<Rightarrow> QueuedMessage \<Rightarrow> slot_match" where
  "match_slot g sidx qi m =
     (case m of
        Q_MemoryMessageROLend p t idx ca i sa bs off val \<Rightarrow>
          if idx = g then match_memory Borrow (Q_WaitingReturnMemory p t idx sa ca bs)
                            sidx qi p i sa bs off val else No_match
      | Q_MemoryMessageRWLend p t idx ca i sa bs off val \<Rightarrow>
          if idx = g then match_memory MutableBorrow (Q_WaitingReturnMemory p t idx sa ca bs)
                            sidx qi p i sa bs off val else No_match
      | Q_MemoryMessageROLendTerminated p t idx ca i sa bs off val \<Rightarrow>
          if idx = g then match_memory Borrow (Q_WaitingReturnMemory p t idx sa ca bs)
                            sidx qi p i sa bs off val else No_match
      | Q_MemoryMessageRWLendTerminated p t idx ca i sa bs off val \<Rightarrow>
          if idx = g then match_memory MutableBorrow (Q_WaitingReturnMemory p t idx sa ca bs)
                            sidx qi p i sa bs off val else No_match
      | Q_BlockingScalarMessage p t idx ca i a1 a2 a3 a4 \<Rightarrow>
          if idx = g then match_scalar BlockingScalar (Q_WaitingReturnScalar p t idx ca)
                            sidx qi p i a1 a2 a3 a4 else No_match
      | Q_MemoryMessageSend p t idx ca i sa bs off val \<Rightarrow>
          if idx = g then match_memory Move Q_Empty sidx qi p i sa bs off val else No_match
      | Q_ScalarMessage p t idx ca i a1 a2 a3 a4 \<Rightarrow>
          if idx = g then match_scalar Scalar Q_Empty sidx qi p i a1 a2 a3 a4 else No_match
      | Q_BlockingScalarTerminated p t idx ca i a1 a2 a3 a4 \<Rightarrow>
          if idx = g then match_scalar Scalar Q_Empty sidx qi p i a1 a2 a3 a4 else No_match
      | _ \<Rightarrow> No_match)"

definition finish_take :: "Server \<Rightarrow> nat \<Rightarrow> QueuedMessage \<Rightarrow> Server" where
  "finish_take s qi response =
     s\<lparr>queue := (queue s)[qi := response],
       queue_tail := (if qi = queue_tail s then ring_next (length (queue s)) (queue_tail s)
                      else queue_tail s),
       head_generation := head_generation s + 1\<rparr>"

text \<open>
  The scan of \<open>take_next_message\<close> goes once round the ring from the tail; the
  first argument bounds the number of slots looked at.
\<close>

fun take_next_loop ::
  "nat \<Rightarrow> Server \<Rightarrow> usize \<Rightarrow> nat \<Rightarrow> (Error, MessageEnvelope option \<times> Server) outcome" where
  "take_next_loop 0 s sidx qi = Panic"
| "take_next_loop (Suc n) s sidx qi =
     (if qi \<ge> length (queue s) then Panic
      else case match_slot (head_generation s) sidx qi (queue s ! qi) of
             Match env response \<Rightarrow> Ok (Some env, finish_take s qi response)
           | Bad_range \<Rightarrow> Ok (None, s)
           | Match_panic \<Rightarrow> Panic
           | No_match \<Rightarrow>
               (let qi' = ring_next (length (queue s)) qi
                in if qi' = queue_tail s then Ok (None, s) else take_next_loop n s sidx qi'))"

definition take_next_message ::
  "usize \<Rightarrow> Server \<Rightarrow> (Error, MessageEnvelope option \<times> Server) outcome" where
  "take_next_message sidx s =
     (if tail_generation s = head_generation s then Ok (None, s)
      else take_next_loop (length (queue s)) s sidx (queue_tail s))"

section \<open>Capacity\<close>

definition has_queue_capacity_scalar :: "Server \<Rightarrow> bool" where
  "has_queue_capacity_scalar s = (tail_generation s \<noteq> head_generation s - 1)"

definition has_queue_capacity :: "Server \<Rightarrow> bool" where
  "has_queue_capacity s =
     (if tail_generation s = head_generation s - 1 then False
      else list_ex (\<lambda>e. e = Q_Empty) (queue s))"

definition debug_queue_stats :: "Server \<Rightarrow> u8 \<times> nat \<times> nat \<times> usize" where
  "debug_queue_stats s =
     (tail_generation s - head_generation s, length (filter (\<lambda>e. e \<noteq> Q_Empty) (queue s)),
      length (queue s), ready_threads s)"

section \<open>Queueing a message\<close>

definition find_empty :: "QueuedMessage list \<Rightarrow> nat list \<Rightarrow> nat option" where
  "find_empty q ixs = find (\<lambda>i. q ! i = Q_Empty) ixs"

definition message_entry :: "PID \<Rightarrow> TID \<Rightarrow> u8 \<Rightarrow> Message \<Rightarrow> usize option \<Rightarrow> QueuedMessage" where
  "message_entry pid tid g m orig =
     (case m of
        Scalar c \<Rightarrow> Q_ScalarMessage (ucast pid) (ucast tid) g 0 (sm_id c)
                      (sm_arg1 c) (sm_arg2 c) (sm_arg3 c) (sm_arg4 c)
      | BlockingScalar c \<Rightarrow> Q_BlockingScalarMessage (ucast pid) (ucast tid) g 0 (sm_id c)
                      (sm_arg1 c) (sm_arg2 c) (sm_arg3 c) (sm_arg4 c)
      | Move c \<Rightarrow> Q_MemoryMessageSend (ucast pid) (ucast tid) g (nz_or_zero orig) (mm_id c)
                      (addr (mm_buf c)) (rsize (mm_buf c))
                      (nz_or_zero (mm_offset c)) (nz_or_zero (mm_valid c))
      | MutableBorrow c \<Rightarrow> Q_MemoryMessageRWLend (ucast pid) (ucast tid) g (nz_or_zero orig) (mm_id c)
                      (addr (mm_buf c)) (rsize (mm_buf c))
                      (nz_or_zero (mm_offset c)) (nz_or_zero (mm_valid c))
      | Borrow c \<Rightarrow> Q_MemoryMessageROLend (ucast pid) (ucast tid) g (nz_or_zero orig) (mm_id c)
                      (addr (mm_buf c)) (rsize (mm_buf c))
                      (nz_or_zero (mm_offset c)) (nz_or_zero (mm_valid c)))"

definition advance_head :: "nat \<Rightarrow> Server \<Rightarrow> Server" where
  "advance_head qi s =
     (if qi = queue_head s
      then s\<lparr>queue_head := ring_next (length (queue s)) (queue_head s)\<rparr> else s)"

definition queue_message ::
  "PID \<Rightarrow> TID \<Rightarrow> Message \<Rightarrow> usize option \<Rightarrow> Server \<Rightarrow> (Error, nat \<times> Server) outcome" where
  "queue_message pid tid m orig s =
     (if tail_generation s = head_generation s - 1 then Err ServerQueueFull
      else
        let len = length (queue s);
            discovered = (case find_empty (queue s) [queue_head s ..< len] of
                            Some i \<Rightarrow> Some i
                          | None \<Rightarrow> find_empty (queue s) [0 ..< min (queue_head s) len])
        in case discovered of
             None \<Rightarrow> if queue_head s > len then Panic else Err ServerQueueFull
           | Some qi \<Rightarrow>
               Ok (qi, advance_head qi
                     (s\<lparr>queue := (queue s)[qi := message_entry pid tid (tail_generation s) m orig],
                        tail_generation := tail_generation s + 1\<rparr>)))"

section \<open>Queueing a reply token\<close>

fun response_loop :: "nat \<Rightarrow> Server \<Rightarrow> nat \<Rightarrow> (Error, nat) outcome" where
  "response_loop 0 s qi = Panic"
| "response_loop (Suc n) s qi =
     (if qi \<ge> length (queue s) then Panic
      else if queue s ! qi = Q_Empty then Ok qi
      else (let qi' = ring_next (length (queue s)) qi
            in if qi' = queue_head s then Err ServerQueueFull else response_loop n s qi'))"

definition response_entry :: "PID \<Rightarrow> TID \<Rightarrow> Message \<Rightarrow> usize option \<Rightarrow> QueuedMessage" where
  "response_entry pid tid m client =
     (case m of
        Scalar _ \<Rightarrow> Q_WaitingReturnScalar (ucast pid) (ucast tid) 0 (nz_or_zero client)
      | BlockingScalar _ \<Rightarrow> Q_WaitingReturnScalar (ucast pid) (ucast tid) 0 (nz_or_zero client)
      | Move c \<Rightarrow> Q_WaitingForget (ucast pid) (ucast tid) 0
                    (addr (mm_buf c)) (nz_or_zero client) (rsize (mm_buf c))
      | MutableBorrow c \<Rightarrow> Q_WaitingReturnMemory (ucast pid) (ucast tid) 0
                    (addr (mm_buf c)) (nz_or_zero client) (rsize (mm_buf c))
      | Borrow c \<Rightarrow> Q_WaitingReturnMemory (ucast pid) (ucast tid) 0
                    (addr (mm_buf c)) (nz_or_zero client) (rsize (mm_buf c)))"

definition queue_response ::
  "PID \<Rightarrow> TID \<Rightarrow> Message \<Rightarrow> usize option \<Rightarrow> Server \<Rightarrow> (Error, nat \<times> Server) outcome" where
  "queue_response pid tid m client s =
     bind_outcome (response_loop (length (queue s)) s (queue_head s)) (\<lambda>qi.
       Ok (qi, advance_head qi (s\<lparr>queue := (queue s)[qi := response_entry pid tid m client]\<rparr>)))"

section \<open>Threads waiting to receive\<close>

text \<open>
  The mask is rotated through the word; the loop looks at each bit once. A shift
  by a thread number uses its low five bits, as the unchecked shift does.
\<close>

fun available_thread_loop :: "nat \<Rightarrow> usize \<Rightarrow> usize \<Rightarrow> usize \<Rightarrow> (Error, TID \<times> usize) outcome" where
  "available_thread_loop 0 ready test_mask n = Panic"
| "available_thread_loop (Suc k) ready test_mask n =
     (if ready AND test_mask = test_mask then Ok (n, ready AND NOT test_mask)
      else let test_mask' = word_rotl 1 test_mask
           in if test_mask' = 1 then Panic
              else available_thread_loop k ready test_mask' (n + 1))"

definition take_available_thread :: "Server \<Rightarrow> (Error, TID option \<times> Server) outcome" where
  "take_available_thread s =
     (if ready_threads s = 0 then Ok (None, s)
      else bind_outcome (available_thread_loop 32 (ready_threads s) 1 0) (\<lambda>(n, r).
             Ok (Some n, s\<lparr>ready_threads := r\<rparr>)))"

definition thread_bit :: "TID \<Rightarrow> usize" where
  "thread_bit tid = push_bit (unat (tid AND 31)) 1"

definition return_available_thread :: "TID \<Rightarrow> Server \<Rightarrow> (Error, Server) outcome" where
  "return_available_thread tid s =
     (if ready_threads s AND thread_bit tid \<noteq> 0 then Panic
      else Ok (s\<lparr>ready_threads := ready_threads s OR thread_bit tid\<rparr>))"

definition park_thread :: "TID \<Rightarrow> Server \<Rightarrow> (Error, Server) outcome" where
  "park_thread tid s =
     (if ready_threads s AND thread_bit tid = 0
      then Ok (s\<lparr>ready_threads := ready_threads s OR thread_bit tid\<rparr>) else Panic)"

end
