(* ===== verification/Queue_Spec.thy ===== *)
theory Queue_Spec
  imports Prelude
begin

text \<open>
  What a client of a message queue relies on, independent of how the queue is
  stored. \<open>fifo_queue\<close> is the contract of a first-in first-out queue whose other
  operations do not disturb the waiting messages; \<open>token_queue\<close> adds that a reply
  token, once issued, stays valid until it is redeemed. The consequences for
  arbitrary interleavings of operations are proved here once.
\<close>

datatype ('x, 'o) queue_op = Enq 'x | Deq | Aux 'o

text \<open>
  A run of operations: a refused enqueue and a dequeue of an empty queue leave the
  state alone. The result lists what was accepted and what was delivered.
\<close>

fun queue_run ::
  "('x \<Rightarrow> 's \<Rightarrow> 's option) \<Rightarrow> ('s \<Rightarrow> ('y \<times> 's) option) \<Rightarrow> ('o \<Rightarrow> 's \<Rightarrow> 's) \<Rightarrow>
   ('x, 'o) queue_op list \<Rightarrow> 's \<Rightarrow> 'x list \<times> 'y list \<times> 's" where
  "queue_run enq deq aux [] s = ([], [], s)"
| "queue_run enq deq aux (Enq x # ops) s =
     (case enq x s of
        None \<Rightarrow> queue_run enq deq aux ops s
      | Some s' \<Rightarrow> (case queue_run enq deq aux ops s' of (xs, ys, t) \<Rightarrow> (x # xs, ys, t)))"
| "queue_run enq deq aux (Deq # ops) s =
     (case deq s of
        None \<Rightarrow> queue_run enq deq aux ops s
      | Some (y, s') \<Rightarrow> (case queue_run enq deq aux ops s' of (xs, ys, t) \<Rightarrow> (xs, y # ys, t)))"
| "queue_run enq deq aux (Aux a # ops) s = queue_run enq deq aux ops (aux a s)"

fun valid_op :: "('x \<Rightarrow> bool) \<Rightarrow> ('o \<Rightarrow> bool) \<Rightarrow> ('x, 'o) queue_op \<Rightarrow> bool" where
  "valid_op vx vo (Enq x) = vx x"
| "valid_op vx vo Deq = True"
| "valid_op vx vo (Aux a) = vo a"

fun keeps_op :: "('o \<Rightarrow> nat \<Rightarrow> bool) \<Rightarrow> nat \<Rightarrow> ('x, 'o) queue_op \<Rightarrow> bool" where
  "keeps_op redeems i (Aux a) = (\<not> redeems a i)"
| "keeps_op redeems i _ = True"

locale fifo_queue =
  fixes inv :: "'s \<Rightarrow> bool"
    and contents :: "'s \<Rightarrow> 'm list"
    and enq :: "'x \<Rightarrow> 's \<Rightarrow> 's option"
    and deq :: "'s \<Rightarrow> ('y \<times> 's) option"
    and aux :: "'o \<Rightarrow> 's \<Rightarrow> 's"
    and view_in :: "'x \<Rightarrow> 'm"
    and view_out :: "'y \<Rightarrow> 'm"
    and vx :: "'x \<Rightarrow> bool"
    and vo :: "'o \<Rightarrow> bool"
  assumes enq_law: "\<lbrakk>inv s; vx x; enq x s = Some s'\<rbrakk>
            \<Longrightarrow> inv s' \<and> contents s' = contents s @ [view_in x]"
    and deq_empty: "\<lbrakk>inv s; contents s = []\<rbrakk> \<Longrightarrow> deq s = None"
    and deq_law: "\<lbrakk>inv s; contents s = m # ms\<rbrakk>
            \<Longrightarrow> \<exists>y s'. deq s = Some (y, s') \<and> view_out y = m \<and> inv s' \<and> contents s' = ms"
    and aux_law: "\<lbrakk>inv s; vo a\<rbrakk> \<Longrightarrow> inv (aux a s) \<and> contents (aux a s) = contents s"
begin

lemma deq_step:
  assumes "inv s" "deq s = Some (y, s')"
  shows "inv s' \<and> contents s = view_out y # contents s'"
  using assms deq_empty [of s] deq_law [of s] by (cases "contents s") fastforce+

text \<open>What was waiting and what was accepted is what was delivered and what still waits.\<close>

lemma run_conserves:
  assumes "inv s" "list_all (valid_op vx vo) ops" "queue_run enq deq aux ops s = (xs, ys, t)"
  shows "inv t \<and> contents s @ map view_in xs = map view_out ys @ contents t"
  using assms
proof (induction ops arbitrary: s xs ys)
  case (Cons a ops)
  then show ?case
  proof (cases a)
    case (Enq x)
    show ?thesis
    proof (cases "enq x s")
      case None
      then show ?thesis using Cons Enq by simp
    next
      case (Some s')
      obtain xs' where r: "queue_run enq deq aux ops s' = (xs', ys, t)" "xs = x # xs'"
        using Cons.prems(3) Enq Some by (auto split: prod.splits)
      note e = enq_law [OF Cons.prems(1) _ Some]
      have "inv t \<and> contents s' @ map view_in xs' = map view_out ys @ contents t"
        by (rule Cons.IH) (use e r Cons.prems Enq in auto)
      thus ?thesis using e r Cons.prems(2) Enq by simp
    qed
  next
    case Deq
    show ?thesis
    proof (cases "deq s")
      case None
      then show ?thesis using Cons Deq by simp
    next
      case (Some p)
      obtain y s' where p: "p = (y, s')" by (cases p)
      obtain ys' where r: "queue_run enq deq aux ops s' = (xs, ys', t)" "ys = y # ys'"
        using Cons.prems(3) Deq Some p by (auto split: prod.splits)
      note d = deq_step [OF Cons.prems(1) Some [unfolded p]]
      have "inv t \<and> contents s' @ map view_in xs = map view_out ys' @ contents t"
        by (rule Cons.IH) (use d r Cons.prems in auto)
      thus ?thesis using d r by simp
    qed
  next
    case (Aux o1)
    then show ?thesis using Cons.IH [of "aux o1 s" xs ys] Cons.prems aux_law [of s o1] by auto
  qed
qed simp

end

locale token_queue = fifo_queue +
  fixes token :: "nat \<Rightarrow> 's \<Rightarrow> 't option"
    and redeems :: "'o \<Rightarrow> nat \<Rightarrow> bool"
  assumes enq_token: "\<lbrakk>inv s; vx x; enq x s = Some s'; token i s = Some w\<rbrakk> \<Longrightarrow> token i s' = Some w"
    and deq_token: "\<lbrakk>inv s; deq s = Some (y, s'); token i s = Some w\<rbrakk> \<Longrightarrow> token i s' = Some w"
    and aux_token: "\<lbrakk>inv s; vo a; \<not> redeems a i; token i s = Some w\<rbrakk>
            \<Longrightarrow> token i (aux a s) = Some w"
begin

lemma run_keeps_token:
  assumes "inv s" "list_all (valid_op vx vo) ops" "list_all (keeps_op redeems i) ops" "token i s = Some w"
    "queue_run enq deq aux ops s = (xs, ys, t)"
  shows "token i t = Some w"
  using assms
proof (induction ops arbitrary: s xs ys)
  case (Cons a ops)
  then show ?case
  proof (cases a)
    case (Enq x)
    then show ?thesis
      using Cons enq_law [of s x] enq_token [of s x]
      by (cases "enq x s") (auto split: prod.splits)
  next
    case Deq
    then show ?thesis
      using Cons deq_step [of s] deq_token [of s]
      by (cases "deq s") (auto split: prod.splits)
  next
    case (Aux o1)
    then show ?thesis using Cons.IH [of "aux o1 s" xs ys] Cons.prems aux_law [of s o1] aux_token [of s o1]
      by auto
  qed
qed simp

end

end
