(* ===== verification/Server_Queue.thy ===== *)
theory Server_Queue
  imports Server Queue_Spec
begin

text \<open>
  Correctness of the server queue. The abstraction \<open>contents\<close> reads the pending
  slots in the order of their generations; the invariant \<open>wf_queue\<close> says that the
  pending generations are exactly the window from the head to the tail generation,
  each in one slot. Every operation is shown to keep the invariant and to act on
  \<open>contents\<close> as on a list.
\<close>

section \<open>Abstraction and invariant\<close>

text \<open>The generation of a slot whose message the server has not received yet.\<close>

definition pend_gen :: "QueuedMessage \<Rightarrow> u8 option" where
  "pend_gen m =
     (case m of
        Q_BlockingScalarMessage _ _ g _ _ _ _ _ _ \<Rightarrow> Some g
      | Q_ScalarMessage _ _ g _ _ _ _ _ _ \<Rightarrow> Some g
      | Q_MemoryMessageSend _ _ g _ _ _ _ _ _ \<Rightarrow> Some g
      | Q_MemoryMessageROLend _ _ g _ _ _ _ _ _ \<Rightarrow> Some g
      | Q_MemoryMessageRWLend _ _ g _ _ _ _ _ _ \<Rightarrow> Some g
      | Q_MemoryMessageROLendTerminated _ _ g _ _ _ _ _ _ \<Rightarrow> Some g
      | Q_MemoryMessageRWLendTerminated _ _ g _ _ _ _ _ _ \<Rightarrow> Some g
      | Q_BlockingScalarTerminated _ _ g _ _ _ _ _ _ \<Rightarrow> Some g
      | _ \<Rightarrow> None)"

text \<open>The sender and the message a slot stands for.\<close>

definition mem_body :: "usize \<Rightarrow> usize \<Rightarrow> usize \<Rightarrow> usize \<Rightarrow> usize \<Rightarrow> MemoryMessage" where
  "mem_body i sa bs off val =
     \<lparr>mm_id = i, mm_buf = \<lparr>addr = sa, rsize = bs\<rparr>, mm_offset = nonzero off, mm_valid = nonzero val\<rparr>"

definition slot_msg :: "QueuedMessage \<Rightarrow> PID option \<times> Message" where
  "slot_msg m =
     (case m of
        Q_BlockingScalarMessage p _ _ _ i a b c d \<Rightarrow>
          (nonzero (ucast p), BlockingScalar (ScalarMessage_from_usize i a b c d))
      | Q_ScalarMessage p _ _ _ i a b c d \<Rightarrow>
          (nonzero (ucast p), Scalar (ScalarMessage_from_usize i a b c d))
      | Q_BlockingScalarTerminated p _ _ _ i a b c d \<Rightarrow>
          (nonzero (ucast p), Scalar (ScalarMessage_from_usize i a b c d))
      | Q_MemoryMessageSend p _ _ _ i sa bs off val \<Rightarrow>
          (nonzero (ucast p), Move (mem_body i sa bs off val))
      | Q_MemoryMessageROLend p _ _ _ i sa bs off val \<Rightarrow>
          (nonzero (ucast p), Borrow (mem_body i sa bs off val))
      | Q_MemoryMessageROLendTerminated p _ _ _ i sa bs off val \<Rightarrow>
          (nonzero (ucast p), Borrow (mem_body i sa bs off val))
      | Q_MemoryMessageRWLend p _ _ _ i sa bs off val \<Rightarrow>
          (nonzero (ucast p), MutableBorrow (mem_body i sa bs off val))
      | Q_MemoryMessageRWLendTerminated p _ _ _ i sa bs off val \<Rightarrow>
          (nonzero (ucast p), MutableBorrow (mem_body i sa bs off val))
      | _ \<Rightarrow> (None, Scalar (ScalarMessage_from_usize 0 0 0 0 0)))"

text \<open>
  Who waits for the reply: the client thread and, for a lent buffer, its address in
  the client; nobody for a message that needs no reply.
\<close>

definition slot_owner :: "QueuedMessage \<Rightarrow> (u8 \<times> usize) option" where
  "slot_owner m =
     (case m of
        Q_BlockingScalarMessage _ t _ ca _ _ _ _ _ \<Rightarrow> Some (t, ca)
      | Q_MemoryMessageROLend _ t _ ca _ _ _ _ _ \<Rightarrow> Some (t, ca)
      | Q_MemoryMessageRWLend _ t _ ca _ _ _ _ _ \<Rightarrow> Some (t, ca)
      | Q_MemoryMessageROLendTerminated _ t _ ca _ _ _ _ _ \<Rightarrow> Some (t, ca)
      | Q_MemoryMessageRWLendTerminated _ t _ ca _ _ _ _ _ \<Rightarrow> Some (t, ca)
      | _ \<Rightarrow> None)"

type_synonym message_view = "(PID option \<times> Message) \<times> (u8 \<times> usize) option"

definition slot_view :: "QueuedMessage \<Rightarrow> message_view" where
  "slot_view m = (slot_msg m, slot_owner m)"

text \<open>
  A slot filled by the kernel: the client identifier is a non-zero byte, a
  buffer has an address and a size.
\<close>

definition wf_buffer_slot :: "u16 \<Rightarrow> usize \<Rightarrow> usize \<Rightarrow> bool" where
  "wf_buffer_slot p sa bs = (p \<le> 0xff \<and> p \<noteq> 0 \<and> sa \<noteq> 0 \<and> bs \<noteq> 0)"

definition wf_slot :: "QueuedMessage \<Rightarrow> bool" where
  "wf_slot m =
     (case m of
        Q_BlockingScalarMessage p _ _ _ _ _ _ _ _ \<Rightarrow> p \<le> 0xff \<and> p \<noteq> 0
      | Q_ScalarMessage p _ _ _ _ _ _ _ _ \<Rightarrow> p \<le> 0xff \<and> p \<noteq> 0
      | Q_BlockingScalarTerminated p _ _ _ _ _ _ _ _ \<Rightarrow> p \<le> 0xff \<and> p \<noteq> 0
      | Q_MemoryMessageSend p _ _ _ _ sa bs _ _ \<Rightarrow> wf_buffer_slot p sa bs
      | Q_MemoryMessageROLend p _ _ ca _ sa bs _ _ \<Rightarrow> wf_buffer_slot p sa bs \<and> ca \<noteq> 0
      | Q_MemoryMessageROLendTerminated p _ _ ca _ sa bs _ _ \<Rightarrow> wf_buffer_slot p sa bs \<and> ca \<noteq> 0
      | Q_MemoryMessageRWLend p _ _ ca _ sa bs _ _ \<Rightarrow> wf_buffer_slot p sa bs \<and> ca \<noteq> 0
      | Q_MemoryMessageRWLendTerminated p _ _ ca _ sa bs _ _ \<Rightarrow> wf_buffer_slot p sa bs \<and> ca \<noteq> 0
      | Q_WaitingReturnMemory p _ _ sa ca bs \<Rightarrow> wf_buffer_slot p sa bs \<and> ca \<noteq> 0
      | Q_WaitingForget p _ _ sa _ bs \<Rightarrow> wf_buffer_slot p sa bs
      | Q_WaitingReturnScalar p _ _ _ \<Rightarrow> p \<le> 0xff \<and> p \<noteq> 0
      | Q_Empty \<Rightarrow> True)"

text \<open>Number of messages waiting, and whether a generation is among theirs.\<close>

definition pend_count :: "Server \<Rightarrow> nat" where
  "pend_count s = unat (tail_generation s - head_generation s)"

definition in_window :: "Server \<Rightarrow> u8 \<Rightarrow> bool" where
  "in_window s g = (unat (g - head_generation s) < pend_count s)"

definition entry_of :: "QueuedMessage list \<Rightarrow> u8 \<Rightarrow> QueuedMessage" where
  "entry_of q g = (case filter (\<lambda>m. pend_gen m = Some g) q of [] \<Rightarrow> Q_Empty | m # _ \<Rightarrow> m)"

definition contents :: "Server \<Rightarrow> message_view list" where
  "contents s =
     map (\<lambda>k. slot_view (entry_of (queue s) (head_generation s + of_nat k))) [0 ..< pend_count s]"

definition gens_unique :: "QueuedMessage list \<Rightarrow> bool" where
  "gens_unique q =
     (\<forall>i < length q. \<forall>j < length q.
        pend_gen (q ! i) = pend_gen (q ! j) \<longrightarrow> pend_gen (q ! i) \<noteq> None \<longrightarrow> i = j)"

definition wf_queue :: "Server \<Rightarrow> bool" where
  "wf_queue s =
     (queue_head s < length (queue s) \<and> queue_tail s < length (queue s) \<and>
      length (queue s) \<le> 65536 \<and>
      list_all wf_slot (queue s) \<and> gens_unique (queue s) \<and>
      (\<forall>g. (Some g \<in> pend_gen ` set (queue s)) = in_window s g))"

section \<open>Sender identifiers\<close>

lemma SenderID_pid_bits:
  "ucast (drop_bit 24 (SenderID_to_usize v)) = nz_or_zero (snd_pid v)"
  unfolding SenderID_to_usize_def byte_masks
  by (rule bit_word_eqI)
     (auto simp: bit_simps dest: bit_imp_le_length)

lemma SenderID_idx_bits:
  "SenderID_to_usize v AND 0xffff = snd_idx v AND 0xffff"
  unfolding SenderID_to_usize_def byte_masks
  by (rule bit_word_eqI) (auto simp: bit_simps)

lemma SenderID_sidx_bits:
  "drop_bit 16 (SenderID_to_usize v) AND 0xff = snd_sidx v AND 0xff"
  unfolding SenderID_to_usize_def byte_masks
  by (rule bit_word_eqI) (auto simp: bit_simps)

lemma SenderID_round_trip:
  assumes "unat (snd_sidx v) < 256" "unat (snd_idx v) < 65536" "wf_nz (snd_pid v)"
  shows "SenderID_from_usize (SenderID_to_usize v) = v"
proof -
  have "snd_sidx v AND 0xff = snd_sidx v" "snd_idx v AND 0xffff = snd_idx v"
    unfolding byte_masks take_bit_eq_mask [symmetric] using assms by (simp_all add: take_bit_usize_self)
  thus ?thesis
    using assms(3)
    by (simp add: SenderID_from_usize_def SenderID_pid_bits SenderID_idx_bits SenderID_sidx_bits)
qed

lemma sender_pid_packed:
  "wf_nz (snd_pid v) \<Longrightarrow> MessageSender_pid (SenderID_to_sender v) = snd_pid v"
  unfolding MessageSender_pid_def SenderID_to_sender_def
  by (simp add: ucast_and_ff SenderID_pid_bits)

section \<open>Slots and generations\<close>

lemma gens_uniqueD:
  "\<lbrakk>gens_unique q; i < length q; j < length q; pend_gen (q ! i) = Some g; pend_gen (q ! j) = Some g\<rbrakk>
     \<Longrightarrow> i = j"
  by (auto simp: gens_unique_def)

lemma entry_of_nth:
  assumes "gens_unique q" "i < length q" "pend_gen (q ! i) = Some g"
  shows "entry_of q g = q ! i"
proof -
  have "q ! i \<in> set (filter (\<lambda>m. pend_gen m = Some g) q)" using assms by simp
  then obtain m ms where f: "filter (\<lambda>m. pend_gen m = Some g) q = m # ms"
    by (cases "filter (\<lambda>m. pend_gen m = Some g) q") auto
  hence "m \<in> set q \<and> pend_gen m = Some g" using filter_eq_ConsD by fastforce
  then obtain j where "j < length q" "q ! j = m" "pend_gen (q ! j) = Some g"
    by (auto simp: in_set_conv_nth)
  with assms have "q ! i = m" using gens_uniqueD by blast
  thus ?thesis by (simp add: entry_of_def f)
qed

lemma mem_pend_gen: "(Some g \<in> pend_gen ` set q) = (\<exists>j < length q. pend_gen (q ! j) = Some g)"
proof
  assume "Some g \<in> pend_gen ` set q"
  thus "\<exists>j < length q. pend_gen (q ! j) = Some g" by (auto simp: in_set_conv_nth)
next
  assume "\<exists>j < length q. pend_gen (q ! j) = Some g"
  then obtain j where "j < length q" "pend_gen (q ! j) = Some g" by blast
  thus "Some g \<in> pend_gen ` set q" by (metis image_eqI nth_mem)
qed

lemma pending_slot_ex:
  assumes "Some g \<in> pend_gen ` set q"
  obtains i where "i < length q" "pend_gen (q ! i) = Some g"
  using assms by (auto simp: mem_pend_gen)

lemma pend_gen_update:
  assumes "gens_unique q" "i < length q"
  shows "(Some g \<in> pend_gen ` set (q[i := x])) =
         (pend_gen x = Some g \<or> (Some g \<in> pend_gen ` set q \<and> pend_gen (q ! i) \<noteq> Some g))"
proof -
  have "(Some g \<in> pend_gen ` set (q[i := x])) =
        (pend_gen x = Some g \<or> (\<exists>j < length q. j \<noteq> i \<and> pend_gen (q ! j) = Some g))"
    using assms(2) by (auto simp: mem_pend_gen nth_list_update)
  also have "(\<exists>j < length q. j \<noteq> i \<and> pend_gen (q ! j) = Some g) =
             (Some g \<in> pend_gen ` set q \<and> pend_gen (q ! i) \<noteq> Some g)"
    using assms gens_uniqueD [OF assms(1)] by (auto simp: mem_pend_gen)
  finally show ?thesis .
qed

lemma gens_unique_update:
  assumes "gens_unique q" "i < length q"
    "\<And>g. pend_gen x = Some g \<Longrightarrow> Some g \<notin> pend_gen ` set q"
  shows "gens_unique (q[i := x])"
proof -
  have "a = b"
    if h: "a < length q" "b < length q" "pend_gen (q[i := x] ! a) = Some g"
      "pend_gen (q[i := x] ! b) = Some g" for a b g
  proof (cases "pend_gen x = Some g")
    case True
    hence "\<forall>j < length q. pend_gen (q ! j) \<noteq> Some g" using assms(3) mem_pend_gen by blast
    hence "a = i \<and> b = i" using h by (metis nth_list_update_neq)
    thus ?thesis by simp
  next
    case False
    hence "pend_gen (q ! a) = Some g \<and> pend_gen (q ! b) = Some g"
      using h by (metis nth_list_update_eq nth_list_update_neq)
    thus ?thesis using h gens_uniqueD [OF assms(1)] by blast
  qed
  thus ?thesis by (auto simp: gens_unique_def)
qed

lemma entry_of_update:
  assumes "gens_unique q" "i < length q" "Some g \<in> pend_gen ` set q" "pend_gen (q ! i) \<noteq> Some g"
    "gens_unique (q[i := x])"
  shows "entry_of (q[i := x]) g = entry_of q g"
proof -
  obtain j where j: "j < length q" "pend_gen (q ! j) = Some g"
    using assms(3) by (rule pending_slot_ex)
  with assms have "j \<noteq> i" by auto
  with j show ?thesis
    using entry_of_nth [OF assms(5), of j g] entry_of_nth [OF assms(1), of j g] by simp
qed

lemma pend_gen_cases:
  "pend_gen Q_Empty = None"
  "is_in_server m \<Longrightarrow> pend_gen m = None"
  "pend_gen (message_entry pid tid g msg orig) = Some g"
  "pend_gen (response_entry pid tid msg client) = None"
  "pend_gen (discard_entry pid m) = pend_gen m"
  by (auto simp: pend_gen_def is_in_server_def message_entry_def response_entry_def
        discard_entry_def split: QueuedMessage.splits Message.splits)

section \<open>Generation arithmetic\<close>

lemma pend_count_push:
  assumes "tail_generation s \<noteq> head_generation s - 1"
  shows "unat (tail_generation s + 1 - head_generation s) = Suc (pend_count s)"
proof -
  let ?d = "tail_generation s - head_generation s"
  have "1 + ?d \<noteq> 0"
  proof
    assume "1 + ?d = 0"
    hence "tail_generation s = head_generation s - 1" by (simp add: algebra_simps eq_diff_eq)
    thus False using assms by simp
  qed
  hence "unat (1 + ?d) = Suc (unat ?d)" by (rule unatSuc)
  thus ?thesis by (simp add: pend_count_def algebra_simps)
qed

lemma pend_count_pop:
  assumes "tail_generation s \<noteq> head_generation s"
  shows "unat (tail_generation s - (head_generation s + 1)) = pend_count s - 1" "0 < pend_count s"
proof -
  have "tail_generation s - head_generation s \<noteq> 0" using assms by simp
  hence "unat (tail_generation s - head_generation s - 1) = pend_count s - 1" "0 < pend_count s"
    by (simp_all add: unat_minus_one pend_count_def unat_gt_0)
  thus "unat (tail_generation s - (head_generation s + 1)) = pend_count s - 1" "0 < pend_count s"
    by (simp_all add: algebra_simps)
qed

lemma unat_of_nat_u8: "k < 256 \<Longrightarrow> unat (of_nat k :: u8) = k"
  by (simp add: unsigned_of_nat take_bit_nat_eq_self)

lemma pend_count_less: "pend_count s < 256"
  unfolding pend_count_def by (rule unsigned_u8_less)

lemma in_window_iff:
  "in_window s g = (\<exists>k < pend_count s. g = head_generation s + of_nat k)"
proof
  assume "in_window s g"
  hence "unat (g - head_generation s) < pend_count s" by (simp add: in_window_def)
  moreover have "g = head_generation s + of_nat (unat (g - head_generation s))" by simp
  ultimately show "\<exists>k < pend_count s. g = head_generation s + of_nat k" by blast
next
  assume "\<exists>k < pend_count s. g = head_generation s + of_nat k"
  then obtain k where "k < pend_count s" "g = head_generation s + of_nat k" by blast
  thus "in_window s g"
    using pend_count_less [of s] by (simp add: in_window_def unat_of_nat_u8)
qed

section \<open>Queue updates\<close>

lemma wf_queueD:
  assumes "wf_queue s"
  shows "queue_head s < length (queue s)" "queue_tail s < length (queue s)"
    "length (queue s) \<le> 65536" "list_all wf_slot (queue s)" "gens_unique (queue s)"
    "\<And>g. (Some g \<in> pend_gen ` set (queue s)) = in_window s g"
  using assms by (simp_all add: wf_queue_def)

lemma ring_next_less: "0 < len \<Longrightarrow> ring_next len i < len"
  by (auto simp: ring_next_def)

lemma list_all_update: "list_all P q \<Longrightarrow> P x \<Longrightarrow> list_all P (q[i := x])"
  by (simp add: list_all_iff set_update_subset_insert [THEN subsetD, THEN insertE])
     (metis insertE set_update_subset_insert subsetD)

text \<open>A slot outside the window is replaced: the pending messages do not change.\<close>

lemma token_update:
  assumes wf: "wf_queue s" and i: "i < length (queue s)"
    and old: "pend_gen (queue s ! i) = None" and new: "pend_gen x = None" "wf_slot x"
    and s': "queue s' = (queue s)[i := x]" "head_generation s' = head_generation s"
      "tail_generation s' = tail_generation s" "queue_head s' < length (queue s)"
      "queue_tail s' < length (queue s)"
  shows "wf_queue s' \<and> contents s' = contents s"
proof -
  note D = wf_queueD [OF wf]
  have u: "gens_unique ((queue s)[i := x])" using gens_unique_update [OF D(5) i, of x] new by simp
  have m: "(Some g \<in> pend_gen ` set ((queue s)[i := x])) = in_window s g" for g
    using pend_gen_update [OF D(5) i, of g x] new old D(6) by simp
  have w: "in_window s' g = in_window s g" for g
    using s' by (simp add: in_window_def pend_count_def)
  have e: "entry_of ((queue s)[i := x]) g = entry_of (queue s) g" if "in_window s g" for g
    using entry_of_update [OF D(5) i _ _ u] that old D(6) by simp
  have ek: "entry_of ((queue s)[i := x]) (head_generation s + of_nat k) =
            entry_of (queue s) (head_generation s + of_nat k)" if "k < pend_count s" for k
    using e in_window_iff that by blast
  have "wf_queue s'"
    unfolding wf_queue_def using s' u m w D list_all_update [OF D(4) new(2)] by simp
  moreover have "contents s' = contents s"
    unfolding contents_def using s' ek by (auto simp: pend_count_def)
  ultimately show ?thesis ..
qed

text \<open>An empty slot receives a message stamped with the tail generation.\<close>

lemma push_update:
  assumes wf: "wf_queue s" and i: "i < length (queue s)" and old: "pend_gen (queue s ! i) = None"
    and cap: "tail_generation s \<noteq> head_generation s - 1"
    and new: "pend_gen x = Some (tail_generation s)" "wf_slot x"
    and s': "queue s' = (queue s)[i := x]" "head_generation s' = head_generation s"
      "tail_generation s' = tail_generation s + 1" "queue_head s' < length (queue s)"
      "queue_tail s' < length (queue s)"
  shows "wf_queue s' \<and> contents s' = contents s @ [slot_view x]"
proof -
  note D = wf_queueD [OF wf]
  have c': "pend_count s' = Suc (pend_count s)"
    using pend_count_push [OF cap] s' by (simp add: pend_count_def)
  have t: "tail_generation s = head_generation s + of_nat (pend_count s)"
    by (simp add: pend_count_def)
  have w: "in_window s' g = (in_window s g \<or> g = tail_generation s)" for g
    unfolding in_window_iff c' s'(2) t by (auto simp: less_Suc_eq)
  have nt: "\<not> in_window s (tail_generation s)"
    by (simp add: in_window_def pend_count_def)
  have u: "gens_unique ((queue s)[i := x])"
    using gens_unique_update [OF D(5) i, of x] new nt D(6) by auto
  have m: "(Some g \<in> pend_gen ` set ((queue s)[i := x])) = in_window s' g" for g
    using pend_gen_update [OF D(5) i, of g x] new old D(6) w by auto
  have e: "entry_of ((queue s)[i := x]) g = entry_of (queue s) g" if "in_window s g" for g
    using entry_of_update [OF D(5) i _ _ u] that old D(6) by simp
  have ek: "entry_of ((queue s)[i := x]) (head_generation s + of_nat k) =
            entry_of (queue s) (head_generation s + of_nat k)" if "k < pend_count s" for k
    using e in_window_iff that by blast
  have x: "entry_of ((queue s)[i := x]) (tail_generation s) = x"
    using entry_of_nth [OF u, of i] i new by simp
  have "wf_queue s'"
    unfolding wf_queue_def using s' u m D list_all_update [OF D(4) new(2)] by simp
  moreover have "contents s' = contents s @ [slot_view x]"
    unfolding contents_def c' s' using ek x t by simp
  ultimately show ?thesis ..
qed

text \<open>The slot stamped with the head generation is received.\<close>

lemma pop_update:
  assumes wf: "wf_queue s" and i: "i < length (queue s)"
    and old: "pend_gen (queue s ! i) = Some (head_generation s)"
    and ne: "tail_generation s \<noteq> head_generation s"
    and new: "pend_gen x = None" "wf_slot x"
    and s': "queue s' = (queue s)[i := x]" "head_generation s' = head_generation s + 1"
      "tail_generation s' = tail_generation s" "queue_head s' < length (queue s)"
      "queue_tail s' < length (queue s)"
  shows "wf_queue s' \<and> contents s = slot_view (queue s ! i) # contents s'"
proof -
  note D = wf_queueD [OF wf]
  have c': "pend_count s = Suc (pend_count s')"
    using pend_count_pop [OF ne] s' by (simp add: pend_count_def)
  have w: "in_window s g = (in_window s' g \<or> g = head_generation s)" for g
    unfolding in_window_iff c' s'(2) by (auto simp: less_Suc_eq_0_disj add.assoc)
  have nh: "\<not> in_window s' (head_generation s)"
  proof
    assume "in_window s' (head_generation s)"
    then obtain k where k: "k < pend_count s'" "head_generation s = head_generation s + 1 + of_nat k"
      unfolding in_window_iff s'(2) by blast
    hence "of_nat (Suc k) = (0 :: u8)" by (simp add: algebra_simps)
    moreover have "Suc k < 256" using k(1) c' pend_count_less [of s] by simp
    ultimately show False using unat_of_nat_u8 [of "Suc k"] by simp
  qed
  have u: "gens_unique ((queue s)[i := x])" using gens_unique_update [OF D(5) i, of x] new by simp
  have m: "(Some g \<in> pend_gen ` set ((queue s)[i := x])) = in_window s' g" for g
    using pend_gen_update [OF D(5) i, of g x] new old D(6) w nh by auto
  have e: "entry_of ((queue s)[i := x]) g = entry_of (queue s) g" if "in_window s' g" for g
    using entry_of_update [OF D(5) i _ _ u, of g] that old D(6) w nh by auto
  have ek: "entry_of ((queue s)[i := x]) (head_generation s + 1 + of_nat k) =
            entry_of (queue s) (head_generation s + 1 + of_nat k)" if "k < pend_count s'" for k
    using e in_window_iff [of s'] s'(2) that by simp metis
  have h: "entry_of (queue s) (head_generation s) = queue s ! i"
    using entry_of_nth [OF D(5) i old] .
  have "wf_queue s'"
    unfolding wf_queue_def using s' u m D list_all_update [OF D(4) new(2)] by simp
  moreover have "contents s = slot_view (queue s ! i) # contents s'"
    unfolding contents_def c' s' upt_conv_Cons [OF zero_less_Suc] map_Suc_upt [symmetric]
    using ek h by (auto simp: add.assoc)
  ultimately show ?thesis ..
qed

section \<open>Operations on the ring\<close>

text \<open>What the kernel hands to \<open>queue_message\<close>: a lent buffer comes with its address in the client.\<close>

definition sendable :: "PID \<Rightarrow> Message \<Rightarrow> usize option \<Rightarrow> bool" where
  "sendable pid m orig =
     (pid \<noteq> 0 \<and> wf_message m \<and>
      (has_memory m \<and> is_blocking m \<longrightarrow> nz_or_zero orig \<noteq> 0))"

lemma wf_slot_message_entry:
  "sendable pid m orig \<Longrightarrow> wf_slot (message_entry pid tid g m orig)"
  by (cases m)
     (auto simp: sendable_def wf_slot_def message_entry_def wf_buffer_slot_def wf_message_def
       wf_memory_message_def wf_range_def)

definition sent_view :: "PID \<Rightarrow> TID \<Rightarrow> Message \<Rightarrow> usize option \<Rightarrow> message_view" where
  "sent_view pid tid m orig =
     ((Some pid, m),
      if is_blocking m then Some (ucast tid, if has_memory m then nz_or_zero orig else 0) else None)"

lemma slot_view_message_entry:
  "sendable pid m orig \<Longrightarrow> slot_view (message_entry pid tid g m orig) = sent_view pid tid m orig"
  by (cases m)
     (auto simp: sendable_def slot_view_def slot_msg_def slot_owner_def sent_view_def
       message_entry_def mem_body_def wf_message_def wf_memory_message_def)

lemma wf_slot_response_entry:
  "sendable pid m client \<Longrightarrow> wf_slot (response_entry pid tid m client)"
  by (cases m)
     (auto simp: sendable_def wf_slot_def response_entry_def wf_buffer_slot_def wf_message_def
       wf_memory_message_def wf_range_def)

lemma advance_head_sel [simp]:
  "queue (advance_head i s) = queue s" "queue_tail (advance_head i s) = queue_tail s"
  "head_generation (advance_head i s) = head_generation s"
  "tail_generation (advance_head i s) = tail_generation s"
  "ready_threads (advance_head i s) = ready_threads s"
  by (simp_all add: advance_head_def)

lemma advance_head_less:
  "queue_head s < length (queue s) \<Longrightarrow> queue_head (advance_head i s) < length (queue s)"
  by (auto simp: advance_head_def intro: ring_next_less)

lemma find_empty_Some:
  "find_empty q ixs = Some i \<Longrightarrow> i \<in> set ixs \<and> q ! i = Q_Empty"
  by (auto simp: find_empty_def find_Some_iff in_set_conv_nth)

lemma find_empty_None: "(find_empty q ixs = None) = (\<forall>i \<in> set ixs. q ! i \<noteq> Q_Empty)"
  by (auto simp: find_empty_def find_None_iff)

definition discovered_slot :: "Server \<Rightarrow> nat option" where
  "discovered_slot s =
     (case find_empty (queue s) [queue_head s ..< length (queue s)] of
        Some i \<Rightarrow> Some i
      | None \<Rightarrow> find_empty (queue s) [0 ..< min (queue_head s) (length (queue s))])"

lemma discovered_slot_Some:
  "discovered_slot s = Some i \<Longrightarrow> i < length (queue s) \<and> queue s ! i = Q_Empty"
  by (auto simp: discovered_slot_def dest!: find_empty_Some split: option.splits)

lemma discovered_slot_None:
  assumes "queue_head s \<le> length (queue s)"
  shows "(discovered_slot s = None) = (\<forall>i < length (queue s). queue s ! i \<noteq> Q_Empty)"
proof
  assume n: "discovered_slot s = None"
  hence "find_empty (queue s) [queue_head s ..< length (queue s)] = None"
    "find_empty (queue s) [0 ..< queue_head s] = None"
    using assms by (auto simp: discovered_slot_def min_absorb1 split: option.splits)
  thus "\<forall>i < length (queue s). queue s ! i \<noteq> Q_Empty"
    by (metis atLeastLessThan_iff find_empty_None not_le set_upt zero_le)
next
  assume "\<forall>i < length (queue s). queue s ! i \<noteq> Q_Empty"
  thus "discovered_slot s = None" using discovered_slot_Some by (cases "discovered_slot s") auto
qed

lemma queue_message_eq:
  "queue_message pid tid m orig s =
     (if tail_generation s = head_generation s - 1 then Err ServerQueueFull
      else case discovered_slot s of
             None \<Rightarrow> if queue_head s > length (queue s) then Panic else Err ServerQueueFull
           | Some i \<Rightarrow>
               Ok (i, advance_head i
                     (s\<lparr>queue := (queue s)[i := message_entry pid tid (tail_generation s) m orig],
                        tail_generation := tail_generation s + 1\<rparr>)))"
  by (simp add: queue_message_def discovered_slot_def Let_def)

lemma queue_message_Ok:
  assumes "wf_queue s" "sendable pid m orig" "queue_message pid tid m orig s = Ok (i, s')"
  shows "wf_queue s' \<and> contents s' = contents s @ [sent_view pid tid m orig]"
proof -
  note D = wf_queueD [OF assms(1)]
  have cap: "tail_generation s \<noteq> head_generation s - 1" and d: "discovered_slot s = Some i"
    and s': "s' = advance_head i
              (s\<lparr>queue := (queue s)[i := message_entry pid tid (tail_generation s) m orig],
                 tail_generation := tail_generation s + 1\<rparr>)"
    using assms(3) by (auto simp: queue_message_eq split: if_splits option.splits)
  note e = discovered_slot_Some [OF d]
  show ?thesis
    unfolding slot_view_message_entry [OF assms(2), symmetric, of tid "tail_generation s"]
    by (rule push_update [OF assms(1), of i])
       (use e D(1,2) cap s' in \<open>auto simp: pend_gen_cases wf_slot_message_entry [OF assms(2)]
          intro: advance_head_less [THEN less_le_trans]\<close>)
qed

subsection \<open>The scans round the ring\<close>

lemma ring_next_mod:
  assumes "t < len"
  shows "ring_next len ((t + k) mod len) = (t + Suc k) mod len"
proof -
  have "(t + k) mod len < len" using assms by (intro mod_less_divisor) linarith
  thus ?thesis by (auto simp: ring_next_def mod_Suc)
qed

lemma ring_pos_tail:
  assumes "(t :: nat) < len" "k \<le> len" "0 < k"
  shows "((t + k) mod len = t) = (k = len)"
proof
  assume e: "(t + k) mod len = t"
  show "k = len"
  proof (rule ccontr)
    assume "k \<noteq> len"
    hence "k < len" using assms(2) by linarith
    hence "(t + k) mod len = (if t + k < len then t + k else t + k - len)"
      using assms by (simp add: le_mod_geq)
    with e \<open>k < len\<close> assms show False by (simp split: if_splits)
  qed
qed (use assms in simp)

lemma ring_pos_ex:
  assumes "(t :: nat) < len" "i < len"
  obtains k where "k < len" "(t + k) mod len = i"
proof (cases "t \<le> i")
  case True
  show ?thesis by (rule that [of "i - t"]) (use True assms in auto)
next
  case False
  show ?thesis by (rule that [of "len + i - t"]) (use False assms in \<open>auto simp: mod_if\<close>)
qed

lemma response_loop_spec:
  assumes "queue_head s < length (queue s)" "n + k = length (queue s)" "0 < n"
    and "\<And>j. j < k \<Longrightarrow> queue s ! ((queue_head s + j) mod length (queue s)) \<noteq> Q_Empty"
  shows "case response_loop n s ((queue_head s + k) mod length (queue s)) of
           Ok i \<Rightarrow> i < length (queue s) \<and> queue s ! i = Q_Empty
         | Err e \<Rightarrow> e = ServerQueueFull \<and> (\<forall>i < length (queue s). queue s ! i \<noteq> Q_Empty)
         | Panic \<Rightarrow> False"
  using assms(2-)
proof (induction n arbitrary: k)
  case (Suc n)
  let ?len = "length (queue s)" and ?qi = "(queue_head s + k) mod length (queue s)"
  have qi: "?qi < ?len" using assms(1) by (intro mod_less_divisor) linarith
  have nx: "ring_next ?len ?qi = (queue_head s + Suc k) mod ?len"
    using assms(1) by (rule ring_next_mod)
  show ?case
  proof (cases "queue s ! ?qi = Q_Empty")
    case True
    then show ?thesis using qi by simp
  next
    case False
    hence all: "\<And>j. j < Suc k \<Longrightarrow> queue s ! ((queue_head s + j) mod ?len) \<noteq> Q_Empty"
      using Suc.prems(3) by (auto simp: less_Suc_eq)
    show ?thesis
    proof (cases "Suc k = ?len")
      case True
      have "queue s ! i \<noteq> Q_Empty" if i: "i < ?len" for i
        using ring_pos_ex [OF assms(1) i] all True by metis
      then show ?thesis
        using False qi nx True assms(1) by (simp add: Let_def)
    next
      case neq: False
      hence "(queue_head s + Suc k) mod ?len \<noteq> queue_head s"
        using ring_pos_tail [OF assms(1), of "Suc k"] Suc.prems(1) by simp
      moreover have "0 < n" using neq Suc.prems(1) by simp
      ultimately show ?thesis
        using Suc.IH [of "Suc k"] Suc.prems(1) all False qi nx by (simp add: Let_def)
    qed
  qed
qed simp

lemma queue_response_cases:
  assumes "queue_head s < length (queue s)"
  shows "case queue_response pid tid m client s of
           Ok (i, s') \<Rightarrow> i < length (queue s) \<and> queue s ! i = Q_Empty \<and>
             s' = advance_head i (s\<lparr>queue := (queue s)[i := response_entry pid tid m client]\<rparr>)
         | Err e \<Rightarrow> e = ServerQueueFull \<and> (\<forall>i < length (queue s). queue s ! i \<noteq> Q_Empty)
         | Panic \<Rightarrow> False"
proof -
  have "0 < length (queue s)" using assms by linarith
  thus ?thesis
    using response_loop_spec [OF assms, of "length (queue s)" 0] assms
    by (cases "response_loop (length (queue s)) s (queue_head s)")
       (simp_all add: queue_response_def)
qed

lemma queue_response_Ok:
  assumes "wf_queue s" "sendable pid m client" "queue_response pid tid m client s = Ok (i, s')"
  shows "i < length (queue s) \<and> queue s ! i = Q_Empty \<and>
         queue s' = (queue s)[i := response_entry pid tid m client] \<and>
         wf_queue s' \<and> contents s' = contents s"
proof -
  note D = wf_queueD [OF assms(1)]
  have e: "i < length (queue s)" "queue s ! i = Q_Empty"
    "s' = advance_head i (s\<lparr>queue := (queue s)[i := response_entry pid tid m client]\<rparr>)"
    using queue_response_cases [OF D(1), of pid tid m client] assms(3) by auto
  have "wf_queue s' \<and> contents s' = contents s"
    by (rule token_update [OF assms(1), of i])
       (use e D(1,2) in \<open>auto simp: pend_gen_cases wf_slot_response_entry [OF assms(2)]
          intro: advance_head_less [THEN less_le_trans]\<close>)
  thus ?thesis using e by simp
qed

subsection \<open>Receiving\<close>

text \<open>What the receiver sees of an envelope, and the token a received slot leaves behind.\<close>

definition token_owner :: "QueuedMessage \<Rightarrow> (u8 \<times> usize) option" where
  "token_owner m =
     (case m of
        Q_WaitingReturnMemory _ t _ _ ca _ \<Rightarrow> Some (t, ca)
      | Q_WaitingReturnScalar _ t _ ra \<Rightarrow> Some (t, ra)
      | _ \<Rightarrow> None)"

definition env_view :: "MessageEnvelope \<Rightarrow> QueuedMessage \<Rightarrow> message_view" where
  "env_view e tok = ((MessageSender_pid (env_sender e), env_body e), token_owner tok)"

definition slot_response :: "QueuedMessage \<Rightarrow> QueuedMessage" where
  "slot_response m =
     (case m of
        Q_MemoryMessageROLend p t g ca _ sa bs _ _ \<Rightarrow> Q_WaitingReturnMemory p t g sa ca bs
      | Q_MemoryMessageRWLend p t g ca _ sa bs _ _ \<Rightarrow> Q_WaitingReturnMemory p t g sa ca bs
      | Q_MemoryMessageROLendTerminated p t g ca _ sa bs _ _ \<Rightarrow> Q_WaitingReturnMemory p t g sa ca bs
      | Q_MemoryMessageRWLendTerminated p t g ca _ sa bs _ _ \<Rightarrow> Q_WaitingReturnMemory p t g sa ca bs
      | Q_BlockingScalarMessage p t g ca _ _ _ _ _ \<Rightarrow> Q_WaitingReturnScalar p t g ca
      | _ \<Rightarrow> Q_Empty)"

lemma slot_response_wf:
  "wf_slot m \<Longrightarrow> wf_slot (slot_response m) \<and> pend_gen (slot_response m) = None"
  by (cases m) (simp_all add: slot_response_def wf_slot_def pend_gen_def)

lemma match_slot_miss: "pend_gen m \<noteq> Some g \<Longrightarrow> match_slot g sidx qi m = No_match"
  by (cases m) (simp_all add: match_slot_def pend_gen_def)

lemma slot_envelope_view:
  "p \<le> 0xff \<Longrightarrow> p \<noteq> 0 \<Longrightarrow>
     env_view (slot_envelope sidx qi p body) tok = ((nonzero (ucast p), body), token_owner tok)"
  by (simp add: env_view_def slot_envelope_def sender_pid_packed)

definition slot_pid :: "QueuedMessage \<Rightarrow> u16" where
  "slot_pid m =
     (case m of
        Q_BlockingScalarMessage p _ _ _ _ _ _ _ _ \<Rightarrow> p
      | Q_ScalarMessage p _ _ _ _ _ _ _ _ \<Rightarrow> p
      | Q_MemoryMessageSend p _ _ _ _ _ _ _ _ \<Rightarrow> p
      | Q_MemoryMessageROLend p _ _ _ _ _ _ _ _ \<Rightarrow> p
      | Q_MemoryMessageRWLend p _ _ _ _ _ _ _ _ \<Rightarrow> p
      | Q_MemoryMessageROLendTerminated p _ _ _ _ _ _ _ _ \<Rightarrow> p
      | Q_MemoryMessageRWLendTerminated p _ _ _ _ _ _ _ _ \<Rightarrow> p
      | Q_BlockingScalarTerminated p _ _ _ _ _ _ _ _ \<Rightarrow> p
      | Q_WaitingReturnMemory p _ _ _ _ _ \<Rightarrow> p
      | Q_WaitingForget p _ _ _ _ _ \<Rightarrow> p
      | Q_WaitingReturnScalar p _ _ _ \<Rightarrow> p
      | Q_Empty \<Rightarrow> 0)"

lemma match_slot_hit:
  "pend_gen m = Some g \<Longrightarrow> wf_slot m \<Longrightarrow>
     match_slot g sidx qi m = Match (slot_envelope sidx qi (slot_pid m) (snd (slot_msg m)))
                                    (slot_response m)"
  by (cases m)
     (simp_all add: match_slot_def pend_gen_def wf_slot_def wf_buffer_slot_def match_memory_def
       match_scalar_def slot_pid_def slot_msg_def slot_response_def mem_body_def
       ScalarMessage_from_usize_def MemoryRange_new_def not_less)

lemma slot_pid_view:
  "pend_gen m = Some g \<Longrightarrow> wf_slot m \<Longrightarrow>
     env_view (slot_envelope sidx qi (slot_pid m) (snd (slot_msg m))) (slot_response m) = slot_view m"
  by (cases m)
     (simp_all add: pend_gen_def wf_slot_def wf_buffer_slot_def slot_pid_def slot_view_def
       slot_msg_def slot_owner_def slot_response_def token_owner_def slot_envelope_view)

lemma take_next_loop_hit:
  assumes t: "queue_tail s < length (queue s)" and k': "k' < length (queue s)"
    and hit: "match_slot (head_generation s) sidx ((queue_tail s + k') mod length (queue s))
                (queue s ! ((queue_tail s + k') mod length (queue s))) = Match env r"
  shows "\<lbrakk>n + k = length (queue s); k \<le> k';
          \<And>j. k \<le> j \<Longrightarrow> j < k' \<Longrightarrow>
             match_slot (head_generation s) sidx ((queue_tail s + j) mod length (queue s))
               (queue s ! ((queue_tail s + j) mod length (queue s))) = No_match\<rbrakk> \<Longrightarrow>
         take_next_loop n s sidx ((queue_tail s + k) mod length (queue s)) =
           Ok (Some env, finish_take s ((queue_tail s + k') mod length (queue s)) r)"
proof (induction n arbitrary: k)
  case 0
  then show ?case using k' by simp
next
  case (Suc n)
  let ?len = "length (queue s)" and ?qi = "(queue_tail s + k) mod length (queue s)"
  have qi: "?qi < ?len" using t by (intro mod_less_divisor) linarith
  show ?case
  proof (cases "k = k'")
    case True
    then show ?thesis using hit qi by simp
  next
    case False
    hence lt: "k < k'" using Suc.prems(2) by simp
    have miss: "match_slot (head_generation s) sidx ?qi (queue s ! ?qi) = No_match"
      using Suc.prems(3) [of k] lt by simp
    have "(queue_tail s + Suc k) mod ?len \<noteq> queue_tail s"
      using ring_pos_tail [OF t, of "Suc k"] lt k' by simp
    moreover have "take_next_loop n s sidx ((queue_tail s + Suc k) mod ?len) =
           Ok (Some env, finish_take s ((queue_tail s + k') mod ?len) r)"
      by (rule Suc.IH) (use Suc.prems lt in auto)
    ultimately show ?thesis
      using miss qi ring_next_mod [OF t, of k] by (simp add: Let_def)
  qed
qed

lemma wf_queue_next_slot:
  assumes "wf_queue s" "tail_generation s \<noteq> head_generation s"
  obtains i where "i < length (queue s)" "pend_gen (queue s ! i) = Some (head_generation s)"
proof -
  have "in_window s (head_generation s)"
    using pend_count_pop(2) [OF assms(2)] by (simp add: in_window_def)
  thus ?thesis using wf_queueD(6) [OF assms(1)] that pending_slot_ex by blast
qed

lemma take_next_eq:
  assumes "wf_queue s" "tail_generation s \<noteq> head_generation s"
    and i: "i < length (queue s)" "pend_gen (queue s ! i) = Some (head_generation s)"
  shows "take_next_message sidx s =
           Ok (Some (slot_envelope sidx i (slot_pid (queue s ! i)) (snd (slot_msg (queue s ! i)))),
               finish_take s i (slot_response (queue s ! i)))"
proof -
  note D = wf_queueD [OF assms(1)]
  let ?len = "length (queue s)"
  obtain k' where k': "k' < ?len" "(queue_tail s + k') mod ?len = i"
    using ring_pos_ex [OF D(2) i(1)] .
  have wf: "wf_slot (queue s ! i)" using D(4) i(1) by (simp add: list_all_length)
  have miss: "match_slot (head_generation s) sidx ((queue_tail s + j) mod ?len)
                (queue s ! ((queue_tail s + j) mod ?len)) = No_match" if "j < k'" for j
  proof (rule match_slot_miss, rule notI)
    let ?j = "(queue_tail s + j) mod ?len"
    assume "pend_gen (queue s ! ?j) = Some (head_generation s)"
    moreover have "?j < ?len" using D(2) by (intro mod_less_divisor) linarith
    ultimately have "?j = i" using gens_uniqueD [OF D(5) _ i(1)] i(2) by blast
    hence e: "(queue_tail s + j) mod ?len = (queue_tail s + k') mod ?len" using k'(2) by simp
    have "?len dvd (queue_tail s + k') - (queue_tail s + j)"
      using e by (metis mod_eq_dvd_iff_nat add_le_cancel_left less_imp_le that)
    hence "?len dvd k' - j" by simp
    thus False using that k'(1) by (auto dest: dvd_imp_le)
  qed
  have "take_next_loop ?len s sidx ((queue_tail s + 0) mod ?len) =
          Ok (Some (slot_envelope sidx i (slot_pid (queue s ! i)) (snd (slot_msg (queue s ! i)))),
              finish_take s ((queue_tail s + k') mod ?len) (slot_response (queue s ! i)))"
    by (rule take_next_loop_hit [OF D(2) k'(1)])
       (use k'(2) match_slot_hit [OF i(2) wf] miss in auto)
  thus ?thesis using assms(2) D(2) k'(2) by (simp add: take_next_message_def)
qed

lemma finish_take_sel [simp]:
  "queue (finish_take s i r) = (queue s)[i := r]"
  "head_generation (finish_take s i r) = head_generation s + 1"
  "tail_generation (finish_take s i r) = tail_generation s"
  "queue_head (finish_take s i r) = queue_head s"
  "ready_threads (finish_take s i r) = ready_threads s"
  by (simp_all add: finish_take_def)

lemma finish_take_tail:
  "queue_tail s < length (queue s) \<Longrightarrow> queue_tail (finish_take s i r) < length (queue s)"
  by (auto simp: finish_take_def intro: ring_next_less)

lemma contents_Nil_iff: "(contents s = []) = (tail_generation s = head_generation s)"
  by (simp add: contents_def pend_count_def unat_eq_zero)

lemma take_next_spec:
  assumes "wf_queue s"
  shows "case contents s of
           [] \<Rightarrow> take_next_message sidx s = Ok (None, s)
         | m # ms \<Rightarrow> \<exists>env s' i. take_next_message sidx s = Ok (Some env, s') \<and>
                      env_view env (slot_response (queue s ! i)) = m \<and> slot_view (queue s ! i) = m \<and>
                      wf_queue s' \<and> contents s' = ms \<and> i < length (queue s) \<and>
                      pend_gen (queue s ! i) = Some (head_generation s) \<and>
                      env_sender env = SenderID_to_sender \<lparr>snd_sidx = sidx, snd_idx = of_nat i,
                        snd_pid = fst (fst m)\<rparr> \<and>
                      queue s' = (queue s)[i := slot_response (queue s ! i)]"
proof (cases "tail_generation s = head_generation s")
  case True
  then show ?thesis by (simp add: contents_Nil_iff take_next_message_def contents_Nil_iff [THEN iffD2])
next
  case False
  note D = wf_queueD [OF assms]
  obtain i where i: "i < length (queue s)" "pend_gen (queue s ! i) = Some (head_generation s)"
    using wf_queue_next_slot [OF assms False] .
  have wf: "wf_slot (queue s ! i)" using D(4) i(1) by (simp add: list_all_length)
  let ?s' = "finish_take s i (slot_response (queue s ! i))"
  have "wf_queue ?s' \<and> contents s = slot_view (queue s ! i) # contents ?s'"
    by (rule pop_update [OF assms i False])
       (use slot_response_wf [OF wf] D(1) finish_take_tail [OF D(2)] in auto)
  moreover have "fst (fst (slot_view (queue s ! i))) = nonzero (ucast (slot_pid (queue s ! i)))"
    using i(2)
    by (cases "queue s ! i") (simp_all add: slot_view_def slot_msg_def slot_pid_def pend_gen_def)
  ultimately show ?thesis
    using take_next_eq [OF assms False i, of sidx] slot_pid_view [OF i(2) wf] i
    by (auto simp: slot_envelope_def)
qed

subsection \<open>Replies\<close>

lemma advance_tail_spec:
  "\<lbrakk>queue_tail s < length (queue s); k < n; (queue_tail s + k) mod length (queue s) = queue_head s\<rbrakk>
     \<Longrightarrow> \<exists>t < length (queue s). advance_tail n s = Ok (s\<lparr>queue_tail := t\<rparr>)"
proof (induction n arbitrary: k s)
  case (Suc n)
  let ?len = "length (queue s)"
  show ?case
  proof (cases "queue_tail s = queue_head s")
    case True
    then show ?thesis using Suc.prems(1) by (intro exI [of _ "queue_tail s"]) simp
  next
    case False
    hence k: "k \<noteq> 0" using Suc.prems(1,3) by (cases k) auto
    show ?thesis
    proof (cases "queue s ! queue_tail s = Q_Empty")
      case True
      let ?s' = "s\<lparr>queue_tail := ring_next ?len (queue_tail s)\<rparr>"
      have n': "ring_next ?len (queue_tail s) = (queue_tail s + 1) mod ?len"
        using ring_next_mod [OF Suc.prems(1), of 0] Suc.prems(1) by simp
      have "((queue_tail s + 1) mod ?len + (k - 1)) mod ?len = (queue_tail s + 1 + (k - 1)) mod ?len"
        by (rule mod_add_left_eq)
      hence "((queue_tail s + 1) mod ?len + (k - 1)) mod ?len = queue_head s"
        using Suc.prems(3) k by simp
      moreover have "(queue_tail s + 1) mod ?len < ?len"
        using Suc.prems(1) by (intro mod_less_divisor) linarith
      moreover have "k - 1 < n" using Suc.prems(2) k by linarith
      ultimately have "\<exists>t < ?len. advance_tail n ?s' = Ok (?s'\<lparr>queue_tail := t\<rparr>)"
        using Suc.IH [of ?s' "k - 1"] n' by simp
      thus ?thesis using False True Suc.prems(1) by simp
    next
      case neq: False
      then show ?thesis using False Suc.prems(1) by (intro exI [of _ "queue_tail s"]) simp
    qed
  qed
qed simp

lemma free_token_spec:
  assumes "wf_queue s" "i < length (queue s)" "pend_gen (queue s ! i) = None"
  shows "\<exists>s'. free_token i s = Ok s' \<and> queue s' = (queue s)[i := Q_Empty] \<and>
              wf_queue s' \<and> contents s' = contents s"
proof -
  note D = wf_queueD [OF assms(1)]
  let ?len = "length (queue s)"
  let ?s1 = "s\<lparr>queue := (queue s)[i := Q_Empty]\<rparr>"
  have "\<exists>t < ?len. free_token i s = Ok (?s1\<lparr>queue_tail := t\<rparr>)"
  proof (cases "i = queue_tail s")
    case True
    let ?s2 = "?s1\<lparr>queue_tail := ring_next ?len (queue_tail s)\<rparr>"
    have lt: "ring_next ?len (queue_tail s) < ?len" using D(2) by (intro ring_next_less) linarith
    obtain k where "k < ?len" "(ring_next ?len (queue_tail s) + k) mod ?len = queue_head s"
      using ring_pos_ex [OF lt D(1)] .
    hence "\<exists>t < ?len. advance_tail (Suc ?len) ?s2 = Ok (?s2\<lparr>queue_tail := t\<rparr>)"
      using advance_tail_spec [of ?s2 k "Suc ?len"] lt by simp
    thus ?thesis using True by (simp add: free_token_def Let_def)
  next
    case False
    then show ?thesis using D(2) by (intro exI [of _ "queue_tail s"]) (simp add: free_token_def)
  qed
  then obtain t where t: "t < ?len" "free_token i s = Ok (?s1\<lparr>queue_tail := t\<rparr>)" by blast
  have "wf_queue (?s1\<lparr>queue_tail := t\<rparr>) \<and> contents (?s1\<lparr>queue_tail := t\<rparr>) = contents s"
    by (rule token_update [OF assms]) (use t D(1) in \<open>auto simp: pend_gen_cases wf_slot_def\<close>)
  thus ?thesis using t by simp
qed

text \<open>The reply a token stands for.\<close>

definition token_reply :: "QueuedMessage \<Rightarrow> WaitingMessage" where
  "token_reply m =
     (case m of
        Q_WaitingReturnMemory p t _ sa ca len \<Rightarrow> BorrowedMemory (ucast p) (ucast t) sa ca len
      | Q_WaitingForget p t _ sa ca len \<Rightarrow> ForgetMemory \<lparr>addr = sa, rsize = len\<rparr>
      | Q_WaitingReturnScalar p t _ _ \<Rightarrow> WM_ScalarMessage (ucast p) (ucast t)
      | _ \<Rightarrow> WM_None)"

definition reply_buffer_ok :: "QueuedMessage \<Rightarrow> MemoryRange option \<Rightarrow> bool" where
  "reply_buffer_ok m buf =
     (case buf of
        None \<Rightarrow> True
      | Some b \<Rightarrow>
          (case m of
             Q_WaitingReturnMemory _ _ _ sa _ len \<Rightarrow> sa = addr b \<and> len = rsize b
           | Q_WaitingForget _ _ _ sa _ len \<Rightarrow> sa = addr b \<and> len = rsize b
           | _ \<Rightarrow> True))"

lemma waiting_fields_None: "(waiting_fields m = None) = (\<not> is_in_server m)"
  by (cases m) (simp_all add: waiting_fields_def is_in_server_def)

lemma waiting_fields_result:
  "wf_slot m \<Longrightarrow> waiting_fields m = Some fs \<Longrightarrow> waiting_result fs = Ok (token_reply m)"
  by (cases m)
     (auto simp: waiting_fields_def waiting_result_def token_reply_def wf_slot_def
       wf_buffer_slot_def MemoryRange_new_def ucast_u16_pos)

lemma waiting_fields_buffer:
  "waiting_fields m = Some (p, t, sa, ca, len, forget, is_memory) \<Longrightarrow>
     (is_memory \<and> (case buf of None \<Rightarrow> False | Some b \<Rightarrow> sa \<noteq> addr b \<or> len \<noteq> rsize b)) =
     (\<not> reply_buffer_ok m buf)"
  by (cases m) (auto simp: waiting_fields_def reply_buffer_ok_def split: option.splits)

lemma take_waiting_cases:
  assumes "wf_queue s"
  shows "take_waiting_message i buf s =
           (if i \<ge> length (queue s) then (Err BadAddress, s)
            else if \<not> is_in_server (queue s ! i) then (Ok WM_None, s)
            else if \<not> reply_buffer_ok (queue s ! i) buf then (Err BadAddress, s)
            else (Ok (token_reply (queue s ! i)),
                  case free_token i s of Ok s' \<Rightarrow> s' | _ \<Rightarrow> s))"
proof (cases "i < length (queue s) \<and> is_in_server (queue s ! i)")
  case True
  hence i: "i < length (queue s)" and tok: "is_in_server (queue s ! i)" by auto
  have wf: "wf_slot (queue s ! i)"
    using wf_queueD(4) [OF assms] i by (simp add: list_all_length)
  obtain p t sa ca len f m where fs: "waiting_fields (queue s ! i) = Some (p, t, sa, ca, len, f, m)"
    using tok waiting_fields_None [of "queue s ! i"]
    by (cases "waiting_fields (queue s ! i)") auto
  obtain s' where "free_token i s = Ok s'"
    using free_token_spec [OF assms i pend_gen_cases(2) [OF tok]] by blast
  then show ?thesis
    using i tok fs waiting_fields_result [OF wf fs] waiting_fields_buffer [OF fs, of buf]
    by (simp add: take_waiting_message_def)
next
  case False
  then show ?thesis
    using waiting_fields_None [of "queue s ! i"] by (auto simp: take_waiting_message_def)
qed

lemma take_waiting_spec:
  assumes "wf_queue s"
  shows "wf_queue (snd (take_waiting_message i buf s)) \<and>
         contents (snd (take_waiting_message i buf s)) = contents s \<and>
         fst (take_waiting_message i buf s) \<noteq> Panic \<and>
         (\<forall>j. j \<noteq> i \<longrightarrow> queue (snd (take_waiting_message i buf s)) ! j = queue s ! j) \<and>
         length (queue (snd (take_waiting_message i buf s))) = length (queue s)"
  using free_token_spec [OF assms, of i] pend_gen_cases(2) [of "queue s ! i"] assms
  by (auto simp: take_waiting_cases [OF assms])

subsection \<open>Termination of a client\<close>

fun discard_view :: "PID \<Rightarrow> message_view \<Rightarrow> message_view" where
  "discard_view pid ((p, BlockingScalar c), own) =
     (if p = Some pid then ((p, Scalar c), None) else ((p, BlockingScalar c), own))"
| "discard_view pid v = v"

lemma ucast_u16_inj:
  "p \<le> 0xff \<Longrightarrow> ((p :: u16) = ucast (pid :: u8)) = (ucast p = pid)"
proof
  assume a: "p \<le> 0xff" "ucast p = pid"
  have "unat p \<le> 255" using a(1) by (simp add: word_le_nat_alt)
  hence "unat (ucast (ucast p :: u8) :: u16) = unat p"
    by (simp add: unsigned_ucast_eq unsigned_take_bit_eq take_bit_nat_eq_self)
  thus "p = ucast pid" using a(2) by (simp add: word_unat_eq_iff)
qed simp

lemma slot_view_discard:
  "wf_slot m \<Longrightarrow> pend_gen m \<noteq> None \<Longrightarrow>
     slot_view (discard_entry pid m) = discard_view pid (slot_view m)"
proof (cases m)
  case (Q_BlockingScalarMessage p t g ca i a b c d)
  assume "wf_slot m"
  hence "p \<le> 0xff" "p \<noteq> 0" using Q_BlockingScalarMessage by (simp_all add: wf_slot_def)
  thus ?thesis
    using Q_BlockingScalarMessage ucast_u16_inj [of p pid] ucast_u16_pos [of p]
    by (simp add: discard_entry_def slot_view_def slot_msg_def slot_owner_def)
qed (simp_all add: discard_entry_def slot_view_def slot_msg_def slot_owner_def pend_gen_def)

lemma wf_slot_discard: "wf_slot m \<Longrightarrow> wf_slot (discard_entry pid m)"
  by (cases m) (auto simp: discard_entry_def wf_slot_def)

lemma entry_of_discard:
  assumes "Some g \<in> pend_gen ` set q"
  shows "entry_of (map (discard_entry pid) q) g = discard_entry pid (entry_of q g)"
proof -
  have "filter (\<lambda>m. pend_gen m = Some g) (map (discard_entry pid) q) =
        map (discard_entry pid) (filter (\<lambda>m. pend_gen m = Some g) q)"
    by (simp add: filter_map o_def pend_gen_cases)
  moreover have "filter (\<lambda>m. pend_gen m = Some g) q \<noteq> []"
    using assms by (auto simp: filter_empty_conv)
  ultimately show ?thesis by (auto simp: entry_of_def split: list.splits)
qed

lemma discard_spec:
  assumes "wf_queue s"
  shows "wf_queue (discard_messages_for_pid pid s) \<and>
         contents (discard_messages_for_pid pid s) = map (discard_view pid) (contents s)"
proof -
  note D = wf_queueD [OF assms]
  let ?s' = "discard_messages_for_pid pid s"
  have q: "queue ?s' = map (discard_entry pid) (queue s)"
    and sel: "head_generation ?s' = head_generation s" "tail_generation ?s' = tail_generation s"
      "queue_head ?s' = queue_head s" "queue_tail ?s' = queue_tail s"
    by (simp_all add: discard_messages_for_pid_def)
  have c: "pend_count ?s' = pend_count s" "in_window ?s' g = in_window s g" for g
    by (simp_all add: pend_count_def in_window_def sel)
  have m: "pend_gen ` set (queue ?s') = pend_gen ` set (queue s)"
    by (simp add: q image_image pend_gen_cases)
  have u: "gens_unique (queue ?s')"
    using D(5) by (simp add: gens_unique_def q pend_gen_cases)
  have len: "length (queue ?s') = length (queue s)" by (simp add: q)
  have w: "list_all wf_slot (queue ?s')"
    using D(4) by (simp add: q list_all_iff wf_slot_discard)
  have "wf_queue ?s'"
    using D(1-3,6) u w len by (simp add: wf_queue_def m c sel)
  moreover have "slot_view (entry_of (queue ?s') (head_generation s + of_nat k)) =
                 discard_view pid (slot_view (entry_of (queue s) (head_generation s + of_nat k)))"
    if "k < pend_count s" for k
  proof -
    let ?g = "head_generation s + of_nat k"
    have g: "Some ?g \<in> pend_gen ` set (queue s)" using D(6) in_window_iff that by blast
    then obtain i where i: "i < length (queue s)" "pend_gen (queue s ! i) = Some ?g"
      by (rule pending_slot_ex)
    hence "wf_slot (entry_of (queue s) ?g)" "pend_gen (entry_of (queue s) ?g) \<noteq> None"
      using entry_of_nth [OF D(5) i] D(4) by (simp_all add: list_all_length)
    thus ?thesis by (simp add: q entry_of_discard [OF g] slot_view_discard)
  qed
  hence "contents ?s' = map (discard_view pid) (contents s)"
    by (simp add: contents_def c sel)
  ultimately show ?thesis ..
qed

section \<open>Capacity\<close>

lemma list_ex_Empty: "list_ex (\<lambda>e. e = Q_Empty) q = (\<exists>i < length q. q ! i = Q_Empty)"
  by (simp add: list_ex_length)

lemma has_queue_capacity_iff:
  assumes "queue_head s < length (queue s)"
  shows "has_queue_capacity s = is_ok (queue_message pid tid m orig s)"
proof -
  have "(discovered_slot s = None) = (\<forall>i < length (queue s). queue s ! i \<noteq> Q_Empty)"
    using discovered_slot_None assms by simp
  thus ?thesis
    using assms
    by (auto simp: has_queue_capacity_def queue_message_eq list_ex_Empty split: option.splits)
qed

lemma queue_message_full:
  assumes "queue_head s < length (queue s)" "\<not> has_queue_capacity s"
  shows "queue_message pid tid m orig s = Err ServerQueueFull"
  using assms has_queue_capacity_iff [OF assms(1), of pid tid m orig]
  by (simp add: queue_message_eq split: if_splits option.splits)

lemma has_queue_capacity_response:
  assumes "queue_head s < length (queue s)"
  shows "is_ok (queue_response pid tid m client s) = (\<exists>i < length (queue s). queue s ! i = Q_Empty)"
  using queue_response_cases [OF assms, of pid tid m client]
  by (auto split: outcome.splits simp: is_ok_iff)

text \<open>The pending messages fit the ring, so the window is never wider than it.\<close>

lemma of_nat_u8_inj: "a < 256 \<Longrightarrow> b < 256 \<Longrightarrow> (of_nat a :: u8) = of_nat b \<Longrightarrow> a = b"
  using unat_of_nat_u8 [of a] unat_of_nat_u8 [of b] by presburger

lemma pend_count_le_length:
  assumes "wf_queue s"
  shows "pend_count s \<le> length (queue s)"
proof -
  let ?P = "\<lambda>k i. i < length (queue s) \<and> pend_gen (queue s ! i) = Some (head_generation s + of_nat k)"
  have ex: "\<exists>i. ?P k i" if "k < pend_count s" for k
  proof -
    have "in_window s (head_generation s + of_nat k)" using in_window_iff that by blast
    hence "Some (head_generation s + of_nat k) \<in> pend_gen ` set (queue s)"
      by (simp only: wf_queueD(6) [OF assms])
    thus ?thesis unfolding mem_pend_gen by blast
  qed
  define f where "f k = (SOME i. ?P k i)" for k
  have f: "f k < length (queue s)" "pend_gen (queue s ! f k) = Some (head_generation s + of_nat k)"
    if "k < pend_count s" for k
    using someI_ex [OF ex [OF that]] unfolding f_def by blast+
  have "inj_on f {..< pend_count s}"
  proof (rule inj_onI)
    fix a b assume ab: "a \<in> {..< pend_count s}" "b \<in> {..< pend_count s}" "f a = f b"
    have "Some (head_generation s + of_nat a) = Some (head_generation s + of_nat b)"
      using f(2) [of a] f(2) [of b] ab by (simp only: lessThan_iff)
    hence "(of_nat a :: u8) = of_nat b" by (simp only: option.inject add_left_cancel)
    moreover have "a < 256" "b < 256" using ab pend_count_less [of s] by auto
    ultimately show "a = b" by (intro of_nat_u8_inj)
  qed
  moreover have "f ` {..< pend_count s} \<subseteq> {..< length (queue s)}" using f(1) by auto
  ultimately show ?thesis
    using card_inj_on_le [of f "{..< pend_count s}" "{..< length (queue s)}"] by simp
qed

section \<open>The ring as a queue with reply tokens\<close>

lemma wf_queue_no_pending:
  assumes "list_all (\<lambda>m. pend_gen m = None \<and> wf_slot m) (queue s)"
    "queue_head s < length (queue s)" "queue_tail s < length (queue s)"
    "length (queue s) \<le> 65536" "tail_generation s = head_generation s"
  shows "wf_queue s \<and> contents s = []"
proof -
  have n: "pend_gen (queue s ! i) = None" if "i < length (queue s)" for i
    using assms(1) that by (simp add: list_all_length)
  have "gens_unique (queue s)" using n by (simp add: gens_unique_def)
  moreover have "Some g \<notin> pend_gen ` set (queue s)" for g using n by (auto simp: mem_pend_gen)
  moreover have "pend_count s = 0" using assms(5) by (simp add: pend_count_def)
  ultimately show ?thesis
    using assms by (simp add: wf_queue_def in_window_def contents_def list_all_iff)
qed

lemma wf_queue_init:
  assumes "Server_init None pid sd backing = Ok s" "32 \<le> rsize backing" "rsize backing \<le> 0x200000"
  shows "wf_queue s \<and> contents s = []"
proof -
  have s: "queue s = replicate (unat (rsize backing) div 32) Q_Empty" "queue_head s = 0"
    "queue_tail s = 0" "head_generation s = 0" "tail_generation s = 0"
    using assms(1) by (auto simp: Server_init_def)
  have "32 \<le> unat (rsize backing)" "unat (rsize backing) \<le> 0x200000"
    using assms(2,3) by (simp_all add: word_le_nat_alt)
  hence "0 < unat (rsize backing) div 32" "unat (rsize backing) div 32 \<le> 65536"
    by (simp_all add: div_greater_zero_iff)
  thus ?thesis
    by (intro wf_queue_no_pending) (simp_all add: s list_all_iff pend_gen_def wf_slot_def)
qed

type_synonym send_args = "PID \<times> TID \<times> Message \<times> usize option"

text \<open>The operations of the ring in the form the contracts ask for.\<close>

definition server_enq :: "send_args \<Rightarrow> Server \<Rightarrow> Server option" where
  "server_enq x s =
     (case x of (pid, tid, m, orig) \<Rightarrow>
        (case queue_message pid tid m orig s of Ok (_, s') \<Rightarrow> Some s' | _ \<Rightarrow> None))"

definition sender_slot :: "MessageEnvelope \<Rightarrow> nat" where
  "sender_slot env = unat (snd_idx (SenderID_from_sender (env_sender env)))"

definition server_deq :: "usize \<Rightarrow> Server \<Rightarrow> ((MessageEnvelope \<times> QueuedMessage) \<times> Server) option" where
  "server_deq sidx s =
     (case take_next_message sidx s of
        Ok (Some env, s') \<Rightarrow> Some ((env, queue s' ! sender_slot env), s')
      | _ \<Rightarrow> None)"

datatype reply_op = Reply nat "MemoryRange option" | Remember PID TID Message "usize option"

fun server_aux :: "reply_op \<Rightarrow> Server \<Rightarrow> Server" where
  "server_aux (Reply i buf) s = snd (take_waiting_message i buf s)"
| "server_aux (Remember pid tid m client) s =
     (case queue_response pid tid m client s of Ok (_, s') \<Rightarrow> s' | _ \<Rightarrow> s)"

fun valid_send :: "send_args \<Rightarrow> bool" where
  "valid_send (pid, tid, m, orig) = sendable pid m orig"

fun valid_reply_op :: "reply_op \<Rightarrow> bool" where
  "valid_reply_op (Reply i buf) = True"
| "valid_reply_op (Remember pid tid m client) = sendable pid m client"

fun redeems_slot :: "reply_op \<Rightarrow> nat \<Rightarrow> bool" where
  "redeems_slot (Reply i buf) j = (i = j)"
| "redeems_slot (Remember pid tid m client) j = False"

definition slot_token :: "nat \<Rightarrow> Server \<Rightarrow> QueuedMessage option" where
  "slot_token i s =
     (if i < length (queue s) \<and> is_in_server (queue s ! i) then Some (queue s ! i) else None)"

fun send_args_view :: "send_args \<Rightarrow> message_view" where
  "send_args_view (pid, tid, m, orig) = sent_view pid tid m orig"

lemma sender_slot_packed:
  assumes "i < 65536"
    "env_sender env = SenderID_to_sender \<lparr>snd_sidx = sidx, snd_idx = of_nat i, snd_pid = p\<rparr>"
  shows "sender_slot env = i"
proof -
  have u: "unat (of_nat i :: usize) = i"
    using assms(1) by (simp add: unsigned_of_nat take_bit_nat_eq_self)
  have "(of_nat i :: usize) AND 0xffff = of_nat i"
    unfolding byte_masks take_bit_eq_mask [symmetric]
    using take_bit_usize_self [of "of_nat i" 16] u assms(1) by simp
  thus ?thesis
    using assms(2) u
    by (simp add: sender_slot_def SenderID_from_sender_def SenderID_to_sender_def
          SenderID_from_usize_def SenderID_idx_bits)
qed

lemma server_deq_law:
  assumes "wf_queue s" "contents s = m # ms"
  shows "\<exists>env tok s' i. server_deq sidx s = Some ((env, tok), s') \<and> env_view env tok = m \<and>
           wf_queue s' \<and> contents s' = ms \<and> i < length (queue s) \<and> sender_slot env = i \<and>
           \<not> is_in_server (queue s ! i) \<and> queue s' = (queue s)[i := tok] \<and>
           tok = slot_response (queue s ! i) \<and> slot_view (queue s ! i) = m"
proof -
  obtain env s' i where t: "take_next_message sidx s = Ok (Some env, s')"
    "env_view env (slot_response (queue s ! i)) = m" "wf_queue s'" "contents s' = ms"
    "i < length (queue s)" "pend_gen (queue s ! i) = Some (head_generation s)"
    "env_sender env = SenderID_to_sender \<lparr>snd_sidx = sidx, snd_idx = of_nat i, snd_pid = fst (fst m)\<rparr>"
    "queue s' = (queue s)[i := slot_response (queue s ! i)]" "slot_view (queue s ! i) = m"
    using take_next_spec [OF assms(1), of sidx] assms(2) by (simp, blast)
  have "i < 65536" using t(5) wf_queueD(3) [OF assms(1)] by simp
  hence ss: "sender_slot env = i" using t(7) by (rule sender_slot_packed)
  have "\<not> is_in_server (queue s ! i)" using t(6) pend_gen_cases(2) by fastforce
  thus ?thesis
    by (intro exI [of _ env] exI [of _ "slot_response (queue s ! i)"] exI [of _ s'] exI [of _ i])
       (use t ss in \<open>simp add: server_deq_def\<close>)
qed

lemma slot_token_update:
  "\<lbrakk>queue s' = (queue s)[j := x]; slot_token i s = Some w; i = j \<longrightarrow> \<not> is_in_server (queue s ! j)\<rbrakk>
     \<Longrightarrow> slot_token i s' = Some w"
  by (cases "i = j") (auto simp: slot_token_def split: if_splits)

lemma empty_not_in_server [simp]: "\<not> is_in_server Q_Empty"
  by (simp add: is_in_server_def)

lemma queue_message_slot:
  assumes "wf_queue s" "queue_message pid tid m orig s = Ok (i, s')"
  shows "i < length (queue s) \<and> queue s ! i = Q_Empty \<and>
         queue s' = (queue s)[i := message_entry pid tid (tail_generation s) m orig]"
proof -
  have d: "discovered_slot s = Some i"
    and s': "queue s' = (queue s)[i := message_entry pid tid (tail_generation s) m orig]"
    using assms(2) by (auto simp: queue_message_eq split: if_splits option.splits)
  show ?thesis using discovered_slot_Some [OF d] s' by simp
qed

lemma server_enq_Some:
  "(server_enq (pid, tid, m, orig) s = Some s') = (\<exists>i. queue_message pid tid m orig s = Ok (i, s'))"
  by (cases "queue_message pid tid m orig s") (auto simp: server_enq_def)

lemma server_enq_law:
  assumes "wf_queue s" "valid_send x" "server_enq x s = Some s'"
  shows "wf_queue s' \<and> contents s' = contents s @ [send_args_view x]"
proof -
  obtain pid tid m orig where x: "x = (pid, tid, m, orig)" by (cases x)
  obtain i where "queue_message pid tid m orig s = Ok (i, s')"
    using assms(3) x server_enq_Some by blast
  thus ?thesis using queue_message_Ok [OF assms(1), of pid m orig tid i s'] assms(2) x by simp
qed

lemma server_deq_empty: "wf_queue s \<Longrightarrow> contents s = [] \<Longrightarrow> server_deq sidx s = None"
  using take_next_spec [of s sidx] by (simp add: server_deq_def)

lemma server_aux_law:
  assumes "wf_queue s" "valid_reply_op a"
  shows "wf_queue (server_aux a s) \<and> contents (server_aux a s) = contents s"
proof (cases a)
  case (Reply i buf)
  then show ?thesis using take_waiting_spec [OF assms(1), of i buf] by simp
next
  case (Remember pid tid m client)
  then show ?thesis
    using queue_response_Ok [OF assms(1), of pid m client tid] assms
    by (cases "queue_response pid tid m client s") auto
qed

lemma server_enq_token:
  assumes "wf_queue s" "valid_send x" "server_enq x s = Some s'" "slot_token i s = Some w"
  shows "slot_token i s' = Some w"
proof -
  obtain pid tid m orig where x: "x = (pid, tid, m, orig)" by (cases x)
  obtain j where "queue_message pid tid m orig s = Ok (j, s')"
    using assms(3) x server_enq_Some by blast
  from queue_message_slot [OF assms(1) this] show ?thesis
    by (intro slot_token_update [OF _ assms(4)]) auto
qed

lemma server_deq_token:
  assumes "wf_queue s" "server_deq sidx s = Some (y, s')" "slot_token i s = Some w"
  shows "slot_token i s' = Some w"
proof (cases "contents s")
  case Nil
  then show ?thesis using assms server_deq_empty [OF assms(1)] by simp
next
  case (Cons m ms)
  obtain env tok s1 j where d: "server_deq sidx s = Some ((env, tok), s1)"
    "\<not> is_in_server (queue s ! j)" "queue s1 = (queue s)[j := tok]"
    using server_deq_law [OF assms(1) Cons, of sidx] by blast
  have "s1 = s'" using d(1) assms(2) by simp
  thus ?thesis using slot_token_update [OF d(3) assms(3)] d(2) by simp
qed

lemma server_aux_token:
  assumes "wf_queue s" "valid_reply_op a" "\<not> redeems_slot a i" "slot_token i s = Some w"
  shows "slot_token i (server_aux a s) = Some w"
proof (cases a)
  case (Reply j buf)
  hence "i \<noteq> j" using assms(3) by simp
  with Reply show ?thesis
    using take_waiting_spec [OF assms(1), of j buf] assms(4)
    by (simp add: slot_token_def split: if_splits)
next
  case (Remember pid tid m client)
  show ?thesis
  proof (cases "queue_response pid tid m client s")
    case (Ok p)
    obtain j s1 where p: "p = (j, s1)" by (cases p)
    have "queue s1 = (queue s)[j := response_entry pid tid m client]" "queue s ! j = Q_Empty"
      using queue_response_Ok [OF assms(1), of pid m client tid j s1] assms(2) Ok p Remember
      by simp_all
    thus ?thesis using Ok p Remember by (simp add: slot_token_update [OF _ assms(4)])
  qed (use assms(4) Remember in simp_all)
qed

interpretation server_queue: token_queue wf_queue contents server_enq "server_deq sidx" server_aux
  send_args_view "\<lambda>(env, tok). env_view env tok" valid_send valid_reply_op slot_token redeems_slot
  for sidx
proof
  show "\<exists>y s'. server_deq sidx s = Some (y, s') \<and> (case y of (env, tok) \<Rightarrow> env_view env tok) = m \<and>
          wf_queue s' \<and> contents s' = ms" if h: "wf_queue s" "contents s = m # ms" for s m ms
    using server_deq_law [OF h, of sidx] by (elim exE conjE) (intro exI conjI, auto)
qed (fact server_enq_law server_deq_empty server_aux_law server_enq_token server_deq_token
      server_aux_token)+

section \<open>Threads waiting to receive\<close>

lemma bit_single: "n < 32 \<Longrightarrow> bit (push_bit n 1 :: usize) k = (k = n)"
  by (auto simp: bit_simps)

lemma rotl_single:
  assumes "n < 32"
  shows "word_rotl 1 (push_bit n 1 :: usize) = push_bit (if n = 31 then 0 else Suc n) 1"
proof (rule bit_word_eqI)
  fix k assume k: "k < LENGTH(32)"
  have "bit (word_rotl 1 (push_bit n 1 :: usize)) k = ((k + 31) mod 32 = n)"
    using k bit_single [OF assms, of "(k + 31) mod 32"] by (simp add: bit_word_rotl_iff)
  also have "\<dots> = (k = (if n = 31 then 0 else Suc n))"
    using k assms by (simp add: mod_if) arith
  also have "\<dots> = bit (push_bit (if n = 31 then 0 else Suc n) 1 :: usize) k"
    using assms k by (simp add: bit_simps)
  finally show "bit (word_rotl 1 (push_bit n 1 :: usize)) k =
                bit (push_bit (if n = 31 then 0 else Suc n) 1 :: usize) k" .
qed

lemma and_single_eq:
  assumes n: "n < 32"
  shows "(w AND push_bit n 1 = (push_bit n 1 :: usize)) = bit w n"
proof
  assume "w AND push_bit n 1 = (push_bit n 1 :: usize)"
  hence "bit (w AND push_bit n 1) n = bit (push_bit n 1 :: usize) n" by (simp only:)
  thus "bit w n" using bit_single [OF n, of n] by (simp only: bit_and_iff) blast
next
  assume "bit w n"
  thus "w AND push_bit n 1 = (push_bit n 1 :: usize)"
    by (intro bit_word_eqI) (auto simp only: bit_and_iff bit_single [OF n])
qed

lemma single_eq_1: "n < 32 \<Longrightarrow> (push_bit n 1 = (1 :: usize)) = (n = 0)"
proof -
  assume n: "n < 32"
  have "(push_bit n 1 = (1 :: usize)) \<Longrightarrow> n = 0"
  proof -
    assume "push_bit n 1 = (1 :: usize)"
    hence "bit (push_bit n 1 :: usize) 0 = bit (1 :: usize) 0" by simp
    thus "n = 0" using bit_single [OF n, of 0] by simp
  qed
  thus ?thesis by auto
qed

lemma available_thread_loop_spec:
  assumes "ready \<noteq> 0"
  shows "\<lbrakk>k + n = 32; \<And>m. m < n \<Longrightarrow> \<not> bit ready m\<rbrakk> \<Longrightarrow>
     \<exists>j < 32. n \<le> j \<and> bit ready j \<and> (\<forall>m < j. \<not> bit ready m) \<and>
       available_thread_loop k ready (push_bit n 1) (of_nat n) =
         Ok (of_nat j, ready AND NOT (push_bit j 1))"
proof (induction k arbitrary: n)
  case 0
  have "ready = 0"
  proof (rule bit_word_eqI)
    fix i assume "i < LENGTH(32)"
    thus "bit ready i = bit 0 i" using 0 by simp
  qed
  thus ?case using assms by simp
next
  case (Suc k)
  hence n: "n < 32" by simp
  show ?case
  proof (cases "bit ready n")
    case True
    then show ?thesis
      using Suc.prems(2) n and_single_eq [OF n, of ready] by (intro exI [of _ n]) (simp only: available_thread_loop.simps if_True, blast)
  next
    case False
    have no: "\<And>m. m < Suc n \<Longrightarrow> \<not> bit ready m" using Suc.prems(2) False by (auto simp: less_Suc_eq)
    have "n \<noteq> 31"
    proof
      assume "n = 31"
      hence "ready = 0" using no by (intro bit_word_eqI) simp
      thus False using assms by simp
    qed
    hence r: "word_rotl 1 (push_bit n 1 :: usize) = push_bit (Suc n) 1" "Suc n < 32"
      using rotl_single [OF n] n by simp_all
    have ne: "push_bit (Suc n) (1 :: usize) \<noteq> 1" using single_eq_1 [OF r(2)] by simp
    obtain j where "j < 32" "Suc n \<le> j" "bit ready j" "\<forall>m < j. \<not> bit ready m"
      "available_thread_loop k ready (push_bit (Suc n) 1) (of_nat (Suc n)) =
         Ok (of_nat j, ready AND NOT (push_bit j 1))"
      using Suc.IH [of "Suc n"] Suc.prems(1) no by auto
    moreover have "of_nat n + 1 = (of_nat (Suc n) :: usize)" by simp
    ultimately show ?thesis
      using and_single_eq [OF n, of ready] False r(1) ne
      by (intro exI [of _ j]) (simp only: available_thread_loop.simps if_False Let_def, simp)
  qed
qed

lemma take_available_thread_spec:
  assumes "ready_threads s \<noteq> 0"
  shows "\<exists>j < 32. bit (ready_threads s) j \<and> (\<forall>m < j. \<not> bit (ready_threads s) m) \<and>
           take_available_thread s =
             Ok (Some (of_nat j), s\<lparr>ready_threads := ready_threads s AND NOT (push_bit j 1)\<rparr>)"
  using available_thread_loop_spec [OF assms, of 32 0] assms
  by (auto simp: take_available_thread_def)

lemma thread_bit_of_nat: "j < 32 \<Longrightarrow> thread_bit (of_nat j) = push_bit j 1"
proof -
  assume j: "j < 32"
  have u: "unat (of_nat j :: usize) = j" using j by (simp add: unsigned_of_nat take_bit_nat_eq_self)
  have m: "(31 :: usize) = mask 5" by (simp add: mask_eq_exp_minus_1)
  have "(of_nat j :: usize) AND 31 = of_nat j"
    unfolding m take_bit_eq_mask [symmetric] using take_bit_usize_self [of "of_nat j" 5] u j by simp
  thus ?thesis by (simp add: thread_bit_def u)
qed

definition expected_reply :: "PID \<Rightarrow> u8 \<Rightarrow> usize \<Rightarrow> Message \<Rightarrow> WaitingMessage" where
  "expected_reply pid tid ca m =
     (case memory_message m of
        None \<Rightarrow> WM_ScalarMessage pid (ucast tid)
      | Some mm \<Rightarrow> BorrowedMemory pid (ucast tid) (addr (mm_buf mm)) ca (rsize (mm_buf mm)))"

lemma token_reply_slot_response:
  "slot_view q = ((Some pid, m), Some (tid, ca)) \<Longrightarrow>
     is_in_server (slot_response q) \<and> token_reply (slot_response q) = expected_reply pid tid ca m"
  by (cases q)
     (auto simp: slot_view_def slot_msg_def slot_owner_def slot_response_def is_in_server_def
       token_reply_def expected_reply_def mem_body_def)

text \<open>A two-slot ring for the witnesses.\<close>

definition demo_server :: Server where
  "demo_server =
     \<lparr>sid = SID 1 2 3 4, srv_pid = 5, queue_head = 0, queue_tail = 0, head_generation = 0,
      tail_generation = 0, queue = [Q_Empty, Q_Empty], ready_threads = 0,
      queue_ptr = 0x60001000\<rparr>"

definition demo_scalar :: "usize \<Rightarrow> ScalarMessage" where
  "demo_scalar i = \<lparr>sm_id = i, sm_arg1 = 10, sm_arg2 = 20, sm_arg3 = 30, sm_arg4 = 40\<rparr>"

lemma wf_demo: "wf_queue demo_server" "contents demo_server = []"
  using wf_queue_no_pending [of demo_server]
  by (simp_all add: demo_server_def pend_gen_def wf_slot_def)

section \<open>Properties\<close>

text \<open>
  C1. A server queue is first-in first-out: for any interleaving of sends (accepted
  or refused), receives, replies and remembered blocking messages on a well-formed
  ring, the messages that were waiting followed by those accepted are the messages
  delivered followed by those still waiting, in the same order, each with its
  sender, its body, and the client thread that waits for the reply.
\<close>

theorem server_fifo:
  assumes "wf_queue s" and "list_all (valid_op valid_send valid_reply_op) ops"
    and "queue_run server_enq (server_deq sidx) server_aux ops s = (accepted, delivered, t)"
  shows "wf_queue t \<and>
         contents s @ map send_args_view accepted =
           map (\<lambda>(env, tok). env_view env tok) delivered @ contents t"
  by (rule server_queue.run_conserves [OF assms])

theorem server_fifo_witness:
  "\<exists>accepted delivered t.
     queue_run server_enq (server_deq 3) server_aux
       [Enq (7, 2, Scalar (demo_scalar 1), None), Enq (8, 4, BlockingScalar (demo_scalar 2), None), Deq]
       demo_server = (accepted, delivered, t) \<and>
     length accepted = 2 \<and> length delivered = 1 \<and>
     contents demo_server @ map send_args_view accepted =
       map (\<lambda>(env, tok). env_view env tok) delivered @ contents t"
proof -
  let ?ops = "[Enq (7, 2, Scalar (demo_scalar 1), None),
               Enq (8, 4, BlockingScalar (demo_scalar 2), None), Deq]"
  obtain acc del t where r: "queue_run server_enq (server_deq 3) server_aux ?ops demo_server = (acc, del, t)"
    by (cases "queue_run server_enq (server_deq 3) server_aux ?ops demo_server") auto
  have v: "list_all (valid_op valid_send valid_reply_op) ?ops"
    by (simp add: sendable_def wf_message_def)
  have "case queue_run server_enq (server_deq 3) server_aux ?ops demo_server of
          (acc, del, t) \<Rightarrow> length acc = 2 \<and> length del = 1" by code_simp
  from this [unfolded r prod.case] have "length acc = 2 \<and> length del = 1" .
  thus ?thesis using r server_fifo [OF wf_demo(1) v r] by blast
qed

text \<open>
  C2. The reply to a blocking message reaches the thread that sent it: after the
  server received the message, and after any further traffic that does not redeem
  its token, presenting the sender identifier of the envelope yields the client
  process, its thread and, for a lent buffer, the addresses and the size under
  which it was lent.
\<close>

theorem reply_reaches_sender:
  assumes "wf_queue s" and "contents s = ((Some pid, m), Some (tid, ca)) # ms"
    and "server_deq sidx s = Some ((env, tok), s1)"
    and "list_all (valid_op valid_send valid_reply_op) ops"
    and "list_all (keeps_op redeems_slot (sender_slot env)) ops"
    and "queue_run server_enq (server_deq sidx) server_aux ops s1 = (xs, ys, t)"
  shows "fst (take_waiting_message (sender_slot env) None t) = Ok (expected_reply pid tid ca m)"
proof -
  have d: "wf_queue s1" "sender_slot env < length (queue s)"
    "queue s1 = (queue s)[sender_slot env := tok]" "is_in_server tok"
    "token_reply tok = expected_reply pid tid ca m"
    using server_deq_law [OF assms(1,2), of sidx] assms(3) token_reply_slot_response by auto
  have "slot_token (sender_slot env) s1 = Some tok" using d by (simp add: slot_token_def)
  hence "slot_token (sender_slot env) t = Some tok"
    by (rule server_queue.run_keeps_token [OF d(1) assms(4,5) _ assms(6)])
  moreover have "wf_queue t" using server_queue.run_conserves [OF d(1) assms(4,6)] by blast
  ultimately show ?thesis
    using d(5) by (simp add: take_waiting_cases slot_token_def reply_buffer_ok_def split: if_splits)
qed

definition demo_waiting :: Server where
  "demo_waiting =
     demo_server\<lparr>queue := [message_entry 8 4 0 (BlockingScalar (demo_scalar 2)) None, Q_Empty],
                 tail_generation := 1, queue_head := 1\<rparr>"

lemma demo_waiting_enq:
  "server_enq (8, 4, BlockingScalar (demo_scalar 2), None) demo_server = Some demo_waiting"
  by code_simp

theorem reply_reaches_sender_witness:
  "fst (take_waiting_message 0 None (snd (the (server_deq 3 demo_waiting)))) =
     Ok (WM_ScalarMessage 8 4)"
proof -
  have v: "valid_send (8, 4, BlockingScalar (demo_scalar 2), None)"
    by (simp add: sendable_def wf_message_def)
  note e = server_enq_law [OF wf_demo(1) v demo_waiting_enq]
  have c: "contents demo_waiting = [((Some 8, BlockingScalar (demo_scalar 2)), Some (4, 0))]"
    using e wf_demo(2) by (simp add: sent_view_def)
  obtain env tok s1 where d: "server_deq 3 demo_waiting = Some ((env, tok), s1)"
    using server_deq_law [of demo_waiting _ _ 3] e c by blast
  have "sender_slot (fst (fst (the (server_deq 3 demo_waiting)))) = 0" by code_simp
  hence "sender_slot env = 0" by (simp add: d)
  thus ?thesis
    using reply_reaches_sender [OF conjunct1 [OF e] c d, of "[]" "[]" "[]" s1] d
    by (simp add: expected_reply_def)
qed

text \<open>
  C16. \<open>has_queue_capacity\<close> is exactly the condition under which \<open>queue_message\<close>
  accepts a message, a refusal is always \<open>ServerQueueFull\<close>, and a server with
  capacity also accepts the token of a message that is delivered directly.
\<close>

theorem queue_capacity_exact:
  assumes "wf_queue s"
  shows "(has_queue_capacity s = is_ok (queue_message pid tid m orig s)) \<and>
         (is_ok (queue_message pid tid m orig s) \<or>
          queue_message pid tid m orig s = Err ServerQueueFull) \<and>
         (has_queue_capacity s \<longrightarrow> is_ok (queue_response pid tid m orig s))"
  using has_queue_capacity_iff [OF wf_queueD(1) [OF assms], of pid tid m orig]
    queue_message_full [OF wf_queueD(1) [OF assms], of pid tid m orig]
    has_queue_capacity_response [OF wf_queueD(1) [OF assms], of pid tid m orig]
  by (auto simp: has_queue_capacity_def list_ex_Empty split: if_splits)

theorem queue_capacity_exact_witness:
  "has_queue_capacity demo_server \<and>
   is_ok (queue_message 7 2 (Scalar (demo_scalar 1)) None demo_server)"
  using queue_capacity_exact [OF wf_demo(1), of 7 2 "Scalar (demo_scalar 1)" None]
  by (simp add: has_queue_capacity_def demo_server_def)

text \<open>
  The capacity test for scalar messages compares generations only. The pending
  messages occupy distinct slots, so a ring of fewer than 255 slots (a page holds
  128) can never make the generations meet: the test holds in every reachable state
  and refuses nothing, even when no slot is free.
\<close>

theorem scalar_capacity_vacuous:
  assumes "wf_queue s" and "length (queue s) < 255"
  shows "has_queue_capacity_scalar s \<and>
         (is_ok (queue_response pid tid m client s) = list_ex (\<lambda>e. e = Q_Empty) (queue s))"
proof -
  have "has_queue_capacity_scalar s"
  proof (rule ccontr)
    assume "\<not> has_queue_capacity_scalar s"
    hence "tail_generation s - head_generation s = - 1"
      by (simp add: has_queue_capacity_scalar_def)
    hence "pend_count s = 255"
      by (simp add: pend_count_def unsigned_minus_1_eq_mask mask_eq_exp_minus_1)
    thus False using pend_count_le_length [OF assms(1)] assms(2) by simp
  qed
  thus ?thesis
    using has_queue_capacity_response [OF wf_queueD(1) [OF assms(1)], of pid tid m client]
    by (simp add: list_ex_Empty)
qed

theorem scalar_capacity_vacuous_witness:
  "has_queue_capacity_scalar (demo_server\<lparr>queue := [Q_WaitingReturnScalar 7 2 0 0, Q_WaitingReturnScalar 8 2 0 0]\<rparr>)
   \<and> \<not> is_ok (queue_response 9 2 (Scalar (demo_scalar 1)) None
        (demo_server\<lparr>queue := [Q_WaitingReturnScalar 7 2 0 0, Q_WaitingReturnScalar 8 2 0 0]\<rparr>))"
proof -
  have "wf_queue (demo_server\<lparr>queue := [Q_WaitingReturnScalar 7 2 0 0, Q_WaitingReturnScalar 8 2 0 0]\<rparr>)"
    by (intro wf_queue_no_pending [THEN conjunct1])
       (simp_all add: demo_server_def pend_gen_def wf_slot_def)
  from scalar_capacity_vacuous [OF this, of 9 2 "Scalar (demo_scalar 1)" None] show ?thesis by simp
qed



text \<open>
  A buffer lent by a process that terminated is still owed to that process: the
  terminated lend leaves the same token as a live one, and redeeming it asks for the
  memory to be returned to the dead client, never for it to be forgotten.
\<close>

theorem terminated_lend_still_returned:
  "slot_response (discard_entry pid (Q_MemoryMessageRWLend (ucast pid) t g ca i sa bs off val)) =
     Q_WaitingReturnMemory (ucast pid) t g sa ca bs \<and>
   token_reply (Q_WaitingReturnMemory (ucast pid) t g sa ca bs) =
     BorrowedMemory pid (ucast t) sa ca bs"
  by (simp add: discard_entry_def slot_response_def token_reply_def)

text \<open>
  The thread that receives a message is the lowest-numbered thread waiting for
  one, it leaves the mask of waiting threads, and giving it back after a failed
  delivery restores the mask.
\<close>

theorem lowest_waiting_thread_taken:
  assumes "ready_threads s \<noteq> 0"
  shows "\<exists>j < 32. bit (ready_threads s) j \<and> (\<forall>m < j. \<not> bit (ready_threads s) m) \<and>
           (\<exists>s'. take_available_thread s = Ok (Some (of_nat j), s') \<and>
                 \<not> bit (ready_threads s') j \<and> return_available_thread (of_nat j) s' = Ok s)"
proof -
  obtain j where j: "j < 32" "bit (ready_threads s) j" "\<forall>m < j. \<not> bit (ready_threads s) m"
    "take_available_thread s =
       Ok (Some (of_nat j), s\<lparr>ready_threads := ready_threads s AND NOT (push_bit j 1)\<rparr>)"
    using take_available_thread_spec [OF assms] by blast
  let ?r = "ready_threads s AND NOT (push_bit j 1)"
  have b: "bit ?r k = (bit (ready_threads s) k \<and> k \<noteq> j)" if "k < 32" for k
    using that bit_single [OF j(1), of k] by (simp only: bit_and_iff bit_not_iff) simp
  have "?r AND push_bit j 1 = 0"
    by (rule bit_word_eqI) (simp only: bit_and_iff bit_single [OF j(1)] bit_not_iff, simp)
  moreover have "?r OR push_bit j 1 = ready_threads s"
  proof (rule bit_word_eqI)
    fix n assume "n < LENGTH(32)"
    hence "n < 32" by simp
    thus "bit (?r OR push_bit j 1) n = bit (ready_threads s) n"
      using b [of n] j(2) bit_single [OF j(1), of n] by (simp only: bit_or_iff) blast
  qed
  ultimately have "return_available_thread (of_nat j) (s\<lparr>ready_threads := ?r\<rparr>) = Ok s"
    by (simp only: return_available_thread_def thread_bit_of_nat [OF j(1)] Server.select_convs
          Server.update_convs) simp
  thus ?thesis using j b [of j] by auto
qed

theorem lowest_waiting_thread_taken_witness:
  "\<exists>j < 32. bit (ready_threads (demo_server\<lparr>ready_threads := 12\<rparr>)) j \<and>
     (\<exists>s'. take_available_thread (demo_server\<lparr>ready_threads := 12\<rparr>) = Ok (Some (of_nat j), s'))"
  using lowest_waiting_thread_taken [of "demo_server\<lparr>ready_threads := 12\<rparr>"] by auto

end
