(* ===== verification/Swap_Tracking.thy ===== *)
theory Swap_Tracking
  imports Xous_Defs "HOL-Library.Multiset"
begin

text \<open>
  Page tracking of the swap-enabled kernel: the entries of the allocation table
  (\<open>SwapAlloc\<close> of kernel/src/swap.rs), the epoch counter that stamps them, and the
  renormalisation that compacts the stamps when the counter runs out
  (\<open>MinSet\<close> of kernel/src/utils.rs, \<open>renormalize_allocs\<close> of kernel/src/mem.rs).
  The main result is that the many-pass compaction, which works in a
  64-entry scratch array, replaces every stamp by its rank among the
  stamps of the table.
\<close>

section \<open>Minimum sets\<close>

definition RENORM_PASS_SIZE :: nat where
  "RENORM_PASS_SIZE = 64"

definition u32_MAX :: u32 where
  "u32_MAX = 0xFFFFFFFF"

type_synonym MinSet = "u32 list"

definition MinSet_new :: MinSet where
  "MinSet_new = replicate RENORM_PASS_SIZE u32_MAX"

definition MinSet_insert :: "u32 \<Rightarrow> MinSet \<Rightarrow> MinSet" where
  "MinSet_insert item ms =
     (if item \<in> set ms then ms
      else if item < ms ! (RENORM_PASS_SIZE - 1)
           then sort (ms[RENORM_PASS_SIZE - 1 := item])
      else ms)"

definition MinSet_max :: "MinSet \<Rightarrow> u32" where
  "MinSet_max ms = ms ! (RENORM_PASS_SIZE - 1)"

fun MinSet_index_of :: "MinSet \<Rightarrow> u32 \<Rightarrow> nat option" where
  "MinSet_index_of [] data = None"
| "MinSet_index_of (d # ds) data =
     (if d = data then Some 0 else map_option Suc (MinSet_index_of ds data))"

section \<open>Table entries and the epoch\<close>

text \<open>
  An entry packs \<open>virtual_page_number[19:0] | flags[3:0] | pid[7:0]\<close>; a zero PID marks
  a free page.
\<close>

record SwapAlloc =
  timestamp :: u32
  vpn :: u32

definition SWAP_FLG_WIRED :: u32 where
  "SWAP_FLG_WIRED = 0x100"

definition SA_is_pid :: "SwapAlloc \<Rightarrow> PID \<Rightarrow> bool" where
  "SA_is_pid a pid = ((ucast (vpn a) :: u8) = pid)"

definition SA_is_none :: "SwapAlloc \<Rightarrow> bool" where
  "SA_is_none a = ((ucast (vpn a) :: u8) = 0)"

definition SA_get_pid :: "SwapAlloc \<Rightarrow> PID option" where
  "SA_get_pid a =
     (if (ucast (vpn a AND 0xFF) :: u8) = 0 then None else nonzero (ucast (vpn a)))"

definition SA_set_wired :: "SwapAlloc \<Rightarrow> SwapAlloc" where
  "SA_set_wired a = a\<lparr>vpn := vpn a OR SWAP_FLG_WIRED\<rparr>"

text \<open>One pass over the table: collect the smallest stamps of the window, then
  replace each of them by its position.\<close>

definition renorm_pass :: "u32 \<Rightarrow> SwapAlloc list \<Rightarrow> MinSet \<times> SwapAlloc list" where
  "renorm_pass min_search_limit allocs =
     (let ms = fold (\<lambda>d ms. if timestamp d \<ge> min_search_limit
                            then MinSet_insert (timestamp d) ms else ms) allocs MinSet_new
      in (ms, map (\<lambda>d. case MinSet_index_of ms (timestamp d) of
                         Some i \<Rightarrow> d\<lparr>timestamp := of_nat i + min_search_limit\<rparr>
                       | None \<Rightarrow> d) allocs))"

fun renorm_loop :: "nat \<Rightarrow> u32 \<Rightarrow> SwapAlloc list \<Rightarrow> (Error, SwapAlloc list) outcome" where
  "renorm_loop 0 min_search_limit allocs = Panic"
| "renorm_loop (Suc n) min_search_limit allocs =
     (case renorm_pass min_search_limit allocs of (ms, allocs') \<Rightarrow>
        if MinSet_max ms = u32_MAX then Ok allocs'
        else renorm_loop n (min_search_limit + of_nat RENORM_PASS_SIZE) allocs')"

text \<open>The loop has no bound in the source; \<open>renormalize_total\<close> below shows that one
  pass more than the table has entries is always enough. The final
  \<open>iter().max().unwrap()\<close> panics on an empty table.\<close>

definition renormalize_allocs :: "SwapAlloc list \<Rightarrow> (Error, u32 \<times> SwapAlloc list) outcome" where
  "renormalize_allocs allocs =
     bind_outcome (renorm_loop (Suc (length allocs)) 0 allocs) (\<lambda>allocs'.
       if allocs' = [] then Panic
       else Ok (Max (timestamp ` set allocs'), allocs'))"

definition next_epoch :: "u32 \<Rightarrow> SwapAlloc list \<Rightarrow> (Error, u32 \<times> SwapAlloc list) outcome" where
  "next_epoch epoch allocs =
     (if epoch < u32_MAX - 1 then Ok (epoch + 1, allocs)
      else bind_outcome (renormalize_allocs allocs) (\<lambda>(e, allocs'). Ok (e + 1, allocs')))"

definition track_alloc :: "bool \<Rightarrow> usize \<Rightarrow> usize" where
  "track_alloc is_alloc used =
     (if is_alloc then (if used = 0xFFFFFFFF then used else used + 1)
      else (if used = 0 then 0 else used - 1))"

section \<open>What a minimum set holds\<close>

text \<open>The contents of a minimum set after the stamps of a set of values have been
  offered to it: the smallest of them in order, filled up with the sentinel.\<close>

definition padded :: "u32 list \<Rightarrow> MinSet" where
  "padded L = take RENORM_PASS_SIZE (L @ replicate RENORM_PASS_SIZE u32_MAX)"

lemma RENORM_PASS_SIZE_pos [simp]: "0 < RENORM_PASS_SIZE"
  by (simp add: RENORM_PASS_SIZE_def)

lemma le_u32_MAX [simp]: "x \<le> u32_MAX"
  using unsigned_less [of x, where 'a=nat] by (simp add: word_le_nat_alt u32_MAX_def)

lemma less_u32_MAX [simp]: "(x < u32_MAX) = (x \<noteq> u32_MAX)"
  using le_u32_MAX [of x] by (auto simp: order_less_le)

lemma unat_of_nat_u32: "n < 2 ^ 32 \<Longrightarrow> unat (of_nat n :: u32) = n"
  by (simp add: unsigned_of_nat take_bit_nat_eq_self)

lemma unat_succ_u32:
  fixes y :: u32
  assumes "y < u32_MAX"
  shows "unat (y + 1) = Suc (unat y)"
proof -
  have "unat y < 2 ^ 32 - 1"
    using assms by (simp only: word_less_nat_alt u32_MAX_def) simp
  then show ?thesis
    by (simp add: unat_word_ariths)
qed

lemma length_padded [simp]: "length (padded L) = RENORM_PASS_SIZE"
  by (simp add: padded_def)

lemma sorted_padded: "sorted L \<Longrightarrow> sorted (padded L)"
  unfolding padded_def by (rule sorted_wrt_take) (auto simp: sorted_append)

lemma insort_append_ge:
  assumes "\<forall>y \<in> set ys. x \<le> y"
  shows "insort x (xs @ ys) = insort x xs @ ys"
  using assms by (induction xs) (auto simp: insort_is_Cons)

lemma take_insort:
  "take n (insort x B) = take n (insort x (take n B))"
proof (induction n arbitrary: B)
  case (Suc n)
  have "take n (b # take n bs) = take n (b # bs)" for b :: 'a and bs
    by (cases n) (simp_all add: take_Cons' min_def)
  then show ?case
    using Suc by (cases B) simp_all
qed simp

lemma take_insort_full:
  assumes "sorted A" "length A = Suc n" "x \<notin> set A"
  shows "take (Suc n) (insort x A) = (if x < last A then insort x (butlast A) else A)"
proof -
  obtain B y where A: "A = B @ [y]"
    using assms(2) by (metis append_butlast_last_id list.size(3) nat.distinct(1))
  show ?thesis
  proof (cases "x < y")
    case True
    then have "insort x (B @ [y]) = insort x B @ [y]"
      by (intro insort_append_ge) simp
    with True A assms(2) show ?thesis
      by simp
  next
    case False
    have "insort x (B @ [y]) = B @ [y] @ [x]"
    proof -
      have "\<forall>z \<in> set (B @ [y]). z \<le> x"
        using False assms(1) A by (auto simp: sorted_append)
      then have "sorted ((B @ [y]) @ [x])"
        using assms(1) A by (simp add: sorted_append)
      then have "sort ((B @ [y]) @ [x]) = (B @ [y]) @ [x]"
        by (rule sorted_sort_id)
      moreover have "sort ((B @ [y]) @ [x]) = insort x (B @ [y])"
        using assms(1) A by (intro properties_for_sort) (auto simp: sorted_insort)
      ultimately show ?thesis
        by simp
    qed
    with False A assms(2) show ?thesis
      by simp
  qed
qed

lemma sort_replace_last:
  assumes "sorted A" "length A = Suc n"
  shows "sort (A[n := x]) = insort x (butlast A)"
proof -
  obtain B y where A: "A = B @ [y]" and "length B = n"
    using assms(2) by (metis append_butlast_last_id length_append_singleton list.size(3) nat.distinct(1) nat.inject)
  then show ?thesis
    using assms(1) by (intro properties_for_sort) (auto simp: sorted_insort sorted_append)
qed

lemma padded_insort:
  "padded (insort x L) = take RENORM_PASS_SIZE (insort x (padded L))"
proof -
  have "insort x L @ replicate RENORM_PASS_SIZE u32_MAX
      = insort x (L @ replicate RENORM_PASS_SIZE u32_MAX)"
    by (rule insort_append_ge [symmetric]) simp
  then show ?thesis
    unfolding padded_def by (simp only: take_insort [of _ x "L @ _"])
qed

lemma MinSet_insert_padded:
  assumes "sorted L" "x \<noteq> u32_MAX" "x \<notin> set L"
  shows "MinSet_insert x (padded L) = padded (insort x L)"
proof -
  obtain n where n: "RENORM_PASS_SIZE = Suc n"
    using RENORM_PASS_SIZE_pos gr0_implies_Suc by blast
  have "x \<notin> set (padded L)"
    using assms unfolding padded_def by (auto dest: in_set_takeD)
  moreover have "padded L ! n = last (padded L)"
    by (metis diff_Suc_1 last_conv_nth length_padded list.size(3) n nat.distinct(1))
  ultimately show ?thesis
    using sorted_padded [OF assms(1)]
    unfolding MinSet_insert_def padded_insort n
    by (simp add: take_insort_full sort_replace_last n)
qed

lemma MinSet_insert_old:
  assumes "sorted L" "x \<in> set L"
  shows "MinSet_insert x (padded L) = padded L"
proof (cases "x \<in> set (padded L)")
  case False
  obtain n where n: "RENORM_PASS_SIZE = Suc n"
    using RENORM_PASS_SIZE_pos gr0_implies_Suc by blast
  from assms(2) obtain i where i: "i < length L" "L ! i = x"
    by (auto simp: in_set_conv_nth)
  have len: "Suc n \<le> i"
  proof (rule ccontr)
    assume "\<not> Suc n \<le> i"
    then have "padded L ! i = x"
      using i n by (simp add: padded_def nth_append)
    then show False
      using False \<open>\<not> Suc n \<le> i\<close> n by (metis length_padded not_le nth_mem)
  qed
  then have "padded L ! n = L ! n"
    using i n by (simp add: padded_def nth_append)
  also have "\<dots> \<le> x"
    using assms(1) i len by (metis Suc_leD sorted_nth_mono)
  finally show ?thesis
    unfolding MinSet_insert_def n by (simp add: linorder_not_less [symmetric])
qed (simp add: MinSet_insert_def)

lemma fold_MinSet_insert:
  assumes "u32_MAX \<notin> set xs" "sorted L" "distinct L"
  shows "fold MinSet_insert xs (padded L) = padded (sorted_list_of_set (set L \<union> set xs))"
  using assms
proof (induction xs arbitrary: L)
  case Nil
  then show ?case
    by (simp add: sorted_list_of_set.idem_if_sorted_distinct)
next
  case (Cons x xs)
  show ?case
  proof (cases "x \<in> set L")
    case True
    then show ?thesis
      using Cons by (simp add: MinSet_insert_old insert_absorb)
  next
    case False
    then have "fold MinSet_insert xs (padded (insort x L))
             = padded (sorted_list_of_set (set (insort x L) \<union> set xs))"
      using Cons.prems by (intro Cons.IH) (simp_all add: sorted_insort distinct_insort)
    then show ?thesis
      using Cons.prems False MinSet_insert_padded [of L x] by (auto simp: set_insort_key)
  qed
qed

lemma fold_filter:
  "fold (\<lambda>d acc. if P d then f (g d) acc else acc) xs a = fold f (map g (filter P xs)) a"
  by (induction xs arbitrary: a) auto

lemma renorm_pass_set:
  assumes "u32_MAX \<notin> timestamp ` set allocs"
  shows "fst (renorm_pass lim allocs)
       = padded (sorted_list_of_set {t \<in> timestamp ` set allocs. lim \<le> t})"
proof -
  have "MinSet_new = padded []"
    by (simp add: MinSet_new_def padded_def)
  moreover have "set (map timestamp (filter (\<lambda>d. lim \<le> timestamp d) allocs))
               = {t \<in> timestamp ` set allocs. lim \<le> t}"
    by auto
  ultimately show ?thesis
    using assms fold_MinSet_insert
      [of "map timestamp (filter (\<lambda>d. lim \<le> timestamp d) allocs)" "[]"]
    by (auto simp: renorm_pass_def Let_def fold_filter [where f = MinSet_insert])
qed

lemma MinSet_index_of_None: "(MinSet_index_of xs d = None) = (d \<notin> set xs)"
  by (induction xs) auto

lemma MinSet_index_of_nth:
  "i < length xs \<Longrightarrow> \<forall>j < i. xs ! j \<noteq> xs ! i \<Longrightarrow> MinSet_index_of xs (xs ! i) = Some i"
proof (induction xs arbitrary: i)
  case (Cons x xs)
  show ?case
  proof (cases i)
    case (Suc k)
    then have "x \<noteq> xs ! k"
      using Cons.prems(2) by force
    moreover have "\<forall>j < k. xs ! j \<noteq> xs ! k"
      using Cons.prems(2) Suc by force
    ultimately show ?thesis
      using Cons.IH [of k] Cons.prems(1) Suc by simp
  qed simp
qed simp

section \<open>Ranks\<close>

text \<open>The number of stamps of a set that are below a given one.\<close>

definition rank :: "u32 set \<Rightarrow> u32 \<Rightarrow> nat" where
  "rank X t = card {u \<in> X. u < t}"

lemma sorted_list_of_set_nth_less:
  assumes "i < card X" "j < card X"
  shows "(sorted_list_of_set X ! j < sorted_list_of_set X ! i) = (j < i)"
proof -
  have "sorted_list_of_set X ! a < sorted_list_of_set X ! b" if "a < b" "b < card X" for a b
    using that by (intro sorted_wrt_nth_less [OF strict_sorted_list_of_set]) simp_all
  then show ?thesis
    using assms by (metis linorder_neqE_nat order_less_asym order_less_irrefl)
qed

lemma rank_nth:
  assumes "finite X" "i < card X"
  shows "rank X (sorted_list_of_set X ! i) = i"
proof -
  define L n where "L = sorted_list_of_set X" and "n = card X"
  have "X = set L" "length L = n"
    using assms(1) by (simp_all add: L_def n_def)
  then have X: "X = (!) L ` {..<n}"
    by (auto simp: set_conv_nth)
  have "{j \<in> {..<n}. L ! j < L ! i} = {..<i}"
    using assms(2) sorted_list_of_set_nth_less [of i X] by (auto simp: L_def n_def)
  then have "{u \<in> X. u < L ! i} = (!) L ` {..<i}"
    unfolding X by blast
  moreover have "inj_on ((!) L) {..<i}"
    using assms(2) by (intro inj_on_nth) (auto simp: L_def)
  ultimately show ?thesis
    by (simp add: rank_def card_image L_def)
qed

lemma nth_rank:
  assumes "finite X" "t \<in> X"
  shows "rank X t < card X" "sorted_list_of_set X ! rank X t = t"
proof -
  from assms obtain i where i: "i < card X" "sorted_list_of_set X ! i = t"
    using in_set_conv_nth [of t "sorted_list_of_set X"] by auto
  with rank_nth [OF assms(1) i(1)]
  show "rank X t < card X" "sorted_list_of_set X ! rank X t = t"
    by simp_all
qed

lemma index_of_padded:
  assumes "finite X" "t \<noteq> u32_MAX"
  shows "MinSet_index_of (padded (sorted_list_of_set X)) t
       = (if t \<in> X \<and> rank X t < RENORM_PASS_SIZE then Some (rank X t) else None)"
proof (cases "t \<in> X \<and> rank X t < RENORM_PASS_SIZE")
  case True
  let ?L = "sorted_list_of_set X"
  have r: "rank X t < card X" "?L ! rank X t = t"
    using nth_rank assms(1) True by simp_all
  have nth: "padded ?L ! j = ?L ! j" if "j \<le> rank X t" for j
    using that r True by (simp add: padded_def nth_append)
  have "padded ?L ! j \<noteq> padded ?L ! rank X t" if "j < rank X t" for j
  proof -
    have "?L ! j < ?L ! rank X t"
      using that r(1) by (subst sorted_list_of_set_nth_less) simp_all
    with nth that show ?thesis
      by simp
  qed
  then have "MinSet_index_of (padded ?L) (padded ?L ! rank X t) = Some (rank X t)"
    using True by (intro MinSet_index_of_nth) simp_all
  with nth r True show ?thesis
    by simp
next
  case False
  have "t \<notin> set (padded (sorted_list_of_set X))"
  proof
    assume "t \<in> set (padded (sorted_list_of_set X))"
    then have "t \<in> set (take RENORM_PASS_SIZE (sorted_list_of_set X))"
      using assms(2) by (auto simp: padded_def)
    then obtain i where i: "i < RENORM_PASS_SIZE" "i < card X" "t = sorted_list_of_set X ! i"
      by (auto simp: in_set_conv_nth)
    then have "t \<in> X"
      using nth_mem [of i "sorted_list_of_set X"] assms(1) by simp
    with i rank_nth [OF assms(1) i(2)] False show False
      by simp
  qed
  then show ?thesis
    unfolding if_not_P [OF False] by (simp add: MinSet_index_of_None)
qed

lemma bij_rank:
  assumes "finite X"
  shows "bij_betw (rank X) X {..<card X}"
proof (rule bij_betw_byWitness [where f' = "\<lambda>i. sorted_list_of_set X ! i"])
  show "\<forall>t \<in> X. sorted_list_of_set X ! rank X t = t"
    using nth_rank(2) [OF assms] by blast
  show "\<forall>i \<in> {..<card X}. rank X (sorted_list_of_set X ! i) = i"
    using rank_nth [OF assms] by blast
  show "rank X ` X \<subseteq> {..<card X}"
    using nth_rank(1) [OF assms] by blast
  show "(!) (sorted_list_of_set X) ` {..<card X} \<subseteq> X"
    using assms nth_mem [of _ "sorted_list_of_set X"] by auto
qed

lemma card_rank_less:
  assumes "finite X" "m \<le> card X"
  shows "card {t \<in> X. rank X t < m} = m"
proof -
  have "rank X ` {t \<in> X. rank X t < m} = {..<m}"
  proof -
    have "rank X ` {t \<in> X. rank X t < m} = rank X ` X \<inter> {..<m}"
      by auto
    then show ?thesis
      using bij_rank [OF assms(1)] assms(2) by (auto simp: bij_betw_def)
  qed
  moreover have "inj_on (rank X) {t \<in> X. rank X t < m}"
    using bij_rank [OF assms(1)] by (auto simp: bij_betw_def inj_on_def)
  ultimately show ?thesis
    using card_image [of "rank X" "{t \<in> X. rank X t < m}"] by simp
qed

lemma rank_mono:
  assumes "finite X" "t \<in> X" "u \<in> X"
  shows "(rank X t < rank X u) = (t < u)"
  using sorted_list_of_set_nth_less [of "rank X u" X "rank X t"]
    nth_rank [OF assms(1,2)] nth_rank [OF assms(1,3)] by simp

lemma rank_le_unat: "rank X t \<le> unat t"
proof -
  have "unat ` {u \<in> X. u < t} \<subseteq> {..<unat t}"
    by (auto simp: word_less_nat_alt)
  moreover have "inj_on unat {u \<in> X. u < t}"
    by (auto simp: inj_on_def word_unat_eq_iff)
  ultimately have "card {u \<in> X. u < t} \<le> card {..<unat t}"
    using card_inj_on_le finite_lessThan by blast
  then show ?thesis
    by (simp add: rank_def)
qed

lemma unat_of_rank: "unat (of_nat (rank X t) :: u32) = rank X t"
  using rank_le_unat [of X t] unsigned_less [of t, where 'a = nat]
  by (simp add: unsigned_of_nat take_bit_nat_eq_self)

section \<open>The compaction computes ranks\<close>

text \<open>The table after the stamps of rank below \<open>m\<close> have been compacted.\<close>

definition compacted :: "nat \<Rightarrow> u32 set \<Rightarrow> u32 \<Rightarrow> u32" where
  "compacted m X t = (if rank X t < m then of_nat (rank X t) else t)"

lemma compacted_ge:
  assumes "m < 2 ^ 32"
  shows "(of_nat m \<le> compacted m X t) = (m \<le> rank X t)"
proof -
  have m: "unat (of_nat m :: u32) = m"
    using assms by (simp add: unsigned_of_nat take_bit_nat_eq_self)
  show ?thesis
    using rank_le_unat [of X t]
    by (simp add: compacted_def word_le_nat_alt m unat_of_rank)
qed

lemma rank_window:
  assumes "finite X" "m \<le> card X" "t \<in> X" "m \<le> rank X t"
  shows "rank {u \<in> X. m \<le> rank X u} t = rank X t - m"
proof -
  have "{v \<in> {u \<in> X. m \<le> rank X u}. v < t} = {v \<in> X. v < t} - {v \<in> X. rank X v < m}"
    by auto
  moreover have "{v \<in> X. rank X v < m} \<subseteq> {v \<in> X. v < t}"
  proof
    fix v assume "v \<in> {v \<in> X. rank X v < m}"
    with assms(4) have "v \<in> X" "rank X v < rank X t"
      by auto
    with assms rank_mono [of X v t] show "v \<in> {v \<in> X. v < t}"
      by simp
  qed
  moreover have "finite {v \<in> X. rank X v < m}"
    using assms(1) by simp
  ultimately have "card {v \<in> {u \<in> X. m \<le> rank X u}. v < t}
                 = card {v \<in> X. v < t} - card {v \<in> X. rank X v < m}"
    by (simp only: card_Diff_subset)
  then show ?thesis
    using card_rank_less [OF assms(1,2)] by (simp only: rank_def)
qed

lemma MinSet_max_padded:
  assumes "finite X" "u32_MAX \<notin> X"
  shows "(MinSet_max (padded (sorted_list_of_set X)) = u32_MAX) = (card X < RENORM_PASS_SIZE)"
proof (cases "card X < RENORM_PASS_SIZE")
  case False
  then have "RENORM_PASS_SIZE - 1 < card X"
    using RENORM_PASS_SIZE_pos by linarith
  then have "sorted_list_of_set X ! (RENORM_PASS_SIZE - 1) \<in> X"
    using nth_mem [of "RENORM_PASS_SIZE - 1" "sorted_list_of_set X"] assms(1) by simp
  with False assms(2) show ?thesis
    by (auto simp: MinSet_max_def padded_def nth_append)
next
  case True
  then have "\<not> RENORM_PASS_SIZE - 1 < card X"
    by linarith
  with True show ?thesis
    by (simp add: MinSet_max_def padded_def nth_append)
qed

lemma renorm_pass_compacted:
  assumes X: "X = timestamp ` set allocs" "u32_MAX \<notin> X" and m: "m \<le> card X"
  defines "stage n \<equiv> map (\<lambda>d. d\<lparr>timestamp := compacted n X (timestamp d)\<rparr>) allocs"
  shows "renorm_pass (of_nat m) (stage m)
       = (padded (sorted_list_of_set {t \<in> X. m \<le> rank X t}), stage (m + RENORM_PASS_SIZE))"
proof -
  let ?Z = "{t \<in> X. m \<le> rank X t}"
  have fin: "finite X"
    using X by simp
  have "X \<subset> UNIV"
    using X(2) by blast
  then have "card X < 2 ^ 32"
    using psubset_card_mono [of UNIV X] by (simp add: card_word)
  with m have m32: "m < 2 ^ 32"
    by simp
  have stamps: "timestamp ` set (stage m) = compacted m X ` X"
    by (simp add: stage_def X(1) image_image)
  have noMAX: "compacted m X t \<noteq> u32_MAX" if "t \<in> X" for t
  proof (cases "rank X t < m")
    case True
    then have "unat (compacted m X t) < 2 ^ 32 - 1"
      using m \<open>card X < 2 ^ 32\<close> by (simp add: compacted_def unat_of_rank)
    then show ?thesis
      by (auto simp: u32_MAX_def)
  qed (use that X(2) in \<open>auto simp: compacted_def\<close>)
  have Z: "{t \<in> compacted m X ` X. of_nat m \<le> t} = ?Z"
  proof -
    have "{t \<in> compacted m X ` X. of_nat m \<le> t} = compacted m X ` ?Z"
      by (auto simp: compacted_ge [OF m32])
    also have "\<dots> = id ` ?Z"
      by (rule image_cong) (simp_all add: compacted_def)
    finally show ?thesis
      by simp
  qed
  have fst: "fst (renorm_pass (of_nat m) (stage m)) = padded (sorted_list_of_set ?Z)"
  proof -
    have "u32_MAX \<notin> timestamp ` set (stage m)"
      unfolding stamps by (metis imageE noMAX)
    then show ?thesis
      by (subst renorm_pass_set) (simp_all only: stamps Z not_False_eq_True)
  qed
  have step: "(case MinSet_index_of (padded (sorted_list_of_set ?Z)) (compacted m X t) of
                 Some i \<Rightarrow> of_nat i + of_nat m | None \<Rightarrow> compacted m X t)
            = compacted (m + RENORM_PASS_SIZE) X t" if "t \<in> X" for t
  proof (cases "m \<le> rank X t")
    case True
    then have "compacted m X t = t"
      by (simp add: compacted_def)
    with True that noMAX [OF that] fin m show ?thesis
      by (simp add: index_of_padded rank_window compacted_def less_diff_conv2
          flip: of_nat_add)
  next
    case False
    then have c: "compacted m X t = of_nat (rank X t)"
      by (simp add: compacted_def)
    have "rank X (of_nat (rank X t)) < m"
      using rank_le_unat [of X "of_nat (rank X t)"] False by (simp add: unat_of_rank)
    then show ?thesis
      using c False noMAX [OF that] fin by (auto simp: index_of_padded compacted_def)
  qed
  have "snd (renorm_pass (of_nat m) (stage m)) =
      map (\<lambda>d. d\<lparr>timestamp := case MinSet_index_of (padded (sorted_list_of_set ?Z))
                (compacted m X (timestamp d)) of
             Some i \<Rightarrow> of_nat i + of_nat m | None \<Rightarrow> compacted m X (timestamp d)\<rparr>) allocs"
    using fst by (simp add: renorm_pass_def Let_def stage_def comp_def split: option.split)
  also have "\<dots> = stage (m + RENORM_PASS_SIZE)"
    using step X(1) by (simp add: stage_def)
  finally show ?thesis
    using fst by (metis prod.collapse)
qed

text \<open>The table with every stamp replaced by its rank.\<close>

definition ranked :: "SwapAlloc list \<Rightarrow> SwapAlloc list" where
  "ranked allocs =
     map (\<lambda>d. d\<lparr>timestamp := of_nat (rank (timestamp ` set allocs) (timestamp d))\<rparr>) allocs"

lemma card_window:
  assumes "finite X" "m \<le> card X"
  shows "card {t \<in> X. m \<le> rank X t} = card X - m"
proof -
  have "{t \<in> X. m \<le> rank X t} = X - {t \<in> X. rank X t < m}"
    by auto
  moreover have "card (X - {t \<in> X. rank X t < m}) = card X - card {t \<in> X. rank X t < m}"
    using assms(1) by (intro card_Diff_subset) auto
  ultimately show ?thesis
    by (simp only: card_rank_less [OF assms])
qed

lemma compacted_all:
  assumes "finite X" "card X \<le> m" "t \<in> X"
  shows "compacted m X t = of_nat (rank X t)"
  using nth_rank(1) [OF assms(1,3)] assms(2) by (simp add: compacted_def)

lemma renorm_loop_ranked:
  assumes X: "X = timestamp ` set allocs" "u32_MAX \<notin> X"
    and m: "m \<le> card X" "card X - m < RENORM_PASS_SIZE * n"
  shows "renorm_loop n (of_nat m)
           (map (\<lambda>d. d\<lparr>timestamp := compacted m X (timestamp d)\<rparr>) allocs) = Ok (ranked allocs)"
  using m
proof (induction n arbitrary: m)
  case (Suc n)
  let ?Z = "{t \<in> X. m \<le> rank X t}"
  have fin: "finite X"
    using X by simp
  have Z: "(MinSet_max (padded (sorted_list_of_set ?Z)) = u32_MAX) = (card X - m < RENORM_PASS_SIZE)"
    using X(2) fin by (subst MinSet_max_padded) (simp_all add: card_window Suc.prems(1))
  note pass = renorm_pass_compacted [OF X Suc.prems(1)]
  show ?case
  proof (cases "card X - m < RENORM_PASS_SIZE")
    case True
    then have "map (\<lambda>d. d\<lparr>timestamp := compacted (m + RENORM_PASS_SIZE) X (timestamp d)\<rparr>) allocs
             = ranked allocs"
      using X(1) fin by (auto simp: ranked_def compacted_all)
    with True Z show ?thesis
      by (simp add: pass)
  next
    case False
    then have "renorm_loop n (of_nat (m + RENORM_PASS_SIZE)) (map (\<lambda>d.
        d\<lparr>timestamp := compacted (m + RENORM_PASS_SIZE) X (timestamp d)\<rparr>) allocs) = Ok (ranked allocs)"
      using Suc.prems by (intro Suc.IH) simp_all
    with False Z show ?thesis
      by (simp add: pass)
  qed
qed simp

lemma renorm_loop_total:
  assumes "u32_MAX \<notin> timestamp ` set allocs"
  shows "renorm_loop (Suc (length allocs)) 0 allocs = Ok (ranked allocs)"
proof -
  let ?X = "timestamp ` set allocs"
  have "card ?X \<le> length allocs"
    by (metis card_length length_map list.set_map)
  also have "\<dots> < RENORM_PASS_SIZE * Suc (length allocs)"
    by (simp add: RENORM_PASS_SIZE_def)
  finally have "renorm_loop (Suc (length allocs)) (of_nat 0)
      (map (\<lambda>d. d\<lparr>timestamp := compacted 0 ?X (timestamp d)\<rparr>) allocs) = Ok (ranked allocs)"
    using assms by (intro renorm_loop_ranked) simp_all
  then show ?thesis
    by (simp add: compacted_def)
qed

lemma renormalize_total:
  assumes "u32_MAX \<notin> timestamp ` set allocs" "allocs \<noteq> []"
  shows "renormalize_allocs allocs = Ok (Max (timestamp ` set (ranked allocs)), ranked allocs)"
  using assms renorm_loop_total [OF assms(1)]
  by (simp add: renormalize_allocs_def ranked_def del: renorm_loop.simps)

lemma ranked_simps [simp]:
  "length (ranked allocs) = length allocs"
  "map vpn (ranked allocs) = map vpn allocs"
  "(ranked allocs = []) = (allocs = [])"
  by (simp_all add: ranked_def comp_def)

lemma ranked_stamp:
  assumes "i < length allocs"
  shows "unat (timestamp (ranked allocs ! i)) = rank (timestamp ` set allocs) (timestamp (allocs ! i))"
  using assms by (simp add: ranked_def unat_of_rank)

lemma ranked_order:
  assumes "i < length allocs" "j < length allocs"
  shows "(timestamp (ranked allocs ! i) < timestamp (ranked allocs ! j))
       = (timestamp (allocs ! i) < timestamp (allocs ! j))"
  using assms by (simp add: word_less_nat_alt ranked_stamp)
    (simp add: rank_mono flip: word_less_nat_alt)

lemma ranked_stamp_less:
  assumes "d \<in> set (ranked allocs)"
  shows "unat (timestamp d) < card (timestamp ` set allocs)"
proof -
  from assms obtain i where "i < length allocs" "d = ranked allocs ! i"
    by (metis in_set_conv_nth ranked_simps(1))
  then show ?thesis
    by (simp add: ranked_stamp nth_rank(1))
qed

lemma card_stamps_le: "card (timestamp ` set allocs) \<le> length allocs"
  by (metis card_length length_map list.set_map)

lemma Max_ranked:
  assumes "allocs \<noteq> []"
  shows "Max (timestamp ` set (ranked allocs)) = of_nat (card (timestamp ` set allocs) - 1)"
proof (rule Max_eqI)
  let ?X = "timestamp ` set allocs"
  have "0 < card ?X"
    using assms by (simp add: card_gt_0_iff)
  moreover have c32: "card ?X - 1 < 2 ^ 32"
  proof -
    have "card ?X \<le> card (UNIV :: u32 set)"
      by (rule card_mono) simp_all
    then show ?thesis
      by (simp add: card_word)
  qed
  ultimately have "sorted_list_of_set ?X ! (card ?X - 1) \<in> ?X"
    using nth_mem [of "card ?X - 1" "sorted_list_of_set ?X"] by simp
  then obtain d where d: "d \<in> set allocs" "timestamp d = sorted_list_of_set ?X ! (card ?X - 1)"
    by auto
  then have "d\<lparr>timestamp := of_nat (card ?X - 1)\<rparr> \<in> set (ranked allocs)"
    using \<open>0 < card ?X\<close> by (force simp: ranked_def rank_nth)
  then show "of_nat (card ?X - 1) \<in> timestamp ` set (ranked allocs)"
    by force
  show "y \<le> of_nat (card ?X - 1)" if "y \<in> timestamp ` set (ranked allocs)" for y
  proof -
    have "unat y < card ?X"
      using that ranked_stamp_less by auto
    then show ?thesis
      unfolding word_le_nat_alt unat_of_nat_u32 [OF c32] by linarith
  qed
qed simp

text \<open>The stamps never run ahead of the epoch, and the epoch never reaches the
  sentinel of the minimum sets.\<close>

definition epoch_ok :: "u32 \<Rightarrow> SwapAlloc list \<Rightarrow> bool" where
  "epoch_ok epoch allocs =
     ((\<forall>d \<in> set allocs. timestamp d \<le> epoch) \<and> epoch < u32_MAX
      \<and> allocs \<noteq> [] \<and> length allocs < 2 ^ 20)"

text \<open>Two tables of the same pages whose stamps are in the same order.\<close>

definition same_order :: "SwapAlloc list \<Rightarrow> SwapAlloc list \<Rightarrow> bool" where
  "same_order xs ys =
     (map vpn xs = map vpn ys
      \<and> (\<forall>i < length xs. \<forall>j < length xs.
           (timestamp (xs ! i) < timestamp (xs ! j)) = (timestamp (ys ! i) < timestamp (ys ! j))))"

lemma same_order_refl [simp]: "same_order xs xs"
  by (simp add: same_order_def)

lemma same_order_ranked: "same_order xs (ranked xs)"
  by (simp add: same_order_def ranked_order)

lemma word_succ_less:
  fixes x y :: u32
  assumes "x \<le> y" "y < u32_MAX"
  shows "x < y + 1"
  using assms(1) unfolding word_less_nat_alt word_le_nat_alt unat_succ_u32 [OF assms(2)]
  by simp

lemma next_epoch_spec:
  assumes "epoch_ok epoch allocs"
  obtains e allocs' where "next_epoch epoch allocs = Ok (e, allocs')" "same_order allocs allocs'"
    "\<forall>d \<in> set allocs'. timestamp d < e" "e < u32_MAX"
proof (cases "epoch < u32_MAX - 1")
  case True
  then have "unat (epoch + 1) \<noteq> unat u32_MAX"
    using unat_succ_u32 [of epoch]
    by (simp only: word_less_nat_alt u32_MAX_def) simp
  then have "epoch + 1 < u32_MAX"
    by auto
  with True assms show ?thesis
    by (intro that [of "epoch + 1" allocs]) (auto simp: next_epoch_def epoch_ok_def intro: word_succ_less)
next
  case False
  let ?c = "card (timestamp ` set allocs)"
  have c: "0 < ?c" "?c < 2 ^ 20"
    using assms card_stamps_le [of allocs] by (auto simp: epoch_ok_def card_gt_0_iff)
  then have uc: "unat (of_nat ?c :: u32) = ?c"
    by (simp add: unsigned_of_nat take_bit_nat_eq_self)
  have e: "of_nat (?c - 1) + 1 = (of_nat ?c :: u32)"
    using c(1) by (metis Suc_pred' add.commute of_nat_Suc)
  have "timestamp d \<noteq> u32_MAX" if "d \<in> set allocs" for d
    using assms that order_le_less_trans [of "timestamp d" epoch u32_MAX]
    by (auto simp: epoch_ok_def)
  then have "u32_MAX \<notin> timestamp ` set allocs"
    by (metis imageE)
  then have "next_epoch epoch allocs = Ok (of_nat ?c, ranked allocs)"
    using False assms e by (simp add: next_epoch_def renormalize_total Max_ranked epoch_ok_def)
  moreover have "of_nat ?c \<noteq> u32_MAX"
    using c uc by (auto simp: u32_MAX_def)
  moreover have "\<forall>d \<in> set (ranked allocs). timestamp d < of_nat ?c"
    by (intro ballI) (simp only: word_less_nat_alt uc ranked_stamp_less)
  ultimately show ?thesis
    using same_order_ranked [of allocs] less_u32_MAX that by blast
qed

section \<open>Properties\<close>

text \<open>C15. Renormalising the epoch is exact: the loop, which works through the table in
  windows of 64 values, ends for every table, keeps the order of the pages and every
  other field, and replaces the stamp of each page by the number of distinct
  smaller stamps of the table. It returns the largest stamp that is left.\<close>

theorem renormalize_ranks:
  assumes "allocs \<noteq> []" and "\<forall>d \<in> set allocs. timestamp d \<noteq> u32_MAX"
  shows "renormalize_allocs allocs =
           Ok (of_nat (card (timestamp ` set allocs) - 1),
               map (\<lambda>d. d\<lparr>timestamp := of_nat (card {t \<in> timestamp ` set allocs. t < timestamp d})\<rparr>)
                 allocs)"
proof -
  have "u32_MAX \<notin> timestamp ` set allocs"
    using assms(2) by (metis imageE)
  from renormalize_total [OF this assms(1)] Max_ranked [OF assms(1)] show ?thesis
    by (simp only: ranked_def rank_def)
qed

definition demo_allocs :: "SwapAlloc list" where
  "demo_allocs = [\<lparr>timestamp = 0xFFFFFFF0, vpn = 0x1003\<rparr>, \<lparr>timestamp = 7, vpn = 0\<rparr>,
     \<lparr>timestamp = 0x80000000, vpn = 0x2004\<rparr>, \<lparr>timestamp = 7, vpn = 0x3005\<rparr>]"

theorem renormalize_ranks_witness:
  "renormalize_allocs demo_allocs =
     Ok (2, [\<lparr>timestamp = 2, vpn = 0x1003\<rparr>, \<lparr>timestamp = 0, vpn = 0\<rparr>,
             \<lparr>timestamp = 1, vpn = 0x2004\<rparr>, \<lparr>timestamp = 0, vpn = 0x3005\<rparr>])"
proof -
  have "demo_allocs \<noteq> []" "\<forall>d \<in> set demo_allocs. timestamp d \<noteq> u32_MAX"
    by code_simp+
  note r = renormalize_ranks [OF this]
  show ?thesis
    unfolding r by code_simp
qed

end
