(* ===== verification/Kernel_Monad.thy ===== *)
theory Kernel_Monad
  imports Xous_Defs
begin

text \<open>
  Stateful kernel code. A kernel routine takes the machine state and returns how
  it ended together with the state it leaves behind: an error returned by \<open>?\<close>
  does not undo what was done before it. Apart from returning, failing and
  panicking, a routine of the swap-enabled kernel can hand the processor to the
  swapper process, which runs in user space (\<open>Swap::swap_reentrant_syscall\<close> of
  kernel/src/swap.rs); what such a call does is not part of the model, so the
  run stops there with the arguments of the call.
\<close>

section \<open>Runs\<close>

datatype 'a run = Done "(Error, 'a) outcome" | Swapper "usize list"

type_synonym ('s, 'a) km = "'s \<Rightarrow> 'a run \<times> 's"

definition ret :: "'a \<Rightarrow> ('s, 'a) km" where
  "ret x s = (Done (Ok x), s)"

definition fail :: "Error \<Rightarrow> ('s, 'a) km" where
  "fail e s = (Done (Err e), s)"

definition panic :: "('s, 'a) km" where
  "panic s = (Done Panic, s)"

definition swapper :: "usize list \<Rightarrow> ('s, 'a) km" where
  "swapper args s = (Swapper args, s)"

definition lift :: "(Error, 'a) outcome \<Rightarrow> ('s, 'a) km" where
  "lift r s = (Done r, s)"

definition gets :: "('s \<Rightarrow> 'a) \<Rightarrow> ('s, 'a) km" where
  "gets f s = (Done (Ok (f s)), s)"

definition modify :: "('s \<Rightarrow> 's) \<Rightarrow> ('s, unit) km" where
  "modify f s = (Done (Ok ()), f s)"

text \<open>\<open>kbind m f\<close> is \<open>let x = m?; f(x)\<close>; \<open>kmatch m f\<close> is \<open>match m { ... }\<close>, where the
  error is a value the code looks at.\<close>

definition kbind :: "('s, 'a) km \<Rightarrow> ('a \<Rightarrow> ('s, 'b) km) \<Rightarrow> ('s, 'b) km" where
  "kbind m f s =
     (case m s of
        (Done (Ok x), s') \<Rightarrow> f x s'
      | (Done (Err e), s') \<Rightarrow> (Done (Err e), s')
      | (Done Panic, s') \<Rightarrow> (Done Panic, s')
      | (Swapper args, s') \<Rightarrow> (Swapper args, s'))"

definition kmatch :: "('s, 'a) km \<Rightarrow> (Error + 'a \<Rightarrow> ('s, 'b) km) \<Rightarrow> ('s, 'b) km" where
  "kmatch m f s =
     (case m s of
        (Done (Ok x), s') \<Rightarrow> f (Inr x) s'
      | (Done (Err e), s') \<Rightarrow> f (Inl e) s'
      | (Done Panic, s') \<Rightarrow> (Done Panic, s')
      | (Swapper args, s') \<Rightarrow> (Swapper args, s'))"

abbreviation kthen :: "('s, 'a) km \<Rightarrow> ('s, 'b) km \<Rightarrow> ('s, 'b) km" where
  "kthen m k \<equiv> kbind m (\<lambda>_. k)"

text \<open>\<open>m.ok();\<close> drops the error; \<open>m.expect(..)\<close> and \<open>m.unwrap()\<close> panic on it.\<close>

definition ignore :: "('s, 'a) km \<Rightarrow> ('s, unit) km" where
  "ignore m = kmatch m (\<lambda>_. ret ())"

definition expect :: "('s, 'a) km \<Rightarrow> ('s, 'a) km" where
  "expect m = kmatch m (\<lambda>r. case r of Inl e \<Rightarrow> panic | Inr x \<Rightarrow> ret x)"

primrec kfor :: "'a list \<Rightarrow> ('a \<Rightarrow> ('s, unit) km) \<Rightarrow> ('s, unit) km" where
  "kfor [] f = ret ()"
| "kfor (x # xs) f = kthen (f x) (kfor xs f)"

definition kassert :: "bool \<Rightarrow> ('s, unit) km" where
  "kassert b = (if b then ret () else panic)"

text \<open>The addresses of \<open>(start..end).step_by(PAGE_SIZE)\<close>.\<close>

definition PAGE_SIZE :: usize where
  "PAGE_SIZE = 0x1000"

definition page_range :: "usize \<Rightarrow> usize \<Rightarrow> usize list" where
  "page_range start end =
     map (\<lambda>i. start + of_nat (i * 4096)) [0..<(unat end - unat start + 4095) div 4096]"

section \<open>Running composed routines\<close>

named_theorems km_simps

lemma run_simps [km_simps, simp]:
  "ret x s = (Done (Ok x), s)"
  "fail e s = (Done (Err e), s)"
  "panic s = (Done Panic, s)"
  "swapper args s = (Swapper args, s)"
  "lift r s = (Done r, s)"
  "gets f s = (Done (Ok (f s)), s)"
  "modify g s = (Done (Ok ()), g s)"
  by (simp_all add: ret_def fail_def panic_def swapper_def lift_def gets_def modify_def)

lemma kbind_simps [km_simps, simp]:
  "kbind (ret x) f = f x"
  "kbind (gets g) f s = f (g s) s"
  "kbind (modify h) f s = f () (h s)"
  "kbind (fail e) f = fail e"
  "kbind panic f = panic"
  "kbind (swapper args) f = swapper args"
  by (auto simp: kbind_def fun_eq_iff)

lemma kmatch_simps [km_simps, simp]:
  "kmatch (ret x) g = g (Inr x)"
  "kmatch (fail e) g = g (Inl e)"
  "kmatch (gets h) g s = g (Inr (h s)) s"
  by (auto simp: kmatch_def fun_eq_iff)

lemma kbind_Ok: "m s = (Done (Ok x), s') \<Longrightarrow> kbind m f s = f x s'"
  by (simp add: kbind_def)

lemma kbind_eq_Ok:
  "(kbind m f s = (Done (Ok y), s'')) =
     (\<exists>x s'. m s = (Done (Ok x), s') \<and> f x s' = (Done (Ok y), s''))"
  by (auto simp: kbind_def split: prod.splits run.splits outcome.splits)

lemma kbind_unless:
  assumes "\<not> P s" "m s = (Done (Ok x), s')"
  shows "kbind (\<lambda>s. if P s then ret y s else m s) f s = f x s'"
  using assms by (simp add: kbind_def)

lemma kbind_cong:
  assumes "\<And>x s'. m s = (Done (Ok x), s') \<Longrightarrow> f x s' = g x s'"
  shows "kbind m f s = kbind m g s"
  using assms by (auto simp: kbind_def split: prod.splits run.splits outcome.splits)

section \<open>Invariants of routines\<close>

text \<open>
  \<open>keeps I m\<close>: the routine keeps the invariant however it ends. The rules below take an
  invariant through the combinators, so that an operation is proved by proving
  its atomic steps.
\<close>

definition keeps :: "('s \<Rightarrow> bool) \<Rightarrow> ('s, 'a) km \<Rightarrow> bool" where
  "keeps I m = (\<forall>s. I s \<longrightarrow> I (snd (m s)))"

named_theorems keeps_intros

lemma keepsI: "(\<And>s. I s \<Longrightarrow> I (snd (m s))) \<Longrightarrow> keeps I m"
  by (simp add: keeps_def)

lemma keepsD: "keeps I m \<Longrightarrow> I s \<Longrightarrow> I (snd (m s))"
  by (simp add: keeps_def)

lemma keepsD': "keeps I m \<Longrightarrow> m s = (r, s') \<Longrightarrow> I s \<Longrightarrow> I s'"
  by (metis keepsD snd_conv)

lemma keeps_pure [keeps_intros]:
  "keeps I (ret x)" "keeps I (fail e)" "keeps I panic" "keeps I (swapper args)"
  "keeps I (lift r)" "keeps I (gets g)" "keeps I (kassert b)"
  by (simp_all add: keeps_def kassert_def)

lemma keeps_modify: "(\<And>s. I s \<Longrightarrow> I (f s)) \<Longrightarrow> keeps I (modify f)"
  by (simp add: keeps_def)

lemma keeps_bind [keeps_intros]:
  "keeps I m \<Longrightarrow> (\<And>x. keeps I (f x)) \<Longrightarrow> keeps I (kbind m f)"
  by (auto simp: keeps_def kbind_def split: prod.splits run.splits outcome.splits)

lemma keeps_match [keeps_intros]:
  "keeps I m \<Longrightarrow> (\<And>r. keeps I (f r)) \<Longrightarrow> keeps I (kmatch m f)"
  by (auto simp: keeps_def kmatch_def split: prod.splits run.splits outcome.splits)

lemma keeps_if [keeps_intros]:
  "(b \<Longrightarrow> keeps I m) \<Longrightarrow> (\<not> b \<Longrightarrow> keeps I m') \<Longrightarrow> keeps I (if b then m else m')"
  by simp

lemma keeps_case_option [keeps_intros]:
  "keeps I m \<Longrightarrow> (\<And>x. keeps I (f x)) \<Longrightarrow> keeps I (case z of None \<Rightarrow> m | Some x \<Rightarrow> f x)"
  by (cases z) simp_all

lemma keeps_case_sum [keeps_intros]:
  "(\<And>e. keeps I (f e)) \<Longrightarrow> (\<And>x. keeps I (g x)) \<Longrightarrow>
     keeps I (case z of Inl e \<Rightarrow> f e | Inr x \<Rightarrow> g x)"
  by (cases z) simp_all

lemma keeps_case_prod [keeps_intros]:
  "(\<And>x y. keeps I (f x y)) \<Longrightarrow> keeps I (case z of (x, y) \<Rightarrow> f x y)"
  by (cases z) simp_all

lemma keeps_let [keeps_intros]: "keeps I (f x) \<Longrightarrow> keeps I (let y = x in f y)"
  by simp

lemma keeps_ignore [keeps_intros]: "keeps I m \<Longrightarrow> keeps I (ignore m)"
  unfolding ignore_def by (intro keeps_intros)

lemma keeps_expect [keeps_intros]: "keeps I m \<Longrightarrow> keeps I (expect m)"
  unfolding expect_def by (intro keeps_intros)

lemma keeps_for [keeps_intros]: "(\<And>x. x \<in> set xs \<Longrightarrow> keeps I (f x)) \<Longrightarrow> keeps I (kfor xs f)"
  by (induction xs) (auto intro: keeps_intros)

end
