(* ===== verification/Mem_Alloc.thy ===== *)
theory Mem_Alloc
  imports Swap_Tracking Kernel_Monad
begin

text \<open>
  Ownership of physical memory: the tables of kernel/src/mem.rs that say which
  process owns which page of RAM and of the device regions, and the routines
  that allocate, claim, release and hand over pages. The machine state of the
  whole memory subsystem is declared here; the page tables and the address
  spaces of the processes, which are part of it, are handled in the theories that
  follow.
\<close>

section \<open>State\<close>

record MemoryRangeExtra =
  mem_start :: u32
  mem_size :: u32
  mem_tag :: u32

text \<open>The per-process bookkeeping page (\<open>ProcessInner\<close> of kernel/src/services.rs).\<close>

record ProcessInner =
  mem_default_base :: usize
  mem_default_last :: usize
  mem_message_base :: usize
  mem_message_last :: usize
  mem_heap_base :: usize
  mem_heap_size :: usize
  mem_heap_max :: usize
  connection_map :: "u8 option list"
  inner_pid :: PID

text \<open>
  \<open>MemoryManager\<close> (the first four fields), the static tables beside it, the two fields
  of \<open>Swap\<close> the allocator updates, the \<open>satp\<close> register, the process the kernel runs
  for, the words of the physical pages that serve as page tables (by physical
  page number and index in the page), and the bookkeeping page of each address
  space (by its ASID).
\<close>

record Mem =
  ram_start :: usize
  ram_size :: usize
  ram_name :: u32
  last_ram_page :: nat
  MEMORY_ALLOCATIONS :: "SwapAlloc list"
  EXTRA_ALLOCATIONS :: "PID option list"
  EXTRA_REGIONS :: "MemoryRangeExtra list"
  epoch :: u32
  used_pages :: usize
  satp :: usize
  current_pid :: PID
  frames :: "usize \<Rightarrow> nat \<Rightarrow> usize"
  process_inner :: "usize \<Rightarrow> ProcessInner"

section \<open>Table entries in place\<close>

text \<open>\<open>next_epoch\<close> may renormalise the whole table before the entry is written.\<close>

definition with_epoch :: "(u32 \<Rightarrow> ('z Mem_scheme, unit) km) \<Rightarrow> ('z Mem_scheme, unit) km" where
  "with_epoch f s =
     (case next_epoch (epoch s) (MEMORY_ALLOCATIONS s) of
        Ok (e, allocs) \<Rightarrow> f e (s\<lparr>MEMORY_ALLOCATIONS := allocs, epoch := e\<rparr>)
      | Err x \<Rightarrow> (Done (Err x), s)
      | Panic \<Rightarrow> (Done Panic, s))"

definition updated_vpn :: "PID option \<Rightarrow> usize option \<Rightarrow> u32 \<Rightarrow> u32" where
  "updated_vpn pid vaddr old =
     (case pid of
        Some p \<Rightarrow>
          (case vaddr of
             Some va \<Rightarrow> (va AND NOT 0xFFF) OR ucast p OR (old AND SWAP_FLG_WIRED)
                        OR (if p = 2 then SWAP_FLG_WIRED else 0)
           | None \<Rightarrow> SWAP_FLG_WIRED OR ucast p)
      | None \<Rightarrow> 0)"

definition SA_update :: "nat \<Rightarrow> PID option \<Rightarrow> usize option \<Rightarrow> ('z Mem_scheme, unit) km" where
  "SA_update i pid vaddr =
     with_epoch (\<lambda>e. modify (\<lambda>s.
       let a = MEMORY_ALLOCATIONS s ! i
       in s\<lparr>MEMORY_ALLOCATIONS := (MEMORY_ALLOCATIONS s)
              [i := a\<lparr>timestamp := e, vpn := updated_vpn pid vaddr (vpn a)\<rparr>],
            used_pages := track_alloc (pid \<noteq> None) (used_pages s)\<rparr>))"

definition SA_touch :: "nat \<Rightarrow> ('z Mem_scheme, unit) km" where
  "SA_touch i =
     with_epoch (\<lambda>e. modify (\<lambda>s.
       s\<lparr>MEMORY_ALLOCATIONS := (MEMORY_ALLOCATIONS s)
           [i := (MEMORY_ALLOCATIONS s ! i)\<lparr>timestamp := e\<rparr>]\<rparr>))"

definition SA_reparent :: "nat \<Rightarrow> PID \<Rightarrow> ('z Mem_scheme, unit) km" where
  "SA_reparent i pid =
     with_epoch (\<lambda>e. modify (\<lambda>s.
       let a = MEMORY_ALLOCATIONS s ! i
       in s\<lparr>MEMORY_ALLOCATIONS := (MEMORY_ALLOCATIONS s)
              [i := a\<lparr>timestamp := e, vpn := (vpn a AND NOT 0xFF) OR ucast pid\<rparr>]\<rparr>))"

section \<open>The memory manager\<close>

definition ram_pages :: "'z Mem_scheme \<Rightarrow> nat" where
  "ram_pages s = unat (ram_size s div PAGE_SIZE)"

definition ram_used_by :: "PID \<Rightarrow> 'z Mem_scheme \<Rightarrow> (Error, usize) outcome" where
  "ram_used_by pid s =
     (if length (MEMORY_ALLOCATIONS s) < ram_pages s then Panic
      else Ok (fold (\<lambda>a owned. if SA_is_pid a pid then owned + PAGE_SIZE else owned)
                 (take (ram_pages s) (MEMORY_ALLOCATIONS s)) 0))"

definition is_main_memory :: "usize \<Rightarrow> 'z Mem_scheme \<Rightarrow> bool" where
  "is_main_memory phys s = (phys \<ge> ram_start s \<and> phys < ram_start s + ram_size s)"

definition HW_IFRAM0_MEM :: usize where "HW_IFRAM0_MEM = 0x50000000"
definition HW_IFRAM0_MEM_LEN :: usize where "HW_IFRAM0_MEM_LEN = 131072"
definition HW_IFRAM1_MEM_LEN :: usize where "HW_IFRAM1_MEM_LEN = 131072"

definition is_peripheral_ram :: "usize \<Rightarrow> bool" where
  "is_peripheral_ram phys =
     (phys \<ge> HW_IFRAM0_MEM \<and> phys < HW_IFRAM0_MEM + HW_IFRAM0_MEM_LEN + HW_IFRAM1_MEM_LEN)"

text \<open>The index of a RAM page in the allocation table, and the address of an index.\<close>

definition ram_index :: "usize \<Rightarrow> 'z Mem_scheme \<Rightarrow> nat" where
  "ram_index phys s = unat ((phys - ram_start s) div PAGE_SIZE)"

definition touch :: "usize \<Rightarrow> ('z Mem_scheme, unit) km" where
  "touch paddr s =
     (if is_main_memory paddr s
      then (if ram_index paddr s < length (MEMORY_ALLOCATIONS s)
            then SA_touch (ram_index paddr s) s else panic s)
      else ret () s)"

text \<open>
  The search visits \<open>[starting_point..end_point]\<close> and then \<open>[..starting_point]\<close>. Without a
  free page the kernel calls into the swapper and searches again when the call has
  returned.
\<close>

definition HardOom :: usize where "HardOom = 4"
definition RetrievePage :: usize where "RetrievePage = 3"

definition alloc_page_oomable :: "PID \<Rightarrow> usize option \<Rightarrow> ('z Mem_scheme, usize) km" where
  "alloc_page_oomable pid vaddr s =
     (let end_point = ram_pages s;
          starting_point = max (last_ram_page s) end_point
      in if starting_point > end_point \<or> end_point > length (MEMORY_ALLOCATIONS s) then panic s
         else case find (\<lambda>i. SA_is_none (MEMORY_ALLOCATIONS s ! i))
                     ([starting_point..<end_point] @ [0..<starting_point]) of
                Some index \<Rightarrow>
                  kthen (SA_update index (Some pid) vaddr)
                    (kthen (modify (\<lambda>s. s\<lparr>last_ram_page := index + 1\<rparr>))
                      (gets (\<lambda>s. of_nat index * PAGE_SIZE + ram_start s))) s
              | None \<Rightarrow> swapper [HardOom, 0, 0, 0, 0, 0, 0] s)"

datatype ClaimReleaseMove = Claim | Release | Move PID

text \<open>The shared test of both tables: may \<open>pid\<close> act on an entry owned by \<open>owner\<close>?\<close>

definition owner_allows :: "PID option \<Rightarrow> PID \<Rightarrow> ClaimReleaseMove \<Rightarrow> bool" where
  "owner_allows owner pid action =
     (case owner of
        None \<Rightarrow> True
      | Some current \<Rightarrow>
          current = pid \<or>
          (case action of Move existing \<Rightarrow> existing = current | _ \<Rightarrow> False))"

definition action_inner ::
  "PID option \<Rightarrow> PID \<Rightarrow> ClaimReleaseMove \<Rightarrow> bool \<Rightarrow> (Error, PID option) outcome" where
  "action_inner owner pid action allow_alias =
     (if \<not> owner_allows owner pid action then Err MemoryInUse
      else case action of
             Claim \<Rightarrow>
               if allow_alias
               then (case owner of
                       Some previous \<Rightarrow> if previous = pid then Ok (Some pid) else Err MemoryInUse
                     | None \<Rightarrow> Ok (Some pid))
               else (if owner = None then Ok (Some pid) else Err MemoryInUse)
           | Move _ \<Rightarrow> Ok (Some pid)
           | Release \<Rightarrow> Ok None)"

definition action_inner_tracking ::
  "nat \<Rightarrow> PID \<Rightarrow> ClaimReleaseMove \<Rightarrow> usize \<Rightarrow> ('z Mem_scheme, unit) km" where
  "action_inner_tracking i pid action pa s =
     (if \<not> owner_allows (SA_get_pid (MEMORY_ALLOCATIONS s ! i)) pid action then fail MemoryInUse s
      else case action of
             Claim \<Rightarrow>
               if SA_is_none (MEMORY_ALLOCATIONS s ! i) then SA_update i (Some pid) (Some pa) s
               else fail MemoryInUse s
           | Move _ \<Rightarrow> SA_update i (Some pid) (Some pa) s
           | Release \<Rightarrow> SA_update i None None s)"

text \<open>The position of a device address in the table of the extra regions.\<close>

fun extra_offset :: "usize \<Rightarrow> MemoryRangeExtra list \<Rightarrow> usize \<Rightarrow> usize option" where
  "extra_offset pa [] offset = None"
| "extra_offset pa (region # regions) offset =
     (if pa \<ge> mem_start region \<and> pa < mem_start region + mem_size region
      then Some (offset + (pa - mem_start region) div PAGE_SIZE)
      else extra_offset pa regions (offset + mem_size region div PAGE_SIZE))"

definition claim_release_move ::
  "usize \<Rightarrow> PID \<Rightarrow> ClaimReleaseMove \<Rightarrow> ('z Mem_scheme, unit) km" where
  "claim_release_move pa pid action s =
     (if pa AND 0xfff \<noteq> 0 then fail BadAlignment s
      else if is_main_memory pa s
      then (if ram_index pa s < length (MEMORY_ALLOCATIONS s)
            then action_inner_tracking (ram_index pa s) pid action pa s else panic s)
      else case extra_offset pa (EXTRA_REGIONS s) 0 of
             None \<Rightarrow> fail BadAddress s
           | Some offset \<Rightarrow>
               if unat offset < length (EXTRA_ALLOCATIONS s)
               then (case action_inner (EXTRA_ALLOCATIONS s ! unat offset) pid action
                            (\<not> is_peripheral_ram offset) of
                       Ok owner \<Rightarrow>
                         ret () (s\<lparr>EXTRA_ALLOCATIONS := (EXTRA_ALLOCATIONS s)[unat offset := owner]\<rparr>)
                     | Err e \<Rightarrow> fail e s
                     | Panic \<Rightarrow> panic s)
               else panic s)"

definition claim_page :: "usize \<Rightarrow> PID \<Rightarrow> ('z Mem_scheme, unit) km" where
  "claim_page pa pid = claim_release_move pa pid Claim"

definition release_page :: "usize \<Rightarrow> PID \<Rightarrow> ('z Mem_scheme, unit) km" where
  "release_page pa pid = claim_release_move pa pid Release"

definition move_page_raw :: "usize \<Rightarrow> PID \<Rightarrow> ('z Mem_scheme, unit) km" where
  "move_page_raw pa dest_pid s =
     claim_release_move pa dest_pid (Move (current_pid s)) s"

definition allocation_offset_to_address :: "nat \<Rightarrow> 'z Mem_scheme \<Rightarrow> usize option" where
  "allocation_offset_to_address offset s =
     (if offset < ram_pages s then Some (ram_start s + of_nat offset * PAGE_SIZE) else None)"

fun extra_address :: "usize \<Rightarrow> MemoryRangeExtra list \<Rightarrow> usize option" where
  "extra_address offset_in_region [] = None"
| "extra_address offset_in_region (region # regions) =
     (if offset_in_region \<ge> mem_size region div PAGE_SIZE
      then extra_address (offset_in_region - mem_size region div PAGE_SIZE) regions
      else Some (mem_start region + offset_in_region * PAGE_SIZE))"

definition allocation_offset_to_address_extra :: "nat \<Rightarrow> 'z Mem_scheme \<Rightarrow> usize option" where
  "allocation_offset_to_address_extra offset s = extra_address (of_nat offset) (EXTRA_REGIONS s)"

end
