(* ===== verification/Page_Table.thy ===== *)
theory Page_Table
  imports Mem_Alloc
begin

text \<open>
  The Sv32 page tables of kernel/src/arch/riscv/mem.rs. The kernel reaches the
  tables of the active address space through fixed virtual addresses: the root
  table at \<open>PAGE_TABLE_ROOT_OFFSET\<close> and the leaf table of superpage \<open>v\<close> at
  \<open>PAGE_TABLE_OFFSET + v * PAGE_SIZE\<close>. The model reads and writes the physical pages
  these addresses stand for: the root table is the page named by \<open>satp\<close>, the leaf table
  of \<open>v\<close> the page named by entry \<open>v\<close> of the root table. That the leaf tables are mapped where
  the kernel expects them is part of the invariant proved in the next
  theory. The TLB flushes have no counterpart.
\<close>

section \<open>Flags\<close>

definition MMU_VALID :: usize where "MMU_VALID = 0x1"
definition MMU_R :: usize where "MMU_R = 0x2"
definition MMU_W :: usize where "MMU_W = 0x4"
definition MMU_X :: usize where "MMU_X = 0x8"
definition MMU_USER :: usize where "MMU_USER = 0x10"
definition MMU_A :: usize where "MMU_A = 0x40"
definition MMU_D :: usize where "MMU_D = 0x80"
definition MMU_S :: usize where "MMU_S = 0x100"
definition MMU_P :: usize where "MMU_P = 0x200"

definition translate_flags :: "MemoryFlags \<Rightarrow> usize" where
  "translate_flags req =
     (if MemoryFlags_and req FLAG_R = FLAG_R then MMU_R else 0) OR
     (if MemoryFlags_and req FLAG_W = FLAG_W then MMU_W else 0) OR
     (if MemoryFlags_and req FLAG_X = FLAG_X then MMU_X else 0) OR
     (if MemoryFlags_and req FLAG_P = FLAG_P then MMU_P else 0)"

definition untranslate_flags :: "usize \<Rightarrow> MemoryFlags" where
  "untranslate_flags req =
     (let r = req AND 0x3FF in
      MemoryFlags_or (if r AND MMU_R = MMU_R then FLAG_R else FLAG_FREE)
     (MemoryFlags_or (if r AND MMU_W = MMU_W then FLAG_W else FLAG_FREE)
     (MemoryFlags_or (if r AND MMU_X = MMU_X then FLAG_X else FLAG_FREE)
                     (if r AND MMU_P = MMU_P then FLAG_P else FLAG_FREE))))"

section \<open>Addresses\<close>

definition PAGE_TABLE_OFFSET :: usize where "PAGE_TABLE_OFFSET = 0xff400000"
definition USER_AREA_END :: usize where "USER_AREA_END = 0xff000000"

definition vpn1 :: "usize \<Rightarrow> nat" where
  "vpn1 va = unat (drop_bit 22 va AND 0x3ff)"

definition vpn0 :: "usize \<Rightarrow> nat" where
  "vpn0 va = unat (drop_bit 12 va AND 0x3ff)"

text \<open>\<open>(ppn1 << 20) | (ppn0 << 10) | flags\<close>, and back.\<close>

definition make_pte :: "usize \<Rightarrow> usize \<Rightarrow> usize" where
  "make_pte phys flags =
     (push_bit 20 (drop_bit 22 phys AND 0xfff)) OR
     (push_bit 10 (drop_bit 12 phys AND 0x3ff)) OR flags"

definition pte_phys :: "usize \<Rightarrow> usize" where
  "pte_phys entry = push_bit 12 (drop_bit 10 entry)"

section \<open>The active tables\<close>

definition root_of :: "usize \<Rightarrow> usize" where
  "root_of mapping = mapping AND 0x3fffff"

definition l1_entry :: "'z Mem_scheme \<Rightarrow> nat \<Rightarrow> usize" where
  "l1_entry s v = frames s (root_of (satp s)) v"

definition leaf_frame :: "'z Mem_scheme \<Rightarrow> nat \<Rightarrow> usize" where
  "leaf_frame s v = drop_bit 10 (l1_entry s v)"

definition l0_entry :: "'z Mem_scheme \<Rightarrow> nat \<Rightarrow> nat \<Rightarrow> usize" where
  "l0_entry s v w = frames s (leaf_frame s v) w"

definition has_leaf :: "'z Mem_scheme \<Rightarrow> nat \<Rightarrow> bool" where
  "has_leaf s v = (l1_entry s v AND MMU_VALID \<noteq> 0)"

definition write_word :: "usize \<Rightarrow> nat \<Rightarrow> usize \<Rightarrow> 'z Mem_scheme \<Rightarrow> 'z Mem_scheme" where
  "write_word f i e s = s\<lparr>frames := (frames s)(f := (frames s f)(i := e))\<rparr>"

definition set_l1 :: "nat \<Rightarrow> usize \<Rightarrow> ('z Mem_scheme, unit) km" where
  "set_l1 v e = modify (\<lambda>s. write_word (root_of (satp s)) v e s)"

definition set_l0 :: "nat \<Rightarrow> nat \<Rightarrow> usize \<Rightarrow> ('z Mem_scheme, unit) km" where
  "set_l0 v w e = modify (\<lambda>s. write_word (leaf_frame s v) w e s)"

definition zero_leaf :: "nat \<Rightarrow> ('z Mem_scheme, unit) km" where
  "zero_leaf v = modify (\<lambda>s. s\<lparr>frames := (frames s)(leaf_frame s v := (\<lambda>_. 0))\<rparr>)"

text \<open>\<open>zeropage\<close> clears the page that the active tables map at the address.\<close>

definition zeropage :: "usize \<Rightarrow> ('z Mem_scheme, unit) km" where
  "zeropage va = modify (\<lambda>s.
     s\<lparr>frames := (frames s)(drop_bit 10 (l0_entry s (vpn1 va) (vpn0 va)) := (\<lambda>_. 0))\<rparr>)"

section \<open>Address spaces\<close>

definition get_pid :: "usize \<Rightarrow> PID option" where
  "get_pid mapping = nonzero (ucast (drop_bit 22 mapping AND 0x1ff))"

definition is_allocated :: "usize \<Rightarrow> bool" where
  "is_allocated mapping = (get_pid mapping \<noteq> None)"

definition is_kernel :: "usize \<Rightarrow> bool" where
  "is_kernel mapping = (case get_pid mapping of Some p \<Rightarrow> p = 1 | None \<Rightarrow> False)"

definition activate :: "usize \<Rightarrow> ('z Mem_scheme, unit) km" where
  "activate mapping = modify (\<lambda>s. s\<lparr>satp := mapping\<rparr>)"

text \<open>\<open>crate::arch::current_pid\<close>: the process whose address space is active, as opposed to
  \<open>crate::arch::process::current_pid\<close>, the process the scheduler runs.\<close>

definition arch_current_pid :: "('z Mem_scheme, PID) km" where
  "arch_current_pid s = (Done (unwrap (get_pid (satp s))), s)"

section \<open>Mapping a page\<close>

definition RW_flags :: MemoryFlags where
  "RW_flags = MemoryFlags_or FLAG_W FLAG_R"

definition write_leaf_entry :: "usize \<Rightarrow> usize \<Rightarrow> MemoryFlags \<Rightarrow> bool \<Rightarrow> ('z Mem_scheme, unit) km" where
  "write_leaf_entry phys virt req_flags map_user s =
     (if l0_entry s (vpn1 virt) (vpn0 virt) AND 1 \<noteq> 0 then fail MemoryInUse s
      else set_l0 (vpn1 virt) (vpn0 virt)
             (make_pte phys (translate_flags req_flags OR (if map_user then MMU_USER else 0)
                OR MMU_VALID OR MMU_D OR MMU_A)) s)"

text \<open>
  \<open>map_page_inner\<close> calls itself to map a new leaf table; the calls nest at most three deep
  (\<open>map_page_fuel_enough\<close>). The assertions on the masked parts of the addresses always hold.
\<close>

primrec map_page_fuel ::
  "nat \<Rightarrow> PID \<Rightarrow> usize \<Rightarrow> usize \<Rightarrow> MemoryFlags \<Rightarrow> bool \<Rightarrow> ('z Mem_scheme, unit) km" where
  "map_page_fuel 0 pid phys virt req_flags map_user = panic"
| "map_page_fuel (Suc n) pid phys virt req_flags map_user =
     kthen (kassert (virt AND 0xfff = 0))
    (kthen (\<lambda>s.
       if has_leaf s (vpn1 virt) then ret () s
       else kbind (alloc_page_oomable pid None) (\<lambda>l0_pt_phys.
              kthen (set_l1 (vpn1 virt) (push_bit 10 (drop_bit 12 l0_pt_phys) OR MMU_VALID))
             (kthen (map_page_fuel n pid l0_pt_phys
                       (PAGE_TABLE_OFFSET + of_nat (vpn1 virt) * PAGE_SIZE) RW_flags False)
                    (zero_leaf (vpn1 virt)))) s)
     (write_leaf_entry phys virt req_flags map_user))"

definition map_page_inner ::
  "PID \<Rightarrow> usize \<Rightarrow> usize \<Rightarrow> MemoryFlags \<Rightarrow> bool \<Rightarrow> ('z Mem_scheme, unit) km" where
  "map_page_inner = map_page_fuel 3"

text \<open>The location of the leaf entry of an address, in the address space that is
  active when it is used.\<close>

definition pagetable_entry :: "usize \<Rightarrow> 'z Mem_scheme \<Rightarrow> (Error, nat \<times> nat) outcome" where
  "pagetable_entry va s =
     (if va AND 3 \<noteq> 0 then Err BadAlignment
      else if \<not> has_leaf s (vpn1 va) then Err BadAddress
      else Ok (vpn1 va, vpn0 va))"

definition entry_of :: "usize \<Rightarrow> ('z Mem_scheme, nat \<times> nat) km" where
  "entry_of va s = (Done (pagetable_entry va s), s)"

definition read_entry :: "nat \<times> nat \<Rightarrow> ('z Mem_scheme, usize) km" where
  "read_entry e = gets (\<lambda>s. l0_entry s (fst e) (snd e))"

definition write_entry :: "nat \<times> nat \<Rightarrow> usize \<Rightarrow> ('z Mem_scheme, unit) km" where
  "write_entry e x = set_l0 (fst e) (snd e) x"

definition unmap_page_inner :: "usize \<Rightarrow> ('z Mem_scheme, usize) km" where
  "unmap_page_inner virt =
     kbind (entry_of virt) (\<lambda>entry.
     kbind (read_entry entry) (\<lambda>e.
     kthen (write_entry entry 0) (ret (pte_phys e))))"

section \<open>Moving, lending and returning a page\<close>

definition move_page_inner :: "usize \<Rightarrow> usize \<Rightarrow> PID \<Rightarrow> usize \<Rightarrow> usize \<Rightarrow> ('z Mem_scheme, unit) km" where
  "move_page_inner src_space src_addr dest_pid dest_space dest_addr =
     kbind (entry_of src_addr) (\<lambda>entry.
     kbind (read_entry entry) (\<lambda>previous.
       if previous AND MMU_VALID = 0 then fail BadAddress
       else
         kthen (write_entry entry 0)
        (kthen (activate dest_space)
        (kmatch (map_page_inner dest_pid (pte_phys previous) dest_addr
                   (untranslate_flags previous) (dest_pid \<noteq> 1)) (\<lambda>result.
         kthen (activate src_space)
           (case result of Inl e \<Rightarrow> fail e | Inr _ \<Rightarrow> ret ()))))))"

definition page_is_lent :: "usize \<Rightarrow> 'z Mem_scheme \<Rightarrow> bool" where
  "page_is_lent src_addr s =
     (case pagetable_entry src_addr s of
        Ok e \<Rightarrow> l0_entry s (fst e) (snd e) AND MMU_S \<noteq> 0
      | _ \<Rightarrow> False)"

definition lend_page_inner ::
  "usize \<Rightarrow> usize \<Rightarrow> PID \<Rightarrow> usize \<Rightarrow> usize \<Rightarrow> bool \<Rightarrow> ('z Mem_scheme, usize) km" where
  "lend_page_inner src_space src_addr dest_pid dest_space dest_addr mutable =
     kbind (entry_of src_addr) (\<lambda>entry.
     kbind (read_entry entry) (\<lambda>current.
       if current AND MMU_VALID = 0 then fail ShareViolation
       else if current AND MMU_S \<noteq> 0 then fail ShareViolation
       else
         let new_entry = (current AND NOT MMU_VALID) OR MMU_S;
             new_flags = (if mutable \<and> new_entry AND MMU_W \<noteq> 0
                          then MemoryFlags_or FLAG_R FLAG_W else FLAG_R)
         in kthen (write_entry entry new_entry)
           (kthen (activate dest_space)
           (kmatch (map_page_inner dest_pid (pte_phys current) dest_addr new_flags (dest_pid \<noteq> 1))
              (\<lambda>result.
            kthen (activate src_space)
              (case result of Inl e \<Rightarrow> fail e | Inr _ \<Rightarrow> ret (pte_phys current)))))))"

definition return_page_inner ::
  "usize \<Rightarrow> usize \<Rightarrow> PID \<Rightarrow> usize \<Rightarrow> usize \<Rightarrow> ('z Mem_scheme, usize) km" where
  "return_page_inner src_space src_addr dest_pid dest_space dest_addr =
     kbind (entry_of src_addr) (\<lambda>src_entry.
     kbind (read_entry src_entry) (\<lambda>src_value.
       if src_value AND MMU_VALID = 0 then fail ShareViolation
       else
         kthen (write_entry src_entry 0)
        (kthen (activate dest_space)
        (kbind (expect (entry_of dest_addr)) (\<lambda>dest_entry.
         kbind (read_entry dest_entry) (\<lambda>dest_value.
           if dest_value AND MMU_S = 0 then panic
           else
             kthen (write_entry dest_entry ((dest_value AND NOT MMU_S) OR MMU_VALID))
            (kthen (activate src_space)
                   (ret (pte_phys src_value)))))))))"

section \<open>Translation and availability\<close>

definition virt_to_phys :: "usize \<Rightarrow> 'z Mem_scheme \<Rightarrow> (Error, usize) outcome" where
  "virt_to_phys virt s =
     (let e = l0_entry s (vpn1 virt) (vpn0 virt)
      in if \<not> has_leaf s (vpn1 virt) then Err BadAddress
         else if e AND MMU_S \<noteq> 0 then Err ShareViolation
         else if e AND MMU_VALID = 0 then (if e \<noteq> 0 then Err MemoryInUse else Err BadAddress)
         else Ok (pte_phys e))"

definition address_available :: "usize \<Rightarrow> 'z Mem_scheme \<Rightarrow> bool" where
  "address_available virt s =
     (case virt_to_phys virt s of Err e \<Rightarrow> e = BadAddress | _ \<Rightarrow> False)"

definition hand_page_to_user :: "usize \<Rightarrow> ('z Mem_scheme, unit) km" where
  "hand_page_to_user virt s =
     (if \<not> has_leaf s (vpn1 virt) then fail BadAddress s
      else if l0_entry s (vpn1 virt) (vpn0 virt) AND 1 = 0 then fail BadAddress s
      else set_l0 (vpn1 virt) (vpn0 virt)
             (l0_entry s (vpn1 virt) (vpn0 virt) OR MMU_USER) s)"

section \<open>Reservations\<close>

definition reserve_address :: "usize \<Rightarrow> MemoryFlags \<Rightarrow> ('z Mem_scheme, unit) km" where
  "reserve_address va flags =
     kthen (\<lambda>s.
       if has_leaf s (vpn1 va) then ret () s
       else kbind arch_current_pid (\<lambda>pid.
            kbind (alloc_page_oomable pid None) (\<lambda>l0pt_phys.
              kthen (set_l1 (vpn1 va) (push_bit 10 (drop_bit 12 l0pt_phys) OR MMU_VALID))
             (kthen (map_page_inner pid l0pt_phys
                       (PAGE_TABLE_OFFSET + of_nat (vpn1 va) * PAGE_SIZE) RW_flags False)
                    (zero_leaf (vpn1 va))))) s)
     (\<lambda>s. if l0_entry s (vpn1 va) (vpn0 va) AND 1 = 1 then fail ShareViolation s
          else set_l0 (vpn1 va) (vpn0 va) (translate_flags flags) s)"

definition unreserve_address :: "usize \<Rightarrow> ('z Mem_scheme, unit) km" where
  "unreserve_address va s =
     (if \<not> has_leaf s (vpn1 va) then ret () s
      else if l0_entry s (vpn1 va) (vpn0 va) AND MMU_VALID \<noteq> 0 then fail ShareViolation s
      else set_l0 (vpn1 va) (vpn0 va) 0 s)"

section \<open>Demand paging\<close>

text \<open>
  A page that has been swapped out (flag \<open>P\<close>) is fetched by the swapper, which
  runs in user space; \<open>retrieve_resume\<close> is what the kernel does when that call has
  returned.
\<close>

definition retrieve_resume :: "nat \<times> nat \<Rightarrow> usize \<Rightarrow> usize \<Rightarrow> ('z Mem_scheme, usize) km" where
  "retrieve_resume entry flags new_page =
     kthen (write_entry entry (make_pte new_page ((flags AND NOT MMU_P) OR MMU_VALID)))
       (ret new_page)"

definition ensure_page_exists_inner :: "usize \<Rightarrow> ('z Mem_scheme, usize) km" where
  "ensure_page_exists_inner address s =
     (if \<not> is_kernel (satp s) \<and> address \<ge> USER_AREA_END then fail OutOfMemory s
      else
        (let virt = address AND NOT 0xfff
         in kbind (kmatch (entry_of virt) (\<lambda>r. case r of Inl _ \<Rightarrow> fail BadAddress | Inr e \<Rightarrow> ret e)) (\<lambda>entry.
            kbind (read_entry entry) (\<lambda>current.
              let flags = current AND 0x3ff
              in if flags AND MMU_VALID \<noteq> 0 \<and> flags AND MMU_P = 0 then ret address
                 else if flags = 0 \<or> flags AND MMU_S \<noteq> 0 then fail BadAddress
                 else
                   kbind (expect (\<lambda>s. alloc_page_oomable (current_pid s) (Some virt) s)) (\<lambda>new_page.
                     if flags AND MMU_P \<noteq> 0
                     then swapper [RetrievePage, virt, new_page, 0, 0, 0, 0]
                     else
                       kthen (write_entry entry
                                (make_pte new_page (flags OR MMU_VALID OR MMU_D OR MMU_A)))
                      (kthen (zeropage virt)
                      (kthen (write_entry entry
                                (make_pte new_page (flags OR MMU_VALID OR MMU_USER OR MMU_D OR MMU_A)))
                             (ret new_page))))))) s)"

section \<open>Flags of a mapped page\<close>

definition page_flags :: "usize \<Rightarrow> 'z Mem_scheme \<Rightarrow> MemoryFlags option" where
  "page_flags virt s =
     (if \<not> has_leaf s (vpn1 virt) then None
      else
        let e = l0_entry s (vpn1 virt) (vpn0 virt);
            fl = MemoryFlags_or (if e AND MMU_R \<noteq> 0 then FLAG_R else FLAG_FREE)
                (MemoryFlags_or (if e AND MMU_W \<noteq> 0 then FLAG_W else FLAG_FREE)
                                (if e AND MMU_X \<noteq> 0 then FLAG_X else FLAG_FREE))
        in if e AND MMU_S \<noteq> 0 then None
           else if MemoryFlags_is_empty fl then None else Some fl)"

definition strip_flag :: "MemoryFlags \<Rightarrow> MemoryFlags \<Rightarrow> usize \<Rightarrow> usize \<Rightarrow> (Error, usize) outcome" where
  "strip_flag flags fl mmu e =
     (if MemoryFlags_is_empty (MemoryFlags_and flags fl)
      then Ok (if e AND mmu \<noteq> 0 then e AND NOT mmu else e)
      else if e AND mmu = 0 then Err ShareViolation else Ok e)"

definition update_page_flags :: "usize \<Rightarrow> MemoryFlags \<Rightarrow> ('z Mem_scheme, unit) km" where
  "update_page_flags virt flags s =
     (if MemoryFlags_is_empty
           (MemoryFlags_and flags (MemoryFlags_or FLAG_R (MemoryFlags_or FLAG_W FLAG_X)))
      then fail MemoryInUse s
      else if \<not> has_leaf s (vpn1 virt) then fail OutOfMemory s
      else if l0_entry s (vpn1 virt) (vpn0 virt) AND MMU_S \<noteq> 0 then fail ShareViolation s
      else
        kbind (lift (bind_outcome (strip_flag flags FLAG_X MMU_X (l0_entry s (vpn1 virt) (vpn0 virt))) (\<lambda>e.
                     bind_outcome (strip_flag flags FLAG_R MMU_R e) (\<lambda>e.
                     strip_flag flags FLAG_W MMU_W e))))
          (\<lambda>e. set_l0 (vpn1 virt) (vpn0 virt) e) s)"

text \<open>
  \<open>MemoryMapping::phys_to_virt\<close>: the only virtual page of the active space that maps a
  physical page, an error if there are two.
\<close>

definition leaf_hits :: "usize \<Rightarrow> 'z Mem_scheme \<Rightarrow> nat \<Rightarrow> u32 list" where
  "leaf_hits phys s i =
     map (\<lambda>j. of_nat i * 0x400000 + of_nat j * 0x1000)
       (filter (\<lambda>j. let e = l0_entry s i j in
            e AND 7 \<noteq> 0 \<and> pte_phys e = phys \<and> (e AND MMU_VALID \<noteq> 0 \<or> e AND MMU_S \<noteq> 0)) [0..<1024])"

definition phys_to_virt :: "usize \<Rightarrow> usize \<Rightarrow> 'z Mem_scheme \<Rightarrow> (Error, u32 option) outcome" where
  "phys_to_virt mapping phys s =
     (if phys AND (PAGE_SIZE - 1) \<noteq> 0 then Err BadAlignment
      else
        case concat (map (leaf_hits phys s)
               (filter (\<lambda>i. l1_entry s i \<noteq> 0 \<and> \<not> (i = 1023 \<and> \<not> is_kernel mapping)) [0..<1024])) of
          [] \<Rightarrow> Ok None
        | [v] \<Rightarrow> Ok (Some v)
        | _ \<Rightarrow> Err MemoryInUse)"

end
