(* ===== verification/Mem_Ranges.thy ===== *)
theory Mem_Ranges
  imports Page_Table
begin

text \<open>
  The memory manager above the page tables: the operations of kernel/src/mem.rs on
  ranges of pages, and the system calls of kernel/src/syscall.rs that are made of them.
  Page-sized loops run over \<open>page_range\<close>; the loops that undo their work on an error are
  instances of \<open>kfor_undo\<close>.
\<close>

section \<open>Loops with roll-back\<close>

text \<open>\<open>f\<close> for each element; at the first error, \<open>undo\<close> for each element that was done,
  in the same order, and the error.\<close>

primrec kfor_undo ::
  "('a \<Rightarrow> ('s, unit) km) \<Rightarrow> ('a \<Rightarrow> ('s, unit) km) \<Rightarrow> 'a list \<Rightarrow> 'a list \<Rightarrow> ('s, unit) km" where
  "kfor_undo f undo done [] = ret ()"
| "kfor_undo f undo done (x # xs) =
     kmatch (f x) (\<lambda>r. case r of
         Inl e \<Rightarrow> kthen (kfor done undo) (fail e)
       | Inr _ \<Rightarrow> kfor_undo f undo (done @ [x]) xs)"

section \<open>The bookkeeping page of the active process\<close>

definition inner_key :: "'z Mem_scheme \<Rightarrow> usize" where
  "inner_key s = drop_bit 22 (satp s) AND 0x1ff"

definition inner :: "'z Mem_scheme \<Rightarrow> ProcessInner" where
  "inner s = process_inner s (inner_key s)"

definition with_inner_mut :: "(ProcessInner \<Rightarrow> ProcessInner) \<Rightarrow> ('z Mem_scheme, unit) km" where
  "with_inner_mut f = modify (\<lambda>s.
     s\<lparr>process_inner := (process_inner s)(inner_key s := f (inner s))\<rparr>)"

section \<open>Finding a virtual address\<close>

definition all_free :: "usize \<Rightarrow> usize \<Rightarrow> 'z Mem_scheme \<Rightarrow> bool" where
  "all_free sz start s =
     list_all (\<lambda>check_page. address_available check_page s) (page_range start (start + sz))"

definition search_area ::
  "usize \<Rightarrow> usize \<Rightarrow> usize \<Rightarrow> usize \<Rightarrow> (usize \<Rightarrow> ProcessInner \<Rightarrow> ProcessInner) \<Rightarrow> ('z Mem_scheme, usize) km" where
  "search_area start end initial sz remember s =
     (case find (\<lambda>p. all_free sz p s) (page_range initial (end - sz) @ page_range start initial) of
        Some potential_start \<Rightarrow>
          kthen (with_inner_mut (remember potential_start)) (ret potential_start) s
      | None \<Rightarrow> fail BadAddress s)"

definition find_virtual_address :: "usize \<Rightarrow> usize \<Rightarrow> MemoryType \<Rightarrow> ('z Mem_scheme, usize) km" where
  "find_virtual_address virt_ptr sz kind s =
     (if virt_ptr \<noteq> 0 then ret virt_ptr s
      else
        let p = inner s
        in case kind of
             MT_Stack \<Rightarrow> fail BadAddress s
           | MT_Heap \<Rightarrow>
               (let new_virt = mem_heap_base p + mem_heap_size p + PAGE_SIZE
                in if new_virt + sz > mem_heap_base p + mem_heap_max p then fail OutOfMemory s
                   else ret new_virt s)
           | MT_Default \<Rightarrow>
               search_area (mem_default_base p) (mem_default_base p + 0x10000000) (mem_default_last p) sz
                 (\<lambda>v p. p\<lparr>mem_default_last := v\<rparr>) s
           | MT_Messages \<Rightarrow>
               search_area (mem_message_base p) (mem_message_base p + 0x400000) (mem_message_last p) sz
                 (\<lambda>v p. p\<lparr>mem_message_last := v\<rparr>) s)"

section \<open>Reserving and mapping ranges\<close>

definition reserve_range :: "usize \<Rightarrow> usize \<Rightarrow> MemoryFlags \<Rightarrow> ('z Mem_scheme, MemoryRange) km" where
  "reserve_range virt_ptr sz flags =
     kbind (find_virtual_address virt_ptr sz MT_Default) (\<lambda>virt.
       if virt AND 0xfff \<noteq> 0 then fail BadAlignment
       else if sz AND 0xfff \<noteq> 0 then fail BadAlignment
       else
         kthen (kfor_undo (\<lambda>a. reserve_address a flags) (\<lambda>undo. expect (unreserve_address undo)) []
                  (page_range virt (virt + sz)))
           (lift (MemoryRange_new virt sz)))"

text \<open>\<open>bzero\<close> on the whole pages from \<open>start\<close> to \<open>end\<close>; every caller passes a multiple of the
  page sz.\<close>

definition bzero :: "usize \<Rightarrow> usize \<Rightarrow> ('z Mem_scheme, unit) km" where
  "bzero start end = kfor (page_range start end) zeropage"

definition map_zeroed_page :: "PID \<Rightarrow> bool \<Rightarrow> ('z Mem_scheme, usize) km" where
  "map_zeroed_page pid is_user =
     kbind (find_virtual_address 0 PAGE_SIZE MT_Default) (\<lambda>virt.
     kbind (alloc_page_oomable pid (Some virt)) (\<lambda>phys.
     kmatch (map_page_inner pid phys virt (MemoryFlags_or FLAG_R FLAG_W) False) (\<lambda>r. case r of
         Inl e \<Rightarrow> kthen (ignore (release_page phys pid)) (fail e)
       | Inr _ \<Rightarrow>
           kthen (bzero virt (virt + PAGE_SIZE))
          (kthen (if is_user then hand_page_to_user virt else ret ())
                 (ret virt)))))"

definition MMAP_VIRT_BASE :: usize where "MMAP_VIRT_BASE = 0xb0000000"

definition is_mapped_flash :: "usize \<Rightarrow> bool" where
  "is_mapped_flash virt = (virt AND MMAP_VIRT_BASE = MMAP_VIRT_BASE)"

definition saturating_add :: "usize \<Rightarrow> usize \<Rightarrow> usize" where
  "saturating_add a b = (if unat a + unat b \<ge> 2 ^ 32 then - 1 else a + b)"

text \<open>The part of \<open>map_range\<close> for memory-mapped flash: read-only pages that only the
  swapper can fill.\<close>

definition map_flash_page :: "usize \<Rightarrow> ('z Mem_scheme, unit) km" where
  "map_flash_page virt =
     kthen (reserve_address virt (MemoryFlags_or FLAG_R FLAG_P))
      (kbind (entry_of virt) (\<lambda>pte.
       kbind (read_entry pte) (\<lambda>e. write_entry pte (e OR MMU_USER))))"

definition map_flash :: "usize \<Rightarrow> usize \<Rightarrow> ('z Mem_scheme, MemoryRange) km" where
  "map_flash virt_ptr sz =
     (if saturating_add virt_ptr sz AND 0xF0000000 \<noteq> MMAP_VIRT_BASE then fail BadAddress
      else
        let start = virt_ptr AND NOT (PAGE_SIZE - 1);
            end = (virt_ptr + sz + PAGE_SIZE - 1) AND NOT (PAGE_SIZE - 1)
        in kthen (kfor (page_range start end) map_flash_page)
             (lift (MemoryRange_new start (end - start))))"

text \<open>The search for contiguous free pages: the start of the current run of free entries and its
  length, cut off as soon as the run is long enough.\<close>

fun find_run :: "nat \<Rightarrow> nat \<Rightarrow> nat option \<Rightarrow> nat \<Rightarrow> SwapAlloc list \<Rightarrow> nat option \<times> nat" where
  "find_run pages index range_start current_run [] = (range_start, current_run)"
| "find_run pages index range_start current_run (entry # rest) =
     (let (start, run) =
        (if SA_is_none entry
         then (case range_start of
                 Some st \<Rightarrow> (Some st, current_run + 1)
               | None \<Rightarrow> (Some index, 1))
         else (None, 0))
      in if run \<ge> pages then (start, run) else find_run pages (index + 1) start run rest)"

definition device_ram_start :: "usize \<Rightarrow> ('z Mem_scheme, usize) km" where
  "device_ram_start sz s =
     (let pages_to_claim = unat (sz div PAGE_SIZE)
      in case find_run pages_to_claim 0 None 0 (MEMORY_ALLOCATIONS s) of
           (Some start, run) \<Rightarrow>
             if run \<ge> pages_to_claim then ret (of_nat start * PAGE_SIZE + ram_start s) s
             else fail OutOfMemory s
         | (None, _) \<Rightarrow> fail OutOfMemory s)"

definition set_wired :: "usize \<Rightarrow> ('z Mem_scheme, unit) km" where
  "set_wired phys s =
     (if ram_index phys s < length (MEMORY_ALLOCATIONS s)
      then ret () (s\<lparr>MEMORY_ALLOCATIONS := (MEMORY_ALLOCATIONS s)
             [ram_index phys s := SA_set_wired (MEMORY_ALLOCATIONS s ! ram_index phys s)]\<rparr>)
      else panic s)"

text \<open>Step 1 of \<open>map_range\<close> claims all physical pages, step 2 maps them.\<close>

definition claim_range :: "usize \<Rightarrow> usize \<Rightarrow> PID \<Rightarrow> bool \<Rightarrow> ('z Mem_scheme, unit) km" where
  "claim_range phys sz pid device_ram =
     kfor_undo (\<lambda>pa. kthen (claim_page pa pid) (if device_ram then set_wired pa else ret ()))
       (\<lambda>pa. ignore (release_page pa pid)) [] (page_range phys (phys + sz))"

definition map_claimed :: "usize \<Rightarrow> usize \<Rightarrow> usize \<Rightarrow> PID \<Rightarrow> MemoryFlags \<Rightarrow> ('z Mem_scheme, unit) km" where
  "map_claimed phys virt sz pid flags =
     kfor_undo (\<lambda>offset. map_page_inner pid (offset + phys) (offset + virt) flags False)
       (\<lambda>offset. kthen (ignore (unmap_page_inner (offset + virt)))
                       (ignore (release_page (offset + phys) pid)))
       [] (page_range 0 sz)"

definition map_range ::
  "usize \<Rightarrow> usize \<Rightarrow> usize \<Rightarrow> PID \<Rightarrow> MemoryFlags \<Rightarrow> MemoryType \<Rightarrow> ('z Mem_scheme, MemoryRange) km" where
  "map_range phys_ptr virt_ptr sz pid flags kind =
     kbind (find_virtual_address virt_ptr sz kind) (\<lambda>virt.
       let device_ram = (MemoryFlags_and flags FLAG_DEV = FLAG_DEV \<and> phys_ptr = 0)
       in if phys_ptr = 0 \<and> MemoryFlags_and flags FLAG_VIRT = FLAG_VIRT
             \<and> virt_ptr AND 0xF0000000 = MMAP_VIRT_BASE
          then map_flash virt_ptr sz
          else if phys_ptr = 0 \<and> \<not> device_ram then reserve_range virt sz flags
          else
            kbind (if device_ram then device_ram_start sz else ret phys_ptr) (\<lambda>phys.
            kthen (claim_range phys sz pid device_ram)
           (kthen (map_claimed phys virt sz pid flags)
           (kthen (if device_ram
                   then kthen (bzero virt (virt + sz))
                          (kfor (page_range 0 sz) (\<lambda>offset. expect (hand_page_to_user (virt + offset))))
                   else ret ())
             (lift (MemoryRange_new virt sz))))))"

section \<open>Single pages between processes\<close>

definition unmap_page :: "usize \<Rightarrow> ('z Mem_scheme, usize) km" where
  "unmap_page virt =
     kthen (\<lambda>s. case virt_to_phys virt s of
                  Ok phys \<Rightarrow> ignore (release_page phys (current_pid s)) s
                | _ \<Rightarrow> ret () s)
       (unmap_page_inner virt)"

definition move_page :: "PID \<Rightarrow> usize \<Rightarrow> usize \<Rightarrow> PID \<Rightarrow> usize \<Rightarrow> usize \<Rightarrow> ('z Mem_scheme, unit) km" where
  "move_page src_pid src_mapping src_addr dest_pid dest_mapping dest_addr =
     kbind (\<lambda>s. lift (virt_to_phys src_addr s) s) (\<lambda>phys_addr.
     kthen (move_page_inner src_mapping src_addr dest_pid dest_mapping dest_addr)
           (claim_release_move phys_addr dest_pid (Move src_pid)))"

definition lend_page ::
  "usize \<Rightarrow> usize \<Rightarrow> PID \<Rightarrow> usize \<Rightarrow> usize \<Rightarrow> bool \<Rightarrow> ('z Mem_scheme, usize) km" where
  "lend_page = lend_page_inner"

definition unlend_page :: "usize \<Rightarrow> usize \<Rightarrow> PID \<Rightarrow> usize \<Rightarrow> usize \<Rightarrow> ('z Mem_scheme, usize) km" where
  "unlend_page = return_page_inner"

definition ensure_page_exists :: "usize \<Rightarrow> ('z Mem_scheme, unit) km" where
  "ensure_page_exists address = kthen (ensure_page_exists_inner address) (ret ())"

section \<open>Rights of a range\<close>

definition check_flags :: "MemoryFlags \<Rightarrow> usize \<Rightarrow> ('z Mem_scheme, unit) km" where
  "check_flags flags virt s =
     (case page_flags virt s of
        None \<Rightarrow> fail MemoryInUse s
      | Some existing_flags \<Rightarrow>
          if \<not> MemoryFlags_is_empty (MemoryFlags_and (MemoryFlags_not existing_flags) flags)
          then fail MemoryInUse s else ret () s)"

definition update_memory_flags :: "MemoryRange \<Rightarrow> MemoryFlags \<Rightarrow> ('z Mem_scheme, unit) km" where
  "update_memory_flags rng flags =
     (let virt = addr rng; sz = rsize rng
      in if virt AND (PAGE_SIZE - 1) \<noteq> 0 then fail BadAlignment
         else if sz AND (PAGE_SIZE - 1) \<noteq> 0 then fail BadAlignment
         else
           kthen (kfor (page_range virt (virt + sz)) (check_flags flags))
             (kfor (page_range virt (virt + sz))
                (\<lambda>v. kthen (check_flags flags v) (update_page_flags v flags))))"

section \<open>The end of a process\<close>

definition release_ram_entry :: "PID \<Rightarrow> nat \<Rightarrow> ('z Mem_scheme, unit) km" where
  "release_ram_entry pid idx s =
     (if SA_is_pid (MEMORY_ALLOCATIONS s ! idx) pid
      then kbind (lift (unwrap (allocation_offset_to_address idx s))) (\<lambda>phys_addr s.
             if page_is_lent phys_addr s then SA_reparent idx 1 s else SA_update idx None None s) s
      else ret () s)"

definition release_extra_entry :: "PID \<Rightarrow> nat \<Rightarrow> ('z Mem_scheme, unit) km" where
  "release_extra_entry pid idx s =
     (if EXTRA_ALLOCATIONS s ! idx = Some pid
      then kbind (lift (unwrap (allocation_offset_to_address_extra idx s))) (\<lambda>phys_addr s.
             ret () (s\<lparr>EXTRA_ALLOCATIONS := (EXTRA_ALLOCATIONS s)
               [idx := if page_is_lent phys_addr s then Some 1 else None]\<rparr>)) s
      else ret () s)"

definition release_all_memory_for_process :: "PID \<Rightarrow> ('z Mem_scheme, unit) km" where
  "release_all_memory_for_process pid s =
     kthen (kfor [0..<length (MEMORY_ALLOCATIONS s)] (release_ram_entry pid))
       (kfor [0..<length (EXTRA_ALLOCATIONS s)] (release_extra_entry pid)) s"

end
