(* ===== verification/Mem_Syscalls.thy ===== *)
theory Mem_Syscalls
  imports Mem_Ranges Messages
begin

text \<open>
  The system calls on memory: the arms of \<open>handle_inner\<close> in kernel/src/syscall.rs for
  \<open>MapMemory\<close>, \<open>UnmapMemory\<close>, \<open>IncreaseHeap\<close>, \<open>DecreaseHeap\<close>, \<open>UpdateMemoryFlags\<close> and
  \<open>AdjustProcessLimit\<close>, on behalf of the process whose address space is active.
\<close>

definition or_null :: "usize option \<Rightarrow> usize" where
  "or_null p = (case p of Some x \<Rightarrow> x | None \<Rightarrow> 0)"

definition exceeds_user_area :: "usize \<Rightarrow> usize \<Rightarrow> bool" where
  "exceeds_user_area x sz = (unat x + unat sz \<ge> 2 ^ 32 \<or> x + sz \<ge> USER_AREA_END)"

text \<open>\<open>write_bytes\<close> clears the range, whose length is a multiple of the page size.\<close>

definition hand_range :: "bool \<Rightarrow> MemoryRange \<Rightarrow> ('z Mem_scheme, unit) km" where
  "hand_range main_memory rng =
     kthen (if main_memory then bzero (addr rng) (addr rng + rsize rng) else ret ())
       (kfor (page_range (addr rng) (addr rng + rsize rng)) (\<lambda>a. expect (hand_page_to_user a)))"

definition sys_MapMemory ::
  "PID \<Rightarrow> usize option \<Rightarrow> usize option \<Rightarrow> usize \<Rightarrow> MemoryFlags \<Rightarrow> ('z Mem_scheme, Result) km" where
  "sys_MapMemory pid phys virt sz req_flags =
     (let phys_ptr = or_null phys; virt_ptr = or_null virt
      in if pid \<noteq> 1 \<and> (case virt of Some x \<Rightarrow> exceeds_user_area x sz | None \<Rightarrow> False) then fail BadAddress
         else if sz AND (PAGE_SIZE - 1) \<noteq> 0 then fail BadAlignment
         else if phys_ptr = 0 \<and> is_mapped_flash virt_ptr
         then kbind (map_range phys_ptr virt_ptr sz pid (MemoryFlags_or req_flags FLAG_VIRT) MT_Default)
                (\<lambda>rng. ret (Res_MemoryRange rng))
         else
           kbind (map_range phys_ptr virt_ptr sz pid req_flags MT_Default) (\<lambda>rng.
           kthen (if phys_ptr \<noteq> 0
                  then kbind (gets (is_main_memory phys_ptr)) (\<lambda>main. hand_range main rng)
                  else ret ())
                 (ret (Res_MemoryRange rng))))"

text \<open>The loop of \<open>UnmapMemory\<close> goes on after an error and reports the first one.\<close>

primrec unmap_loop :: "usize list \<Rightarrow> Error option \<Rightarrow> ('z Mem_scheme, Result) km" where
  "unmap_loop [] result = (case result of None \<Rightarrow> ret Res_Ok | Some e \<Rightarrow> fail e)"
| "unmap_loop (a # as) result =
     kmatch (unmap_page a) (\<lambda>r. case r of
         Inl e \<Rightarrow> unmap_loop as (case result of None \<Rightarrow> Some e | Some e' \<Rightarrow> Some e')
       | Inr _ \<Rightarrow> unmap_loop as result)"

definition sys_UnmapMemory :: "MemoryRange \<Rightarrow> ('z Mem_scheme, Result) km" where
  "sys_UnmapMemory rng =
     (let virt = addr rng; sz = rsize rng
      in if virt AND 0xfff \<noteq> 0 then fail BadAlignment
         else if virt \<ge> USER_AREA_END \<or> saturating_add virt sz \<ge> USER_AREA_END then fail BadAddress
         else unmap_loop (page_range virt (virt + sz)) None)"

text \<open>The heap of a process grows by reserving pages behind its end.\<close>

definition sys_IncreaseHeap :: "usize \<Rightarrow> MemoryFlags \<Rightarrow> ('z Mem_scheme, Result) km" where
  "sys_IncreaseHeap delta flags s =
     (let p = inner s
      in if delta AND 0xfff \<noteq> 0 then fail BadAlignment s
         else if delta = 0
         then kbind (expect (lift (MemoryRange_new (mem_heap_base p)
                              (if mem_heap_size p = 0 then 4096 else mem_heap_size p))))
                (\<lambda>rng. ret (Res_MemoryRange rng)) s
         else if unat (mem_heap_size p) + unat delta \<ge> 2 ^ 32 then fail OutOfMemory s
         else if mem_heap_size p + delta > mem_heap_max p then fail OutOfMemory s
         else
           kthen (with_inner_mut (\<lambda>p. p\<lparr>mem_heap_size := mem_heap_size p + delta\<rparr>))
             (kbind (reserve_range (mem_heap_base p + mem_heap_size p) delta flags)
                (\<lambda>rng. ret (Res_MemoryRange rng))) s)"

definition sys_DecreaseHeap :: "usize \<Rightarrow> ('z Mem_scheme, Result) km" where
  "sys_DecreaseHeap delta s =
     (let p = inner s; end = mem_heap_base p + mem_heap_size p
      in if delta AND 0xfff \<noteq> 0 then fail BadAlignment s
         else if delta \<ge> mem_heap_size p then fail OutOfMemory s
         else
           kthen (with_inner_mut (\<lambda>p. p\<lparr>mem_heap_size := mem_heap_size p - delta\<rparr>))
          (kthen (kfor (page_range (end - delta) end)
                    (\<lambda>page. kthen (expect (unmap_page page)) (ret ())))
             (kbind (expect (lift (MemoryRange_new (mem_heap_base p) (mem_heap_size p - delta))))
                (\<lambda>rng. ret (Res_MemoryRange rng)))) s)"

definition sys_UpdateMemoryFlags ::
  "MemoryRange \<Rightarrow> MemoryFlags \<Rightarrow> PID option \<Rightarrow> ('z Mem_scheme, Result) km" where
  "sys_UpdateMemoryFlags rng flags pid =
     (if pid \<noteq> None then fail ProcessNotChild
      else kthen (update_memory_flags rng flags) (ret Res_Ok))"

definition sys_AdjustProcessLimit :: "usize \<Rightarrow> usize \<Rightarrow> usize \<Rightarrow> ('z Mem_scheme, Result) km" where
  "sys_AdjustProcessLimit index current new =
     (if index = 1
      then kthen (with_inner_mut (\<lambda>p. if mem_heap_max p = current then p\<lparr>mem_heap_max := new\<rparr> else p))
             (gets (\<lambda>s. Res_Scalar2 index (mem_heap_max (inner s))))
      else if index = 2
      then kthen (with_inner_mut (\<lambda>p.
                    if mem_heap_size p = current \<and> new < mem_heap_max p
                    then p\<lparr>mem_heap_size := new\<rparr> else p))
             (gets (\<lambda>s. Res_Scalar2 index (mem_heap_size (inner s))))
      else fail InvalidLimit)"

end
