(* ===== verification/Alloc_Spec.thy ===== *)
theory Alloc_Spec
  imports Main
begin

text \<open>
  What the rest of the kernel relies on when it asks for a page: a contract over
  an abstract allocator, and what follows from it for every sequence of
  operations. The contract is interpreted on the memory manager in the theory
  that models it.
\<close>

datatype ('page, 'pid) mem_op =
  OpAlloc 'pid
| OpClaim 'page 'pid
| OpRelease 'page 'pid
| OpMove 'page 'pid 'pid

text \<open>The operations by which a process can lose a page: its own release, and a
  hand-over of the page in its name.\<close>

fun gives_up :: "('page, 'pid) mem_op \<Rightarrow> 'page \<Rightarrow> 'pid \<Rightarrow> bool" where
  "gives_up (OpRelease p' q') p q = (p' = p \<and> q' = q)"
| "gives_up (OpMove p' from to) p q = (p' = p \<and> from = q)"
| "gives_up _ p q = False"

fun op_pid :: "('page, 'pid) mem_op \<Rightarrow> 'pid" where
  "op_pid (OpAlloc q) = q"
| "op_pid (OpClaim p q) = q"
| "op_pid (OpRelease p q) = q"
| "op_pid (OpMove p from to) = to"

text \<open>The pages handed out by a sequence of operations, and the state after it.\<close>

primrec run_ops :: "('op \<Rightarrow> 's \<Rightarrow> 'r \<times> 's) \<Rightarrow> 'op list \<Rightarrow> 's \<Rightarrow> 'r list \<times> 's" where
  "run_ops step [] s = ([], s)"
| "run_ops step (x # xs) s =
     (let rest = run_ops step xs (snd (step x s)) in (fst (step x s) # fst rest, snd rest))"

locale page_allocator =
  fixes inv :: "'s \<Rightarrow> bool"
    and valid_pid :: "'pid \<Rightarrow> bool"
    and owner :: "'s \<Rightarrow> 'page \<Rightarrow> 'pid option"
    and step :: "('page, 'pid) mem_op \<Rightarrow> 's \<Rightarrow> 'page option \<times> 's"
  assumes step_inv: "inv s \<Longrightarrow> valid_pid (op_pid x) \<Longrightarrow> inv (snd (step x s))"
    and step_keeps:
      "inv s \<Longrightarrow> valid_pid (op_pid x) \<Longrightarrow> owner s p = Some q \<Longrightarrow> \<not> gives_up x p q \<Longrightarrow>
         owner (snd (step x s)) p = Some q"
    and step_fresh:
      "inv s \<Longrightarrow> valid_pid (op_pid x) \<Longrightarrow> fst (step x s) = Some p \<Longrightarrow>
         owner s p = None \<and> owner (snd (step x s)) p = Some (op_pid x)"
begin

lemma run_ops_inv:
  "inv s \<Longrightarrow> \<forall>x \<in> set xs. valid_pid (op_pid x) \<Longrightarrow> inv (snd (run_ops step xs s))"
  by (induction xs arbitrary: s) (auto simp: Let_def step_inv)

lemma held_page_stays:
  assumes "inv s" "\<forall>x \<in> set xs. valid_pid (op_pid x)" "owner s p = Some q"
    "\<forall>x \<in> set xs. \<not> gives_up x p q"
  shows "owner (snd (run_ops step xs s)) p = Some q" and "Some p \<notin> set (fst (run_ops step xs s))"
proof -
  have "owner (snd (run_ops step xs s)) p = Some q \<and> Some p \<notin> set (fst (run_ops step xs s))"
    using assms
  proof (induction xs arbitrary: s)
    case (Cons x xs)
    have "owner (snd (step x s)) p = Some q" "inv (snd (step x s))" "fst (step x s) \<noteq> Some p"
      using Cons.prems step_keeps [of s x p q] step_inv [of s x] step_fresh [of s x p]
      by auto
    with Cons.IH [of "snd (step x s)"] Cons.prems show ?case
      by (auto simp: Let_def)
  qed simp
  then show "owner (snd (run_ops step xs s)) p = Some q" "Some p \<notin> set (fst (run_ops step xs s))"
    by auto
qed

lemma no_double_allocation:
  assumes "inv s" "\<forall>x \<in> set (y # xs). valid_pid (op_pid x)"
    "fst (step y s) = Some p" "\<forall>x \<in> set xs. \<not> gives_up x p (op_pid y)"
  shows "Some p \<notin> set (fst (run_ops step xs (snd (step y s))))"
    and "owner (snd (run_ops step xs (snd (step y s)))) p = Some (op_pid y)"
  using held_page_stays [of "snd (step y s)" xs p "op_pid y"] assms step_inv [of s y]
    step_fresh [of s y p] by auto

end

end
