(* ===== verification/Mem_Ownership.thy ===== *)
theory Mem_Ownership
  imports Mem_Alloc Alloc_Spec
begin

text \<open>
  Correctness of the page ownership tables: the invariant of the tables, the
  effect of every routine of the previous theory on the owners, the interpretation
  of the allocator contract, and the order of use the swapper relies on.
\<close>

section \<open>Owners\<close>

lemma SA_get_pid_eq: "SA_get_pid a = nonzero (ucast (vpn a))"
proof -
  have "(ucast (vpn a AND 0xFF) :: u8) = ucast (vpn a)"
    by (rule ucast_and_ff)
  then show ?thesis
    by (simp add: SA_get_pid_def)
qed

lemma SA_is_none_iff [simp]: "SA_is_none a = (SA_get_pid a = None)"
  by (simp add: SA_is_none_def SA_get_pid_eq)

lemma SA_is_pid_iff: "pid \<noteq> 0 \<Longrightarrow> SA_is_pid a pid = (SA_get_pid a = Some pid)"
  by (auto simp: SA_is_pid_def SA_get_pid_eq)

lemma u32_masks: "(0xFFF :: u32) = mask 12" "(0xFF :: u32) = mask 8"
  by (simp_all add: mask_eq_exp_minus_1)

lemma bit_wired: "bit SWAP_FLG_WIRED n = (n = 8)"
proof -
  have "SWAP_FLG_WIRED = push_bit 8 1"
    by (simp add: SWAP_FLG_WIRED_def)
  moreover have "bit (push_bit 8 1 :: u32) n = (n = 8)"
    by (subst bit_push_bit_iff) (auto simp: bit_1_iff)
  ultimately show ?thesis
    by (simp only:)
qed

lemma updated_vpn_pid: "(ucast (updated_vpn pid vaddr old) :: u8) = (case pid of None \<Rightarrow> 0 | Some p \<Rightarrow> p)"
  by (rule bit_word_eqI)
    (auto simp: updated_vpn_def u32_masks bit_wired bit_simps split: option.splits)

lemma reparent_pid: "(ucast ((v AND NOT 0xFF) OR ucast (p :: u8) :: u32) :: u8) = p"
  by (rule bit_word_eqI) (auto simp: u32_masks bit_simps)

definition owners :: "'z Mem_scheme \<Rightarrow> PID option list" where
  "owners s = map SA_get_pid (MEMORY_ALLOCATIONS s)"

text \<open>The shape of the tables the loader hands over and every routine keeps.\<close>

definition wf_alloc :: "'z Mem_scheme \<Rightarrow> bool" where
  "wf_alloc s =
     (4096 dvd unat (ram_start s) \<and> 4096 dvd unat (ram_size s)
      \<and> unat (ram_start s) + unat (ram_size s) < 2 ^ 32
      \<and> length (MEMORY_ALLOCATIONS s) = ram_pages s
      \<and> last_ram_page s \<le> ram_pages s
      \<and> epoch_ok (epoch s) (MEMORY_ALLOCATIONS s))"

lemma length_owners [simp]: "length (owners s) = length (MEMORY_ALLOCATIONS s)"
  by (simp add: owners_def)

lemma same_order_owners:
  assumes "same_order xs ys"
  shows "map SA_get_pid xs = map SA_get_pid ys" "length xs = length ys"
proof -
  have "map vpn xs = map vpn ys"
    using assms by (simp add: same_order_def)
  then have "map (nonzero \<circ> ucast) (map vpn xs) = map (nonzero \<circ> ucast) (map vpn ys)"
    by simp
  then show "map SA_get_pid xs = map SA_get_pid ys"
    by (simp add: SA_get_pid_eq [abs_def] comp_def)
  show "length xs = length ys"
    using \<open>map vpn xs = map vpn ys\<close> map_eq_imp_length_eq by blast
qed

text \<open>The tables differ at one page at most, which is now the most recently used one;
  the other pages are in the order of use they were in.\<close>

definition stamped :: "nat \<Rightarrow> SwapAlloc list \<Rightarrow> SwapAlloc list \<Rightarrow> bool" where
  "stamped i xs ys =
     (length xs = length ys
      \<and> (\<forall>j < length ys. j \<noteq> i \<longrightarrow> vpn (ys ! j) = vpn (xs ! j)
           \<and> timestamp (ys ! j) < timestamp (ys ! i))
      \<and> (\<forall>j < length ys. \<forall>k < length ys. j \<noteq> i \<longrightarrow> k \<noteq> i \<longrightarrow>
           (timestamp (ys ! j) < timestamp (ys ! k)) = (timestamp (xs ! j) < timestamp (xs ! k))))"

lemma with_epoch_entry:
  assumes "epoch_ok (epoch s) (MEMORY_ALLOCATIONS s)" "i < length (MEMORY_ALLOCATIONS s)"
  obtains e allocs where
    "\<And>f. with_epoch f s = f e (s\<lparr>MEMORY_ALLOCATIONS := allocs, epoch := e\<rparr>)"
    "map vpn allocs = map vpn (MEMORY_ALLOCATIONS s)"
    "\<And>v. epoch_ok e (allocs[i := \<lparr>timestamp = e, vpn = v\<rparr>])"
    "\<And>v. stamped i (MEMORY_ALLOCATIONS s) (allocs[i := \<lparr>timestamp = e, vpn = v\<rparr>])"
proof -
  from assms(1) obtain e allocs where r: "next_epoch (epoch s) (MEMORY_ALLOCATIONS s) = Ok (e, allocs)"
    and so: "same_order (MEMORY_ALLOCATIONS s) allocs"
    and new: "\<forall>d \<in> set allocs. timestamp d < e" and e: "e < u32_MAX"
    by (rule next_epoch_spec)
  have len: "length allocs = length (MEMORY_ALLOCATIONS s)"
    using same_order_owners(2) [OF so] by simp
  have vpn: "map vpn allocs = map vpn (MEMORY_ALLOCATIONS s)"
    using so by (simp add: same_order_def)
  have vpn_nth: "vpn (allocs ! j) = vpn (MEMORY_ALLOCATIONS s ! j)" if "j < length allocs" for j
    using vpn that len by (metis nth_map)
  have "epoch_ok e (allocs[i := \<lparr>timestamp = e, vpn = v\<rparr>])" for v
    using assms(1) len new e set_update_subset_insert [of allocs i]
    by (fastforce simp: epoch_ok_def order_less_imp_le)
  moreover have "stamped i (MEMORY_ALLOCATIONS s) (allocs[i := \<lparr>timestamp = e, vpn = v\<rparr>])" for v
    using so new len assms(2) vpn_nth
    by (auto simp: stamped_def same_order_def)
  ultimately show ?thesis
    using r vpn by (intro that [of e allocs]) (simp_all add: with_epoch_def)
qed

lemma SA_entry: "(a :: SwapAlloc)\<lparr>timestamp := e, vpn := v\<rparr> = \<lparr>timestamp = e, vpn = v\<rparr>"
  by (cases a) simp

lemma SA_update_spec:
  assumes "wf_alloc s" "i < length (MEMORY_ALLOCATIONS s)" "pid \<noteq> Some 0"
  obtains A e u where
    "SA_update i pid vaddr s
       = (Done (Ok ()), s\<lparr>MEMORY_ALLOCATIONS := A, epoch := e, used_pages := u\<rparr>)"
    "map SA_get_pid A = (owners s)[i := pid]" "epoch_ok e A" "stamped i (MEMORY_ALLOCATIONS s) A"
proof -
  have "epoch_ok (epoch s) (MEMORY_ALLOCATIONS s)"
    using assms(1) by (simp add: wf_alloc_def)
  from with_epoch_entry [OF this assms(2)] obtain e allocs where
    r: "\<And>f. with_epoch f s = f e (s\<lparr>MEMORY_ALLOCATIONS := allocs, epoch := e\<rparr>)"
    and v: "map vpn allocs = map vpn (MEMORY_ALLOCATIONS s)"
    and ok: "\<And>v. epoch_ok e (allocs[i := \<lparr>timestamp = e, vpn = v\<rparr>])"
    and st: "\<And>v. stamped i (MEMORY_ALLOCATIONS s) (allocs[i := \<lparr>timestamp = e, vpn = v\<rparr>])"
    by blast
  let ?a = "\<lparr>timestamp = e, vpn = updated_vpn pid vaddr (vpn (allocs ! i))\<rparr>"
  have "map SA_get_pid allocs = owners s"
    using arg_cong [OF v, of "map (nonzero \<circ> ucast)"]
    by (simp add: owners_def SA_get_pid_eq [abs_def] comp_def)
  moreover have "SA_get_pid ?a = pid"
    using assms(3) by (auto simp: SA_get_pid_eq updated_vpn_pid split: option.splits)
  ultimately have "map SA_get_pid (allocs[i := ?a]) = (owners s)[i := pid]"
    by (simp add: map_update)
  moreover have "SA_update i pid vaddr s
       = (Done (Ok ()), s\<lparr>MEMORY_ALLOCATIONS := allocs[i := ?a], epoch := e,
            used_pages := track_alloc (pid \<noteq> None) (used_pages s)\<rparr>)"
    by (simp add: SA_update_def r Let_def SA_entry)
  ultimately show ?thesis
    using ok st that by blast
qed

lemma wf_alloc_update:
  assumes "wf_alloc s" "epoch_ok e A" "length A = length (MEMORY_ALLOCATIONS s)"
  shows "wf_alloc (s\<lparr>MEMORY_ALLOCATIONS := A, epoch := e, used_pages := u\<rparr>)"
  using assms by (simp add: wf_alloc_def ram_pages_def)

section \<open>Addresses and indices\<close>

lemma page_aligned_iff: "((pa :: usize) AND 0xfff = 0) = (4096 dvd unat pa)"
proof -
  have "pa AND 0xfff = take_bit 12 pa"
    by (simp add: u32_masks flip: take_bit_eq_mask)
  then have "(pa AND 0xfff = 0) = (take_bit 12 (unat pa) = 0)"
    by (simp add: word_unat_eq_iff unsigned_take_bit_eq)
  then show ?thesis
    by (simp add: take_bit_eq_mod dvd_eq_mod_eq_0)
qed

lemma ram_pages_eq: "ram_pages s = unat (ram_size s) div 4096"
  by (simp add: ram_pages_def PAGE_SIZE_def unat_div)

lemma main_memory_unat:
  assumes "wf_alloc s"
  shows "is_main_memory pa s =
    (unat (ram_start s) \<le> unat pa \<and> unat pa < unat (ram_start s) + unat (ram_size s))"
proof -
  have "unat (ram_start s + ram_size s) = unat (ram_start s) + unat (ram_size s)"
    using assms by (simp add: wf_alloc_def unat_word_ariths)
  then show ?thesis
    by (simp add: is_main_memory_def word_le_nat_alt word_less_nat_alt)
qed

lemma ram_index_unat:
  assumes "unat (ram_start s) \<le> unat pa"
  shows "ram_index pa s = (unat pa - unat (ram_start s)) div 4096"
proof -
  have "unat (pa - ram_start s) = unat pa - unat (ram_start s)"
    using assms by (simp add: unat_sub word_le_nat_alt)
  then show ?thesis
    by (simp add: ram_index_def PAGE_SIZE_def unat_div)
qed

lemma ram_index_less:
  assumes "wf_alloc s" "is_main_memory pa s"
  shows "ram_index pa s < length (MEMORY_ALLOCATIONS s)"
proof -
  have pa: "unat (ram_start s) \<le> unat pa" "unat pa - unat (ram_start s) < unat (ram_size s)"
    using assms main_memory_unat by fastforce+
  obtain k where "unat (ram_size s) = 4096 * k"
    using assms(1) by (auto simp: wf_alloc_def)
  with pa assms(1) show ?thesis
    by (simp add: wf_alloc_def ram_pages_eq ram_index_unat less_mult_imp_div_less mult.commute)
qed

text \<open>The address of page \<open>i\<close> of the RAM.\<close>

definition ram_address :: "nat \<Rightarrow> 'z Mem_scheme \<Rightarrow> usize" where
  "ram_address i s = of_nat i * PAGE_SIZE + ram_start s"

lemma unat_ram_address:
  assumes "wf_alloc s" "i < ram_pages s"
  shows "unat (ram_address i s) = i * 4096 + unat (ram_start s)"
    "i * 4096 < unat (ram_size s)"
proof -
  show i: "i * 4096 < unat (ram_size s)"
    using assms(2) by (simp add: ram_pages_eq)
  have "unat (of_nat i * PAGE_SIZE :: usize) = i * 4096"
    using i unsigned_less [of "ram_size s", where 'a = nat]
    by (simp add: PAGE_SIZE_def unat_word_ariths unsigned_of_nat take_bit_nat_eq_self)
  then show "unat (ram_address i s) = i * 4096 + unat (ram_start s)"
    using i assms(1) by (simp add: ram_address_def unat_word_ariths wf_alloc_def)
qed

lemma ram_address_props:
  assumes "wf_alloc s" "i < ram_pages s"
  shows "is_main_memory (ram_address i s) s" "ram_index (ram_address i s) s = i"
    "ram_address i s AND 0xfff = 0"
  using unat_ram_address [OF assms] assms(1)
  by (simp_all add: main_memory_unat ram_index_unat page_aligned_iff wf_alloc_def dvd_add)

lemma ram_address_index:
  assumes "wf_alloc s" "is_main_memory pa s" "pa AND 0xfff = 0"
  shows "ram_address (ram_index pa s) s = pa"
proof -
  have le: "unat (ram_start s) \<le> unat pa"
    using assms main_memory_unat by blast
  have "4096 dvd unat pa - unat (ram_start s)"
    using assms(1,3) by (simp add: page_aligned_iff wf_alloc_def dvd_diff_nat)
  moreover have "ram_index pa s < ram_pages s"
    using ram_index_less [OF assms(1,2)] assms(1) by (simp add: wf_alloc_def)
  ultimately have "unat (ram_address (ram_index pa s) s) = unat pa"
    using le by (simp add: unat_ram_address(1) [OF assms(1)] ram_index_unat)
  then show ?thesis
    by (simp add: word_unat_eq_iff)
qed

section \<open>What the routines do to the owners\<close>

text \<open>Two states that differ in the allocation tables only.\<close>

definition only_alloc :: "'z Mem_scheme \<Rightarrow> 'z Mem_scheme \<Rightarrow> bool" where
  "only_alloc s s' =
     (\<exists>A e u l X. s' = s\<lparr>last_ram_page := l, MEMORY_ALLOCATIONS := A, EXTRA_ALLOCATIONS := X,
                          epoch := e, used_pages := u\<rparr>)"

lemma only_allocI:
  "only_alloc s (s\<lparr>last_ram_page := l, MEMORY_ALLOCATIONS := A, EXTRA_ALLOCATIONS := X,
     epoch := e, used_pages := u\<rparr>)"
  unfolding only_alloc_def by blast

lemma only_alloc_refl [simp]: "only_alloc s s"
  using only_allocI [where s = s and l = "last_ram_page s" and A = "MEMORY_ALLOCATIONS s" and X = "EXTRA_ALLOCATIONS s" and e = "epoch s" and u = "used_pages s"] by simp

lemma only_alloc_trans: "only_alloc s s' \<Longrightarrow> only_alloc s' s'' \<Longrightarrow> only_alloc s s''"
  unfolding only_alloc_def by fastforce

lemma only_alloc_same:
  assumes "only_alloc s s'"
  shows "ram_start s' = ram_start s" "ram_size s' = ram_size s" "frames s' = frames s"
    "satp s' = satp s" "current_pid s' = current_pid s" "process_inner s' = process_inner s"
    "EXTRA_REGIONS s' = EXTRA_REGIONS s"
  using assms by (auto simp: only_alloc_def)

lemma only_alloc_pages:
  assumes "only_alloc s s'"
  shows "ram_pages s' = ram_pages s" "ram_index pa s' = ram_index pa s"
    "is_main_memory pa s' = is_main_memory pa s" "ram_address i s' = ram_address i s"
  using only_alloc_same [OF assms]
  by (simp_all add: ram_pages_def ram_index_def is_main_memory_def ram_address_def)

lemma find_upt_first:
  "find P [0..<n] = Some i \<Longrightarrow> i < n \<and> P i \<and> (\<forall>j < i. \<not> P j)"
  by (auto simp: find_Some_iff)

lemma find_upt_None: "(find P [0..<n] = None) = (\<forall>i < n. \<not> P i)"
  by (auto simp: find_None_iff)

lemma alloc_page_spec:
  assumes "wf_alloc s" "pid \<noteq> 0" "None \<in> set (owners s)"
  obtains i s' where
    "alloc_page_oomable pid vaddr s = (Done (Ok (ram_address i s)), s')"
    "i < ram_pages s" "owners s ! i = None" "\<forall>j < i. owners s ! j \<noteq> None"
    "owners s' = (owners s)[i := Some pid]" "wf_alloc s'" "only_alloc s s'"
proof -
  have len: "length (MEMORY_ALLOCATIONS s) = ram_pages s" "last_ram_page s \<le> ram_pages s"
    using assms(1) by (simp_all add: wf_alloc_def)
  let ?P = "\<lambda>i. SA_is_none (MEMORY_ALLOCATIONS s ! i)"
  have own: "?P i = (owners s ! i = None)" if "i < ram_pages s" for i
    using that len by (simp add: owners_def)
  have "find ?P [0..<ram_pages s] \<noteq> None"
    using assms(3) len own unfolding find_upt_None by (metis in_set_conv_nth length_owners)
  then obtain i where f: "find ?P [0..<ram_pages s] = Some i"
    by blast
  have i: "i < ram_pages s" "owners s ! i = None" "\<forall>j < i. owners s ! j \<noteq> None"
    using find_upt_first [OF f] own by (metis order_less_trans)+
  have "i < length (MEMORY_ALLOCATIONS s)" "Some pid \<noteq> Some 0"
    using i(1) len assms(2) by simp_all
  from SA_update_spec [OF assms(1) this] obtain A e u where
    u: "SA_update i (Some pid) vaddr s
          = (Done (Ok ()), s\<lparr>MEMORY_ALLOCATIONS := A, epoch := e, used_pages := u\<rparr>)"
    and A: "map SA_get_pid A = (owners s)[i := Some pid]" "epoch_ok e A"
    by blast
  let ?s = "s\<lparr>last_ram_page := i + 1, MEMORY_ALLOCATIONS := A, epoch := e, used_pages := u\<rparr>"
  have "alloc_page_oomable pid vaddr s = (Done (Ok (ram_address i s)), ?s)"
    using f len by (simp add: alloc_page_oomable_def Let_def max_def kbind_def u ram_address_def
        del: SA_is_none_iff)
  moreover have "length A = ram_pages s"
    using arg_cong [OF A(1), of length] len by simp
  then have "wf_alloc ?s"
    using assms(1) A(2) i(1) by (simp add: wf_alloc_def ram_pages_def)
  moreover have "only_alloc s ?s"
    using only_allocI [where s = s and l = "i + 1" and A = A and X = "EXTRA_ALLOCATIONS s" and e = e and u = u] by simp
  moreover have "owners ?s = (owners s)[i := Some pid]"
    using A(1) by (simp add: owners_def)
  ultimately show ?thesis
    using that i by blast
qed

lemma alloc_page_oom:
  assumes "wf_alloc s" "None \<notin> set (owners s)"
  shows "alloc_page_oomable pid vaddr s = (Swapper [HardOom, 0, 0, 0, 0, 0, 0], s)"
proof -
  have len: "length (MEMORY_ALLOCATIONS s) = ram_pages s" "last_ram_page s \<le> ram_pages s"
    using assms(1) by (simp_all add: wf_alloc_def)
  have "find (\<lambda>i. SA_is_none (MEMORY_ALLOCATIONS s ! i)) [0..<ram_pages s] = None"
    unfolding find_upt_None
    using assms(2) len by (metis SA_is_none_iff in_set_conv_nth length_map nth_map owners_def)
  then show ?thesis
    using len by (simp add: alloc_page_oomable_def Let_def max_def del: SA_is_none_iff)
qed

definition action_denied :: "PID option \<Rightarrow> PID \<Rightarrow> ClaimReleaseMove \<Rightarrow> bool" where
  "action_denied owner pid action =
     (\<not> owner_allows owner pid action \<or> (action = Claim \<and> owner \<noteq> None))"

definition action_owner :: "PID \<Rightarrow> ClaimReleaseMove \<Rightarrow> PID option" where
  "action_owner pid action = (if action = Release then None else Some pid)"

lemma claim_release_move_denied:
  assumes "wf_alloc s" "is_main_memory pa s" "pa AND 0xfff = 0"
    "action_denied (owners s ! ram_index pa s) pid action"
  shows "claim_release_move pa pid action s = (Done (Err MemoryInUse), s)"
  using assms ram_index_less [OF assms(1,2)]
  by (auto simp: claim_release_move_def action_inner_tracking_def action_denied_def owners_def
      split: ClaimReleaseMove.splits)

lemma claim_release_move_granted:
  assumes "wf_alloc s" "is_main_memory pa s" "pa AND 0xfff = 0" "pid \<noteq> 0"
    "\<not> action_denied (owners s ! ram_index pa s) pid action"
  obtains s' where
    "claim_release_move pa pid action s = (Done (Ok ()), s')"
    "owners s' = (owners s)[ram_index pa s := action_owner pid action]" "wf_alloc s'" "only_alloc s s'"
proof -
  let ?i = "ram_index pa s"
  have i: "?i < length (MEMORY_ALLOCATIONS s)"
    by (rule ram_index_less [OF assms(1,2)])
  let ?v = "if action = Release then None else Some pa"
  from SA_update_spec [OF assms(1) i, of "action_owner pid action" ?v] obtain A e u where
    u: "SA_update ?i (action_owner pid action) ?v s
          = (Done (Ok ()), s\<lparr>MEMORY_ALLOCATIONS := A, epoch := e, used_pages := u\<rparr>)"
    and A: "map SA_get_pid A = (owners s)[?i := action_owner pid action]" "epoch_ok e A"
    using assms(4) by (metis action_owner_def option.distinct(1) option.inject)
  let ?s = "s\<lparr>MEMORY_ALLOCATIONS := A, epoch := e, used_pages := u\<rparr>"
  have "claim_release_move pa pid action s = (Done (Ok ()), ?s)"
    using assms(2-5) i u
    by (cases action) (auto simp: claim_release_move_def action_inner_tracking_def action_denied_def
        action_owner_def owners_def)
  moreover have "length A = length (MEMORY_ALLOCATIONS s)"
    using arg_cong [OF A(1), of length] by simp
  then have "wf_alloc ?s"
    using assms(1) A(2) by (intro wf_alloc_update)
  moreover have "only_alloc s ?s"
    using only_allocI [where s = s and l = "last_ram_page s" and A = A and X = "EXTRA_ALLOCATIONS s" and e = e and u = u] by simp
  moreover have "owners ?s = (owners s)[?i := action_owner pid action]"
    using A(1) by (simp add: owners_def)
  ultimately show ?thesis
    using that by blast
qed

lemma claim_release_move_other:
  assumes "wf_alloc s" "\<not> is_main_memory pa s \<or> pa AND 0xfff \<noteq> 0"
  shows "owners (snd (claim_release_move pa pid action s)) = owners s"
    "wf_alloc (snd (claim_release_move pa pid action s))"
    "only_alloc s (snd (claim_release_move pa pid action s))"
proof -
  have "snd (claim_release_move pa pid action s) = s
      \<or> (\<exists>X. snd (claim_release_move pa pid action s) = s\<lparr>EXTRA_ALLOCATIONS := X\<rparr>)"
    using assms(2) by (auto simp: claim_release_move_def split: option.split outcome.split)
  moreover have "s = s\<lparr>EXTRA_ALLOCATIONS := EXTRA_ALLOCATIONS s\<rparr>"
    by simp
  ultimately have "\<exists>X. snd (claim_release_move pa pid action s) = s\<lparr>EXTRA_ALLOCATIONS := X\<rparr>"
    by metis
  then obtain X where X: "snd (claim_release_move pa pid action s) = s\<lparr>EXTRA_ALLOCATIONS := X\<rparr>"
    by blast
  then show "owners (snd (claim_release_move pa pid action s)) = owners s"
    "wf_alloc (snd (claim_release_move pa pid action s))"
    using assms(1) by (simp_all add: owners_def wf_alloc_def ram_pages_def)
  show "only_alloc s (snd (claim_release_move pa pid action s))"
    using X only_allocI [where s = s and l = "last_ram_page s" and A = "MEMORY_ALLOCATIONS s" and X = X and e = "epoch s" and u = "used_pages s"]
    by simp
qed

section \<open>The allocator as an interface\<close>

text \<open>The owner of a page of RAM, by its address.\<close>

definition page_owner :: "'z Mem_scheme \<Rightarrow> usize \<Rightarrow> PID option" where
  "page_owner s pa =
     (if is_main_memory pa s \<and> pa AND 0xfff = 0 then owners s ! ram_index pa s else None)"

text \<open>One operation on the tables, as the kernel issues them; a run that ends in a
  panic or in the swapper yields no page.\<close>

fun mem_step :: "(usize, PID) mem_op \<Rightarrow> 'z Mem_scheme \<Rightarrow> usize option \<times> 'z Mem_scheme" where
  "mem_step (OpAlloc pid) s =
     (case alloc_page_oomable pid None s of
        (Done (Ok pa), s') \<Rightarrow> (Some pa, s') | (_, s') \<Rightarrow> (None, s'))"
| "mem_step (OpClaim pa pid) s = (None, snd (claim_page pa pid s))"
| "mem_step (OpRelease pa pid) s = (None, snd (release_page pa pid s))"
| "mem_step (OpMove pa from to) s = (None, snd (claim_release_move pa to (Move from) s))"

lemma page_owner_update:
  assumes "wf_alloc s" "only_alloc s s'" "owners s' = (owners s)[i := x]" "i < ram_pages s"
  shows "page_owner s' = (page_owner s)(ram_address i s := x)"
proof
  fix pa
  have len: "length (owners s) = ram_pages s"
    using assms(1) by (simp add: wf_alloc_def)
  show "page_owner s' pa = ((page_owner s)(ram_address i s := x)) pa"
  proof (cases "is_main_memory pa s \<and> pa AND 0xfff = 0")
    case True
    then have "(ram_index pa s = i) = (pa = ram_address i s)"
      using ram_address_index [OF assms(1)] ram_address_props(2) [OF assms(1,4)] by metis
    moreover have "ram_index pa s < ram_pages s"
      using ram_index_less [OF assms(1)] True len by simp
    ultimately show ?thesis
      using True assms(3,4) len by (auto simp: page_owner_def only_alloc_pages [OF assms(2)])
  next
    case False
    then have "pa \<noteq> ram_address i s"
      using ram_address_props [OF assms(1,4)] by metis
    with False show ?thesis
      by (auto simp: page_owner_def only_alloc_pages [OF assms(2)])
  qed
qed

lemma mem_step_alloc:
  assumes "wf_alloc s" "pid \<noteq> 0"
  shows "wf_alloc (snd (mem_step (OpAlloc pid) s))"
    and "case fst (mem_step (OpAlloc pid) s) of
           None \<Rightarrow> page_owner (snd (mem_step (OpAlloc pid) s)) = page_owner s
         | Some pa \<Rightarrow> page_owner s pa = None
                     \<and> page_owner (snd (mem_step (OpAlloc pid) s)) = (page_owner s)(pa := Some pid)"
proof -
  have "wf_alloc (snd (mem_step (OpAlloc pid) s)) \<and>
        (case fst (mem_step (OpAlloc pid) s) of
           None \<Rightarrow> page_owner (snd (mem_step (OpAlloc pid) s)) = page_owner s
         | Some pa \<Rightarrow> page_owner s pa = None
                     \<and> page_owner (snd (mem_step (OpAlloc pid) s)) = (page_owner s)(pa := Some pid))"
  proof (cases "None \<in> set (owners s)")
    case True
    from alloc_page_spec [OF assms this] obtain i s' where
      r: "alloc_page_oomable pid None s = (Done (Ok (ram_address i s)), s')"
      and i: "i < ram_pages s" "owners s ! i = None"
      and s': "owners s' = (owners s)[i := Some pid]" "wf_alloc s'" "only_alloc s s'"
      by blast
    have "page_owner s (ram_address i s) = None"
      using ram_address_props [OF assms(1) i(1)] i(2) by (simp add: page_owner_def)
    with r s' page_owner_update [OF assms(1) s'(3,1) i(1)] show ?thesis
      by simp
  next
    case False
    with assms alloc_page_oom [OF assms(1) this] show ?thesis
      by simp
  qed
  then show "wf_alloc (snd (mem_step (OpAlloc pid) s))"
    "case fst (mem_step (OpAlloc pid) s) of
           None \<Rightarrow> page_owner (snd (mem_step (OpAlloc pid) s)) = page_owner s
         | Some pa \<Rightarrow> page_owner s pa = None
                     \<and> page_owner (snd (mem_step (OpAlloc pid) s)) = (page_owner s)(pa := Some pid)"
    by blast+
qed

lemma claim_release_move_effect:
  assumes "wf_alloc s" "pid \<noteq> 0"
  shows "wf_alloc (snd (claim_release_move pa pid action s))"
    and "page_owner (snd (claim_release_move pa pid action s)) =
           (if is_main_memory pa s \<and> pa AND 0xfff = 0
               \<and> \<not> action_denied (page_owner s pa) pid action
            then (page_owner s)(pa := action_owner pid action) else page_owner s)"
proof -
  let ?s = "snd (claim_release_move pa pid action s)"
  have "wf_alloc ?s \<and> page_owner ?s =
           (if is_main_memory pa s \<and> pa AND 0xfff = 0
               \<and> \<not> action_denied (page_owner s pa) pid action
            then (page_owner s)(pa := action_owner pid action) else page_owner s)"
  proof (cases "is_main_memory pa s \<and> pa AND 0xfff = 0")
    case main: True
    then have o: "page_owner s pa = owners s ! ram_index pa s"
      by (simp add: page_owner_def)
    have i: "ram_index pa s < ram_pages s"
      using ram_index_less [OF assms(1)] main assms(1) by (simp add: wf_alloc_def)
    show ?thesis
    proof (cases "action_denied (page_owner s pa) pid action")
      case True
      then show ?thesis
        using claim_release_move_denied [OF assms(1), of pa pid action] main assms(1) o by simp
    next
      case False
      with main o claim_release_move_granted [OF assms(1) _ _ assms(2), of pa action]
      obtain s' where "claim_release_move pa pid action s = (Done (Ok ()), s')"
        "owners s' = (owners s)[ram_index pa s := action_owner pid action]"
        "wf_alloc s'" "only_alloc s s'"
        by metis
      with main False page_owner_update [OF assms(1) this(4,2) i] ram_address_index [OF assms(1)]
      show ?thesis
        by simp
    qed
  next
    case False
    with assms(1) have s: "owners ?s = owners s" "wf_alloc ?s" "only_alloc s ?s"
      using claim_release_move_other [OF assms(1), of pa pid action] by blast+
    then have "page_owner ?s = page_owner s"
      by (auto simp: page_owner_def only_alloc_pages [OF s(3)])
    with False s(2) show ?thesis
      by auto
  qed
  then show "wf_alloc ?s" "page_owner ?s =
           (if is_main_memory pa s \<and> pa AND 0xfff = 0
               \<and> \<not> action_denied (page_owner s pa) pid action
            then (page_owner s)(pa := action_owner pid action) else page_owner s)"
    by blast+
qed

lemma mem_step_inv: "wf_alloc s \<Longrightarrow> op_pid x \<noteq> 0 \<Longrightarrow> wf_alloc (snd (mem_step x s))"
  by (cases x) (simp_all add: claim_page_def release_page_def claim_release_move_effect(1)
      mem_step_alloc(1) del: mem_step.simps(1))

lemma mem_step_keeps:
  assumes "wf_alloc s" "op_pid x \<noteq> 0" "page_owner s p = Some q" "\<not> gives_up x p q"
  shows "page_owner (snd (mem_step x s)) p = Some q"
proof (cases x)
  case (OpAlloc pid)
  then show ?thesis
    using mem_step_alloc(2) [OF assms(1), of pid] assms
    by (auto split: option.splits simp del: mem_step.simps)
next
  case (OpClaim pa pid)
  then show ?thesis
    using assms by (auto simp: claim_page_def claim_release_move_effect(2) action_denied_def)
next
  case (OpRelease pa pid)
  then show ?thesis
    using assms
    by (auto simp: release_page_def claim_release_move_effect(2) action_denied_def owner_allows_def)
next
  case (OpMove pa "from" to)
  then show ?thesis
    using assms
    by (auto simp: claim_release_move_effect(2) action_denied_def owner_allows_def action_owner_def)
qed

lemma mem_step_fresh:
  assumes "wf_alloc s" "op_pid x \<noteq> 0" "fst (mem_step x s) = Some p"
  shows "page_owner s p = None \<and> page_owner (snd (mem_step x s)) p = Some (op_pid x)"
proof -
  from assms(3) obtain pid where x: "x = OpAlloc pid"
    by (cases x) auto
  with mem_step_alloc(2) [OF assms(1), of pid] assms(2,3) show ?thesis
    by (simp del: mem_step.simps)
qed

interpretation ram: page_allocator wf_alloc "\<lambda>pid. pid \<noteq> 0" page_owner mem_step
proof
qed (fact mem_step_inv mem_step_keeps mem_step_fresh)+

section \<open>Properties\<close>

lemma SA_entry_stamp: "(a :: SwapAlloc)\<lparr>timestamp := e\<rparr> = \<lparr>timestamp = e, vpn = vpn a\<rparr>"
  by (cases a) simp

lemma SA_touch_spec:
  assumes "wf_alloc s" "i < length (MEMORY_ALLOCATIONS s)"
  obtains A e where
    "SA_touch i s = (Done (Ok ()), s\<lparr>MEMORY_ALLOCATIONS := A, epoch := e\<rparr>)"
    "map SA_get_pid A = owners s" "epoch_ok e A" "stamped i (MEMORY_ALLOCATIONS s) A"
proof -
  have "epoch_ok (epoch s) (MEMORY_ALLOCATIONS s)"
    using assms(1) by (simp add: wf_alloc_def)
  from with_epoch_entry [OF this assms(2)] obtain e allocs where
    r: "\<And>f. with_epoch f s = f e (s\<lparr>MEMORY_ALLOCATIONS := allocs, epoch := e\<rparr>)"
    and v: "map vpn allocs = map vpn (MEMORY_ALLOCATIONS s)"
    and ok: "\<And>v. epoch_ok e (allocs[i := \<lparr>timestamp = e, vpn = v\<rparr>])"
    and st: "\<And>v. stamped i (MEMORY_ALLOCATIONS s) (allocs[i := \<lparr>timestamp = e, vpn = v\<rparr>])"
    by blast
  let ?a = "\<lparr>timestamp = e, vpn = vpn (allocs ! i)\<rparr>"
  have "i < length allocs"
    using arg_cong [OF v, of length] assms(2) by simp
  then have "map SA_get_pid (allocs[i := ?a]) = map SA_get_pid allocs"
    by (intro nth_equalityI) (auto simp: nth_list_update SA_get_pid_eq)
  also have "\<dots> = owners s"
    using arg_cong [OF v, of "map (nonzero \<circ> ucast)"]
    by (simp add: owners_def SA_get_pid_eq [abs_def] comp_def)
  finally have "map SA_get_pid (allocs[i := ?a]) = owners s" .
  moreover have "SA_touch i s = (Done (Ok ()), s\<lparr>MEMORY_ALLOCATIONS := allocs[i := ?a], epoch := e\<rparr>)"
    by (simp add: SA_touch_def r SA_entry_stamp)
  ultimately show ?thesis
    using ok st that by blast
qed

text \<open>C4. No page of RAM is handed out twice. Once the allocator has given a page to a
  process, the page stays with that process, and is never returned by the allocator
  again, through every sequence of allocations, claims, releases and hand-overs by any
  process, until the owner itself releases the page or it is handed over in the
  owner's name.\<close>

theorem allocated_page_exclusive:
  assumes "wf_alloc s" and "pid \<noteq> 0" and "\<forall>x \<in> set xs. op_pid x \<noteq> 0"
    and "fst (mem_step (OpAlloc pid) s) = Some p"
    and "\<forall>x \<in> set xs. \<not> gives_up x p pid"
  shows "page_owner (snd (run_ops mem_step xs (snd (mem_step (OpAlloc pid) s)))) p = Some pid
       \<and> Some p \<notin> set (fst (run_ops mem_step xs (snd (mem_step (OpAlloc pid) s))))"
  using ram.no_double_allocation [of s "OpAlloc pid" xs p] assms
  by (simp del: mem_step.simps)

definition demo_inner :: ProcessInner where
  "demo_inner = \<lparr>mem_default_base = 0x60000000, mem_default_last = 0x60000000,
     mem_message_base = 0x40000000, mem_message_last = 0x40000000,
     mem_heap_base = 0x20000000, mem_heap_size = 0, mem_heap_max = 0x80000,
     connection_map = replicate 32 None, inner_pid = 1\<rparr>"

definition demo_mem :: Mem where
  "demo_mem = \<lparr>ram_start = 0x61000000, ram_size = 0x4000, ram_name = 0, last_ram_page = 1,
     MEMORY_ALLOCATIONS = [\<lparr>timestamp = 5, vpn = 0x60000003\<rparr>, \<lparr>timestamp = 2, vpn = 0\<rparr>,
       \<lparr>timestamp = 9, vpn = 0x60001104\<rparr>, \<lparr>timestamp = 1, vpn = 0\<rparr>],
     EXTRA_ALLOCATIONS = [None, Some 3, None], EXTRA_REGIONS =
       [\<lparr>mem_start = 0x40000000, mem_size = 0x1000, mem_tag = 0\<rparr>,
        \<lparr>mem_start = 0x50000000, mem_size = 0x2000, mem_tag = 0\<rparr>],
     epoch = 9, used_pages = 2, satp = 0x80C61000, current_pid = 3,
     frames = (\<lambda>_ _. 0), process_inner = (\<lambda>_. demo_inner)\<rparr>"


lemma wf_demo_mem: "wf_alloc demo_mem"
  by (simp add: wf_alloc_def demo_mem_def epoch_ok_def ram_pages_def PAGE_SIZE_def u32_MAX_def)

theorem allocated_page_exclusive_witness:
  "page_owner (snd (run_ops mem_step
       [OpAlloc 5, OpClaim 0x61001000 4, OpRelease 0x61001000 4, OpMove 0x61001000 4 5, OpAlloc 4]
       (snd (mem_step (OpAlloc 3) demo_mem)))) 0x61001000 = Some 3"
proof -
  note wf_demo_mem
  moreover have "fst (mem_step (OpAlloc 3) demo_mem) = Some 0x61001000"
    by (simp add: alloc_page_oomable_def ram_pages_def)
      (simp add: demo_mem_def PAGE_SIZE_def upt_rec Let_def SA_get_pid_def SA_update_def
        with_epoch_def next_epoch_def u32_MAX_def kbind_def)
  ultimately show ?thesis
    using allocated_page_exclusive [of demo_mem 3
        "[OpAlloc 5, OpClaim 0x61001000 4, OpRelease 0x61001000 4, OpMove 0x61001000 4 5, OpAlloc 4]"
        "0x61001000"]
    by (simp del: mem_step.simps run_ops.simps)
qed

text \<open>C31. The allocator succeeds whenever a page is free, gives the page to the process
  and changes the owner of no other page; when no page is free it changes nothing and
  calls the swapper. The page it takes is always the lowest free one: the position of the
  last allocation, which the search is meant to continue from, has no influence.\<close>

theorem alloc_lowest_free_page:
  assumes "wf_alloc s" and "pid \<noteq> 0"
  shows "if None \<in> set (owners s)
         then \<exists>i s'. alloc_page_oomable pid vaddr s = (Done (Ok (ram_start s + of_nat i * PAGE_SIZE)), s')
                \<and> i < length (owners s) \<and> owners s ! i = None \<and> (\<forall>j < i. owners s ! j \<noteq> None)
                \<and> owners s' = (owners s)[i := Some pid] \<and> wf_alloc s'
         else alloc_page_oomable pid vaddr s = (Swapper [HardOom, 0, 0, 0, 0, 0, 0], s)"
proof (cases "None \<in> set (owners s)")
  case True
  have "length (owners s) = ram_pages s"
    using assms(1) by (simp add: wf_alloc_def)
  with True alloc_page_spec [OF assms True, of vaddr] show ?thesis
    by (simp add: ram_address_def add.commute) metis
qed (simp add: alloc_page_oom [OF assms(1)])

theorem alloc_lowest_free_page_witness:
  "\<exists>s'. alloc_page_oomable 3 None (demo_mem\<lparr>last_ram_page := 3\<rparr>) = (Done (Ok 0x61001000), s')"
proof -
  have w: "wf_alloc (demo_mem\<lparr>last_ram_page := 3\<rparr>)"
    and o: "owners (demo_mem\<lparr>last_ram_page := 3\<rparr>) = [Some 3, None, Some 4, None]"
    and r: "ram_start (demo_mem\<lparr>last_ram_page := 3\<rparr>) = 0x61000000"
    using wf_demo_mem
    by (simp_all add: wf_alloc_def owners_def demo_mem_def SA_get_pid_def ram_pages_def PAGE_SIZE_def)
  from alloc_lowest_free_page [OF w, of 3 None]
  obtain i s' where "alloc_page_oomable 3 None (demo_mem\<lparr>last_ram_page := 3\<rparr>)
      = (Done (Ok (0x61000000 + of_nat i * PAGE_SIZE)), s')"
    "i < 4" "[Some (3 :: u8), None, Some 4, None] ! i = None"
    "\<forall>j < i. [Some (3 :: u8), None, Some 4, None] ! j \<noteq> None"
    unfolding o r by auto
  moreover from this have "i = 1"
    by (auto simp: numeral_eq_Suc less_Suc_eq)
  ultimately show ?thesis
    by (auto simp: PAGE_SIZE_def)
qed

text \<open>C19. Touching a page of RAM makes it the most recently used page of the table and
  keeps the order of use of all other pages and the owner of every page, also in the
  step in which the epoch counter runs out and all stamps are renormalised.\<close>

theorem touch_makes_newest:
  assumes "wf_alloc s" and "is_main_memory pa s"
  shows "\<exists>s'. touch pa s = (Done (Ok ()), s') \<and> owners s' = owners s \<and> wf_alloc s'
           \<and> stamped (ram_index pa s) (MEMORY_ALLOCATIONS s) (MEMORY_ALLOCATIONS s')"
proof -
  have i: "ram_index pa s < length (MEMORY_ALLOCATIONS s)"
    by (rule ram_index_less [OF assms])
  from SA_touch_spec [OF assms(1) i] obtain A e where
    r: "SA_touch (ram_index pa s) s = (Done (Ok ()), s\<lparr>MEMORY_ALLOCATIONS := A, epoch := e\<rparr>)"
    and A: "map SA_get_pid A = owners s" "epoch_ok e A" "stamped (ram_index pa s) (MEMORY_ALLOCATIONS s) A"
    by blast
  have "length A = length (MEMORY_ALLOCATIONS s)"
    using arg_cong [OF A(1), of length] by simp
  then have "wf_alloc (s\<lparr>MEMORY_ALLOCATIONS := A, epoch := e\<rparr>)"
    using wf_alloc_update [OF assms(1) A(2), of "used_pages s"] by simp
  with r A i assms(2) show ?thesis
    by (simp add: touch_def owners_def)
qed

theorem touch_makes_newest_witness:
  "stamped 0 (MEMORY_ALLOCATIONS (demo_mem\<lparr>epoch := u32_MAX - 1\<rparr>))
     (MEMORY_ALLOCATIONS (snd (touch 0x61000000 (demo_mem\<lparr>epoch := u32_MAX - 1\<rparr>))))"
proof -
  have "wf_alloc (demo_mem\<lparr>epoch := u32_MAX - 1\<rparr>)"
    "is_main_memory 0x61000000 (demo_mem\<lparr>epoch := u32_MAX - 1\<rparr>)"
    "ram_index 0x61000000 (demo_mem\<lparr>epoch := u32_MAX - 1\<rparr>) = 0"
    by (simp_all add: wf_alloc_def demo_mem_def epoch_ok_def ram_pages_def PAGE_SIZE_def u32_MAX_def
        is_main_memory_def ram_index_def)
  with touch_makes_newest [of "demo_mem\<lparr>epoch := u32_MAX - 1\<rparr>" "0x61000000"] show ?thesis
    by auto
qed

text \<open>C33. Peripheral RAM can be claimed twice by its owner, although the code means to
  deny aliases of it: the test for peripheral RAM is given the index of the page
  in the table of the extra regions instead of its address, and no such index is in the
  peripheral address range.\<close>

theorem peripheral_ram_alias_granted:
  assumes "\<not> is_main_memory pa s" and "pa AND 0xfff = 0"
    and "extra_offset pa (EXTRA_REGIONS s) 0 = Some offset"
    and "unat offset < length (EXTRA_ALLOCATIONS s)" and "length (EXTRA_ALLOCATIONS s) \<le> 2 ^ 20"
    and "is_peripheral_ram pa" and "EXTRA_ALLOCATIONS s ! unat offset = Some pid"
  shows "claim_page pa pid s = (Done (Ok ()), s)"
proof -
  have "unat offset < unat HW_IFRAM0_MEM"
    using assms(4,5) by (simp add: HW_IFRAM0_MEM_def)
  then have "\<not> is_peripheral_ram offset"
    by (simp add: is_peripheral_ram_def word_le_nat_alt)
  moreover have "(EXTRA_ALLOCATIONS s)[unat offset := Some pid] = EXTRA_ALLOCATIONS s"
    using assms(7) by (metis list_update_id)
  ultimately show ?thesis
    using assms by (simp add: claim_page_def claim_release_move_def action_inner_def owner_allows_def)
qed

theorem peripheral_ram_alias_granted_witness:
  "is_peripheral_ram 0x50000000 \<and> claim_page 0x50000000 3 demo_mem = (Done (Ok ()), demo_mem)"
proof -
  have "\<not> is_main_memory 0x50000000 demo_mem" "(0x50000000 :: usize) AND 0xfff = 0"
    "extra_offset 0x50000000 (EXTRA_REGIONS demo_mem) 0 = Some 1"
    "unat (1 :: usize) < length (EXTRA_ALLOCATIONS demo_mem)"
    "length (EXTRA_ALLOCATIONS demo_mem) \<le> 2 ^ 20" "is_peripheral_ram 0x50000000"
    "EXTRA_ALLOCATIONS demo_mem ! unat (1 :: usize) = Some 3"
    by (simp_all add: demo_mem_def is_main_memory_def PAGE_SIZE_def is_peripheral_ram_def
        HW_IFRAM0_MEM_def HW_IFRAM0_MEM_LEN_def HW_IFRAM1_MEM_LEN_def)
  from peripheral_ram_alias_granted [OF this] this(6) show ?thesis
    by simp
qed

end
