(* ===== verification/Page_Spaces.thy ===== *)
theory Page_Spaces
  imports Page_Table Mem_Ownership
begin

text \<open>
  Address spaces as the page tables represent them: the bits of an entry, the tables
  below a root page, the invariant that no page is a table twice and that every space
  maps its own tables, and the effect of mapping a page on the entries of all
  spaces.
\<close>

section \<open>Words\<close>

lemma pte_masks: "(0x3ff :: usize) = mask 10" "(0xfff :: usize) = mask 12" "(0x1ff :: usize) = mask 9"
  "(0x3fffff :: usize) = mask 22" "(3 :: usize) = mask 2" "(1 :: usize) = mask 1"
  by (simp_all add: mask_eq_exp_minus_1)

lemma vpn_less [simp]: "vpn1 va < 1024" "vpn0 va < 1024"
proof -
  have "unat (x AND 0x3ff) < 1024" for x :: usize
  proof -
    have "unat (x AND 0x3ff) = take_bit 10 (unat x)"
      by (simp only: pte_masks flip: take_bit_eq_mask) (simp add: unsigned_take_bit_eq)
    also have "\<dots> < 2 ^ 10"
      by (rule take_bit_nat_less_exp)
    finally show ?thesis
      by simp
  qed
  then show "vpn1 va < 1024" "vpn0 va < 1024"
    by (simp_all add: vpn1_def vpn0_def)
qed

lemma bit_mmu_flags:
  "bit MMU_VALID n = (n = 0)" "bit MMU_R n = (n = 1)" "bit MMU_W n = (n = 2)" "bit MMU_X n = (n = 3)"
  "bit MMU_USER n = (n = 4)" "bit MMU_A n = (n = 6)" "bit MMU_D n = (n = 7)"
  "bit MMU_S n = (n = 8)" "bit MMU_P n = (n = 9)"
proof -
  have b: "bit (push_bit k 1 :: usize) n = (n = k)" if "k < 32" for k
    using that by (subst bit_push_bit_iff) (auto simp: bit_1_iff)
  have "MMU_VALID = push_bit 0 1" "MMU_R = push_bit 1 1" "MMU_W = push_bit 2 1" "MMU_X = push_bit 3 1"
    "MMU_USER = push_bit 4 1" "MMU_A = push_bit 6 1" "MMU_D = push_bit 7 1" "MMU_S = push_bit 8 1"
    "MMU_P = push_bit 9 1"
    by (simp_all add: MMU_VALID_def MMU_R_def MMU_W_def MMU_X_def MMU_USER_def MMU_A_def MMU_D_def
        MMU_S_def MMU_P_def)
  note e = this
  show "bit MMU_VALID n = (n = 0)" "bit MMU_R n = (n = 1)" "bit MMU_W n = (n = 2)" "bit MMU_X n = (n = 3)"
    "bit MMU_USER n = (n = 4)" "bit MMU_A n = (n = 6)" "bit MMU_D n = (n = 7)"
    "bit MMU_S n = (n = 8)" "bit MMU_P n = (n = 9)"
    unfolding e by (subst b; simp)+
qed

lemma single_bit_test:
  fixes e m :: usize
  assumes "\<And>n. bit m n = (n = k)"
  shows "(e AND m = 0) = (\<not> bit e k)"
proof
  assume "e AND m = 0"
  then have "\<not> bit (e AND m) k"
    by simp
  then show "\<not> bit e k"
    by (simp add: bit_and_iff assms)
next
  assume "\<not> bit e k"
  then show "e AND m = 0"
    by (intro bit_word_eqI) (auto simp: bit_and_iff assms)
qed

lemma flag_test:
  "(e AND MMU_VALID = 0) = (\<not> bit e 0)" "(e AND MMU_R = 0) = (\<not> bit e 1)"
  "(e AND MMU_W = 0) = (\<not> bit e 2)" "(e AND MMU_X = 0) = (\<not> bit e 3)"
  "(e AND MMU_S = 0) = (\<not> bit e 8)" "(e AND MMU_P = 0) = (\<not> bit e 9)"
  by (intro single_bit_test bit_mmu_flags)+

lemma valid_test: "((e :: usize) AND 1 = 0) = (\<not> bit e 0)" "((e :: usize) AND 1 = 1) = bit e 0"
  by (simp_all add: and_one_eq mod_2_eq_odd bit_0)

lemma make_pte_eq: "make_pte phys flags = push_bit 10 (drop_bit 12 phys) OR flags"
proof (rule bit_word_eqI)
  fix n assume "n < LENGTH(32)"
  moreover have "22 + (n - 20) = n + 2" if "20 \<le> n"
    using that by simp
  moreover have "12 + (n - 10) = n + 2" if "10 \<le> n"
    using that by simp
  ultimately show "bit (make_pte phys flags) n = bit (push_bit 10 (drop_bit 12 phys) OR flags) n"
    unfolding make_pte_def pte_masks by (cases "n < 20") (auto simp: bit_simps)
qed

lemma pte_ppn [simp]:
  assumes "drop_bit 10 flags = (0 :: usize)"
  shows "drop_bit 10 (make_pte phys flags) = drop_bit 12 phys"
proof (rule bit_word_eqI)
  fix n
  have "\<not> bit flags (10 + n)"
    using arg_cong [OF assms, of "\<lambda>w. bit w n"] by (simp add: bit_drop_bit_eq add.commute)
  then show "bit (drop_bit 10 (make_pte phys flags)) n = bit (drop_bit 12 phys) n" if "n < LENGTH(32)"
    using that by (auto simp: make_pte_eq bit_simps dest: bit_imp_le_length)
qed

lemma pte_phys_make:
  assumes "drop_bit 10 flags = (0 :: usize)" "phys AND 0xfff = 0"
  shows "pte_phys (make_pte phys flags) = phys"
proof -
  have "phys = push_bit 12 (drop_bit 12 phys)"
  proof (rule bit_word_eqI)
    fix n assume "n < LENGTH(32)"
    moreover have "\<not> bit phys n" if "n < 12"
    proof -
      have "\<not> bit (phys AND mask 12) n"
        using assms(2) by (simp add: pte_masks)
      with that show ?thesis
        by (simp add: bit_simps)
    qed
    ultimately show "bit phys n = bit (push_bit 12 (drop_bit 12 phys)) n"
      by (cases "n < 12") (simp_all add: bit_simps)
  qed
  then show ?thesis
    using assms(1) by (simp add: pte_phys_def)
qed

lemma bit_make_pte:
  assumes "n < 10"
  shows "bit (make_pte phys flags) n = bit flags n"
  using assms by (simp add: make_pte_eq bit_simps)

lemma vpn_nat: "vpn1 va = unat va div 2 ^ 22" "vpn0 va = unat va div 2 ^ 12 mod 2 ^ 10"
proof -
  have u: "unat (x AND 0x3ff) = unat x mod 2 ^ 10" for x :: usize
    by (simp only: pte_masks flip: take_bit_eq_mask) (simp add: take_bit_eq_mod unat_mod)
  have d: "unat (drop_bit n va) = unat va div 2 ^ n" for n
    unfolding unsigned_drop_bit_eq
    using unsigned_less [of va, where 'a = nat] by (simp add: drop_bit_eq_div take_bit_nat_eq_self)
  have "unat va div 2 ^ 22 < 2 ^ 10"
    using unsigned_less [of va, where 'a = nat] by (simp add: less_mult_imp_div_less)
  then show "vpn1 va = unat va div 2 ^ 22" "vpn0 va = unat va div 2 ^ 12 mod 2 ^ 10"
    by (simp_all add: vpn1_def vpn0_def u d)
qed

lemma table_address:
  assumes "v < 1024"
  defines "va \<equiv> PAGE_TABLE_OFFSET + of_nat v * PAGE_SIZE"
  shows "vpn1 va = 1021" "vpn0 va = v" "va AND 0xfff = 0"
proof -
  have "unat (of_nat v * PAGE_SIZE :: usize) = v * 4096"
    using assms(1) by (simp add: PAGE_SIZE_def unat_word_ariths unsigned_of_nat take_bit_nat_eq_self)
  then have u: "unat va = 0xff400000 + v * 4096"
    using assms(1) by (simp add: va_def PAGE_TABLE_OFFSET_def unat_word_ariths)
  show "vpn1 va = 1021"
    using assms(1) by (simp add: vpn_nat u)
  have "unat va div 2 ^ 12 = v + 1021 * 2 ^ 10"
    using u by simp
  then show "vpn0 va = v"
    unfolding vpn_nat using assms(1) by (simp only: mod_mult_self1) simp
  show "va AND 0xfff = 0"
    by (simp add: page_aligned_iff u)
qed

lemma user_vpn1: "va < USER_AREA_END \<Longrightarrow> vpn1 va < 1020"
  by (simp add: vpn_nat USER_AREA_END_def word_less_nat_alt)

lemma page_unique:
  assumes "va AND 0xfff = 0" "va' AND 0xfff = 0" "vpn1 va = vpn1 va'" "vpn0 va = vpn0 va'"
  shows "va = va'"
proof -
  have split: "unat x = vpn1 x * 2 ^ 22 + vpn0 x * 2 ^ 12" if al: "x AND 0xfff = 0" for x
  proof -
    obtain k where "unat x = 4096 * k"
      using al by (auto simp: page_aligned_iff)
    moreover have "4096 * k div 2 ^ 22 = k div 2 ^ 10" "4096 * k div 2 ^ 12 = k"
      using div_mult2_eq [of "4096 * k" "2 ^ 12" "2 ^ 10"] by simp_all
    moreover have "4096 * k = k div 2 ^ 10 * 2 ^ 22 + k mod 2 ^ 10 * 2 ^ 12"
    proof -
      define a b where "a = k div 2 ^ 10" and "b = k mod 2 ^ 10"
      then have "k = a * 2 ^ 10 + b"
        by simp
      then have "4096 * k = a * 2 ^ 22 + b * 2 ^ 12"
        by simp
      then show ?thesis
        by (simp only: a_def b_def)
    qed
    ultimately show ?thesis
      by (simp only: vpn_nat)
  qed
  show ?thesis
    using split [OF assms(1)] split [OF assms(2)] assms(3,4) by (simp add: word_unat_eq_iff)
qed

section \<open>Address spaces\<close>

text \<open>The tables below a root page, for any address space.\<close>

definition leaf_at :: "'z Mem_scheme \<Rightarrow> usize \<Rightarrow> nat \<Rightarrow> usize" where
  "leaf_at s r v = drop_bit 10 (frames s r v)"

definition valid_at :: "'z Mem_scheme \<Rightarrow> usize \<Rightarrow> nat \<Rightarrow> bool" where
  "valid_at s r v = bit (frames s r v) 0"

definition pte_at :: "'z Mem_scheme \<Rightarrow> usize \<Rightarrow> usize \<Rightarrow> usize" where
  "pte_at s r va =
     (if valid_at s r (vpn1 va) then frames s (leaf_at s r (vpn1 va)) (vpn0 va) else 0)"

definition active :: "'z Mem_scheme \<Rightarrow> usize" where
  "active s = root_of (satp s)"

lemma active_tables:
  "l1_entry s v = frames s (active s) v"
  "leaf_frame s v = leaf_at s (active s) v"
  "has_leaf s v = valid_at s (active s) v"
  "l0_entry s v w = frames s (leaf_at s (active s) v) w"
  by (simp_all add: l1_entry_def leaf_frame_def leaf_at_def has_leaf_def valid_at_def l0_entry_def
      active_def flag_test)

text \<open>A physical page (by number) that belongs to some process.\<close>

definition owned_frame :: "'z Mem_scheme \<Rightarrow> usize \<Rightarrow> bool" where
  "owned_frame s f = (page_owner s (push_bit 12 f) \<noteq> None \<and> drop_bit 12 (push_bit 12 f) = f)"

text \<open>The kernel finds every leaf table of a space at its place in superpage 1021.\<close>

definition self_mapped :: "'z Mem_scheme \<Rightarrow> usize \<Rightarrow> bool" where
  "self_mapped s r =
     (valid_at s r 1021 \<and> valid_at s r 1022 \<and> valid_at s r 1023 \<and>
      (\<forall>v < 1023. bit (frames s (leaf_at s r 1021) v) 0 = valid_at s r v \<and>
         (valid_at s r v \<longrightarrow> drop_bit 10 (frames s (leaf_at s r 1021) v) = leaf_at s r v)))"

text \<open>
  The address spaces with the given roots: their tables lie in pages that
  belong to some process, no page is a table twice (the kernel's superpage 1023, which
  all spaces share, apart), and every space maps its own tables.
\<close>

definition wf_spaces :: "usize set \<Rightarrow> 'z Mem_scheme \<Rightarrow> bool" where
  "wf_spaces R s =
     ((\<forall>r \<in> R. owned_frame s r) \<and>
      (\<forall>r \<in> R. \<forall>v < 1024. valid_at s r v \<longrightarrow> owned_frame s (leaf_at s r v) \<and> leaf_at s r v \<notin> R) \<and>
      (\<forall>r \<in> R. \<forall>r' \<in> R. \<forall>v < 1024. \<forall>v' < 1024. valid_at s r v \<longrightarrow> valid_at s r' v' \<longrightarrow>
         leaf_at s r v = leaf_at s r' v' \<longrightarrow> v = v' \<and> (r = r' \<or> v = 1023)) \<and>
      (\<forall>r \<in> R. self_mapped s r))"

lemma spaces_frames_cong:
  assumes "frames s' = frames s"
  shows "leaf_at s' r v = leaf_at s r v" "valid_at s' r v = valid_at s r v"
    "pte_at s' r va = pte_at s r va" "self_mapped s' r = self_mapped s r"
  by (simp_all add: leaf_at_def valid_at_def pte_at_def self_mapped_def assms)

lemma wf_spaces_owned:
  assumes "wf_spaces R s" "r \<in> R"
  shows "owned_frame s r"
    "v < 1024 \<Longrightarrow> valid_at s r v \<Longrightarrow> owned_frame s (leaf_at s r v)"
    "v < 1024 \<Longrightarrow> valid_at s r v \<Longrightarrow> leaf_at s r v \<notin> R"
    "self_mapped s r"
  using assms by (auto simp: wf_spaces_def)

lemma wf_spaces_inj:
  assumes "wf_spaces R s" "r \<in> R" "r' \<in> R" "v < 1024" "v' < 1024" "valid_at s r v" "valid_at s r' v'"
    "v \<noteq> 1023"
  shows "(leaf_at s r v = leaf_at s r' v') = (v = v' \<and> r = r')"
proof
  assume "leaf_at s r v = leaf_at s r' v'"
  with assms show "v = v' \<and> r = r'"
    unfolding wf_spaces_def by blast
qed auto

text \<open>Writing a leaf entry of a space changes that entry of that space only.\<close>

lemma write_leaf_roots:
  fixes w :: nat and e :: usize
  assumes "wf_spaces R s" "r \<in> R" "v < 1024" "valid_at s r v" "r' \<in> R"
  defines "s' \<equiv> write_word (leaf_at s r v) w e s"
  shows "frames s' r' = frames s r'" "leaf_at s' r' v' = leaf_at s r' v'"
    "valid_at s' r' v' = valid_at s r' v'"
proof -
  have "leaf_at s r v \<noteq> r'"
    using wf_spaces_owned(3) [OF assms(1,2,3,4)] assms(5) by blast
  then show "frames s' r' = frames s r'"
    by (simp add: s'_def write_word_def)
  then show "leaf_at s' r' v' = leaf_at s r' v'" "valid_at s' r' v' = valid_at s r' v'"
    by (simp_all add: leaf_at_def valid_at_def)
qed

lemma write_leaf_entries:
  assumes "wf_spaces R s" "r \<in> R" "v < 1023" "valid_at s r v" "r' \<in> R" "v' < 1024" "valid_at s r' v'"
  shows "frames (write_word (leaf_at s r v) w e s) (leaf_at s r' v') w'
       = (if r' = r \<and> v' = v \<and> w' = w then e else frames s (leaf_at s r' v') w')"
  using wf_spaces_inj [OF assms(1,2,5) _ assms(6) assms(4) assms(7)] assms(3)
  by (auto simp: write_word_def)

lemma write_leaf_pte:
  assumes "wf_spaces R s" "r \<in> R" "v < 1023" "valid_at s r v" "r' \<in> R"
  shows "pte_at (write_word (leaf_at s r v) w e s) r' va
       = (if r' = r \<and> vpn1 va = v \<and> vpn0 va = w then e else pte_at s r' va)"
proof -
  have "v < 1024"
    using assms(3) by simp
  note roots = write_leaf_roots [OF assms(1,2) this assms(4,5)]
  show ?thesis
    unfolding pte_at_def roots using write_leaf_entries [OF assms vpn_less(1)] assms(4) by auto
qed

lemma write_leaf_wf:
  assumes "wf_spaces R s" "r \<in> R" "v < 1021" "valid_at s r v"
  shows "wf_spaces R (write_word (leaf_at s r v) w e s)"
proof -
  let ?s = "write_word (leaf_at s r v) w e s"
  have v: "v < 1024" "v < 1023"
    using assms(3) by simp_all
  note roots = write_leaf_roots [OF assms(1,2) v(1) assms(4)]
  have own: "owned_frame ?s f = owned_frame s f" for f
    by (simp add: owned_frame_def page_owner_def is_main_memory_def owners_def ram_index_def write_word_def)
  have "self_mapped ?s r'" if r': "r' \<in> R" for r'
  proof -
    have sm: "self_mapped s r'"
      using wf_spaces_owned(4) [OF assms(1) r'] .
    then have "frames ?s (leaf_at s r' 1021) = frames s (leaf_at s r' 1021)"
      using write_leaf_entries [OF assms(1,2) v(2) assms(4) r', of 1021] assms(3)
      by (auto simp: self_mapped_def)
    with sm show ?thesis
      by (simp add: self_mapped_def roots [OF r'])
  qed
  with assms(1) show ?thesis
    by (simp add: wf_spaces_def own roots)
qed

text \<open>A fresh page \<open>f\<close> becomes the leaf table of superpage \<open>v\<close>, is entered in superpage 1021
  and cleared.\<close>

definition install_leaf :: "usize \<Rightarrow> nat \<Rightarrow> usize \<Rightarrow> usize \<Rightarrow> 'z Mem_scheme \<Rightarrow> 'z Mem_scheme" where
  "install_leaf r v f e s =
     s\<lparr>frames := (frames s)
         (r := (frames s r)(v := push_bit 10 f OR MMU_VALID),
          leaf_at s r 1021 := (frames s (leaf_at s r 1021))(v := e),
          f := (\<lambda>_. 0))\<rparr>"

lemma owned_frame_cong:
  assumes "page_owner s' = page_owner s"
  shows "owned_frame s' f = owned_frame s f"
  by (simp add: owned_frame_def assms)

text \<open>A page that is not a table of any of the spaces.\<close>

definition fresh_frame :: "usize set \<Rightarrow> 'z Mem_scheme \<Rightarrow> usize \<Rightarrow> bool" where
  "fresh_frame R s f = (f \<notin> R \<and> (\<forall>r \<in> R. \<forall>v < 1024. valid_at s r v \<longrightarrow> leaf_at s r v \<noteq> f))"

lemma fresh_if_not_owned: "wf_spaces R s \<Longrightarrow> \<not> owned_frame s f \<Longrightarrow> fresh_frame R s f"
  unfolding fresh_frame_def using wf_spaces_owned by blast

lemma l1_entry_frame:
  assumes "drop_bit 12 (push_bit 12 f) = (f :: usize)"
  shows "drop_bit 10 (push_bit 10 f OR MMU_VALID) = f"
proof (rule bit_word_eqI)
  fix n assume "n < LENGTH(32)"
  moreover have "n < 22" if "bit f n"
  proof (rule ccontr)
    assume "\<not> n < 22"
    then have "\<not> bit (drop_bit 12 (push_bit 12 f)) n"
      by (auto simp: bit_simps)
    with assms that show False
      by simp
  qed
  ultimately show "bit (drop_bit 10 (push_bit 10 f OR MMU_VALID)) n = bit f n"
    by (auto simp: bit_simps bit_mmu_flags)
qed

lemma install_leaf_view:
  assumes "wf_spaces R s" "r \<in> R" "v < 1021" "\<not> valid_at s r v" "fresh_frame R s f"
    "drop_bit 12 (push_bit 12 f) = f" "r' \<in> R"
  shows "frames (install_leaf r v f e s) r' =
           (if r' = r then (frames s r)(v := push_bit 10 f OR MMU_VALID) else frames s r')"
    and "valid_at (install_leaf r v f e s) r' v' = (valid_at s r' v' \<or> (r' = r \<and> v' = v))"
    and "leaf_at (install_leaf r v f e s) r' v' = (if r' = r \<and> v' = v then f else leaf_at s r' v')"
proof -
  have sm: "self_mapped s r"
    by (rule wf_spaces_owned(4) [OF assms(1,2)])
  have L: "leaf_at s r 1021 \<notin> R" "r' \<noteq> f"
    using wf_spaces_owned(3) [OF assms(1,2), of 1021] sm assms(5,7)
    by (auto simp: self_mapped_def fresh_frame_def)
  then show fr: "frames (install_leaf r v f e s) r' =
           (if r' = r then (frames s r)(v := push_bit 10 f OR MMU_VALID) else frames s r')"
    using assms(2,7) by (auto simp: install_leaf_def)
  show "valid_at (install_leaf r v f e s) r' v' = (valid_at s r' v' \<or> (r' = r \<and> v' = v))"
    unfolding valid_at_def fr by (auto simp: bit_or_iff bit_mmu_flags)
  have "drop_bit 10 (push_bit 10 f OR MMU_VALID) = f"
    by (rule l1_entry_frame [OF assms(6)])
  then show "leaf_at (install_leaf r v f e s) r' v' = (if r' = r \<and> v' = v then f else leaf_at s r' v')"
    unfolding leaf_at_def fr by simp
qed

lemma install_leaf_entries:
  assumes "wf_spaces R s" "r \<in> R" "v < 1021" "\<not> valid_at s r v" "fresh_frame R s f"
    "r' \<in> R" "v' < 1024" "valid_at s r' v'"
  shows "frames (install_leaf r v f e s) (leaf_at s r' v') w' =
           (if r' = r \<and> v' = 1021 \<and> w' = v then e else frames s (leaf_at s r' v') w')"
proof -
  have sm: "valid_at s r 1021"
    using wf_spaces_owned(4) [OF assms(1,2)] by (simp add: self_mapped_def)
  have "leaf_at s r' v' \<noteq> f" "leaf_at s r' v' \<noteq> r"
    using wf_spaces_owned(3) [OF assms(1,6,7,8)] assms(2,5,6,7,8) by (auto simp: fresh_frame_def)
  moreover have "(leaf_at s r 1021 = leaf_at s r' v') = (1021 = v' \<and> r = r')"
    using wf_spaces_inj [OF assms(1,2,6) _ assms(7) sm assms(8)] by simp
  ultimately show ?thesis
    by (auto simp: install_leaf_def)
qed

lemma install_leaf_pte:
  assumes "wf_spaces R s" "r \<in> R" "v < 1021" "\<not> valid_at s r v" "fresh_frame R s f"
    "drop_bit 12 (push_bit 12 f) = f" "r' \<in> R" "vpn1 va \<noteq> 1021"
  shows "pte_at (install_leaf r v f e s) r' va = pte_at s r' va"
proof (cases "valid_at s r' (vpn1 va)")
  case True
  then have "\<not> (r' = r \<and> vpn1 va = v)"
    using assms(4) by auto
  with True show ?thesis
    using install_leaf_entries [OF assms(1-5,7) vpn_less(1) True] assms(8)
    by (auto simp: pte_at_def install_leaf_view(2,3) [OF assms(1-7)])
next
  case False
  moreover have "frames (install_leaf r v f e s) f w = 0" for w
    by (simp add: install_leaf_def)
  ultimately show ?thesis
    using assms(2,7) by (auto simp: pte_at_def install_leaf_view(2,3) [OF assms(1-6)])
qed

lemma install_leaf_wf:
  assumes "wf_spaces R s" "r \<in> R" "v < 1021" "\<not> valid_at s r v" "fresh_frame R s f"
    "owned_frame s f" "bit e 0" "drop_bit 10 e = f"
  shows "wf_spaces R (install_leaf r v f e s)"
proof -
  let ?s = "install_leaf r v f e s"
  have f: "drop_bit 12 (push_bit 12 f) = f"
    using assms(6) by (simp add: owned_frame_def)
  note view = install_leaf_view [OF assms(1-5) f]
  have own: "owned_frame ?s g = owned_frame s g" for g
    by (simp add: owned_frame_def page_owner_def is_main_memory_def owners_def ram_index_def
        install_leaf_def)
  have "self_mapped ?s r'" if r': "r' \<in> R" for r'
  proof -
    have sm: "self_mapped s r'"
      by (rule wf_spaces_owned(4) [OF assms(1) r'])
    then have "valid_at s r' 1021"
      by (simp add: self_mapped_def)
    from install_leaf_entries [OF assms(1-5) r' _ this, of e]
    have "frames ?s (leaf_at s r' 1021) w =
        (if r' = r \<and> w = v then e else frames s (leaf_at s r' 1021) w)" for w
      by simp
    with sm assms(3,7,8) show ?thesis
      by (auto simp: self_mapped_def view [OF r'])
  qed
  moreover have "owned_frame ?s (leaf_at ?s r' v') \<and> leaf_at ?s r' v' \<notin> R"
    if "r' \<in> R" "v' < 1024" "valid_at ?s r' v'" for r' v'
    using that assms(5,6) wf_spaces_owned(2,3) [OF assms(1) that(1,2)]
    by (auto simp: own view fresh_frame_def)
  moreover have "v' = v'' \<and> (r' = r'' \<or> v' = 1023)"
    if "r' \<in> R" "r'' \<in> R" "v' < 1024" "v'' < 1024" "valid_at ?s r' v'" "valid_at ?s r'' v''"
      "leaf_at ?s r' v' = leaf_at ?s r'' v''" for r' r'' v' v''
  proof -
    have inj: "v' = v'' \<and> (r' = r'' \<or> v' = 1023)" if "valid_at s r' v'" "valid_at s r'' v''"
      "leaf_at s r' v' = leaf_at s r'' v''"
      using assms(1) that \<open>r' \<in> R\<close> \<open>r'' \<in> R\<close> \<open>v' < 1024\<close> \<open>v'' < 1024\<close>
      unfolding wf_spaces_def by blast
    show ?thesis
      using that inj assms(4,5) by (auto simp: view fresh_frame_def split: if_splits)
  qed
  moreover have "owned_frame ?s r'" if "r' \<in> R" for r'
    using wf_spaces_owned(1) [OF assms(1) that] by (simp add: own)
  ultimately show ?thesis
    unfolding wf_spaces_def by blast
qed

section \<open>Mapping\<close>

text \<open>Everything but the tables and the allocation state.\<close>

definition same_rest :: "'z Mem_scheme \<Rightarrow> 'z Mem_scheme \<Rightarrow> bool" where
  "same_rest s s' =
     (satp s' = satp s \<and> current_pid s' = current_pid s \<and> process_inner s' = process_inner s
      \<and> ram_start s' = ram_start s \<and> ram_size s' = ram_size s \<and> ram_name s' = ram_name s
      \<and> EXTRA_REGIONS s' = EXTRA_REGIONS s \<and> Mem.more s' = Mem.more s)"

lemma same_rest_refl [simp]: "same_rest s s"
  by (simp add: same_rest_def)

lemma same_rest_trans: "same_rest s s' \<Longrightarrow> same_rest s' s'' \<Longrightarrow> same_rest s s''"
  by (simp add: same_rest_def)

lemma only_alloc_rest: "only_alloc s s' \<Longrightarrow> same_rest s s'"
  by (auto simp: only_alloc_def same_rest_def)

lemma write_rest [simp]: "same_rest s (write_word f i e s)" "same_rest s (install_leaf r v g e s)"
  by (simp_all add: same_rest_def write_word_def install_leaf_def)

lemma write_alloc [simp]:
  "owners (write_word f i e s) = owners s" "owners (install_leaf r v g e s) = owners s"
  "wf_alloc (write_word f i e s) = wf_alloc s" "wf_alloc (install_leaf r v g e s) = wf_alloc s"
  "page_owner (write_word f i e s) = page_owner s"
  by (auto simp: owners_def write_word_def install_leaf_def wf_alloc_def ram_pages_def
      page_owner_def is_main_memory_def ram_index_def fun_eq_iff)

lemma active_write [simp]:
  "active (write_word f i e s) = active s" "active (install_leaf r v g e s) = active s"
  by (simp_all add: active_def write_word_def install_leaf_def)

lemma wf_spaces_alloc:
  assumes "wf_spaces R s" "frames s' = frames s"
    "\<And>pa. page_owner s pa \<noteq> None \<Longrightarrow> page_owner s' pa \<noteq> None"
  shows "wf_spaces R s'"
proof -
  have "owned_frame s' f" if "owned_frame s f" for f
    using that assms(3) [of "push_bit 12 f"] by (simp add: owned_frame_def)
  with assms(1) show ?thesis
    unfolding wf_spaces_def spaces_frames_cong [OF assms(2)] by blast
qed

definition table_pte :: "usize \<Rightarrow> usize" where
  "table_pte pa = make_pte pa (translate_flags RW_flags OR MMU_VALID OR MMU_D OR MMU_A)"

definition leaf_pte :: "usize \<Rightarrow> MemoryFlags \<Rightarrow> bool \<Rightarrow> usize" where
  "leaf_pte phys flags user =
     make_pte phys (translate_flags flags OR (if user then MMU_USER else 0)
                    OR MMU_VALID OR MMU_D OR MMU_A)"

lemma write_leaf_entry_eq:
  "write_leaf_entry phys va flags user s =
     (if bit (frames s (leaf_at s (active s) (vpn1 va)) (vpn0 va)) 0 then (Done (Err MemoryInUse), s)
      else (Done (Ok ()),
            write_word (leaf_at s (active s) (vpn1 va)) (vpn0 va) (leaf_pte phys flags user) s))"
  by (simp add: write_leaf_entry_def active_tables valid_test set_l0_def leaf_pte_def)

lemma map_page_valid:
  assumes "va AND 0xfff = 0" "valid_at s (active s) (vpn1 va)"
  shows "map_page_fuel (Suc n) pid phys va flags user s = write_leaf_entry phys va flags user s"
  using assms by (simp add: kassert_def kbind_def active_tables)

lemma low_flags [simp]:
  "drop_bit 10 (translate_flags flags) = 0" "drop_bit 10 MMU_VALID = 0" "drop_bit 10 MMU_D = 0"
  "drop_bit 10 MMU_A = 0" "drop_bit 10 MMU_USER = 0" "drop_bit 10 MMU_R = 0" "drop_bit 10 MMU_W = 0"
  "drop_bit 10 MMU_X = 0" "drop_bit 10 MMU_P = 0"
proof -
  show 1: "drop_bit 10 MMU_VALID = 0" "drop_bit 10 MMU_D = 0" "drop_bit 10 MMU_A = 0"
    "drop_bit 10 MMU_USER = 0" "drop_bit 10 MMU_R = 0" "drop_bit 10 MMU_W = 0"
    "drop_bit 10 MMU_X = 0" "drop_bit 10 MMU_P = 0"
    by (rule bit_word_eqI, simp add: bit_simps bit_mmu_flags)+
  show "drop_bit 10 (translate_flags flags) = 0"
    by (simp add: translate_flags_def drop_bit_or 1)
qed

lemma leaf_pte_props:
  "bit (leaf_pte phys flags user) 0" "\<not> bit (leaf_pte phys flags user) 8"
  "drop_bit 10 (leaf_pte phys flags user) = drop_bit 12 phys"
  "phys AND 0xfff = 0 \<Longrightarrow> pte_phys (leaf_pte phys flags user) = phys"
proof -
  have d: "drop_bit 10 (translate_flags flags OR (if user then MMU_USER else 0)
      OR MMU_VALID OR MMU_D OR MMU_A) = 0"
    by (simp add: drop_bit_or)
  show "bit (leaf_pte phys flags user) 0" "\<not> bit (leaf_pte phys flags user) 8"
    by (auto simp: leaf_pte_def bit_make_pte bit_or_iff bit_mmu_flags translate_flags_def)
  show "drop_bit 10 (leaf_pte phys flags user) = drop_bit 12 phys"
    by (simp add: leaf_pte_def d)
  show "phys AND 0xfff = 0 \<Longrightarrow> pte_phys (leaf_pte phys flags user) = phys"
    by (simp add: leaf_pte_def d pte_phys_make)
qed

lemma table_pte_eq: "table_pte pa = leaf_pte pa RW_flags False"
  by (simp add: table_pte_def leaf_pte_def)

lemma aligned_frame:
  assumes "(pa :: usize) AND 0xfff = 0"
  shows "push_bit 12 (drop_bit 12 pa) = pa" "drop_bit 12 (push_bit 12 (drop_bit 12 pa)) = drop_bit 12 pa"
proof -
  show "push_bit 12 (drop_bit 12 pa) = pa"
    using pte_phys_make [of 0 pa] assms by (simp add: pte_phys_def)
  then show "drop_bit 12 (push_bit 12 (drop_bit 12 pa)) = drop_bit 12 pa"
    by simp
qed

text \<open>The steps \<open>map_page_inner\<close> and \<open>reserve_address\<close> share: a new leaf table.\<close>

lemma alloc_fresh:
  assumes wf: "wf_alloc s" "wf_spaces R s" and pid: "pid \<noteq> 0" and free: "None \<in> set (owners s)"
  obtains i s1 where
    "alloc_page_oomable pid vaddr s = (Done (Ok (ram_address i s)), s1)"
    "i < ram_pages s" "owners s ! i = None" "owners s1 = (owners s)[i := Some pid]"
    "wf_alloc s1" "only_alloc s s1" "wf_spaces R s1"
    "ram_address i s AND 0xfff = 0" "page_owner s (ram_address i s) = None"
    "page_owner s1 = (page_owner s)(ram_address i s := Some pid)"
    "owned_frame s1 (drop_bit 12 (ram_address i s))"
    "fresh_frame R s1 (drop_bit 12 (ram_address i s))"
proof -
  from alloc_page_spec [OF wf(1) pid free] obtain i s1 where
    al: "alloc_page_oomable pid vaddr s = (Done (Ok (ram_address i s)), s1)"
    and i: "i < ram_pages s" "owners s ! i = None" and own: "owners s1 = (owners s)[i := Some pid]"
    and s1: "wf_alloc s1" "only_alloc s s1"
    by blast
  have fr: "frames s1 = frames s"
    using only_alloc_same [OF s1(2)] by simp
  let ?pa = "ram_address i s" and ?f = "drop_bit 12 (ram_address i s)"
  have po: "page_owner s1 = (page_owner s)(?pa := Some pid)" "page_owner s ?pa = None"
    using page_owner_update [OF wf(1) s1(2) own i(1)] ram_address_props [OF wf(1) i(1)] i(2)
    by (simp_all add: page_owner_def)
  have al_pa: "?pa AND 0xfff = 0"
    using ram_address_props(3) [OF wf(1) i(1)] by simp
  have "\<not> owned_frame s ?f" "owned_frame s1 ?f"
    using po aligned_frame [OF al_pa] by (simp_all add: owned_frame_def)
  then have "fresh_frame R s1 ?f"
    using fresh_if_not_owned [OF wf(2)] by (simp add: fresh_frame_def spaces_frames_cong [OF fr])
  moreover have "wf_spaces R s1"
    by (rule wf_spaces_alloc [OF wf(2) fr]) (simp add: po(1))
  ultimately show ?thesis
    using that [OF al i own s1] po al_pa \<open>owned_frame s1 ?f\<close> by blast
qed

definition new_leaf :: "nat \<Rightarrow> PID \<Rightarrow> nat \<Rightarrow> ('z Mem_scheme, unit) km" where
  "new_leaf n pid v =
     kbind (alloc_page_oomable pid None) (\<lambda>pa.
       kthen (set_l1 v (push_bit 10 (drop_bit 12 pa) OR MMU_VALID))
      (kthen (map_page_fuel n pid pa (PAGE_TABLE_OFFSET + of_nat v * PAGE_SIZE) RW_flags False)
             (zero_leaf v)))"

lemma map_page_unfold:
  "map_page_fuel (Suc n) pid phys va flags user =
     kthen (kassert (va AND 0xfff = 0))
    (kthen (\<lambda>s. if has_leaf s (vpn1 va) then ret () s else new_leaf n pid (vpn1 va) s)
           (write_leaf_entry phys va flags user))"
  by (simp only: map_page_fuel.simps new_leaf_def)

lemma new_leaf_run:
  assumes wf: "wf_alloc s" "wf_spaces R s" "active s \<in> R" and pid: "pid \<noteq> 0"
    and v: "v < 1021" "\<not> valid_at s (active s) v"
    and free: "None \<in> set (owners s)"
  obtains i s1 where
    "new_leaf (Suc n) pid v s =
       (Done (Ok ()),
        install_leaf (active s) v (drop_bit 12 (ram_address i s)) (table_pte (ram_address i s)) s1)"
    "i < ram_pages s" "owners s ! i = None" "owners s1 = (owners s)[i := Some pid]"
    "wf_alloc s1" "only_alloc s s1" "wf_spaces R s1" "owned_frame s1 (drop_bit 12 (ram_address i s))"
    "fresh_frame R s1 (drop_bit 12 (ram_address i s))"
proof -
  from alloc_fresh [OF wf(1,2) pid free, of None] obtain i s1 where
    al: "alloc_page_oomable pid None s = (Done (Ok (ram_address i s)), s1)"
    and i: "i < ram_pages s" "owners s ! i = None" and own: "owners s1 = (owners s)[i := Some pid]"
    and s1: "wf_alloc s1" "only_alloc s s1" and ws1: "wf_spaces R s1"
    and al_pa: "ram_address i s AND 0xfff = 0"
    and owned: "owned_frame s1 (drop_bit 12 (ram_address i s))"
    and fresh: "fresh_frame R s1 (drop_bit 12 (ram_address i s))"
    by blast
  define pa f where "pa = ram_address i s" and "f = drop_bit 12 pa"
  define r where "r = active s"
  have fr: "frames s1 = frames s" "active s1 = r"
    using only_alloc_same [OF s1(2)] by (simp_all add: active_def r_def)
  note f = aligned_frame [OF al_pa, folded pa_def, folded f_def]
  note owned = owned [folded pa_def, folded f_def] and fresh = fresh [folded pa_def, folded f_def]
  have sm: "self_mapped s1 r"
    using wf_spaces_owned(4) [OF ws1 wf(3)] by (simp add: r_def)
  have nv: "\<not> valid_at s1 r v" "v < 1021"
    using v by (simp_all add: spaces_frames_cong [OF fr(1)] r_def)
  define L where "L = leaf_at s1 r 1021"
  have L: "L \<noteq> r" "L \<noteq> f" "r \<noteq> f"
    using wf_spaces_owned(3) [OF ws1 wf(3), of 1021] sm fresh wf(3)
    by (auto simp: self_mapped_def L_def r_def fresh_frame_def)
  define s2 where "s2 = write_word r v (push_bit 10 f OR MMU_VALID) s1"
  have s2: "active s2 = r" "leaf_at s2 r 1021 = L" "valid_at s2 r 1021" "frames s2 L = frames s1 L"
    using sm nv(2) L fr(2)
    by (auto simp: s2_def write_word_def leaf_at_def valid_at_def self_mapped_def L_def active_def)
  note ta = table_address [of v]
  have v1024: "v < 1024"
    using nv(2) by simp
  have inner: "map_page_fuel (Suc n) pid pa (PAGE_TABLE_OFFSET + of_nat v * PAGE_SIZE) RW_flags False s2
      = (Done (Ok ()), write_word L v (table_pte pa) s2)"
    using sm nv s2
    by (subst map_page_valid)
      (auto simp: ta [OF v1024] write_leaf_entry_eq table_pte_eq self_mapped_def L_def)
  define s3 where "s3 = write_word L v (table_pte pa) s2"
  have "leaf_frame s3 v = f"
    using L f fr(2) l1_entry_frame [of f]
    by (simp add: leaf_frame_def l1_entry_def s3_def s2_def write_word_def active_def)
  then have z: "zero_leaf v s3 = (Done (Ok ()), install_leaf r v f (table_pte pa) s1)"
    using L by (auto simp: zero_leaf_def s3_def s2_def write_word_def install_leaf_def L_def fun_upd_twist)
  have "set_l1 v (push_bit 10 f OR MMU_VALID) s1 = (Done (Ok ()), s2)"
    using fr(2) by (simp add: set_l1_def s2_def active_def)
  then have "new_leaf (Suc n) pid v s = (Done (Ok ()), install_leaf r v f (table_pte pa) s1)"
    using al inner z by (simp add: new_leaf_def kbind_def f_def pa_def s3_def del: map_page_fuel.simps)
  then show ?thesis
    using that [OF _ i own s1 ws1] owned fresh by (simp add: r_def f_def pa_def)
qed

text \<open>
  \<open>sets_pte R r va e s s'\<close>: the state \<open>s'\<close> differs from \<open>s\<close> in the leaf entry of \<open>va\<close> in space \<open>r\<close>,
  which is now \<open>e\<close>; the leaf entries of all other pages of all spaces are as before
  (the superpage of the page tables apart), no page has lost its owner, and the
  invariants hold.
\<close>

definition sets_pte ::
  "usize set \<Rightarrow> usize \<Rightarrow> usize \<Rightarrow> usize \<Rightarrow> 'z Mem_scheme \<Rightarrow> 'z Mem_scheme \<Rightarrow> bool" where
  "sets_pte R r va e s s' =
     (wf_alloc s' \<and> wf_spaces R s' \<and> same_rest s s' \<and>
      (\<forall>r' \<in> R. \<forall>va'. vpn1 va' \<noteq> 1021 \<longrightarrow>
         pte_at s' r' va' = (if r' = r \<and> vpn1 va' = vpn1 va \<and> vpn0 va' = vpn0 va
                             then e else pte_at s r' va')) \<and>
      (\<forall>r' \<in> R. \<forall>v'. valid_at s' r' v' = (valid_at s r' v' \<or> (r' = r \<and> v' = vpn1 va))) \<and>
      (\<forall>pa q. page_owner s pa = Some q \<longrightarrow> page_owner s' pa = Some q))"

lemma sets_pte_write:
  assumes "wf_alloc s" "wf_spaces R s" "r \<in> R" "vpn1 va < 1021" "valid_at s r (vpn1 va)"
  shows "sets_pte R r va e s (write_word (leaf_at s r (vpn1 va)) (vpn0 va) e s)"
proof -
  have v: "vpn1 va < 1023" "vpn1 va < 1024"
    using assms(4) by simp_all
  show ?thesis
    using assms(1,5) write_leaf_wf [OF assms(2-5)] write_leaf_pte [OF assms(2,3) v(1) assms(5)]
      write_leaf_roots(3) [OF assms(2,3) v(2) assms(5)]
    by (auto simp: sets_pte_def)
qed

lemma sets_pte_install:
  assumes "wf_spaces R s" "r \<in> R" "v < 1021" "\<not> valid_at s r v" "fresh_frame R s f"
    "owned_frame s f" "bit e 0" "drop_bit 10 e = f" "r' \<in> R"
  shows "wf_spaces R (install_leaf r v f e s)"
    "vpn1 va \<noteq> 1021 \<Longrightarrow> pte_at (install_leaf r v f e s) r' va = pte_at s r' va"
    "valid_at (install_leaf r v f e s) r' v' = (valid_at s r' v' \<or> (r' = r \<and> v' = v))"
    "leaf_at (install_leaf r v f e s) r v = f" "frames (install_leaf r v f e s) f = (\<lambda>_. 0)"
proof -
  have f: "drop_bit 12 (push_bit 12 f) = f"
    using assms(6) by (simp add: owned_frame_def)
  show "wf_spaces R (install_leaf r v f e s)"
    by (rule install_leaf_wf [OF assms(1-8)])
  show "vpn1 va \<noteq> 1021 \<Longrightarrow> pte_at (install_leaf r v f e s) r' va = pte_at s r' va"
    by (rule install_leaf_pte [OF assms(1-5) f assms(9)])
  show "valid_at (install_leaf r v f e s) r' v' = (valid_at s r' v' \<or> (r' = r \<and> v' = v))"
    by (rule install_leaf_view(2) [OF assms(1-5) f assms(9)])
  show "leaf_at (install_leaf r v f e s) r v = f"
    using install_leaf_view(3) [OF assms(1-5) f assms(2)] by simp
  show "frames (install_leaf r v f e s) f = (\<lambda>_. 0)"
    by (simp add: install_leaf_def)
qed

text \<open>A routine that makes sure of the leaf table of \<open>va\<close> and then writes the entry of \<open>va\<close>.\<close>

lemma new_leaf_sets_pte:
  assumes wf: "wf_alloc s" "wf_spaces R s" "active s \<in> R" and pid: "pid \<noteq> 0"
    and v: "vpn1 va < 1021" "\<not> valid_at s (active s) (vpn1 va)"
    and free: "None \<in> set (owners s)"
  obtains s1 where
    "new_leaf (Suc n) pid (vpn1 va) s = (Done (Ok ()), s1)"
    "wf_alloc s1" "wf_spaces R s1" "active s1 = active s" "valid_at s1 (active s) (vpn1 va)"
    "frames s1 (leaf_at s1 (active s) (vpn1 va)) (vpn0 va) = 0" "same_rest s s1"
    "\<And>r'. r' \<in> R \<Longrightarrow> valid_at s1 r' v' = (valid_at s r' v' \<or> (r' = active s \<and> v' = vpn1 va))"
    "\<And>e. sets_pte R (active s) va e s
       (write_word (leaf_at s1 (active s) (vpn1 va)) (vpn0 va) e s1)"
proof -
  from new_leaf_run [OF wf pid v free, of n] obtain i s0 where
    run: "new_leaf (Suc n) pid (vpn1 va) s =
       (Done (Ok ()), install_leaf (active s) (vpn1 va) (drop_bit 12 (ram_address i s))
                        (table_pte (ram_address i s)) s0)"
    and i: "i < ram_pages s" "owners s ! i = None" "owners s0 = (owners s)[i := Some pid]"
    and s0: "wf_alloc s0" "only_alloc s s0" "wf_spaces R s0"
      "owned_frame s0 (drop_bit 12 (ram_address i s))" "fresh_frame R s0 (drop_bit 12 (ram_address i s))"
    by blast
  let ?r = "active s" and ?v = "vpn1 va" and ?f = "drop_bit 12 (ram_address i s)"
  let ?e = "table_pte (ram_address i s)"
  let ?s1 = "install_leaf ?r ?v ?f ?e s0"
  have fr: "frames s0 = frames s" "active s0 = active s"
    using only_alloc_same [OF s0(2)] by (simp_all add: active_def)
  have nv: "\<not> valid_at s0 ?r ?v"
    using v(2) by (simp add: spaces_frames_cong [OF fr(1)])
  have e: "bit ?e 0" "drop_bit 10 ?e = ?f"
    by (simp_all add: table_pte_eq leaf_pte_props)
  note inst = sets_pte_install [OF s0(3) wf(3) v(1) nv s0(5,4) e]
  have po: "page_owner s pa = Some q \<Longrightarrow> page_owner s0 pa = Some q" for pa q
    using page_owner_update [OF wf(1) s0(2) i(3,1)] i(2) ram_address_props [OF wf(1) i(1)]
    by (auto simp: page_owner_def)
  have rest: "same_rest s ?s1"
    using only_alloc_rest [OF s0(2)] same_rest_trans write_rest(2) by blast
  have a1: "active ?s1 = active s" "wf_alloc ?s1" "wf_spaces R ?s1"
    using fr(2) s0(1) inst(1) [OF wf(3)] by simp_all
  have val: "valid_at ?s1 ?r ?v"
    using inst(3) [OF wf(3)] by simp
  have ptes: "pte_at ?s1 r' va' = pte_at s r' va'" if "r' \<in> R" "vpn1 va' \<noteq> 1021" for r' va'
    using inst(2) [OF that] by (simp add: spaces_frames_cong [OF fr(1)])
  have vals: "valid_at ?s1 r' w = (valid_at s r' w \<or> (r' = ?r \<and> w = ?v))" if "r' \<in> R" for r' w
    using inst(3) [OF that] by (simp add: spaces_frames_cong [OF fr(1)])
  have "page_owner ?s1 = page_owner s0"
    by (auto simp: page_owner_def is_main_memory_def owners_def ram_index_def install_leaf_def fun_eq_iff)
  then have po1: "page_owner s pa = Some q \<Longrightarrow> page_owner ?s1 pa = Some q" for pa q
    using po by simp
  have "sets_pte R ?r va x s (write_word (leaf_at ?s1 ?r ?v) (vpn0 va) x ?s1)" for x
    using sets_pte_write [OF a1(2,3) wf(3) v(1) val, of x] rest ptes vals po1
    by (auto simp: sets_pte_def intro: same_rest_trans)
  then show ?thesis
    using that [OF run a1(2,3,1) val] inst(4,5) [OF wf(3)] rest vals by simp
qed

lemma map_page_ok:
  assumes wf: "wf_alloc s" "wf_spaces R s" "active s \<in> R" and pid: "pid \<noteq> 0"
    and va: "va AND 0xfff = 0" "vpn1 va < 1021" "\<not> bit (pte_at s (active s) va) 0"
    and room: "valid_at s (active s) (vpn1 va) \<or> None \<in> set (owners s)"
  obtains s' where "map_page_fuel (Suc (Suc n)) pid phys va flags user s = (Done (Ok ()), s')"
    "sets_pte R (active s) va (leaf_pte phys flags user) s s'"
proof (cases "valid_at s (active s) (vpn1 va)")
  case True
  then show ?thesis
    using that [OF _ sets_pte_write [OF wf va(2) True]] va(3)
    by (simp add: map_page_valid [OF va(1)] write_leaf_entry_eq pte_at_def del: map_page_fuel.simps)
next
  case False
  with room have "None \<in> set (owners s)"
    by simp
  from new_leaf_sets_pte [OF wf pid va(2) False this, of n] obtain s1 where
    run: "new_leaf (Suc n) pid (vpn1 va) s = (Done (Ok ()), s1)"
    and s1: "active s1 = active s" "frames s1 (leaf_at s1 (active s) (vpn1 va)) (vpn0 va) = 0"
    and upd: "\<And>e. sets_pte R (active s) va e s
       (write_word (leaf_at s1 (active s) (vpn1 va)) (vpn0 va) e s1)"
    by blast
  let ?s' = "write_word (leaf_at s1 (active s) (vpn1 va)) (vpn0 va) (leaf_pte phys flags user) s1"
  have "write_leaf_entry phys va flags user s1 = (Done (Ok ()), ?s')"
    using s1 by (simp add: write_leaf_entry_eq)
  then have "map_page_fuel (Suc (Suc n)) pid phys va flags user s = (Done (Ok ()), ?s')"
    using va(1) False kbind_unless [of "\<lambda>s. has_leaf s (vpn1 va)" s "new_leaf (Suc n) pid (vpn1 va)",
        OF _ run, of "()" "\<lambda>_. write_leaf_entry phys va flags user"]
    unfolding map_page_unfold [of "Suc n"] kassert_def active_tables(3) by simp
  then show ?thesis
    using that upd by blast
qed

lemma map_page_in_use:
  assumes "va AND 0xfff = 0" "bit (pte_at s (active s) va) 0"
  shows "map_page_fuel (Suc n) pid phys va flags user s = (Done (Err MemoryInUse), s)"
proof -
  have "valid_at s (active s) (vpn1 va)"
    using assms(2) by (auto simp: pte_at_def split: if_splits)
  with assms show ?thesis
    by (simp add: map_page_valid write_leaf_entry_eq pte_at_def del: map_page_fuel.simps)
qed

lemma map_page_oom:
  assumes "wf_alloc s" "va AND 0xfff = 0" "\<not> valid_at s (active s) (vpn1 va)"
    "None \<notin> set (owners s)"
  shows "map_page_fuel (Suc n) pid phys va flags user s = (Swapper [HardOom, 0, 0, 0, 0, 0, 0], s)"
  using assms(2,3) alloc_page_oom [OF assms(1,4), of pid None]
  by (simp add: map_page_unfold kassert_def kbind_def new_leaf_def active_tables(3)
      del: map_page_fuel.simps)

section \<open>Depth of the recursion\<close>

lemma set_l1_has_leaf:
  "set_l1 v (x OR MMU_VALID) s = (r, s') \<Longrightarrow> has_leaf s' v"
  by (auto simp: set_l1_def has_leaf_def l1_entry_def write_word_def flag_test bit_or_iff bit_mmu_flags)

lemma map_page_leaf_exists:
  assumes "has_leaf s (vpn1 va)"
  shows "map_page_fuel (Suc n) pid phys va flags user s = map_page_fuel (Suc m) pid phys va flags user s"
  using assms by (simp add: map_page_unfold kassert_def kbind_def del: map_page_fuel.simps)

lemma new_leaf_1021: "new_leaf (Suc n) pid 1021 s = new_leaf (Suc m) pid 1021 s"
  unfolding new_leaf_def
proof (intro kbind_cong)
  fix pa s1 y s2
  assume "set_l1 1021 (push_bit 10 (drop_bit 12 pa) OR MMU_VALID) s1 = (Done (Ok y), s2)"
  then have "has_leaf s2 1021"
    by (rule set_l1_has_leaf)
  then have "map_page_fuel (Suc n) pid pa (PAGE_TABLE_OFFSET + of_nat 1021 * PAGE_SIZE) RW_flags False s2
           = map_page_fuel (Suc m) pid pa (PAGE_TABLE_OFFSET + of_nat 1021 * PAGE_SIZE) RW_flags False s2"
    by (intro map_page_leaf_exists) (simp add: table_address(1) [of 1021, simplified])
  then show "kbind (map_page_fuel (Suc n) pid pa (PAGE_TABLE_OFFSET + of_nat 1021 * PAGE_SIZE)
        RW_flags False) (\<lambda>_. zero_leaf 1021) s2
    = kbind (map_page_fuel (Suc m) pid pa (PAGE_TABLE_OFFSET + of_nat 1021 * PAGE_SIZE)
        RW_flags False) (\<lambda>_. zero_leaf 1021) s2"
    by (simp only: kbind_def)
qed

lemma map_page_table:
  assumes "vpn1 va = 1021"
  shows "map_page_fuel (Suc (Suc n)) pid phys va flags user
       = map_page_fuel (Suc (Suc m)) pid phys va flags user"
  unfolding map_page_unfold [of "Suc n"] map_page_unfold [of "Suc m"] assms new_leaf_1021 [of n pid _ m]
  by (rule refl)

lemma new_leaf_depth:
  assumes "v < 1024"
  shows "new_leaf (Suc (Suc n)) pid v = new_leaf (Suc (Suc m)) pid v"
  unfolding new_leaf_def
    map_page_table [OF table_address(1) [OF assms], of n _ _ _ _ m] by (rule refl)

lemma map_page_depth:
  "map_page_fuel (Suc (Suc (Suc n))) pid phys va flags user
     = map_page_fuel (Suc (Suc (Suc m))) pid phys va flags user"
  unfolding map_page_unfold [of "Suc (Suc n)"] map_page_unfold [of "Suc (Suc m)"]
    new_leaf_depth [OF vpn_less(1), of n pid va m] by (rule refl)

end
