(* ===== verification/Demo_Machine.thy ===== *)
theory Demo_Machine
  imports Page_Spaces
begin

text \<open>
  A machine with two processes, on which the statements about address spaces are
  instantiated. It has sixteen pages of RAM. Process 3 has its root table in page 0 and the tables of superpages
  1021, 1022 and 384 in pages 1, 2 and 4; process 4 has its root in page 5 and its tables of
  1021, 1022 and 320 in pages 6, 7 and 9. Page 3 is the kernel's shared table, page 8 a page of
  process 3, mapped readable and writable at \<open>0x60001000\<close>; \<open>0x60005000\<close> is reserved. Page 10 is one of process 4,
  mapped at \<open>0x50000000\<close>.
\<close>

definition table_at :: "usize \<Rightarrow> usize" where
  "table_at f = push_bit 10 f OR MMU_VALID"

definition demo_root :: "nat \<Rightarrow> nat \<Rightarrow> usize" where
  "demo_root p v =
     (if v = 1023 then table_at 0x61003
      else if p = 3 \<and> v = 384 then table_at 0x61004
      else if p = 4 \<and> v = 320 then table_at 0x61009
      else if v = 1021 then table_at (if p = 3 then 0x61001 else 0x61006)
      else if v = 1022 then table_at (if p = 3 then 0x61002 else 0x61007)
      else 0)"

definition demo_frames :: "usize \<Rightarrow> nat \<Rightarrow> usize" where
  "demo_frames f v =
     (if f = 0x61000 then demo_root 3 v
      else if f = 0x61001 then demo_root 3 v
      else if f = 0x61005 then demo_root 4 v
      else if f = 0x61006 then demo_root 4 v
      else if f = 0x61004 \<and> v = 1 then push_bit 10 0x61008 OR 0xd7
      else if f = 0x61004 \<and> v = 5 then MMU_R OR MMU_W
      else if f = 0x61009 \<and> v = 0 then push_bit 10 0x6100a OR 0xd7
      else 0)"

definition demo_spaces :: Mem where
  "demo_spaces = demo_mem\<lparr>ram_size := 0x10000,
     MEMORY_ALLOCATIONS := map (\<lambda>p. \<lparr>timestamp = 1, vpn = p\<rparr>)
       [3, 3, 3, 1, 3, 4, 4, 4, 0x60001003, 4, 0x50000004, 0, 0, 0, 0, 0],
     epoch := 2, used_pages := 11, last_ram_page := 11,
     satp := 0x80C61000, frames := demo_frames\<rparr>"

definition demo_R :: "usize set" where
  "demo_R = {0x61000, 0x61005}"

lemma wf_demo_spaces_alloc: "wf_alloc demo_spaces"
  by (simp add: wf_alloc_def demo_spaces_def demo_mem_def epoch_ok_def ram_pages_def PAGE_SIZE_def u32_MAX_def)

lemma demo_owners:
  "owners demo_spaces =
     [Some 3, Some 3, Some 3, Some 1, Some 3, Some 4, Some 4, Some 4, Some 3,
      Some 4, Some 4, None, None, None, None, None]"
  by (simp add: owners_def demo_spaces_def SA_get_pid_def)

lemma table_at_simps:
  "bit (table_at f) 0" "drop_bit 10 (table_at 0x61001) = 0x61001" "drop_bit 10 (table_at 0x61002) = 0x61002"
  "drop_bit 10 (table_at 0x61003) = 0x61003" "drop_bit 10 (table_at 0x61004) = 0x61004"
  "drop_bit 10 (table_at 0x61006) = 0x61006" "drop_bit 10 (table_at 0x61007) = 0x61007"
  "drop_bit 10 (table_at 0x61009) = 0x61009"
  by (simp_all add: table_at_def MMU_VALID_def bit_simps)

lemma demo_frames_eq: "frames demo_spaces = demo_frames"
  by (simp add: demo_spaces_def)

lemma demo_valid:
  "valid_at demo_spaces 0x61000 v = (v \<in> {384, 1021, 1022, 1023})"
  "valid_at demo_spaces 0x61005 v = (v \<in> {320, 1021, 1022, 1023})"
  by (simp_all add: valid_at_def demo_frames_eq demo_frames_def demo_root_def table_at_simps)

lemma demo_leaf:
  "leaf_at demo_spaces 0x61000 384 = 0x61004" "leaf_at demo_spaces 0x61000 1021 = 0x61001"
  "leaf_at demo_spaces 0x61000 1022 = 0x61002" "leaf_at demo_spaces 0x61000 1023 = 0x61003"
  "leaf_at demo_spaces 0x61005 1021 = 0x61006" "leaf_at demo_spaces 0x61005 1022 = 0x61007"
  "leaf_at demo_spaces 0x61005 1023 = 0x61003" "leaf_at demo_spaces 0x61005 320 = 0x61009"
  by (simp_all add: leaf_at_def demo_frames_eq demo_frames_def demo_root_def table_at_simps)

lemma demo_owned:
  assumes "f \<in> {0x61000, 0x61001, 0x61002, 0x61003, 0x61004, 0x61005, 0x61006, 0x61007, 0x61009}"
  shows "owned_frame demo_spaces f"
proof -
  have "ram_start demo_spaces = 0x61000000" "ram_size demo_spaces = 0x10000"
    by (simp_all add: demo_spaces_def demo_mem_def)
  then show ?thesis
    using assms
    by (auto simp: owned_frame_def page_owner_def demo_owners is_main_memory_def ram_index_def PAGE_SIZE_def)
qed

lemma wf_demo_spaces: "wf_spaces demo_R demo_spaces"
proof -
  have "self_mapped demo_spaces 0x61000"
    by (auto simp: self_mapped_def demo_valid demo_leaf demo_frames_eq demo_frames_def demo_root_def
        table_at_simps)
  moreover have "self_mapped demo_spaces 0x61005"
    by (auto simp: self_mapped_def demo_valid demo_leaf demo_frames_eq demo_frames_def demo_root_def
        table_at_simps)
  ultimately show ?thesis
    unfolding wf_spaces_def demo_R_def
    by (intro conjI) (auto simp: demo_valid demo_leaf demo_owned)
qed

lemma demo_vpn:
  "vpn1 0x60001000 = 384" "vpn0 0x60001000 = 1" "vpn1 0x40002000 = 256" "vpn0 0x40002000 = 2"
  "vpn1 0x50000000 = 320" "vpn0 0x50000000 = 0" "vpn1 0x60005000 = 384" "vpn0 0x60005000 = 5" "vpn1 0x60003000 = 384" "vpn0 0x60003000 = 3" "root_of 0x80C61000 = 0x61000" "root_of 0x81061005 = 0x61005"
  by (simp_all add: vpn1_def vpn0_def root_of_def)

lemma demo_pte:
  "pte_at demo_spaces 0x61000 0x60001000 = 0x184020d7"
  "pte_at demo_spaces 0x61000 0x60003000 = 0" "pte_at demo_spaces 0x61000 0x60005000 = 6"
  "pte_at demo_spaces 0x61005 0x40002000 = 0"
  "pte_at demo_spaces 0x61005 0x50000000 = 0x184028d7"
  by (simp_all add: pte_at_def demo_vpn demo_valid demo_leaf demo_frames_eq demo_frames_def MMU_R_def MMU_W_def)

lemma demo_satp: "satp demo_spaces = 0x80C61000" "active demo_spaces = 0x61000"
  by (simp_all add: demo_spaces_def active_def root_of_def)

end
