(* ===== verification/Page_Lending.thy ===== *)
theory Page_Lending
  imports Demo_Machine
begin

text \<open>
  Lending a page of one process to another and returning it
  (\<open>lend_page_inner\<close>, \<open>return_page_inner\<close> of kernel/src/arch/riscv/mem.rs): what each
  step does to the entry of the page in both address spaces, the round trip, and the
  loan that fails half way.
\<close>

section \<open>Single steps on the entry of a page\<close>

lemma aligned_3: "(va :: usize) AND 0xfff = 0 \<Longrightarrow> va AND 3 = 0"
proof -
  assume "va AND 0xfff = 0"
  then have "4 dvd unat va"
    by (auto simp: page_aligned_iff)
  moreover have "va AND 3 = take_bit 2 va"
    by (simp add: pte_masks flip: take_bit_eq_mask)
  then have "(va AND 3 = 0) = (take_bit 2 (unat va) = 0)"
    by (simp add: word_unat_eq_iff unsigned_take_bit_eq)
  ultimately show ?thesis
    by (simp add: take_bit_eq_mod)
qed

lemma entry_of_eq:
  assumes "va AND 0xfff = 0"
  shows "entry_of va s =
    (if valid_at s (active s) (vpn1 va) then (Done (Ok (vpn1 va, vpn0 va)), s)
     else (Done (Err BadAddress), s))"
  using aligned_3 [OF assms] by (simp add: entry_of_def pagetable_entry_def active_tables(3))

lemma read_entry_eq:
  assumes "valid_at s (active s) (vpn1 va)"
  shows "read_entry (vpn1 va, vpn0 va) s = (Done (Ok (pte_at s (active s) va)), s)"
  using assms by (simp add: read_entry_def active_tables pte_at_def)

lemma write_entry_eq:
  "write_entry (vpn1 va, vpn0 va) e s =
     (Done (Ok ()), write_word (leaf_at s (active s) (vpn1 va)) (vpn0 va) e s)"
  by (simp add: write_entry_def set_l0_def active_tables)

lemma activate_eq: "activate m s = (Done (Ok ()), s\<lparr>satp := m\<rparr>)"
  by (simp add: activate_def)

lemma activate_view [simp]:
  "active (s\<lparr>satp := m\<rparr>) = root_of m" "pte_at (s\<lparr>satp := m\<rparr>) = pte_at s"
  "valid_at (s\<lparr>satp := m\<rparr>) = valid_at s" "leaf_at (s\<lparr>satp := m\<rparr>) = leaf_at s"
  "wf_alloc (s\<lparr>satp := m\<rparr>) = wf_alloc s" "wf_spaces R (s\<lparr>satp := m\<rparr>) = wf_spaces R s"
  "owners (s\<lparr>satp := m\<rparr>) = owners s" "page_owner (s\<lparr>satp := m\<rparr>) = page_owner s"
  by (auto simp: active_def pte_at_def valid_at_def leaf_at_def wf_alloc_def ram_pages_def wf_spaces_def
      owned_frame_def page_owner_def is_main_memory_def owners_def ram_index_def self_mapped_def fun_eq_iff)

text \<open>What an entry means for an access.\<close>

definition translation :: "usize \<Rightarrow> (Error, usize) outcome" where
  "translation e =
     (if bit e 8 then Err ShareViolation
      else if bit e 0 then Ok (pte_phys e)
      else if e = 0 then Err BadAddress else Err MemoryInUse)"

lemma virt_to_phys_eq: "virt_to_phys va s = translation (pte_at s (active s) va)"
  by (simp add: virt_to_phys_def translation_def Let_def active_tables flag_test pte_at_def)

lemma pte_phys_aligned: "pte_phys e AND 0xfff = 0"
proof (rule bit_word_eqI)
  fix n
  show "bit (pte_phys e AND 0xfff) n = bit (0 :: usize) n"
    by (auto simp: pte_phys_def pte_masks bit_simps)
qed

section \<open>Lending\<close>

definition lent :: "usize \<Rightarrow> usize" where
  "lent e = (e AND NOT MMU_VALID) OR MMU_S"

definition returned :: "usize \<Rightarrow> usize" where
  "returned e = (e AND NOT MMU_S) OR MMU_VALID"

lemma lent_bits:
  "n < 32 \<Longrightarrow> bit (lent e) n = ((bit e n \<and> n \<noteq> 0) \<or> n = 8)"
  by (auto simp: lent_def bit_simps bit_mmu_flags)

lemma returned_lent:
  assumes "bit e 0" "\<not> bit e 8"
  shows "returned (lent e) = e"
  by (rule bit_word_eqI) (use assms in \<open>auto simp: returned_def lent_def bit_simps bit_mmu_flags\<close>)

definition lend_flags :: "bool \<Rightarrow> usize \<Rightarrow> MemoryFlags" where
  "lend_flags mutable e = (if mutable \<and> bit e 2 then MemoryFlags_or FLAG_R FLAG_W else FLAG_R)"

lemma lend_run:
  assumes "va AND 0xfff = 0" "valid_at s (active s) (vpn1 va)"
    "bit (pte_at s (active s) va) 0" "\<not> bit (pte_at s (active s) va) 8"
  shows "lend_page_inner src va pid dst va' mutable s =
    kmatch (map_page_inner pid (pte_phys (pte_at s (active s) va)) va'
              (lend_flags mutable (pte_at s (active s) va)) (pid \<noteq> 1))
      (\<lambda>result. kthen (activate src)
         (case result of Inl e \<Rightarrow> fail e | Inr _ \<Rightarrow> ret (pte_phys (pte_at s (active s) va))))
      (write_word (leaf_at s (active s) (vpn1 va)) (vpn0 va) (lent (pte_at s (active s) va)) s\<lparr>satp := dst\<rparr>)"
  using assms
  by (simp add: lend_page_inner_def kbind_def [of "entry_of va"] entry_of_eq Let_def flag_test
      kbind_def [of "read_entry _"] read_entry_eq kbind_def [of "write_entry _ _"] write_entry_eq
      kbind_def [of "activate dst"] activate_eq lent_def lend_flags_def bit_or_iff bit_and_iff
      bit_not_iff bit_mmu_flags)

lemma sets_ptesD:
  assumes "sets_pte R r va e s s'"
  shows "wf_alloc s'" "wf_spaces R s'" "same_rest s s'"
    "r' \<in> R \<Longrightarrow> vpn1 va' \<noteq> 1021 \<Longrightarrow>
       pte_at s' r' va' = (if r' = r \<and> vpn1 va' = vpn1 va \<and> vpn0 va' = vpn0 va
                           then e else pte_at s r' va')"
    "r' \<in> R \<Longrightarrow> valid_at s' r' v' = (valid_at s r' v' \<or> (r' = r \<and> v' = vpn1 va))"
    "page_owner s pa = Some q \<Longrightarrow> page_owner s' pa = Some q"
  using assms by (simp_all add: sets_pte_def)

lemma pte_valid_leaf: "pte_at s r va \<noteq> 0 \<Longrightarrow> valid_at s r (vpn1 va)"
  by (auto simp: pte_at_def split: if_splits)

lemma bit_nonzero: "bit (e :: usize) n \<Longrightarrow> e \<noteq> 0"
  by auto

definition same_page :: "usize \<Rightarrow> usize \<Rightarrow> bool" where
  "same_page va va' = (vpn1 va = vpn1 va' \<and> vpn0 va = vpn0 va')"

text \<open>The leaf entries of all spaces, the superpage of the page tables apart.\<close>

definition ptes_are :: "usize set \<Rightarrow> (usize \<Rightarrow> usize \<Rightarrow> usize) \<Rightarrow> 'z Mem_scheme \<Rightarrow> bool" where
  "ptes_are R P s = (\<forall>r \<in> R. \<forall>w. vpn1 w \<noteq> 1021 \<longrightarrow> pte_at s r w = P r w)"

lemma ptes_areD: "ptes_are R P s \<Longrightarrow> r \<in> R \<Longrightarrow> vpn1 w \<noteq> 1021 \<Longrightarrow> pte_at s r w = P r w"
  by (simp add: ptes_are_def)

definition keeps_owners :: "'z Mem_scheme \<Rightarrow> 'z Mem_scheme \<Rightarrow> bool" where
  "keeps_owners s s' = (\<forall>pa q. page_owner s pa = Some q \<longrightarrow> page_owner s' pa = Some q)"

text \<open>The situation in which a page can be lent from the active space \<open>src\<close> to \<open>dst\<close>.\<close>

definition lendable ::
  "usize set \<Rightarrow> usize \<Rightarrow> usize \<Rightarrow> usize \<Rightarrow> usize \<Rightarrow> 'z Mem_scheme \<Rightarrow> bool" where
  "lendable R src va dst va' s =
     (wf_alloc s \<and> wf_spaces R s \<and> satp s = src \<and> root_of src \<in> R \<and> root_of dst \<in> R
      \<and> root_of src \<noteq> root_of dst
      \<and> va AND 0xfff = 0 \<and> va < USER_AREA_END \<and> va' AND 0xfff = 0 \<and> va' < USER_AREA_END
      \<and> bit (pte_at s (root_of src) va) 0 \<and> \<not> bit (pte_at s (root_of src) va) 8)"

lemma lend_ok:
  assumes l: "lendable R src va dst va' s" and pid: "pid \<noteq> 0"
    and dest: "\<not> bit (pte_at s (root_of dst) va') 0"
    and room: "valid_at s (root_of dst) (vpn1 va') \<or> None \<in> set (owners s)"
  defines "e \<equiv> pte_at s (root_of src) va"
  obtains s' where
    "lend_page_inner src va pid dst va' mutable s = (Done (Ok (pte_phys e)), s')"
    "wf_alloc s'" "wf_spaces R s'" "same_rest s s'"
    "ptes_are R (\<lambda>r w. (if r = root_of src \<and> same_page w va then lent e
        else if r = root_of dst \<and> same_page w va'
             then leaf_pte (pte_phys e) (lend_flags mutable e) (pid \<noteq> 1)
        else pte_at s r w)) s'"
    "keeps_owners s s'"
proof -
  have wf: "wf_alloc s" "wf_spaces R s" and act: "active s = root_of src"
    and R: "root_of src \<in> R" "root_of dst \<in> R" "root_of src \<noteq> root_of dst"
    and va: "va AND 0xfff = 0" "vpn1 va < 1021" "va' AND 0xfff = 0" "vpn1 va' < 1021"
    and e: "bit e 0" "\<not> bit e 8"
    using l user_vpn1 [of va] user_vpn1 [of va'] by (auto simp: lendable_def active_def e_def)
  have val: "valid_at s (root_of src) (vpn1 va)"
    using e(1) bit_nonzero pte_valid_leaf unfolding e_def by blast
  define s1 where "s1 = write_word (leaf_at s (active s) (vpn1 va)) (vpn0 va) (lent e) s"
  have s1: "sets_pte R (root_of src) va (lent e) s s1"
    using sets_pte_write [OF wf R(1) va(2) val] by (simp add: s1_def act)
  note d1 = sets_ptesD [OF s1]
  define s2 where "s2 = s1\<lparr>satp := dst\<rparr>"
  have o1: "owners s1 = owners s"
    by (simp add: s1_def)
  have v': "vpn1 va' \<noteq> 1021"
    using va(4) by simp
  have "wf_alloc s2" "wf_spaces R s2" "active s2 \<in> R" "\<not> bit (pte_at s2 (active s2) va') 0"
    "valid_at s2 (active s2) (vpn1 va') \<or> None \<in> set (owners s2)"
    using d1(1,2) R d1(4) [OF R(2) v'] d1(5) [OF R(2)] dest room o1 by (auto simp: s2_def)
  from map_page_ok [OF this(1,2,3) pid va(3,4) this(4,5), of 1 "pte_phys e" "lend_flags mutable e" "pid \<noteq> 1"]
  obtain s3 where
    m: "map_page_inner pid (pte_phys e) va' (lend_flags mutable e) (pid \<noteq> 1) s2 = (Done (Ok ()), s3)"
    and s3: "sets_pte R (root_of dst) va' (leaf_pte (pte_phys e) (lend_flags mutable e) (pid \<noteq> 1)) s2 s3"
    by (auto simp: map_page_inner_def eval_nat_numeral s2_def simp del: map_page_fuel.simps)
  note d3 = sets_ptesD [OF s3]
  have "lend_page_inner src va pid dst va' mutable s = (Done (Ok (pte_phys e)), s3\<lparr>satp := src\<rparr>)"
    using lend_run [of va s src pid dst va' mutable] va(1) val e m
    by (simp add: act e_def [symmetric] s1_def [symmetric] s2_def [symmetric, unfolded act] kmatch_def
        kbind_def [of "activate src"] activate_eq s2_def s1_def act)
  moreover have "same_rest s (s3\<lparr>satp := src\<rparr>)"
    using d1(3) d3(3) l by (simp add: same_rest_def s2_def lendable_def)
  moreover have "pte_at (s3\<lparr>satp := src\<rparr>) r w =
       (if r = root_of src \<and> same_page w va then lent e
        else if r = root_of dst \<and> same_page w va'
             then leaf_pte (pte_phys e) (lend_flags mutable e) (pid \<noteq> 1)
        else pte_at s r w)" if "r \<in> R" "vpn1 w \<noteq> 1021" for r w
    using d3(4) [OF that] d1(4) [OF that] R(3) by (auto simp: same_page_def s2_def)
  moreover have "page_owner (s3\<lparr>satp := src\<rparr>) pa = Some q" if "page_owner s pa = Some q" for pa q
    using d3(6) d1(6) that by (simp add: s2_def)
  ultimately show ?thesis
    using d3(1,2)
    by (intro that [of "s3\<lparr>satp := src\<rparr>"]) (simp_all add: s2_def ptes_are_def keeps_owners_def)
qed

text \<open>The other way: \<open>src\<close> is the borrower, whose space is active, \<open>dst\<close> the lender.\<close>

lemma return_ok:
  assumes wf: "wf_alloc s" "wf_spaces R s" "active s = root_of src" "root_of src \<in> R" "root_of dst \<in> R"
    and va: "va AND 0xfff = 0" "va < USER_AREA_END" "va' AND 0xfff = 0" "va' < USER_AREA_END"
    and e: "bit (pte_at s (root_of src) va) 0" "bit (pte_at s (root_of dst) va') 8"
    and sep: "root_of src \<noteq> root_of dst"
  obtains s' where
    "return_page_inner src va pid dst va' s = (Done (Ok (pte_phys (pte_at s (root_of src) va))), s')"
    "wf_alloc s'" "wf_spaces R s'" "same_rest (s\<lparr>satp := src\<rparr>) s'"
    "ptes_are R (\<lambda>r w. (if r = root_of src \<and> same_page w va then 0
        else if r = root_of dst \<and> same_page w va' then returned (pte_at s (root_of dst) va')
        else pte_at s r w)) s'"
    "keeps_owners s s'"
proof -
  have v: "vpn1 va < 1021" "vpn1 va' < 1021" "vpn1 va' \<noteq> 1021"
    using user_vpn1 [OF va(2)] user_vpn1 [OF va(4)] by auto
  have val: "valid_at s (root_of src) (vpn1 va)" "valid_at s (root_of dst) (vpn1 va')"
    using e bit_nonzero pte_valid_leaf by blast+
  define s1 where "s1 = write_word (leaf_at s (active s) (vpn1 va)) (vpn0 va) 0 s"
  have s1: "sets_pte R (root_of src) va 0 s s1"
    using sets_pte_write [OF wf(1,2,4) v(1) val(1)] by (simp add: s1_def wf(3))
  note d1 = sets_ptesD [OF s1]
  define s2 where "s2 = s1\<lparr>satp := dst\<rparr>"
  have s2: "wf_alloc s2" "wf_spaces R s2" "active s2 = root_of dst" "valid_at s2 (root_of dst) (vpn1 va')"
    "pte_at s2 (root_of dst) va' = pte_at s (root_of dst) va'"
    using d1(1,2) d1(4) [OF wf(5) v(3)] d1(5) [OF wf(5)] val(2) sep by (auto simp: s2_def)
  let ?e = "returned (pte_at s (root_of dst) va')"
  define s3 where "s3 = write_word (leaf_at s2 (active s2) (vpn1 va')) (vpn0 va') ?e s2"
  have s3: "sets_pte R (root_of dst) va' ?e s2 s3"
    using sets_pte_write [OF s2(1,2) wf(5) v(2) s2(4)] by (simp add: s3_def s2(3))
  note d3 = sets_ptesD [OF s3]
  have "return_page_inner src va pid dst va' s =
      (Done (Ok (pte_phys (pte_at s (root_of src) va))), s3\<lparr>satp := src\<rparr>)"
  proof -
    have "entry_of va s = (Done (Ok (vpn1 va, vpn0 va)), s)"
      "read_entry (vpn1 va, vpn0 va) s = (Done (Ok (pte_at s (root_of src) va)), s)"
      "write_entry (vpn1 va, vpn0 va) 0 s = (Done (Ok ()), s1)" "activate dst s1 = (Done (Ok ()), s2)"
      using val(1) by (simp_all add: entry_of_eq [OF va(1)] read_entry_eq write_entry_eq activate_eq
          wf(3) s1_def s2_def)
    moreover have "expect (entry_of va') s2 = (Done (Ok (vpn1 va', vpn0 va')), s2)"
      "read_entry (vpn1 va', vpn0 va') s2 = (Done (Ok (pte_at s (root_of dst) va')), s2)"
      "write_entry (vpn1 va', vpn0 va') ?e s2 = (Done (Ok ()), s3)"
      using s2 by (simp_all add: expect_def kmatch_def entry_of_eq [OF va(3)] read_entry_eq
          write_entry_eq s3_def)
    ultimately show ?thesis
      using e by (simp add: return_page_inner_def kbind_def flag_test activate_eq
          returned_def [symmetric])
  qed
  moreover have "same_rest (s\<lparr>satp := src\<rparr>) (s3\<lparr>satp := src\<rparr>)"
    using d1(3) d3(3) by (simp add: same_rest_def s2_def)
  moreover have "pte_at (s3\<lparr>satp := src\<rparr>) r w =
       (if r = root_of src \<and> same_page w va then 0
        else if r = root_of dst \<and> same_page w va' then ?e
        else pte_at s r w)" if "r \<in> R" "vpn1 w \<noteq> 1021" for r w
    using d3(4) [OF that] d1(4) [OF that] sep by (auto simp: same_page_def s2_def)
  moreover have "page_owner (s3\<lparr>satp := src\<rparr>) pa = Some q" if "page_owner s pa = Some q" for pa q
    using d3(6) d1(6) that by (simp add: s2_def)
  ultimately show ?thesis
    using d3(1,2)
    by (intro that [of "s3\<lparr>satp := src\<rparr>"]) (simp_all add: s2_def ptes_are_def keeps_owners_def)
qed

lemma demo_lendable:
  assumes "sa = 0x40002000 \<or> sa = 0x50000000"
  shows "lendable demo_R 0x80C61000 0x60001000 0x81061005 sa demo_spaces"
  using wf_demo_spaces_alloc wf_demo_spaces assms
  by (auto simp: lendable_def demo_satp demo_vpn demo_pte demo_R_def USER_AREA_END_def)



text \<open>C34. A loan that fails because the address in the server is taken is not undone: the
  call reports the error, but the page stays marked as lent in the client, where every
  access to it is from then on a sharing violation, while no loan exists that could be
  returned.\<close>

theorem failed_lend_strands_page:
  assumes "lendable R csp ca ssp sa s" and "bit (pte_at s (root_of ssp) sa) 0"
  shows "\<exists>s1. lend_page_inner csp ca spid ssp sa mutable s = (Done (Err MemoryInUse), s1)
           \<and> virt_to_phys ca s1 = Err ShareViolation
           \<and> fst (lend_page_inner csp ca spid ssp sa mutable s1) = Done (Err ShareViolation)
           \<and> (\<forall>r \<in> R. \<forall>va. vpn1 va \<noteq> 1021 \<longrightarrow> \<not> (r = root_of csp \<and> same_page va ca) \<longrightarrow>
                pte_at s1 r va = pte_at s r va)"
proof -
  define e where "e = pte_at s (root_of csp) ca"
  have wf: "wf_alloc s" "wf_spaces R s" and act: "active s = root_of csp" and csp: "satp s = csp"
    and R: "root_of csp \<in> R" "root_of ssp \<in> R" and sep: "root_of csp \<noteq> root_of ssp"
    and ca: "ca AND 0xfff = 0" "vpn1 ca < 1021" "vpn1 ca \<noteq> 1021"
    and sa: "sa AND 0xfff = 0" "vpn1 sa \<noteq> 1021"
    and e: "bit e 0" "\<not> bit e 8"
    using assms(1) user_vpn1 [of ca] user_vpn1 [of sa] by (auto simp: lendable_def active_def e_def)
  have val: "valid_at s (root_of csp) (vpn1 ca)"
    using e(1) bit_nonzero pte_valid_leaf unfolding e_def by blast
  define s1 where "s1 = write_word (leaf_at s (active s) (vpn1 ca)) (vpn0 ca) (lent e) s"
  have s1: "sets_pte R (root_of csp) ca (lent e) s s1"
    using sets_pte_write [OF wf R(1) ca(2) val] by (simp add: s1_def act)
  note d1 = sets_ptesD [OF s1]
  have "map_page_inner spid (pte_phys e) sa (lend_flags mutable e) (spid \<noteq> 1) (s1\<lparr>satp := ssp\<rparr>)
      = (Done (Err MemoryInUse), s1\<lparr>satp := ssp\<rparr>)"
    using assms(2) d1(4) [OF R(2) sa(2)] sep sa(1)
    by (simp add: map_page_inner_def eval_nat_numeral map_page_in_use del: map_page_fuel.simps)
  moreover have "s1\<lparr>satp := csp\<rparr> = s1"
    using d1(3) csp by (simp add: same_rest_def)
  ultimately have run: "lend_page_inner csp ca spid ssp sa mutable s = (Done (Err MemoryInUse), s1)"
    using lend_run [of ca s csp spid ssp sa mutable] ca(1) val e
    by (simp add: act e_def [symmetric] s1_def [symmetric, unfolded act] kmatch_def
        kbind_def [of "activate csp"] activate_eq)
  have a1: "active s1 = root_of csp"
    by (simp add: s1_def act)
  have p1: "pte_at s1 (root_of csp) ca = lent e"
    using d1(4) [OF R(1) ca(3)] by simp
  have b: "bit (lent e) 8" "\<not> bit (lent e) 0"
    by (simp_all add: lent_bits)
  have "virt_to_phys ca s1 = Err ShareViolation"
    using b by (simp add: virt_to_phys_eq a1 p1 translation_def)
  moreover have "fst (lend_page_inner csp ca spid ssp sa mutable s1) = Done (Err ShareViolation)"
    using d1(5) [OF R(1)] a1 p1 b read_entry_eq [of s1 ca]
    by (simp add: lend_page_inner_def kbind_def entry_of_eq [OF ca(1)] flag_test)
  ultimately show ?thesis
    using run d1(4) by (auto simp: same_page_def)
qed

theorem failed_lend_strands_page_witness:
  "\<exists>s1. lend_page_inner 0x80C61000 0x60001000 4 0x81061005 0x50000000 False demo_spaces
         = (Done (Err MemoryInUse), s1)
       \<and> virt_to_phys 0x60001000 s1 = Err ShareViolation"
  using failed_lend_strands_page [OF demo_lendable, of "0x50000000" 4 False]
  by (auto simp: demo_pte demo_vpn)

end
