(* ===== verification/Page_Mapping.thy ===== *)
theory Page_Mapping
  imports Page_Lending
begin

text \<open>
  Mapping, reserving and demand paging (kernel/src/arch/riscv/mem.rs): what each routine does
  to the address it is given, that it leaves every other page of every address space alone, and
  that the nested calls of \<open>map_page_inner\<close> come to an end.
\<close>

section \<open>Mapping and unmapping\<close>

text \<open>C32. \<open>map_page_inner\<close> calls itself to map the leaf tables it adds, at most two levels
  down: from three levels on, the number of nested calls that is allowed makes no
  difference, so that the bound of the model never cuts a run short.\<close>

theorem map_page_fuel_enough:
  "map_page_fuel (3 + n) pid phys va flags user = map_page_inner pid phys va flags user"
  using map_page_depth [of n pid phys va flags user 0]
  by (simp only: map_page_inner_def numeral_3_eq_3 add_Suc add_0)

lemma address_available_eq: "address_available va s = (pte_at s (active s) va = 0)"
proof -
  have "bit (0 :: usize) n = False" for n
    by simp
  then show ?thesis
    by (auto simp: address_available_def virt_to_phys_eq translation_def)
qed

lemma unmap_run:
  assumes "va AND 0xfff = 0" "valid_at s (active s) (vpn1 va)"
  shows "unmap_page_inner va s =
    (Done (Ok (pte_phys (pte_at s (active s) va))),
     write_word (leaf_at s (active s) (vpn1 va)) (vpn0 va) 0 s)"
  using assms
  by (simp add: unmap_page_inner_def kbind_def [of "entry_of va"] entry_of_eq
      kbind_def [of "read_entry _"] read_entry_eq kbind_def [of "write_entry _ _"] write_entry_eq)

text \<open>C18. A page that is mapped can be reached at its address, and only the entry of this
  page changes, in all address spaces; unmapping it yields the same page and leaves
  every address as it was, in particular this one available.\<close>

theorem map_unmap_round_trip:
  assumes "wf_alloc s" and "wf_spaces R s" and "active s \<in> R" and "pid \<noteq> 0"
    and "va AND 0xfff = 0" and "va < USER_AREA_END" and "address_available va s"
    and "phys AND 0xfff = 0"
    and "valid_at s (active s) (vpn1 va) \<or> None \<in> set (owners s)"
  shows "\<exists>s1 s2. map_page_inner pid phys va flags user s = (Done (Ok ()), s1)
           \<and> virt_to_phys va s1 = Ok phys
           \<and> unmap_page_inner va s1 = (Done (Ok phys), s2)
           \<and> address_available va s2 \<and> wf_alloc s2 \<and> wf_spaces R s2
           \<and> (\<forall>r \<in> R. \<forall>va'. vpn1 va' \<noteq> 1021 \<longrightarrow> pte_at s2 r va' = pte_at s r va' \<and>
                (\<not> (r = active s \<and> same_page va' va) \<longrightarrow> pte_at s1 r va' = pte_at s r va'))"
proof -
  have va: "vpn1 va < 1021" "vpn1 va \<noteq> 1021" and e: "pte_at s (active s) va = 0"
    using user_vpn1 [OF assms(6)] assms(7) by (auto simp: address_available_eq)
  then have "\<not> bit (pte_at s (active s) va) 0"
    by simp
  from map_page_ok [OF assms(1-5) va(1) this assms(9), of 1 phys flags user] obtain s1 where
    run: "map_page_inner pid phys va flags user s = (Done (Ok ()), s1)"
    and s1: "sets_pte R (active s) va (leaf_pte phys flags user) s s1"
    by (auto simp: map_page_inner_def eval_nat_numeral simp del: map_page_fuel.simps)
  note d1 = sets_ptesD [OF s1]
  have a1: "active s1 = active s" "active s1 \<in> R"
    using d1(3) assms(3) by (simp_all add: same_rest_def active_def)
  have p1: "pte_at s1 (active s1) va = leaf_pte phys flags user"
    using d1(4) [OF a1(2) va(2)] a1 by simp
  have v1: "valid_at s1 (active s1) (vpn1 va)"
    using d1(5) [OF a1(2)] a1 by simp
  note d2 = sets_ptesD [OF sets_pte_write [OF d1(1,2) a1(2) va(1) v1, of 0]]
  let ?s2 = "write_word (leaf_at s1 (active s1) (vpn1 va)) (vpn0 va) 0 s1"
  have "virt_to_phys va s1 = Ok phys"
    using leaf_pte_props assms(8) by (simp add: virt_to_phys_eq p1 translation_def)
  moreover have "unmap_page_inner va s1 = (Done (Ok phys), ?s2)"
    using unmap_run [OF assms(5) v1] leaf_pte_props(4) [OF assms(8)] by (simp add: p1)
  moreover have "address_available va ?s2"
    using d2(4) [OF a1(2) va(2)] by (simp add: address_available_eq)
  moreover have "pte_at ?s2 r va' = pte_at s r va' \<and>
      (\<not> (r = active s \<and> same_page va' va) \<longrightarrow> pte_at s1 r va' = pte_at s r va')"
    if "r \<in> R" "vpn1 va' \<noteq> 1021" for r va'
    using d2(4) [OF that] d1(4) [OF that] a1 e by (auto simp: same_page_def pte_at_def)
  ultimately show ?thesis
    using run d2(1,2) by blast
qed

theorem map_unmap_round_trip_witness:
  "\<exists>s1. map_page_inner 3 0x61008000 0x60003000 RW_flags True demo_spaces = (Done (Ok ()), s1)
      \<and> virt_to_phys 0x60003000 s1 = Ok 0x61008000"
  using map_unmap_round_trip [OF wf_demo_spaces_alloc wf_demo_spaces, of 3 "0x60003000" "0x61008000"
      RW_flags True]
  by (auto simp: demo_satp demo_R_def address_available_eq demo_pte demo_vpn demo_owners
      USER_AREA_END_def)

section \<open>Reservations\<close>

lemma reserve_run:
  assumes "valid_at s (active s) (vpn1 va)"
  shows "reserve_address va flags s =
    (if bit (pte_at s (active s) va) 0 then (Done (Err ShareViolation), s)
     else (Done (Ok ()), write_word (leaf_at s (active s) (vpn1 va)) (vpn0 va) (translate_flags flags) s))"
  using assms
  by (simp add: reserve_address_def kbind_def active_tables valid_test pte_at_def set_l0_def)

lemma reserve_ok:
  assumes wf: "wf_alloc s" "wf_spaces R s" "active s \<in> R" and pid: "is_allocated (satp s)"
    and va: "vpn1 va < 1021" "\<not> bit (pte_at s (active s) va) 0"
    and room: "valid_at s (active s) (vpn1 va) \<or> None \<in> set (owners s)"
  obtains s' where "reserve_address va flags s = (Done (Ok ()), s')"
    "sets_pte R (active s) va (translate_flags flags) s s'"
proof (cases "valid_at s (active s) (vpn1 va)")
  case True
  then show ?thesis
    using that [OF _ sets_pte_write [OF wf va(1) True]] va(2) by (simp add: reserve_run)
next
  case False
  from pid obtain p where p: "get_pid (satp s) = Some p"
    by (auto simp: is_allocated_def)
  then have "p \<noteq> 0"
    by (auto simp: get_pid_def nonzero_def split: if_splits)
  moreover have "None \<in> set (owners s)"
    using room False by simp
  ultimately obtain s1 where
    run: "new_leaf 3 p (vpn1 va) s = (Done (Ok ()), s1)"
    and s1: "active s1 = active s" "frames s1 (leaf_at s1 (active s) (vpn1 va)) (vpn0 va) = 0"
    and upd: "\<And>e. sets_pte R (active s) va e s
       (write_word (leaf_at s1 (active s) (vpn1 va)) (vpn0 va) e s1)"
    using new_leaf_sets_pte [OF wf _ va(1) False, of p "Suc (Suc 0)", folded numeral_3_eq_3] by blast
  have "kbind arch_current_pid (\<lambda>pid. new_leaf 3 pid (vpn1 va)) s = (Done (Ok ()), s1)"
    using run p by (simp add: kbind_def arch_current_pid_def)
  from kbind_unless [of "\<lambda>s. has_leaf s (vpn1 va)" s
      "kbind arch_current_pid (\<lambda>pid. new_leaf 3 pid (vpn1 va))", OF _ this, of "()" "\<lambda>_ s.
       if l0_entry s (vpn1 va) (vpn0 va) AND 1 = 1 then fail ShareViolation s
          else set_l0 (vpn1 va) (vpn0 va) (translate_flags flags) s"]
  have "reserve_address va flags s = (Done (Ok ()),
      write_word (leaf_at s1 (active s) (vpn1 va)) (vpn0 va) (translate_flags flags) s1)"
    using False s1
    unfolding reserve_address_def map_page_inner_def new_leaf_def [symmetric]
    by (simp add: active_tables set_l0_def valid_test)
  then show ?thesis
    using that upd by blast
qed

lemma unreserve_run:
  assumes "valid_at s (active s) (vpn1 va)" "\<not> bit (pte_at s (active s) va) 0"
  shows "unreserve_address va s =
    (Done (Ok ()), write_word (leaf_at s (active s) (vpn1 va)) (vpn0 va) 0 s)"
  using assms by (simp add: unreserve_address_def active_tables flag_test pte_at_def set_l0_def)

lemma translate_flags_bits:
  "bit (translate_flags fl) n =
     ((n = 1 \<and> MemoryFlags_and fl FLAG_R = FLAG_R) \<or> (n = 2 \<and> MemoryFlags_and fl FLAG_W = FLAG_W)
      \<or> (n = 3 \<and> MemoryFlags_and fl FLAG_X = FLAG_X) \<or> (n = 9 \<and> MemoryFlags_and fl FLAG_P = FLAG_P))"
  by (auto simp: translate_flags_def bit_or_iff bit_mmu_flags)

section \<open>Demand paging\<close>

definition zero_frame :: "usize \<Rightarrow> 'z Mem_scheme \<Rightarrow> 'z Mem_scheme" where
  "zero_frame f s = s\<lparr>frames := (frames s)(f := (\<lambda>_. 0))\<rparr>"

lemma zero_frame_alloc [simp]:
  "owners (zero_frame f s) = owners s" "wf_alloc (zero_frame f s) = wf_alloc s"
  "page_owner (zero_frame f s) = page_owner s" "active (zero_frame f s) = active s"
  "same_rest s (zero_frame f s)"
  by (auto simp: owners_def zero_frame_def wf_alloc_def ram_pages_def page_owner_def is_main_memory_def
      ram_index_def fun_eq_iff active_def same_rest_def)

lemma zero_fresh:
  assumes "wf_spaces R s" "fresh_frame R s f" "r \<in> R"
  shows "valid_at (zero_frame f s) r v = valid_at s r v" "leaf_at (zero_frame f s) r v = leaf_at s r v"
    "v < 1024 \<Longrightarrow> valid_at s r v \<Longrightarrow> frames (zero_frame f s) (leaf_at s r v) = frames s (leaf_at s r v)"
    "pte_at (zero_frame f s) r va = pte_at s r va"
proof -
  have r: "r \<noteq> f"
    using assms by (auto simp: fresh_frame_def)
  then show v: "valid_at (zero_frame f s) r v = valid_at s r v" for v
    by (simp add: valid_at_def zero_frame_def)
  show l: "leaf_at (zero_frame f s) r v = leaf_at s r v" for v
    using r by (simp add: leaf_at_def zero_frame_def)
  show f: "frames (zero_frame f s) (leaf_at s r v) = frames s (leaf_at s r v)"
    if "v < 1024" "valid_at s r v" for v
    using that assms by (auto simp: fresh_frame_def zero_frame_def)
  show "pte_at (zero_frame f s) r va = pte_at s r va"
    by (simp add: pte_at_def v l f)
qed

lemma zero_fresh_wf:
  assumes "wf_spaces R s" "fresh_frame R s f"
  shows "wf_spaces R (zero_frame f s)"
proof -
  note z = zero_fresh [OF assms]
  have "self_mapped (zero_frame f s) r" if "r \<in> R" for r
    using wf_spaces_owned(4) [OF assms(1) that] by (simp add: self_mapped_def z [OF that])
  moreover have "owned_frame (zero_frame f s) g = owned_frame s g" for g
    by (rule owned_frame_cong) simp
  ultimately show ?thesis
    using assms(1) by (auto simp: wf_spaces_def z(1,2))
qed

lemma page_base:
  "((a :: usize) AND NOT 0xfff) AND 0xfff = 0"
  "vpn1 (a AND NOT 0xfff) = vpn1 a" "vpn0 (a AND NOT 0xfff) = vpn0 a"
proof -
  have d: "drop_bit n (a AND NOT 0xfff) = drop_bit n a" if "12 \<le> n" for n
    using that by (intro bit_word_eqI) (auto simp: pte_masks bit_simps dest: bit_imp_le_length)
  show "((a :: usize) AND NOT 0xfff) AND 0xfff = 0"
    by (simp add: and.assoc)
  show "vpn1 (a AND NOT 0xfff) = vpn1 a" "vpn0 (a AND NOT 0xfff) = vpn0 a"
    unfolding vpn1_def vpn0_def by (subst d, simp, rule refl)+
qed

text \<open>The entry of a reserved page, once it has its page of memory.\<close>

definition backed_pte :: "usize \<Rightarrow> usize \<Rightarrow> usize" where
  "backed_pte pa e = make_pte pa (e AND 0x3ff OR MMU_VALID OR MMU_USER OR MMU_D OR MMU_A)"

lemma low_bits: "drop_bit 10 (e AND 0x3ff) = (0 :: usize)"
  by (rule bit_word_eqI) (auto simp: pte_masks bit_simps)

lemma backed_pte_props:
  assumes "pa AND 0xfff = 0"
  shows "pte_phys (backed_pte pa e) = pa" "n < 10 \<Longrightarrow> bit (backed_pte pa e) n = (bit e n \<or> n \<in> {0, 4, 6, 7})"
proof -
  show "pte_phys (backed_pte pa e) = pa"
    using assms by (simp add: backed_pte_def pte_phys_make drop_bit_or low_bits)
  show "bit (backed_pte pa e) n = (bit e n \<or> n \<in> {0, 4, 6, 7})" if "n < 10"
    using that by (auto simp: backed_pte_def bit_make_pte bit_or_iff bit_and_iff bit_mmu_flags pte_masks bit_mask_iff)
qed

lemma write_word_idle: "write_word f i e (write_word f i e' s) = write_word f i e s"
  by (simp add: write_word_def)

definition reserved_pte :: "usize \<Rightarrow> bool" where
  "reserved_pte e = (e AND 0x3ff \<noteq> 0 \<and> \<not> bit e 0 \<and> \<not> bit e 8 \<and> \<not> bit e 9)"

lemma ensure_ok:
  assumes wf: "wf_alloc s" "wf_spaces R s" "active s \<in> R" and pid: "current_pid s \<noteq> 0"
    and a: "a < USER_AREA_END" "reserved_pte (pte_at s (active s) a)"
    and free: "None \<in> set (owners s)"
  obtains pa s' where "ensure_page_exists_inner a s = (Done (Ok pa), s')"
    "sets_pte R (active s) a (backed_pte pa (pte_at s (active s) a)) s s'"
    "page_owner s pa = None" "page_owner s' = (page_owner s)(pa := Some (current_pid s))"
    "pa AND 0xfff = 0" "frames s' (drop_bit 12 pa) = (\<lambda>_. 0)"
proof -
  define e r v w where "e = pte_at s (active s) a" and "r = active s" and "v = vpn1 a" and "w = vpn0 a"
  define va where "va = a AND NOT 0xfff"
  have va: "a AND - 4096 = va" "va AND 0xfff = 0" "vpn1 va = vpn1 a" "vpn0 va = vpn0 a"
    using page_base [of a] by (simp_all add: va_def)
  have e: "e AND 0x3ff \<noteq> 0" "\<not> bit e 0" "\<not> bit e 8" "\<not> bit e 9"
    using a(2) by (simp_all add: reserved_pte_def e_def)
  have v: "v < 1021"
    using user_vpn1 [OF a(1)] by (simp add: v_def)
  have val: "valid_at s r v"
    using e(1) pte_valid_leaf [of s r a] unfolding e_def r_def v_def
    by (cases "pte_at s (active s) a = 0") auto
  from alloc_fresh [OF wf(1,2) pid free, of "Some va"] obtain i s1 where
    al: "alloc_page_oomable (current_pid s) (Some va) s = (Done (Ok (ram_address i s)), s1)"
    and s1: "wf_alloc s1" "only_alloc s s1" "wf_spaces R s1"
    and al_pa: "ram_address i s AND 0xfff = 0" and po: "page_owner s (ram_address i s) = None"
      "page_owner s1 = (page_owner s)(ram_address i s := Some (current_pid s))"
    and fresh: "fresh_frame R s1 (drop_bit 12 (ram_address i s))"
    by blast
  define pa f L where "pa = ram_address i s" and "f = drop_bit 12 pa" and "L = leaf_at s r v"
  note fresh = fresh [folded pa_def, folded f_def] and al_pa = al_pa [folded pa_def] and po = po [folded pa_def]
  have same: "frames s1 = frames s" "active s1 = r"
    using only_alloc_same [OF s1(2)] by (simp_all add: active_def r_def)
  note view1 = spaces_frames_cong [OF same(1)]
  have R: "r \<in> R" and val1: "valid_at s1 r v" "leaf_at s1 r v = L"
    using wf(3) val by (simp_all add: r_def L_def view1)
  define e1 where "e1 = make_pte pa (e AND 0x3ff OR MMU_VALID OR MMU_D OR MMU_A)"
  define sA where "sA = write_word L w e1 s1"
  define sB where "sB = zero_frame f sA"
  define s' where "s' = write_word L w (backed_pte pa e) sB"
  have v1024: "v < 1024"
    using v by simp
  note roots = write_leaf_roots [OF s1(3) R v1024 val1(1), where w = w and e = e1, unfolded val1(2), folded sA_def]
  have dA: "sets_pte R r a e1 s1 sA"
    using sets_pte_write [OF s1(1,3) R, of a e1] v val1 by (simp add: sA_def v_def w_def)
  note dA = sets_ptesD [OF this]
  have freshA: "fresh_frame R sA f"
    using fresh by (auto simp: fresh_frame_def roots)
  note z = zero_fresh [OF dA(2) freshA, folded sB_def]
  have valB: "valid_at sB r v" "leaf_at sB r v = L"
    using val1 R by (simp_all add: z roots)
  have wfB: "wf_alloc sB" "wf_spaces R sB" "active sB = r"
    using dA(1) zero_fresh_wf [OF dA(2) freshA] same(2) by (simp_all add: sB_def sA_def)
  have dB: "sets_pte R r a (backed_pte pa e) sB s'"
    using sets_pte_write [OF wfB(1,2) R, of a] v valB by (simp add: s'_def v_def w_def)
  note dB = sets_ptesD [OF this]
  have "drop_bit 10 (l0_entry sA v w) = f"
    using same(2) roots(2) [OF R] val1(2)
    by (simp add: active_tables sA_def e1_def low_bits drop_bit_or f_def) (simp add: write_word_def drop_bit_or low_bits)
  then have zp: "zeropage va sA = (Done (Ok ()), sB)"
    by (simp add: zeropage_def va v_def w_def sB_def zero_frame_def)
  have fl: "(e AND 0x3ff) AND MMU_VALID = 0" "(e AND 0x3ff) AND MMU_S = 0" "(e AND 0x3ff) AND MMU_P = 0"
    using e by (simp_all only: flag_test bit_and_iff) simp_all
  have w1: "write_entry (vpn1 a, vpn0 a) e1 s1 = (Done (Ok ()), sA)"
    using val1 same(2) by (simp add: write_entry_eq sA_def v_def w_def)
  have w2: "write_entry (vpn1 a, vpn0 a) (backed_pte pa e) sB = (Done (Ok ()), s')"
    using valB wfB(3) by (simp add: write_entry_eq s'_def v_def w_def)
  have k1: "kmatch (entry_of va) (case_sum (\<lambda>_. fail BadAddress) ret) s
      = (Done (Ok (vpn1 a, vpn0 a)), s)"
    using val by (simp add: kmatch_def entry_of_eq va r_def v_def)
  have k2: "read_entry (vpn1 a, vpn0 a) s = (Done (Ok e), s)"
    using val by (simp add: read_entry_eq e_def r_def v_def)
  have k3: "expect (\<lambda>s. alloc_page_oomable (current_pid s) (Some va) s) s = (Done (Ok pa), s1)"
    using al by (simp add: expect_def kmatch_def pa_def)
  have "ensure_page_exists_inner a s = (Done (Ok pa), s')"
    using e(1) fl
    by (simp add: ensure_page_exists_inner_def Let_def a(1) not_le va kbind_Ok k1 k2 k3
        w1 [unfolded e1_def] zp w2 [unfolded backed_pte_def])
  moreover have "sets_pte R r a (backed_pte pa e) s s'"
  proof -
    have "same_rest s s'"
      using only_alloc_rest [OF s1(2)] dA(3) dB(3) by (simp add: sB_def same_rest_def zero_frame_def)
    moreover have "page_owner s' q = Some p" if "page_owner s q = Some p" for q p
      using that po by (auto simp: s'_def sB_def sA_def)
    ultimately show ?thesis
      unfolding sets_pte_def using dB(1,2,4,5) dA(4,5) z(1,4) by (auto simp: view1)
  qed
  moreover have "page_owner s' = (page_owner s)(pa := Some (current_pid s))"
    using po(2) by (simp add: s'_def sB_def sA_def)
  moreover have "L \<noteq> f"
    using fresh val1 R v1024 by (auto simp: fresh_frame_def)
  then have "frames s' f = (\<lambda>_. 0)"
    by (simp add: s'_def sB_def write_word_def zero_frame_def)
  ultimately show ?thesis
    using that po(1) al_pa by (simp add: e_def r_def f_def)
qed

lemma translate_flags_reserved:
  assumes "translate_flags flags \<noteq> 0" "MemoryFlags_and flags FLAG_P \<noteq> FLAG_P"
  shows "reserved_pte (translate_flags flags)"
proof -
  have "translate_flags flags AND 0x3ff = translate_flags flags"
    by (rule bit_word_eqI) (auto simp: bit_and_iff translate_flags_bits)
  then show ?thesis
    using assms by (simp add: reserved_pte_def translate_flags_bits)
qed

text \<open>Reserving a page takes the address and no page of memory: the address is no longer
  available and not yet backed, its entry records exactly the requested rights, and the entries of
  all other pages are as before. Taking the reservation back makes it available again.\<close>

theorem reserve_unreserve_round_trip:
  assumes "wf_alloc s" and "wf_spaces R s" and "active s \<in> R" and "is_allocated (satp s)"
    and "va < USER_AREA_END" and "address_available va s"
    and "translate_flags flags \<noteq> 0" and "MemoryFlags_and flags FLAG_P \<noteq> FLAG_P"
    and "valid_at s (active s) (vpn1 va) \<or> None \<in> set (owners s)"
  shows "\<exists>s1 s2. reserve_address va flags s = (Done (Ok ()), s1)
    \<and> virt_to_phys va s1 = Err MemoryInUse \<and> \<not> address_available va s1
    \<and> pte_at s1 (active s1) va = translate_flags flags \<and> reserved_pte (translate_flags flags)
    \<and> unreserve_address va s1 = (Done (Ok ()), s2) \<and> address_available va s2
    \<and> (\<forall>r \<in> R. \<forall>va'. vpn1 va' \<noteq> 1021 \<longrightarrow> pte_at s2 r va' = pte_at s r va' \<and>
         (\<not> (r = active s \<and> same_page va' va) \<longrightarrow> pte_at s1 r va' = pte_at s r va'))"
proof -
  let ?r = "active s" and ?e = "translate_flags flags"
  have va: "vpn1 va < 1021" "vpn1 va \<noteq> 1021"
    using user_vpn1 [OF assms(5)] by simp_all
  have e: "pte_at s ?r va = 0"
    using assms(6) by (simp add: address_available_eq)
  then have "\<not> bit (pte_at s ?r va) 0"
    by simp
  from reserve_ok [OF assms(1-4) va(1) this assms(9)] obtain s1 where
    run: "reserve_address va flags s = (Done (Ok ()), s1)" and d: "sets_pte R ?r va ?e s s1"
    by blast
  note d1 = sets_ptesD [OF d]
  have r1: "active s1 = ?r" "active s1 \<in> R"
    using d1(3) assms(3) by (simp_all add: same_rest_def active_def)
  have p1: "pte_at s1 (active s1) va = ?e" and v1: "valid_at s1 (active s1) (vpn1 va)"
    using d1(4) [OF r1(2) va(2)] d1(5) [OF r1(2)] r1(1) by simp_all
  have res: "reserved_pte ?e" "\<not> bit ?e 0" "\<not> bit ?e 8"
    using translate_flags_reserved [OF assms(7,8)] by (simp_all add: reserved_pte_def)
  note d2 = sets_ptesD [OF sets_pte_write [OF d1(1,2) r1(2) va(1) v1, of 0]]
  let ?s2 = "write_word (leaf_at s1 (active s1) (vpn1 va)) (vpn0 va) 0 s1"
  have "pte_at ?s2 r va' = pte_at s r va' \<and>
      (\<not> (r = ?r \<and> same_page va' va) \<longrightarrow> pte_at s1 r va' = pte_at s r va')"
    if "r \<in> R" "vpn1 va' \<noteq> 1021" for r va'
    using d2(4) [OF that] d1(4) [OF that] r1(1) e by (auto simp: same_page_def pte_at_def)
  moreover have "unreserve_address va s1 = (Done (Ok ()), ?s2)" "address_available va ?s2"
    using unreserve_run [OF v1] p1 res(2) d2(4) [OF r1(2) va(2)] by (simp_all add: address_available_eq)
  moreover have "virt_to_phys va s1 = Err MemoryInUse" "\<not> address_available va s1"
    using res(2,3) assms(7) p1 by (simp_all add: virt_to_phys_eq translation_def address_available_eq)
  ultimately show ?thesis
    using run p1 res(1) by blast
qed

theorem reserve_unreserve_round_trip_witness:
  "\<exists>s1. reserve_address 0x60003000 RW_flags demo_spaces = (Done (Ok ()), s1)
      \<and> virt_to_phys 0x60003000 s1 = Err MemoryInUse"
proof -
  have "translate_flags RW_flags = 6" "MemoryFlags_and RW_flags FLAG_P \<noteq> FLAG_P"
    by (simp_all add: translate_flags_def RW_flags_def MemoryFlags_and_def MemoryFlags_or_def FLAG_R_def FLAG_W_def FLAG_X_def FLAG_P_def
        MMU_R_def MMU_W_def)
  then show ?thesis
    using reserve_unreserve_round_trip [OF wf_demo_spaces_alloc wf_demo_spaces, of "0x60003000" RW_flags]
    by (auto simp: demo_satp demo_R_def address_available_eq demo_pte demo_vpn demo_owners
        USER_AREA_END_def is_allocated_def get_pid_def nonzero_def)
qed

text \<open>C12. Demand paging. The first access to a reserved page gives the process a page of
  memory that belonged to nobody, filled with zeros and mapped with exactly the rights that were
  reserved; no other page of any address space changes.\<close>

theorem reserved_page_on_demand:
  assumes "wf_alloc s" and "wf_spaces R s" and "active s \<in> R" and "current_pid s \<noteq> 0"
    and "a < USER_AREA_END" and "reserved_pte (pte_at s (active s) a)" and "None \<in> set (owners s)"
  shows "\<exists>pa s'. ensure_page_exists_inner a s = (Done (Ok pa), s')
    \<and> page_owner s pa = None \<and> page_owner s' = (page_owner s)(pa := Some (current_pid s))
    \<and> (\<forall>i. frames s' (drop_bit 12 pa) i = 0)
    \<and> virt_to_phys a s' = Ok pa
    \<and> (\<forall>n \<in> {1, 2, 3}. bit (pte_at s' (active s) a) n = bit (pte_at s (active s) a) n)
    \<and> wf_alloc s' \<and> wf_spaces R s'
    \<and> (\<forall>r \<in> R. \<forall>va. vpn1 va \<noteq> 1021 \<longrightarrow> \<not> (r = active s \<and> same_page va a) \<longrightarrow>
         pte_at s' r va = pte_at s r va)"
proof -
  let ?r = "active s" and ?e = "pte_at s (active s) a"
  from ensure_ok [OF assms] obtain pa s' where
    run: "ensure_page_exists_inner a s = (Done (Ok pa), s')"
    and d: "sets_pte R ?r a (backed_pte pa ?e) s s'" and own: "page_owner s pa = None"
      "page_owner s' = (page_owner s)(pa := Some (current_pid s))"
    and pa: "pa AND 0xfff = 0" "frames s' (drop_bit 12 pa) = (\<lambda>_. 0)"
    by blast
  note d = sets_ptesD [OF d]
  have a: "vpn1 a \<noteq> 1021"
    using user_vpn1 [OF assms(5)] by simp
  have act: "active s' = ?r"
    using d(3) by (simp add: same_rest_def active_def)
  have p: "pte_at s' ?r a = backed_pte pa ?e"
    using d(4) [OF assms(3) a] by simp
  note b = backed_pte_props [OF pa(1), where e = ?e]
  have "virt_to_phys a s' = Ok pa"
    using assms(6) b p act by (simp add: virt_to_phys_eq translation_def reserved_pte_def)
  moreover have "\<forall>n \<in> {1, 2, 3}. bit (pte_at s' ?r a) n = bit ?e n"
    using b(2) by (simp add: p)
  moreover have "pte_at s' r va = pte_at s r va"
    if "r \<in> R" "vpn1 va \<noteq> 1021" "\<not> (r = ?r \<and> same_page va a)" for r va
    using d(4) [OF that(1,2)] that(3) by (auto simp: same_page_def)
  ultimately show ?thesis
    using run own pa(2) d(1,2) by (intro exI [of _ pa] exI [of _ s']) simp
qed

theorem reserved_page_on_demand_witness:
  "\<exists>pa s'. ensure_page_exists_inner 0x60005123 demo_spaces = (Done (Ok pa), s')
      \<and> page_owner s' pa = Some 3 \<and> virt_to_phys 0x60005123 s' = Ok pa"
proof -
  have "vpn1 0x60005123 = 384" "vpn0 0x60005123 = 5"
    by (simp_all add: vpn1_def vpn0_def)
  then have "pte_at demo_spaces 0x61000 0x60005123 = 6"
    using demo_pte(3) by (simp add: pte_at_def demo_vpn split: if_splits)
  moreover have "reserved_pte 6"
    by (simp add: reserved_pte_def)
  moreover have "current_pid demo_spaces = 3"
    by (simp add: demo_spaces_def demo_mem_def)
  ultimately show ?thesis
    using reserved_page_on_demand [OF wf_demo_spaces_alloc wf_demo_spaces, of "0x60005123"]
    by (auto simp: demo_satp demo_R_def demo_owners USER_AREA_END_def)
qed

section \<open>Changing the rights of a page\<close>

definition wanted :: "MemoryFlags \<Rightarrow> nat \<Rightarrow> bool" where
  "wanted flags n =
     (if n = 1 then \<not> MemoryFlags_is_empty (MemoryFlags_and flags FLAG_R)
      else if n = 2 then \<not> MemoryFlags_is_empty (MemoryFlags_and flags FLAG_W)
      else if n = 3 then \<not> MemoryFlags_is_empty (MemoryFlags_and flags FLAG_X)
      else True)"

lemma none_wanted:
  "MemoryFlags_is_empty (MemoryFlags_and flags (MemoryFlags_or FLAG_R (MemoryFlags_or FLAG_W FLAG_X)))
     = (\<not> wanted flags 1 \<and> \<not> wanted flags 2 \<and> \<not> wanted flags 3)"
  by (simp add: MemoryFlags_is_empty_def MemoryFlags_and_def MemoryFlags_or_def wanted_def
      bit.conj_disj_distrib or_eq_0_iff)

text \<open>The entry without the rights that are no longer wanted.\<close>

definition stripped :: "MemoryFlags \<Rightarrow> usize \<Rightarrow> usize" where
  "stripped flags e =
     e AND NOT ((if wanted flags 3 then 0 else MMU_X) OR (if wanted flags 1 then 0 else MMU_R)
                OR (if wanted flags 2 then 0 else MMU_W))"

lemma bit_stripped: "bit (stripped flags e) n = (bit e n \<and> wanted flags n)"
  using bit_imp_le_length [of e n]
  by (auto simp: stripped_def bit_and_iff bit_or_iff bit_not_iff bit_mmu_flags wanted_def)

lemma strip_flag_eq:
  assumes "\<And>n. bit mmu n = (n = k)" "wanted flags k = (\<not> MemoryFlags_is_empty (MemoryFlags_and flags fl))"
  shows "strip_flag flags fl mmu e =
    (if wanted flags k \<and> \<not> bit e k then Err ShareViolation
     else Ok (e AND NOT (if wanted flags k then 0 else mmu)))"
proof -
  have m: "(e AND mmu = 0) = (\<not> bit e k)"
    using assms(1) by (rule single_bit_test)
  have "e AND NOT mmu = e" if "\<not> bit e k"
    using that by (intro bit_word_eqI) (auto simp: bit_and_iff bit_not_iff assms(1))
  then show ?thesis
    using assms(2) by (simp add: strip_flag_def m)
qed

definition has_wanted :: "MemoryFlags \<Rightarrow> usize \<Rightarrow> bool" where
  "has_wanted flags e = (\<forall>n \<in> {1, 2, 3}. wanted flags n \<longrightarrow> bit e n)"

lemma strip_chain:
  "bind_outcome (strip_flag flags FLAG_X MMU_X e) (\<lambda>e.
     bind_outcome (strip_flag flags FLAG_R MMU_R e) (strip_flag flags FLAG_W MMU_W)) =
   (if has_wanted flags e then Ok (stripped flags e) else Err ShareViolation)"
proof -
  note eqs = strip_flag_eq [OF bit_mmu_flags(4), of flags FLAG_X] strip_flag_eq [OF bit_mmu_flags(2), of flags FLAG_R]
    strip_flag_eq [OF bit_mmu_flags(3), of flags FLAG_W]
  have w: "wanted flags 3 = (\<not> MemoryFlags_is_empty (MemoryFlags_and flags FLAG_X))"
    "wanted flags 1 = (\<not> MemoryFlags_is_empty (MemoryFlags_and flags FLAG_R))"
    "wanted flags 2 = (\<not> MemoryFlags_is_empty (MemoryFlags_and flags FLAG_W))"
    by (simp_all add: wanted_def)
  show ?thesis
    by (auto simp: eqs(1) [OF w(1)] eqs(2) [OF w(2)] eqs(3) [OF w(3)] has_wanted_def stripped_def
        bit.de_Morgan_disj and.assoc bit_and_iff bit_not_iff bit_mmu_flags)
qed

lemma update_page_flags_eq:
  "update_page_flags va flags s =
     (let e = pte_at s (active s) va
      in if \<not> wanted flags 1 \<and> \<not> wanted flags 2 \<and> \<not> wanted flags 3 then (Done (Err MemoryInUse), s)
         else if \<not> valid_at s (active s) (vpn1 va) then (Done (Err OutOfMemory), s)
         else if bit e 8 \<or> \<not> has_wanted flags e then (Done (Err ShareViolation), s)
         else (Done (Ok ()), write_word (leaf_at s (active s) (vpn1 va)) (vpn0 va) (stripped flags e) s))"
proof (cases "valid_at s (active s) (vpn1 va)")
  case True
  then have le: "l0_entry s (vpn1 va) (vpn0 va) = pte_at s (active s) va" "has_leaf s (vpn1 va)"
    by (simp_all add: active_tables pte_at_def)
  have set: "set_l0 (vpn1 va) (vpn0 va) e s =
      (Done (Ok ()), write_word (leaf_at s (active s) (vpn1 va)) (vpn0 va) e s)" for e
    by (simp add: set_l0_def active_tables)
  show ?thesis
    unfolding update_page_flags_def none_wanted le(1) flag_test strip_chain
    using True le(2) by (simp add: Let_def kbind_def set)
next
  case False
  then show ?thesis
    unfolding update_page_flags_def none_wanted by (simp add: active_tables Let_def)
qed

text \<open>Changing the rights of a page only takes rights away: on success every right of the
  page is one that it had and that is still wanted, every wanted right was there before, and nothing
  else changes; on every error nothing changes at all.\<close>

theorem update_flags_only_removes:
  assumes "wf_alloc s" and "wf_spaces R s" and "active s \<in> R" and "va < USER_AREA_END"
  shows "case update_page_flags va flags s of
      (Done (Ok _), s') \<Rightarrow>
        (\<forall>n. bit (pte_at s' (active s) va) n = (bit (pte_at s (active s) va) n \<and> wanted flags n))
        \<and> (\<forall>n \<in> {1, 2, 3}. wanted flags n \<longrightarrow> bit (pte_at s (active s) va) n)
        \<and> (\<exists>n \<in> {1, 2, 3}. bit (pte_at s' (active s) va) n)
        \<and> (\<forall>r \<in> R. \<forall>va'. vpn1 va' \<noteq> 1021 \<longrightarrow> \<not> (r = active s \<and> same_page va' va) \<longrightarrow>
             pte_at s' r va' = pte_at s r va')
        \<and> wf_alloc s' \<and> wf_spaces R s'
    | (Done (Err e), s') \<Rightarrow> s' = s \<and> e \<in> {MemoryInUse, OutOfMemory, ShareViolation}
    | _ \<Rightarrow> False"
proof (cases "(wanted flags 1 \<or> wanted flags 2 \<or> wanted flags 3) \<and> valid_at s (active s) (vpn1 va)
    \<and> \<not> bit (pte_at s (active s) va) 8 \<and> has_wanted flags (pte_at s (active s) va)")
  case True
  let ?e = "pte_at s (active s) va"
  have va: "vpn1 va < 1021" "vpn1 va \<noteq> 1021"
    using user_vpn1 [OF assms(4)] by simp_all
  note d = sets_ptesD [OF sets_pte_write [OF assms(1-3) va(1), of "stripped flags ?e"]]
  have "\<exists>n \<in> {1, 2, 3}. bit (stripped flags ?e) n"
    using True by (auto simp: bit_stripped has_wanted_def)
  then show ?thesis
    using True d(1,2,4) assms(3) va(2)
    by (simp add: update_page_flags_eq Let_def bit_stripped has_wanted_def same_page_def)
next
  case False
  then show ?thesis
    by (auto simp: update_page_flags_eq Let_def)
qed

theorem update_flags_only_removes_witness:
  "\<exists>s'. update_page_flags 0x60001000 FLAG_R demo_spaces = (Done (Ok ()), s')
      \<and> bit (pte_at s' 0x61000 0x60001000) 1 \<and> \<not> bit (pte_at s' 0x61000 0x60001000) 2"
proof -
  have "l0_entry demo_spaces 384 1 = 0x184020d7" "has_leaf demo_spaces 384"
    using demo_pte(1) by (simp_all add: active_tables demo_satp demo_valid pte_at_def demo_vpn)
  then obtain s' where run: "update_page_flags 0x60001000 FLAG_R demo_spaces = (Done (Ok ()), s')"
    by (simp add: update_page_flags_def demo_vpn strip_flag_def MemoryFlags_is_empty_def
        MemoryFlags_and_def MemoryFlags_or_def FLAG_R_def FLAG_W_def FLAG_X_def MMU_R_def MMU_W_def
        MMU_X_def MMU_S_def kbind_def set_l0_def)
  have "wanted FLAG_R 1" "\<not> wanted FLAG_R 2"
    by (simp_all add: wanted_def MemoryFlags_is_empty_def MemoryFlags_and_def FLAG_R_def FLAG_W_def)
  then show ?thesis
    using update_flags_only_removes [OF wf_demo_spaces_alloc wf_demo_spaces, of "0x60001000" FLAG_R] run
    by (auto simp: demo_satp demo_R_def USER_AREA_END_def)
qed

end
