(* ===== verification/Mem_Range_Props.thy ===== *)
theory Mem_Range_Props
  imports Mem_Syscalls Page_Mapping
begin

text \<open>
  The operations of the memory manager on ranges (kernel/src/mem.rs) and the memory system calls: the loops
  that undo their work on an error do so completely, changing rights is all or
  nothing, and the cases in which this is not so: a heap whose size stays increased, a region
  whose end wraps around, pages that stay claimed, and the loan that another thread of the lender can break.
\<close>

section \<open>Loops\<close>

lemma kfor_steps:
  assumes "\<And>ds p rest s1. ps = ds @ p # rest \<Longrightarrow> J ds s1 \<Longrightarrow>
      \<exists>s2. f p s1 = (Done (Ok ()), s2) \<and> J (ds @ [p]) s2"
    and "J [] s"
  shows "\<exists>s'. kfor ps f s = (Done (Ok ()), s') \<and> J ps s'"
proof -
  have "\<exists>s'. kfor rest f s1 = (Done (Ok ()), s') \<and> J ps s'" if "ps = ds @ rest" "J ds s1" for ds rest s1
    using that
  proof (induction rest arbitrary: ds s1)
    case Nil
    then show ?case by simp
  next
    case (Cons p rest)
    from assms(1) [OF Cons.prems] obtain s2 where s2: "f p s1 = (Done (Ok ()), s2)" "J (ds @ [p]) s2"
      by blast
    from Cons.IH [OF _ s2(2)] Cons.prems(1) show ?case
      by (simp add: kbind_Ok s2(1))
  qed
  then show ?thesis
    using assms(2) by (metis append_Nil)
qed

text \<open>The three ways a loop with roll-back ends.\<close>

lemma kfor_undo_steps:
  assumes step: "\<And>ds p rest s1. ps = ds @ p # rest \<Longrightarrow> J ds s1 \<Longrightarrow>
      (\<exists>s2. f p s1 = (Done (Ok ()), s2) \<and> J (ds @ [p]) s2)
      \<or> (\<exists>e s2. f p s1 = (Done (Err e), s2) \<and> J ds s2 \<and> E e)
      \<or> (\<exists>args s2. f p s1 = (Swapper args, s2) \<and> W args s2)"
    and start: "J [] s"
    and undone: "\<And>ds rest s1. ps = ds @ rest \<Longrightarrow> J ds s1 \<Longrightarrow>
      \<exists>s2. kfor ds undo s1 = (Done (Ok ()), s2) \<and> U s2"
  shows "(\<exists>s'. kfor_undo f undo [] ps s = (Done (Ok ()), s') \<and> J ps s')
      \<or> (\<exists>e s'. kfor_undo f undo [] ps s = (Done (Err e), s') \<and> U s' \<and> E e)
      \<or> (\<exists>args s'. kfor_undo f undo [] ps s = (Swapper args, s') \<and> W args s')"
proof -
  have "(\<exists>s'. kfor_undo f undo ds rest s1 = (Done (Ok ()), s') \<and> J ps s')
      \<or> (\<exists>e s'. kfor_undo f undo ds rest s1 = (Done (Err e), s') \<and> U s' \<and> E e)
      \<or> (\<exists>args s'. kfor_undo f undo ds rest s1 = (Swapper args, s') \<and> W args s')"
    if "ps = ds @ rest" "J ds s1" for ds rest s1
    using that
  proof (induction rest arbitrary: ds s1)
    case Nil
    then show ?case by simp
  next
    case (Cons p rest)
    from step [OF Cons.prems] consider
        (ok) s2 where "f p s1 = (Done (Ok ()), s2)" "J (ds @ [p]) s2"
      | (err) e s2 where "f p s1 = (Done (Err e), s2)" "J ds s2" "E e"
      | (swap) args s2 where "f p s1 = (Swapper args, s2)" "W args s2"
      by blast
    then show ?case
    proof cases
      case ok
      then show ?thesis
        using Cons.IH [of "ds @ [p]" s2] Cons.prems(1) by (simp add: kmatch_def)
    next
      case err
      then obtain s3 where "kfor ds undo s2 = (Done (Ok ()), s3)" "U s3"
        using undone [OF Cons.prems(1)] by blast
      with err show ?thesis
        by (simp add: kmatch_def kbind_Ok)
    next
      case swap
      then show ?thesis
        by (simp add: kmatch_def)
    qed
  qed
  then show ?thesis
    using start by (metis append_Nil)
qed

section \<open>Ranges of pages\<close>

lemma range_step:
  assumes "i < (unat b - unat a + 4095) div 4096"
  shows "unat (a + of_nat (i * 4096) :: usize) = unat a + i * 4096" "unat a + i * 4096 < unat (b :: usize)"
proof -
  show lt: "unat a + i * 4096 < unat b"
    using assms by linarith
  moreover have "unat b < 2 ^ 32"
    using unsigned_less [of b, where 'a = nat] by simp
  ultimately have "unat a + i * 4096 < 2 ^ 32"
    by (rule order_less_trans)
  moreover from this have "unat (of_nat (i * 4096) :: usize) = i * 4096"
    by (simp only: unsigned_of_nat) (simp add: take_bit_nat_eq_self)
  ultimately show "unat (a + of_nat (i * 4096) :: usize) = unat a + i * 4096"
    by (simp only: unat_word_ariths) simp
qed

lemma page_range_mem:
  assumes "p \<in> set (page_range a b)"
  shows "unat a \<le> unat p" "unat p < unat b" "a AND 0xfff = 0 \<Longrightarrow> p AND 0xfff = 0"
proof -
  obtain i where i': "p = a + of_nat (i * 4096)" "i \<in> {0..<(unat b - unat a + 4095) div 4096}"
    using assms unfolding page_range_def set_map set_upt by (rule imageE)
  then have i: "i < (unat b - unat a + 4095) div 4096" "p = a + of_nat (i * 4096)"
    by (simp_all only: atLeastLessThan_iff)
  have u: "unat p = unat a + i * 4096" "unat a + i * 4096 < unat b"
    using range_step [OF i(1)] i(2) by simp_all
  then show "unat a \<le> unat p" "unat p < unat b"
    by simp_all
  show "a AND 0xfff = 0 \<Longrightarrow> p AND 0xfff = 0"
    using u(1) by (simp add: page_aligned_iff)
qed

lemma distinct_page_range: "distinct (page_range a b)"
proof -
  have "inj_on (\<lambda>i. a + of_nat (i * 4096)) {0..<(unat b - unat a + 4095) div 4096}"
  proof (rule inj_onI)
    fix i j assume "i \<in> {0..<(unat b - unat a + 4095) div 4096}" "j \<in> {0..<(unat b - unat a + 4095) div 4096}"
      and e: "a + of_nat (i * 4096) = a + of_nat (j * 4096)"
    then have "unat a + i * 4096 = unat a + j * 4096"
      using range_step(1) [of i b a] range_step(1) [of j b a] by (simp only: atLeastLessThan_iff)
    then show "i = j"
      by simp
  qed
  then show ?thesis
    by (simp only: page_range_def distinct_map distinct_upt set_upt)
qed

lemma single_page_range:
  assumes "unat va + 4096 < 2 ^ 32"
  shows "page_range va (va + PAGE_SIZE) = [va]"
proof -
  have "unat (va + PAGE_SIZE) = unat va + 4096"
    using assms by (simp add: PAGE_SIZE_def unat_word_ariths)
  then show ?thesis
    by (simp add: page_range_def)
qed

lemma RW_translated: "translate_flags RW_flags = 6"
  by (simp add: translate_flags_def RW_flags_def MemoryFlags_and_def MemoryFlags_or_def FLAG_R_def FLAG_W_def
      FLAG_X_def FLAG_P_def MMU_R_def MMU_W_def)

lemma same_page_aligned:
  "p AND 0xfff = 0 \<Longrightarrow> q AND 0xfff = 0 \<Longrightarrow> same_page p q = (p = q)"
  using page_unique by (auto simp: same_page_def)

text \<open>The pages of a range in user space.\<close>

definition user_pages :: "usize list \<Rightarrow> bool" where
  "user_pages ps = (distinct ps \<and> (\<forall>p \<in> set ps. p AND 0xfff = 0 \<and> p < USER_AREA_END))"

lemma user_pages_range:
  assumes "a AND 0xfff = 0" "b \<le> USER_AREA_END"
  shows "user_pages (page_range a b)"
  using page_range_mem [of _ a b] assms distinct_page_range [of a b]
  by (fastforce simp: user_pages_def word_less_nat_alt word_le_nat_alt)

lemma user_pages_split:
  assumes "user_pages (ps @ p # qs)"
  shows "p AND 0xfff = 0" "p < USER_AREA_END" "vpn1 p < 1021" "vpn1 p \<noteq> 1021"
    "q \<in> set ps \<Longrightarrow> \<not> same_page p q"
  using assms user_vpn1 [of p] same_page_aligned [of p q] by (auto simp: user_pages_def)

text \<open>\<open>pages_set R r ps g s s'\<close>: the entries of the pages \<open>ps\<close> of space \<open>r\<close> are given by \<open>g\<close>, all others
  are as in \<open>s\<close>.\<close>

definition in_pages :: "usize list \<Rightarrow> usize \<Rightarrow> bool" where
  "in_pages ps va = (\<exists>p \<in> set ps. same_page va p)"

definition pages_set ::
  "usize set \<Rightarrow> usize \<Rightarrow> usize list \<Rightarrow> (usize \<Rightarrow> usize) \<Rightarrow> 'z Mem_scheme \<Rightarrow> 'z Mem_scheme \<Rightarrow> bool" where
  "pages_set R r ps g s s' =
     (wf_alloc s' \<and> wf_spaces R s' \<and> same_rest s s' \<and> keeps_owners s s'
      \<and> ptes_are R (\<lambda>r' va. if r' = r \<and> in_pages ps va then g va else pte_at s r' va) s')"

lemma pages_set_Nil: "wf_alloc s \<Longrightarrow> wf_spaces R s \<Longrightarrow> pages_set R r [] g s s"
  by (simp add: pages_set_def keeps_owners_def ptes_are_def in_pages_def)

lemma pages_set_pte:
  assumes "pages_set R r ps g s s'" "r' \<in> R" "vpn1 va \<noteq> 1021"
  shows "pte_at s' r' va = (if r' = r \<and> in_pages ps va then g va else pte_at s r' va)"
  using assms by (simp add: pages_set_def ptes_are_def)

lemma pages_set_step:
  assumes "pages_set R r ps g s s1" "sets_pte R r p (g' p) s1 s2"
    and "\<And>va. same_page va p \<Longrightarrow> g' va = g' p"
    and "\<And>va. in_pages ps va \<Longrightarrow> \<not> same_page va p \<Longrightarrow> g' va = g va"
  shows "pages_set R r (ps @ [p]) g' s s2"
proof -
  note d = sets_ptesD [OF assms(2)]
  have "pte_at s2 r' va = (if r' = r \<and> in_pages (ps @ [p]) va then g' va else pte_at s r' va)"
    if "r' \<in> R" "vpn1 va \<noteq> 1021" for r' va
    using d(4) [OF that] pages_set_pte [OF assms(1) that] assms(3,4) [of va]
    by (auto simp: in_pages_def same_page_def [of va p])
  moreover have "same_rest s s2" "keeps_owners s s2"
    using assms(1) d(3,6) by (auto simp: pages_set_def keeps_owners_def intro: same_rest_trans)
  ultimately show ?thesis
    using d(1,2) by (simp add: pages_set_def ptes_are_def)
qed

section \<open>Rights of a range\<close>

lemma flag_bits:
  "bit (bits FLAG_R) n = (n = 1)" "bit (bits FLAG_W) n = (n = 2)" "bit (bits FLAG_X) n = (n = 3)"
  using bit_mmu_flags [of n]
  by (simp_all add: FLAG_R_def FLAG_W_def FLAG_X_def MMU_R_def MMU_W_def MMU_X_def)

lemma wanted_bit: "n \<in> {1, 2, 3} \<Longrightarrow> wanted flags n = bit (bits flags) n"
  using single_bit_test [OF flag_bits(1), of "bits flags"] single_bit_test [OF flag_bits(2), of "bits flags"]
    single_bit_test [OF flag_bits(3), of "bits flags"]
  by (auto simp: wanted_def MemoryFlags_is_empty_def MemoryFlags_and_def)

definition grants :: "MemoryFlags \<Rightarrow> usize \<Rightarrow> bool" where
  "grants flags e =
     (\<not> bit e 8 \<and> (\<exists>n \<in> {1, 2, 3}. bit e n) \<and> \<not> bit (bits flags) 0 \<and> has_wanted flags e)"

lemma word_zero_iff: "((w :: usize) = 0) = (\<forall>n. \<not> bit w n)"
  by (auto intro: bit_word_eqI)

lemma adds_nothing:
  assumes "\<And>n. bit (bits fl) n = (n \<in> {1, 2, 3} \<and> bit e n)"
  shows "MemoryFlags_is_empty (MemoryFlags_and (MemoryFlags_not fl) flags)
     = (\<not> bit (bits flags) 0 \<and> has_wanted flags e)"
proof -
  have mask: "(15 :: usize) = mask 4"
    by (simp add: mask_eq_exp_minus_1)
  have "((NOT (bits fl) AND mask 4) AND bits flags = 0)
      = (\<forall>n. n < 4 \<longrightarrow> bit (bits flags) n \<longrightarrow> bit (bits fl) n)"
    by (auto simp: word_zero_iff bit_and_iff bit_not_iff bit_mask_iff)
  also have "\<dots> = (\<not> bit (bits flags) 0 \<and> (\<forall>n \<in> {1, 2, 3}. bit (bits flags) n \<longrightarrow> bit e n))"
    unfolding assms by (auto simp: less_Suc_eq numeral_eq_Suc)
  also have "(\<forall>n \<in> {1, 2, 3}. bit (bits flags) n \<longrightarrow> bit e n) = has_wanted flags e"
    by (simp add: has_wanted_def wanted_bit)
  finally show ?thesis
    unfolding MemoryFlags_is_empty_def MemoryFlags_and_def MemoryFlags_not_def mask by simp
qed

definition rights :: "usize \<Rightarrow> MemoryFlags" where
  "rights e = MemoryFlags_or (if e AND MMU_R \<noteq> 0 then FLAG_R else FLAG_FREE)
             (MemoryFlags_or (if e AND MMU_W \<noteq> 0 then FLAG_W else FLAG_FREE)
                             (if e AND MMU_X \<noteq> 0 then FLAG_X else FLAG_FREE))"

lemma bit_rights: "bit (bits (rights e)) n = (n \<in> {1, 2, 3} \<and> bit e n)"
  by (auto simp: rights_def MemoryFlags_or_def FLAG_FREE_def bit_or_iff flag_bits flag_test)

lemma rights_empty: "MemoryFlags_is_empty (rights e) = (\<not> (\<exists>n \<in> {1, 2, 3}. bit e n))"
  by (auto simp: MemoryFlags_is_empty_def word_zero_iff bit_rights)

lemma page_flags_eq:
  "page_flags va s =
     (let e = pte_at s (active s) va
      in if bit e 8 \<or> MemoryFlags_is_empty (rights e) then None else Some (rights e))"
proof (cases "valid_at s (active s) (vpn1 va)")
  case True
  then show ?thesis
    unfolding page_flags_def rights_def [symmetric] by (simp add: Let_def active_tables flag_test pte_at_def)
next
  case False
  then show ?thesis
    by (simp add: page_flags_def Let_def active_tables pte_at_def rights_empty)
qed

lemma check_flags_eq:
  "check_flags flags va s =
     (Done (if grants flags (pte_at s (active s) va) then Ok () else Err MemoryInUse), s)"
  using adds_nothing [OF bit_rights, of "pte_at s (active s) va" flags]
  by (simp add: check_flags_def page_flags_eq Let_def grants_def rights_empty)

text \<open>The pre-check decides: when all pages of the range grant the rights, the second loop succeeds on all
  of them, because no page is touched before its turn.\<close>

lemma check_loop:
  "kfor ps (check_flags flags) s =
     (Done (if \<forall>p \<in> set ps. grants flags (pte_at s (active s) p) then Ok () else Err MemoryInUse), s)"
  by (induction ps) (simp_all add: kbind_def check_flags_eq)

lemma update_loop:
  assumes wf: "wf_alloc s" "wf_spaces R s" "active s \<in> R" and ps: "user_pages ps"
    and ok: "\<forall>p \<in> set ps. grants flags (pte_at s (active s) p)"
    and some: "wanted flags 1 \<or> wanted flags 2 \<or> wanted flags 3"
  shows "\<exists>s'. kfor ps (\<lambda>v. kthen (check_flags flags v) (update_page_flags v flags)) s = (Done (Ok ()), s')
      \<and> pages_set R (active s) ps (\<lambda>va. stripped flags (pte_at s (active s) va)) s s'"
proof (rule kfor_steps)
  let ?r = "active s" and ?g = "\<lambda>va. stripped flags (pte_at s (active s) va)"
  show "pages_set R ?r [] ?g s s"
    by (rule pages_set_Nil [OF wf(1,2)])
  fix ds p rest s1
  assume split: "ps = ds @ p # rest" and J: "pages_set R ?r ds ?g s s1"
  note p = user_pages_split [OF ps [unfolded split]]
  have a1: "active s1 = ?r" "wf_alloc s1" "wf_spaces R s1"
    using J by (simp_all add: pages_set_def same_rest_def active_def)
  have e: "pte_at s1 ?r p = pte_at s ?r p"
    using pages_set_pte [OF J wf(3) p(4)] p(5) by (auto simp: in_pages_def)
  have g: "grants flags (pte_at s ?r p)"
    using ok split by simp
  then have val: "valid_at s1 ?r (vpn1 p)"
    using e bit_nonzero pte_valid_leaf by (metis grants_def)
  let ?s2 = "write_word (leaf_at s1 ?r (vpn1 p)) (vpn0 p) (stripped flags (pte_at s ?r p)) s1"
  have "kbind (check_flags flags p) (\<lambda>_. update_page_flags p flags) s1 = (Done (Ok ()), ?s2)"
    using g val some
    by (simp add: kbind_def check_flags_eq update_page_flags_eq Let_def a1(1) e grants_def)
  moreover have "sets_pte R ?r p (?g p) s1 ?s2"
    by (rule sets_pte_write [OF a1(2,3) wf(3) p(3) val])
  then have "pages_set R ?r (ds @ [p]) ?g s ?s2"
    by (rule pages_set_step [OF J]) (auto simp: same_page_def pte_at_def)
  ultimately show "\<exists>s2. kbind (check_flags flags p) (\<lambda>_. update_page_flags p flags) s1 = (Done (Ok ()), s2)
      \<and> pages_set R ?r (ds @ [p]) ?g s s2"
    by blast
qed

lemma update_loop_nothing_wanted:
  assumes "\<not> wanted flags 1 \<and> \<not> wanted flags 2 \<and> \<not> wanted flags 3"
    "\<forall>p \<in> set ps. grants flags (pte_at s (active s) p)"
  shows "kfor ps (\<lambda>v. kthen (check_flags flags v) (update_page_flags v flags)) s =
    (Done (if ps = [] then Ok () else Err MemoryInUse), s)"
  using assms by (cases ps) (simp_all add: kbind_def check_flags_eq update_page_flags_eq)

lemma range_pages:
  assumes "unat (addr rng) + unat (rsize rng) \<le> unat USER_AREA_END" "addr rng AND 0xfff = 0"
  shows "user_pages (page_range (addr rng) (addr rng + rsize rng))"
proof (rule user_pages_range [OF assms(2)])
  show "addr rng + rsize rng \<le> USER_AREA_END"
    using assms(1) by (simp add: word_le_nat_alt unat_word_ariths USER_AREA_END_def)
qed

text \<open>C29. Changing the rights of a range of pages is all or nothing: either every page of the range had all
  the wanted rights and loses exactly the other ones, and no other page of any address space changes, or
  the call fails and nothing changes.\<close>

theorem update_memory_flags_atomic:
  assumes "wf_alloc s" and "wf_spaces R s" and "active s \<in> R"
    and "unat (addr rng) + unat (rsize rng) \<le> unat USER_AREA_END"
  defines "ps \<equiv> page_range (addr rng) (addr rng + rsize rng)"
  shows "case update_memory_flags rng flags s of
      (Done (Ok _), s') \<Rightarrow>
        (\<forall>p \<in> set ps. has_wanted flags (pte_at s (active s) p))
        \<and> (\<forall>r \<in> R. \<forall>va. vpn1 va \<noteq> 1021 \<longrightarrow> pte_at s' r va =
              (if r = active s \<and> in_pages ps va then stripped flags (pte_at s r va) else pte_at s r va))
    | (Done (Err e), s') \<Rightarrow> s' = s
    | _ \<Rightarrow> False"
proof -
  have m: "PAGE_SIZE - 1 = 0xfff"
    by (simp add: PAGE_SIZE_def)
  let ?update = "kfor ps (\<lambda>v. kthen (check_flags flags v) (update_page_flags v flags))"
  consider (bad) "addr rng AND 0xfff \<noteq> 0 \<or> rsize rng AND 0xfff \<noteq> 0"
    | (refused) "addr rng AND 0xfff = 0" "rsize rng AND 0xfff = 0"
        "\<not> (\<forall>p \<in> set ps. grants flags (pte_at s (active s) p))"
    | (ok) "addr rng AND 0xfff = 0" "rsize rng AND 0xfff = 0"
        "\<forall>p \<in> set ps. grants flags (pte_at s (active s) p)"
    by blast
  then show ?thesis
  proof cases
    case bad
    then show ?thesis
      by (auto simp: update_memory_flags_def Let_def m)
  next
    case refused
    have "kfor ps (check_flags flags) s = (Done (Err MemoryInUse), s)"
      by (simp only: check_loop refused(3) if_False)
    then show ?thesis
      using refused(1,2) by (simp add: update_memory_flags_def Let_def m kbind_def ps_def [symmetric])
  next
    case ok
    then have run: "update_memory_flags rng flags s = ?update s"
      by (simp add: update_memory_flags_def Let_def m kbind_def check_loop ps_def [symmetric])
    show ?thesis
    proof (cases "wanted flags 1 \<or> wanted flags 2 \<or> wanted flags 3")
      case True
      from update_loop [OF assms(1-3) range_pages [OF assms(4) ok(1), folded ps_def] ok(3) True]
      obtain s' where s': "?update s = (Done (Ok ()), s')"
        "pages_set R (active s) ps (\<lambda>va. stripped flags (pte_at s (active s) va)) s s'"
        by blast
      then show ?thesis
        using ok(3) pages_set_pte [OF s'(2)] by (auto simp: run grants_def)
    next
      case False
      then show ?thesis
        using ok(3) update_loop_nothing_wanted [of flags ps s] by (auto simp: run in_pages_def)
    qed
  qed
qed

theorem update_memory_flags_atomic_witness:
  "\<exists>s'. update_memory_flags \<lparr>addr = 0x60001000, rsize = 0x1000\<rparr> FLAG_R demo_spaces = (Done (Ok ()), s')
      \<and> pte_at s' 0x61000 0x60001000 = stripped FLAG_R 0x184020d7"
proof -
  have ps: "page_range 0x60001000 0x60002000 = [0x60001000]"
    using single_page_range [of "0x60001000"] by (simp add: PAGE_SIZE_def)
  have w: "wanted FLAG_R 1" "\<not> wanted FLAG_R 2" "\<not> wanted FLAG_R 3"
    by (simp_all add: wanted_def MemoryFlags_is_empty_def MemoryFlags_and_def FLAG_R_def FLAG_W_def FLAG_X_def)
  then have g: "grants FLAG_R 0x184020d7" "has_wanted FLAG_R 0x184020d7"
    by (simp_all add: grants_def has_wanted_def FLAG_R_def)
  obtain s' where run: "update_memory_flags \<lparr>addr = 0x60001000, rsize = 0x1000\<rparr> FLAG_R demo_spaces = (Done (Ok ()), s')"
    using g w
    by (simp add: update_memory_flags_def Let_def PAGE_SIZE_def ps kbind_def check_flags_eq
        update_page_flags_eq demo_satp demo_pte demo_valid demo_vpn)
  show ?thesis
    using update_memory_flags_atomic [OF wf_demo_spaces_alloc wf_demo_spaces,
        of "\<lparr>addr = 0x60001000, rsize = 0x1000\<rparr>" FLAG_R] run
    by (auto simp: demo_satp demo_R_def USER_AREA_END_def ps in_pages_def same_page_def demo_vpn demo_pte)
qed

section \<open>Reserving a range\<close>

lemma reserve_oom:
  assumes "wf_alloc s" "is_allocated (satp s)" "\<not> valid_at s (active s) (vpn1 va)" "None \<notin> set (owners s)"
  shows "reserve_address va flags s = (Swapper [HardOom, 0, 0, 0, 0, 0, 0], s)"
proof -
  from assms(2) obtain p where "get_pid (satp s) = Some p"
    by (auto simp: is_allocated_def)
  then show ?thesis
    using assms(3) alloc_page_oom [OF assms(1,4), of p None]
    by (simp add: reserve_address_def kbind_def active_tables(3) arch_current_pid_def)
qed

lemma unreserve_ok:
  assumes "wf_alloc s" "wf_spaces R s" "active s \<in> R" "vpn1 va < 1021"
    "pte_at s (active s) va = e" "e \<noteq> 0" "\<not> bit e 0"
  obtains s' where "unreserve_address va s = (Done (Ok ()), s')" "sets_pte R (active s) va 0 s s'"
proof -
  have "valid_at s (active s) (vpn1 va)"
    using pte_valid_leaf assms(5,6) by blast
  then show ?thesis
    using that [OF unreserve_run sets_pte_write [OF assms(1-4)]] assms(5,7) by simp
qed

lemma pages_set_same:
  "set ps = set qs \<Longrightarrow> pages_set R r ps g s s' = pages_set R r qs g s s'"
  by (simp add: pages_set_def in_pages_def)

lemma in_pages_aligned:
  "user_pages (ps @ p # qs) \<Longrightarrow> \<not> in_pages ps p"
  using user_pages_split(5) by (auto simp: in_pages_def)

lemma undo_reservations:
  assumes wf: "active s \<in> R" and ps: "user_pages ds" and tf: "tf \<noteq> 0" "\<not> bit tf 0"
    and J: "pages_set R (active s) ds (\<lambda>_. tf) s s1"
  shows "\<exists>s2. kfor ds (\<lambda>u. expect (unreserve_address u)) s1 = (Done (Ok ()), s2)
      \<and> pages_set R (active s) ds (\<lambda>va. if in_pages ds va then 0 else tf) s s2"
proof (rule kfor_steps [where J = "\<lambda>und s2. pages_set R (active s) ds
    (\<lambda>va. if in_pages und va then 0 else tf) s s2"])
  let ?r = "active s" and ?g = "\<lambda>und va. if in_pages und va then 0 else tf"
  show "pages_set R ?r ds (?g []) s s1"
    using J by (simp add: in_pages_def)
  fix und p rest s2
  assume split: "ds = und @ p # rest" and K: "pages_set R ?r ds (?g und) s s2"
  note p = user_pages_split [OF ps [unfolded split]]
  have a: "active s2 = ?r" "wf_alloc s2" "wf_spaces R s2"
    using K by (simp_all add: pages_set_def same_rest_def active_def)
  have "in_pages ds p" "\<not> in_pages und p"
    using in_pages_aligned ps split by (auto simp: in_pages_def same_page_def)
  then have "pte_at s2 (active s2) p = tf"
    using pages_set_pte [OF K wf p(4)] a(1) by simp
  from unreserve_ok [OF a(2,3) _ p(3) this tf] a(1) wf obtain s3 where
    run: "unreserve_address p s2 = (Done (Ok ()), s3)" and s3: "sets_pte R ?r p 0 s2 s3"
    by auto
  have "pages_set R ?r (ds @ [p]) (?g (und @ [p])) s s3"
    by (rule pages_set_step [OF K]) (use s3 in \<open>auto simp: in_pages_def same_page_def\<close>)
  then have "pages_set R ?r ds (?g (und @ [p])) s s3"
    using pages_set_same [of "ds @ [p]" ds R ?r _ s s3] split by auto
  moreover have "expect (unreserve_address p) s2 = (Done (Ok ()), s3)"
    using run by (simp add: expect_def kmatch_def)
  ultimately show "\<exists>s3. expect (unreserve_address p) s2 = (Done (Ok ()), s3)
      \<and> pages_set R ?r ds (?g (und @ [p])) s s3"
    by blast
qed

lemma reserve_loop:
  assumes wf: "wf_alloc s" "wf_spaces R s" "active s \<in> R" "is_allocated (satp s)" and ps: "user_pages ps"
    and tf: "translate_flags flags \<noteq> 0"
    and free: "\<forall>p \<in> set ps. address_available p s \<or> bit (pte_at s (active s) p) 0"
  defines "run \<equiv> kfor_undo (\<lambda>a. reserve_address a flags) (\<lambda>u. expect (unreserve_address u)) [] ps s"
  shows "(\<exists>s'. run = (Done (Ok ()), s') \<and> pages_set R (active s) ps (\<lambda>_. translate_flags flags) s s'
             \<and> (\<forall>p \<in> set ps. address_available p s))
      \<or> (\<exists>e s'. run = (Done (Err e), s') \<and> (ptes_are R (pte_at s) s' \<and> same_rest s s')
             \<and> e = ShareViolation \<and> (\<exists>p \<in> set ps. \<not> address_available p s))
      \<or> (\<exists>args s'. run = (Swapper args, s') \<and> args = [HardOom, 0, 0, 0, 0, 0, 0] \<and> None \<notin> set (owners s'))"
  unfolding run_def
proof (rule kfor_undo_steps [where U = "\<lambda>s'. ptes_are R (pte_at s) s' \<and> same_rest s s'"
    and J = "\<lambda>ds s1. pages_set R (active s) ds (\<lambda>_. translate_flags flags) s s1
               \<and> (\<forall>p \<in> set ds. address_available p s)"
    and E = "\<lambda>e. e = ShareViolation \<and> (\<exists>p \<in> set ps. \<not> address_available p s)"
    and W = "\<lambda>args s'. args = [HardOom, 0, 0, 0, 0, 0, 0] \<and> None \<notin> set (owners s')"])
  let ?r = "active s" and ?tf = "translate_flags flags"
  let ?J = "\<lambda>ds s1. pages_set R ?r ds (\<lambda>_. ?tf) s s1 \<and> (\<forall>p \<in> set ds. address_available p s)"
  show "?J [] s"
    using pages_set_Nil [OF wf(1,2)] by simp
  show "\<exists>s2. kfor ds (\<lambda>u. expect (unreserve_address u)) s1 = (Done (Ok ()), s2)
      \<and> ptes_are R (pte_at s) s2 \<and> same_rest s s2"
    if split: "ps = ds @ rest" and J: "?J ds s1" for ds rest s1
  proof -
    have "user_pages ds" "\<not> bit ?tf 0"
      using ps split by (simp_all add: user_pages_def translate_flags_bits)
    from undo_reservations [OF wf(3) this(1) tf this(2)] J obtain s2 where
      u: "kfor ds (\<lambda>u. expect (unreserve_address u)) s1 = (Done (Ok ()), s2)"
      "pages_set R ?r ds (\<lambda>va. if in_pages ds va then 0 else ?tf) s s2"
      by blast
    have "pte_at s ?r va = 0" if "in_pages ds va" for va
      using that J by (auto simp: in_pages_def address_available_eq same_page_def pte_at_def)
    then have "ptes_are R (pte_at s) s2"
      using pages_set_pte [OF u(2)] by (simp add: ptes_are_def)
    with u show ?thesis by (auto simp: pages_set_def)
  qed
  fix ds p rest s1
  assume split: "ps = ds @ p # rest" and J: "?J ds s1"
  note p = user_pages_split [OF ps [unfolded split]]
  have a: "active s1 = ?r" "wf_alloc s1" "wf_spaces R s1" "active s1 \<in> R" "is_allocated (satp s1)"
    using J wf(3,4) by (auto simp: pages_set_def same_rest_def active_def)
  have e: "pte_at s1 ?r p = pte_at s ?r p"
    using pages_set_pte [OF J [THEN conjunct1] wf(3) p(4)] in_pages_aligned ps split by auto
  have avail: "address_available p s = (\<not> bit (pte_at s ?r p) 0)"
    using free split by (auto simp: address_available_eq)
  consider (taken) "bit (pte_at s ?r p) 0"
    | (ok) "\<not> bit (pte_at s ?r p) 0" "valid_at s1 ?r (vpn1 p) \<or> None \<in> set (owners s1)"
    | (oom) "\<not> bit (pte_at s ?r p) 0" "\<not> valid_at s1 ?r (vpn1 p)" "None \<notin> set (owners s1)"
    by blast
  then show "(\<exists>s2. reserve_address p flags s1 = (Done (Ok ()), s2) \<and> ?J (ds @ [p]) s2)
      \<or> (\<exists>e s2. reserve_address p flags s1 = (Done (Err e), s2) \<and> ?J ds s2
          \<and> e = ShareViolation \<and> (\<exists>p \<in> set ps. \<not> address_available p s))
      \<or> (\<exists>args s2. reserve_address p flags s1 = (Swapper args, s2)
          \<and> args = [HardOom, 0, 0, 0, 0, 0, 0] \<and> None \<notin> set (owners s2))"
  proof cases
    case taken
    then have "valid_at s1 (active s1) (vpn1 p)"
      using e a(1) bit_nonzero pte_valid_leaf by metis
    then have "reserve_address p flags s1 = (Done (Err ShareViolation), s1)"
      using taken by (simp add: reserve_run a(1) e)
    then show ?thesis
      using J avail taken split by auto
  next
    case ok
    then obtain s2 where s2: "reserve_address p flags s1 = (Done (Ok ()), s2)"
      "sets_pte R ?r p ?tf s1 s2"
      using reserve_ok [OF a(2-5) p(3), of flags] by (auto simp: a(1) e)
    have "pages_set R ?r (ds @ [p]) (\<lambda>_. ?tf) s s2"
      by (rule pages_set_step [OF J [THEN conjunct1] s2(2)]) simp_all
    then show ?thesis
      using s2(1) J avail ok(1) by auto
  next
    case oom
    then show ?thesis
      using reserve_oom [OF a(2,5)] by (simp add: a(1))
  qed
qed

definition range_reserved ::
  "usize set \<Rightarrow> usize list \<Rightarrow> MemoryFlags \<Rightarrow> 'z Mem_scheme \<Rightarrow> 'z Mem_scheme \<Rightarrow> bool" where
  "range_reserved R ps flags s s' =
     (same_rest s s' \<and> (\<forall>p \<in> set ps. address_available p s)
      \<and> ptes_are R (\<lambda>r va. if r = active s \<and> in_pages ps va then translate_flags flags else pte_at s r va) s')"

definition range_refused :: "usize set \<Rightarrow> usize list \<Rightarrow> 'z Mem_scheme \<Rightarrow> 'z Mem_scheme \<Rightarrow> bool" where
  "range_refused R ps s s' =
     (same_rest s s' \<and> (\<exists>p \<in> set ps. \<not> address_available p s) \<and> ptes_are R (pte_at s) s')"

lemma reserve_range_cases:
  assumes wf: "wf_alloc s" "wf_spaces R s" "active s \<in> R" "is_allocated (satp s)"
    and virt: "virt \<noteq> 0" "virt AND 0xfff = 0" and sz: "sz \<noteq> 0" "sz AND 0xfff = 0"
    and fit: "unat virt + unat sz \<le> unat USER_AREA_END" and tf: "translate_flags flags \<noteq> 0"
    and free: "\<forall>p \<in> set (page_range virt (virt + sz)). address_available p s \<or> bit (pte_at s (active s) p) 0"
  shows "(\<exists>s'. reserve_range virt sz flags s = (Done (Ok \<lparr>addr = virt, rsize = sz\<rparr>), s')
            \<and> range_reserved R (page_range virt (virt + sz)) flags s s')
      \<or> (\<exists>s'. reserve_range virt sz flags s = (Done (Err ShareViolation), s')
            \<and> range_refused R (page_range virt (virt + sz)) s s')
      \<or> (\<exists>s'. reserve_range virt sz flags s = (Swapper [HardOom, 0, 0, 0, 0, 0, 0], s')
            \<and> None \<notin> set (owners s'))"
proof -
  let ?ps = "page_range virt (virt + sz)"
  have "user_pages ?ps"
    using range_pages [of "\<lparr>addr = virt, rsize = sz\<rparr>"] virt(2) fit by simp
  note loop = reserve_loop [OF wf this tf free]
  let ?run = "kfor_undo (\<lambda>a. reserve_address a flags) (\<lambda>undo. expect (unreserve_address undo)) [] ?ps s"
  have run: "reserve_range virt sz flags s = kbind (\<lambda>_. ?run) (\<lambda>_. lift (MemoryRange_new virt sz)) s"
    using virt sz(2) by (simp add: reserve_range_def find_virtual_address_def kbind_def)
  have new: "MemoryRange_new virt sz = Ok \<lparr>addr = virt, rsize = sz\<rparr>"
    using virt(1) sz(1) by (simp add: MemoryRange_new_def nonzero_def)
  from loop show ?thesis
    by (auto simp: run kbind_def new range_reserved_def range_refused_def pages_set_def)
qed



lemma set_inner_view:
  fixes s :: "'z Mem_scheme" and x :: "usize \<Rightarrow> ProcessInner"
  defines "s' \<equiv> s\<lparr>process_inner := x\<rparr>"
  shows "wf_alloc s' = wf_alloc s" "wf_spaces R s' = wf_spaces R s" "active s' = active s"
    "pte_at s' = pte_at s" "address_available va s' = address_available va s"
    "owners s' = owners s" "inner_key s' = inner_key s"
proof -
  have "page_owner s' = page_owner s" "frames s' = frames s"
    by (auto simp: s'_def page_owner_def is_main_memory_def owners_def ram_index_def fun_eq_iff)
  note v = spaces_frames_cong [OF this(2)] owned_frame_cong [OF this(1)]
  show "wf_spaces R s' = wf_spaces R s" "pte_at s' = pte_at s"
    by (simp_all add: wf_spaces_def v fun_eq_iff)
  show "wf_alloc s' = wf_alloc s" "active s' = active s" "owners s' = owners s" "inner_key s' = inner_key s"
    by (simp_all add: s'_def wf_alloc_def ram_pages_def active_def owners_def inner_key_def)
  then show "address_available va s' = address_available va s"
    by (simp add: address_available_eq \<open>pte_at s' = pte_at s\<close>)
qed

text \<open>C36. The heap grows by exactly the requested amount and the new pages are reserved behind its old
  end. When this fails because one of these pages is mapped, no entry is changed, but
  the size of the heap has grown all the same: the bookkeeping is not undone.\<close>

theorem increase_heap_outcomes:
  assumes "wf_alloc s" and "wf_spaces R s" and "active s \<in> R" and "is_allocated (satp s)"
    and "delta \<noteq> 0" and "delta AND 0xfff = 0"
  defines "start \<equiv> mem_heap_base (inner s) + mem_heap_size (inner s)"
  defines "ps \<equiv> page_range start (start + delta)"
  assumes "unat (mem_heap_size (inner s)) + unat delta < 2 ^ 32"
    and "mem_heap_size (inner s) + delta \<le> mem_heap_max (inner s)"
    and "start \<noteq> 0" and "start AND 0xfff = 0" and "unat start + unat delta \<le> unat USER_AREA_END"
    and "translate_flags flags \<noteq> 0"
    and "\<forall>p \<in> set ps. address_available p s \<or> bit (pte_at s (active s) p) 0"
  shows "case sys_IncreaseHeap delta flags s of
      (Done (Ok res), s') \<Rightarrow>
        res = Res_MemoryRange \<lparr>addr = start, rsize = delta\<rparr>
        \<and> mem_heap_size (inner s') = mem_heap_size (inner s) + delta
        \<and> (\<forall>p \<in> set ps. address_available p s \<and> pte_at s' (active s) p = translate_flags flags)
    | (Done (Err e), s') \<Rightarrow>
        e = ShareViolation \<and> (\<exists>p \<in> set ps. \<not> address_available p s)
        \<and> mem_heap_size (inner s') = mem_heap_size (inner s) + delta
        \<and> (\<forall>p \<in> set ps. pte_at s' (active s) p = pte_at s (active s) p)
    | (Done Panic, s') \<Rightarrow> False
    | (Swapper args, s') \<Rightarrow> args = [HardOom, 0, 0, 0, 0, 0, 0] \<and> None \<notin> set (owners s')"
proof -
  define s0 where "s0 = s\<lparr>process_inner := (process_inner s)
      (inner_key s := (inner s)\<lparr>mem_heap_size := mem_heap_size (inner s) + delta\<rparr>)\<rparr>"
  note v = set_inner_view [where s = s and x = "(process_inner s)
      (inner_key s := (inner s)\<lparr>mem_heap_size := mem_heap_size (inner s) + delta\<rparr>)", folded s0_def]
  have run: "sys_IncreaseHeap delta flags s =
      kbind (reserve_range start delta flags) (\<lambda>rng. ret (Res_MemoryRange rng)) s0"
    using assms(5,6,9,10) [folded not_less] by (simp add: sys_IncreaseHeap_def Let_def with_inner_mut_def s0_def start_def)
  have sz0: "mem_heap_size (inner s0) = mem_heap_size (inner s) + delta"
    by (simp add: inner_def [of s0] v(7)) (simp add: s0_def)
  have satp0: "satp s0 = satp s"
    by (simp add: s0_def)
  have rest: "mem_heap_size (inner s') = mem_heap_size (inner s) + delta" if "same_rest s0 s'" for s'
    using that sz0 by (simp add: same_rest_def inner_def inner_key_def)
  have mem: "vpn1 p \<noteq> 1021" "in_pages ps p" if "p \<in> set ps" for p
    using that page_range_mem(2) [of p start "start + delta"] assms(13) user_vpn1 [of p]
    by (auto simp: ps_def in_pages_def same_page_def word_less_nat_alt unat_word_ariths USER_AREA_END_def)
  have "(\<exists>s'. reserve_range start delta flags s0 = (Done (Ok \<lparr>addr = start, rsize = delta\<rparr>), s')
            \<and> range_reserved R ps flags s0 s')
      \<or> (\<exists>s'. reserve_range start delta flags s0 = (Done (Err ShareViolation), s') \<and> range_refused R ps s0 s')
      \<or> (\<exists>s'. reserve_range start delta flags s0 = (Swapper [HardOom, 0, 0, 0, 0, 0, 0], s')
            \<and> None \<notin> set (owners s'))"
    unfolding ps_def
    by (rule reserve_range_cases) (use assms in \<open>simp_all add: v satp0 ps_def\<close>)
  then show ?thesis
    using assms(3) mem rest
    by (elim disjE exE conjE) (simp_all add: run kbind_def range_reserved_def range_refused_def ptes_are_def v)
qed

text \<open>A process whose heap would grow into a page that is mapped.\<close>

theorem increase_heap_outcomes_witness:
  "\<exists>s'. sys_IncreaseHeap 0x1000 RW_flags
          (demo_spaces\<lparr>process_inner := (\<lambda>_. demo_inner\<lparr>mem_heap_base := 0x60001000\<rparr>)\<rparr>)
        = (Done (Err ShareViolation), s')
      \<and> mem_heap_size (inner s') = 0x1000"
proof -
  let ?p = "demo_inner\<lparr>mem_heap_base := 0x60001000\<rparr>"
  let ?s = "demo_spaces\<lparr>process_inner := (\<lambda>_. ?p)\<rparr>"
  have ps: "page_range 0x60001000 0x60002000 = [0x60001000]"
    using single_page_range [of "0x60001000"] by (simp add: PAGE_SIZE_def)
  have inner: "mem_heap_base (inner ?s) = 0x60001000" "mem_heap_size (inner ?s) = 0" "mem_heap_max (inner ?s) = 0x80000"
    by (simp_all add: inner_def demo_inner_def)
  have fr: "frames (demo_spaces\<lparr>process_inner := x\<rparr>) = frames demo_spaces"
    "active (demo_spaces\<lparr>process_inner := x\<rparr>) = 0x61000" for x
    using demo_satp by (simp_all add: active_def)
  have "(Done (Err ShareViolation), snd (sys_IncreaseHeap 0x1000 RW_flags ?s)) = sys_IncreaseHeap 0x1000 RW_flags ?s"
    by (simp add: sys_IncreaseHeap_def inner with_inner_mut_def reserve_range_def find_virtual_address_def ps kmatch_def
        kbind_def reserve_run fr spaces_frames_cong [OF fr(1)] demo_valid demo_vpn demo_pte)
  then obtain s' where run: "sys_IncreaseHeap 0x1000 RW_flags ?s = (Done (Err ShareViolation), s')"
    by metis
  have "wf_alloc ?s" "wf_spaces demo_R ?s" "active ?s \<in> demo_R" "is_allocated (satp ?s)"
    using wf_demo_spaces_alloc wf_demo_spaces
    by (simp_all add: set_inner_view fr demo_R_def is_allocated_def get_pid_def nonzero_def demo_satp)
  then show ?thesis
    using increase_heap_outcomes [of ?s demo_R "0x1000" RW_flags] run
    by (auto simp: inner USER_AREA_END_def ps RW_translated address_available_eq fr spaces_frames_cong [OF fr(1)] demo_pte)
qed

section \<open>Unmapping a page that is lent\<close>

text \<open>Returning a page whose entry in the lender no longer says that it is lent.\<close>

lemma return_panics:
  assumes wf: "wf_alloc s" "wf_spaces R s" "active s = root_of src" "root_of src \<in> R" "root_of dst \<in> R"
    and va: "va AND 0xfff = 0" "va < USER_AREA_END" "va' AND 0xfff = 0" "va' < USER_AREA_END"
    and e: "bit (pte_at s (root_of src) va) 0" "\<not> bit (pte_at s (root_of dst) va') 8"
    and sep: "root_of src \<noteq> root_of dst"
  shows "fst (return_page_inner src va pid dst va' s) = Done Panic"
proof -
  have v: "vpn1 va < 1021" "vpn1 va' \<noteq> 1021"
    using user_vpn1 [OF va(2)] user_vpn1 [OF va(4)] by auto
  have val: "valid_at s (root_of src) (vpn1 va)"
    using e(1) bit_nonzero pte_valid_leaf by blast
  define s1 where "s1 = write_word (leaf_at s (active s) (vpn1 va)) (vpn0 va) 0 s"
  have s1: "sets_pte R (root_of src) va 0 s s1"
    using sets_pte_write [OF wf(1,2,4) v(1) val] by (simp add: s1_def wf(3))
  define s2 where "s2 = s1\<lparr>satp := dst\<rparr>"
  have s2: "active s2 = root_of dst" "pte_at s2 (root_of dst) va' = pte_at s (root_of dst) va'"
    using sets_ptesD(4) [OF s1 wf(5) v(2)] sep by (auto simp: s2_def)
  have "entry_of va s = (Done (Ok (vpn1 va, vpn0 va)), s)"
    "read_entry (vpn1 va, vpn0 va) s = (Done (Ok (pte_at s (root_of src) va)), s)"
    "write_entry (vpn1 va, vpn0 va) 0 s = (Done (Ok ()), s1)" "activate dst s1 = (Done (Ok ()), s2)"
    using val by (simp_all add: entry_of_eq [OF va(1)] read_entry_eq write_entry_eq activate_eq
        wf(3) s1_def s2_def)
  then show ?thesis
    using e s2
    by (simp add: return_page_inner_def kbind_def flag_test expect_def kmatch_def entry_of_eq [OF va(3)]
        read_entry_eq)
qed

text \<open>C35. The client of a loan can crash the kernel: while a page is lent, another thread of the client may
  unmap it. The call succeeds and wipes the mark of the loan, and when the server
  returns the page, the kernel panics.\<close>

theorem unmap_of_lent_page_panics:
  assumes "lendable R csp ca ssp sa s" and "spid \<noteq> 0" and "unat ca + 4096 < unat USER_AREA_END"
    and "\<not> bit (pte_at s (root_of ssp) sa) 0"
    and "valid_at s (root_of ssp) (vpn1 sa) \<or> None \<in> set (owners s)"
  shows "\<exists>phys s1 s2. lend_page csp ca spid ssp sa mutable s = (Done (Ok phys), s1)
    \<and> sys_UnmapMemory \<lparr>addr = ca, rsize = PAGE_SIZE\<rparr> s1 = (Done (Ok Res_Ok), s2)
    \<and> fst (unlend_page ssp sa cpid csp ca (s2\<lparr>satp := ssp\<rparr>)) = Done Panic"
proof -
  define e where "e = pte_at s (root_of csp) ca"
  have l: "root_of csp \<noteq> root_of ssp" "root_of csp \<in> R" "root_of ssp \<in> R" "satp s = csp"
    "ca AND 0xfff = 0" "ca < USER_AREA_END" "sa AND 0xfff = 0" "sa < USER_AREA_END"
    using assms(1) by (auto simp: lendable_def)
  have v: "vpn1 ca < 1021" "vpn1 ca \<noteq> 1021" "vpn1 sa \<noteq> 1021"
    using user_vpn1 [OF l(6)] user_vpn1 [OF l(8)] by auto
  obtain s1 where lend: "lend_page csp ca spid ssp sa mutable s = (Done (Ok (pte_phys e)), s1)"
    and s1: "wf_alloc s1" "wf_spaces R s1" "same_rest s s1"
    and ptes: "ptes_are R (\<lambda>r w. if r = root_of csp \<and> same_page w ca then lent e
        else if r = root_of ssp \<and> same_page w sa
             then leaf_pte (pte_phys e) (lend_flags mutable e) (spid \<noteq> 1)
        else pte_at s r w) s1"
    using lend_ok [OF assms(1,2,4,5), of mutable] unfolding e_def lend_page_def by blast
  have act: "active s1 = root_of csp"
    using s1(3) l(4) by (simp add: same_rest_def active_def)
  have p1: "pte_at s1 (root_of csp) ca = lent e"
    "pte_at s1 (root_of ssp) sa = leaf_pte (pte_phys e) (lend_flags mutable e) (spid \<noteq> 1)"
    using ptes_areD [OF ptes l(2) v(2)] ptes_areD [OF ptes l(3) v(3)] l(1) by (simp_all add: same_page_def)
  have b: "bit (lent e) 8" "\<not> bit (lent e) 0"
    by (simp_all add: lent_bits)
  then have val: "valid_at s1 (root_of csp) (vpn1 ca)"
    using p1(1) bit_nonzero pte_valid_leaf by metis
  define s2 where "s2 = write_word (leaf_at s1 (root_of csp) (vpn1 ca)) (vpn0 ca) 0 s1"
  have "virt_to_phys ca s1 = Err ShareViolation"
    using b by (simp add: virt_to_phys_eq act p1 translation_def)
  then have "unmap_page ca s1 = (Done (Ok (pte_phys (lent e))), s2)"
    using unmap_run [OF l(5), of s1] val by (simp add: unmap_page_def kbind_def act p1(1) s2_def)
  moreover have "saturating_add ca PAGE_SIZE < USER_AREA_END" "unat ca + 4096 < 2 ^ 32"
    using assms(3) by (simp_all add: saturating_add_def PAGE_SIZE_def USER_AREA_END_def word_less_nat_alt
        unat_word_ariths)
  ultimately have "sys_UnmapMemory \<lparr>addr = ca, rsize = PAGE_SIZE\<rparr> s1 = (Done (Ok Res_Ok), s2)"
    using l(5,6) by (simp add: sys_UnmapMemory_def single_page_range kmatch_def not_le)
  moreover have d: "sets_pte R (root_of csp) ca 0 s1 s2"
    using sets_pte_write [OF s1(1,2) l(2) v(1) val] by (simp add: s2_def)
  note d = sets_ptesD [OF this]
  have "fst (unlend_page ssp sa cpid csp ca (s2\<lparr>satp := ssp\<rparr>)) = Done Panic"
    unfolding unlend_page_def
    by (rule return_panics [where R = R])
      (use d(1,2) d(4) [OF l(2) v(2)] d(4) [OF l(3) v(3)] p1(2) l leaf_pte_props(1) in auto)
  ultimately show ?thesis
    using lend by blast
qed

theorem unmap_of_lent_page_panics_witness:
  "\<exists>phys s1 s2. lend_page 0x80C61000 0x60001000 4 0x81061005 0x40002000 True demo_spaces = (Done (Ok phys), s1)
    \<and> sys_UnmapMemory \<lparr>addr = 0x60001000, rsize = PAGE_SIZE\<rparr> s1 = (Done (Ok Res_Ok), s2)
    \<and> fst (unlend_page 0x81061005 0x40002000 3 0x80C61000 0x60001000 (s2\<lparr>satp := 0x81061005\<rparr>)) = Done Panic"
  using unmap_of_lent_page_panics [OF demo_lendable, of "0x40002000" 4 True 3]
  by (auto simp: demo_pte demo_vpn demo_owners USER_AREA_END_def)

section \<open>Ranges that wrap around, pages that leak\<close>

lemma page_range_empty: "unat b \<le> unat a \<Longrightarrow> page_range a b = []"
  by (simp add: page_range_def)

lemma page_range_first:
  assumes "unat a < unat b"
  shows "\<exists>ps. page_range a b = a # ps"
proof -
  have "0 < (unat b - unat a + 4095) div 4096"
    using assms by simp
  then show ?thesis
    by (simp add: page_range_def upt_conv_Cons)
qed

text \<open>C37. A request for a region that is so large that the end of it wraps around the address space is
  granted: all loops over the pages of the region are empty, so that the call reports success although not a
  single page has been reserved.\<close>

theorem huge_region_granted:
  fixes s :: "'z Mem_scheme"
  assumes "sz AND 0xfff = 0" and "sz \<noteq> 0" and "MemoryFlags_and flags FLAG_DEV \<noteq> FLAG_DEV"
  defines "p \<equiv> inner s"
  assumes "mem_default_last p \<noteq> 0" and "mem_default_last p AND 0xfff = 0"
    and "2 ^ 32 \<le> unat (mem_default_last p) + unat sz"
    and "unat (mem_default_last p) < unat (mem_default_base p + 0x10000000 - sz)"
  shows "\<exists>s'. sys_MapMemory pid None None sz flags s =
           (Done (Ok (Res_MemoryRange \<lparr>addr = mem_default_last p, rsize = sz\<rparr>)), s')
         \<and> (\<forall>r va. pte_at s' r va = pte_at s r va)"
proof -
  let ?a = "mem_default_last p"
  have "unat (?a + sz) = unat ?a + unat sz - 2 ^ 32"
    using assms(7) unsigned_less [of ?a, where 'a = nat] unsigned_less [of sz, where 'a = nat]
    by (simp add: unat_word_ariths mod_if)
  then have wrap: "page_range ?a (?a + sz) = []"
    using unsigned_less [of sz, where 'a = nat] by (intro page_range_empty) simp
  obtain ps where ps: "page_range ?a (mem_default_base p + 0x10000000 - sz) = ?a # ps"
    using page_range_first [OF assms(8)] by blast
  define s' where "s' = s\<lparr>process_inner := (process_inner s)(inner_key s := p\<lparr>mem_default_last := ?a\<rparr>)\<rparr>"
  have "find_virtual_address 0 sz MT_Default s = (Done (Ok ?a), s')"
    using wrap ps by (simp add: find_virtual_address_def Let_def search_area_def all_free_def
        with_inner_mut_def s'_def p_def)
  moreover have "reserve_range ?a sz flags s' = (Done (Ok \<lparr>addr = ?a, rsize = sz\<rparr>), s')"
    using assms(1,2,5,6) wrap by (simp add: reserve_range_def find_virtual_address_def kbind_def
        MemoryRange_new_def nonzero_def)
  ultimately have "sys_MapMemory pid None None sz flags s =
      (Done (Ok (Res_MemoryRange \<lparr>addr = ?a, rsize = sz\<rparr>)), s')"
    using assms(1,3) by (simp add: sys_MapMemory_def Let_def or_null_def PAGE_SIZE_def is_mapped_flash_def
        MMAP_VIRT_BASE_def map_range_def kbind_def)
  moreover have "pte_at s' = pte_at s"
    unfolding s'_def by (rule set_inner_view)
  ultimately show ?thesis
    by auto
qed

theorem huge_region_granted_witness:
  "\<exists>s'. sys_MapMemory 3 None None 0xf0000000 RW_flags demo_spaces =
     (Done (Ok (Res_MemoryRange \<lparr>addr = 0x60000000, rsize = 0xf0000000\<rparr>)), s')
   \<and> (\<forall>r va. pte_at s' r va = pte_at demo_spaces r va)"
proof -
  have "inner demo_spaces = demo_inner"
    by (simp add: inner_def demo_spaces_def demo_mem_def)
  moreover have "MemoryFlags_and RW_flags FLAG_DEV \<noteq> FLAG_DEV"
    by (simp add: MemoryFlags_and_def RW_flags_def MemoryFlags_or_def FLAG_R_def FLAG_W_def FLAG_DEV_def)
  ultimately show ?thesis
    using huge_region_granted [of "0xf0000000" RW_flags demo_spaces 3] by (simp add: demo_inner_def)
qed

text \<open>Mapping a physical page at an address that is already mapped fails, but the
  page stays claimed: the pages from the failing one on are never released.\<close>

theorem failed_map_range_leaks:
  assumes "wf_alloc s" and "pid \<noteq> 0" and "page_owner s phys = None" and "is_main_memory phys s"
    and "phys \<noteq> 0" and "phys AND 0xfff = 0" and "unat phys + 4096 < 2 ^ 32"
    and "virt \<noteq> 0" and "virt AND 0xfff = 0" and "bit (pte_at s (active s) virt) 0"
  shows "\<exists>s'. map_range phys virt PAGE_SIZE pid flags kind s = (Done (Err MemoryInUse), s')
         \<and> page_owner s' phys = Some pid"
proof -
  have "owners s ! ram_index phys s = None"
    using assms(3,4,6) by (simp add: page_owner_def)
  then have "\<not> action_denied (owners s ! ram_index phys s) pid Claim"
    by (simp add: action_denied_def owner_allows_def)
  from claim_release_move_granted [OF assms(1,4,6,2) this] obtain s1 where
    claim: "claim_page phys pid s = (Done (Ok ()), s1)"
    and s1: "owners s1 = (owners s)[ram_index phys s := Some pid]" "wf_alloc s1" "only_alloc s s1"
    by (auto simp: claim_page_def action_owner_def)
  have "active s1 = active s" "pte_at s1 = pte_at s"
    using only_alloc_same [OF s1(3)] by (simp_all add: active_def pte_at_def valid_at_def leaf_at_def fun_eq_iff)
  then have map: "map_page_inner pid phys virt flags False s1 = (Done (Err MemoryInUse), s1)"
    using map_page_in_use [OF assms(9), of s1 2 pid phys flags False] assms(10)
    by (simp add: map_page_inner_def numeral_3_eq_3 numeral_2_eq_2 del: map_page_fuel.simps)
  have "page_range 0 PAGE_SIZE = [0]"
    using single_page_range [of 0] by simp
  then have "map_range phys virt PAGE_SIZE pid flags kind s = (Done (Err MemoryInUse), s1)"
    using assms(5,8) claim map
    by (simp add: map_range_def find_virtual_address_def claim_range_def map_claimed_def
        single_page_range [OF assms(7)] kbind_def kmatch_def)
  moreover have "page_owner s1 phys = Some pid"
    using ram_index_less [OF assms(1,4)] assms(4,6) s1(1) only_alloc_pages [OF s1(3)]
    by (simp add: page_owner_def)
  ultimately show ?thesis
    by blast
qed

theorem failed_map_range_leaks_witness:
  "\<exists>s'. map_range 0x6100b000 0x60001000 PAGE_SIZE 3 RW_flags MT_Default demo_spaces = (Done (Err MemoryInUse), s')
      \<and> page_owner s' 0x6100b000 = Some 3"
proof -
  have m: "is_main_memory 0x6100b000 demo_spaces"
    by (simp add: is_main_memory_def demo_spaces_def demo_mem_def)
  moreover have "ram_index 0x6100b000 demo_spaces = 11"
    by (simp add: ram_index_def demo_spaces_def demo_mem_def PAGE_SIZE_def)
  ultimately have "page_owner demo_spaces 0x6100b000 = None"
    by (simp add: page_owner_def demo_owners)
  then show ?thesis
    using failed_map_range_leaks [OF wf_demo_spaces_alloc, of 3 "0x6100b000" "0x60001000" RW_flags MT_Default] m
    by (simp add: demo_satp demo_pte)
qed

end
