(* ===== verification/Process_Memory.thy ===== *)
theory Process_Memory
  imports Mem_Range_Props
begin

text \<open>
  The memory of a process that ends (\<open>release_all_memory_for_process\<close> of kernel/src/mem.rs): who
  owns its pages afterwards, and what happens to the pages it had lent.
\<close>

section \<open>One entry\<close>

lemma SA_reparent_spec:
  assumes "wf_alloc s" "i < length (MEMORY_ALLOCATIONS s)" "pid \<noteq> 0"
  obtains A e where
    "SA_reparent i pid s = (Done (Ok ()), s\<lparr>MEMORY_ALLOCATIONS := A, epoch := e\<rparr>)"
    "map SA_get_pid A = (owners s)[i := Some pid]" "epoch_ok e A"
proof -
  have "epoch_ok (epoch s) (MEMORY_ALLOCATIONS s)"
    using assms(1) by (simp add: wf_alloc_def)
  from with_epoch_entry [OF this assms(2)] obtain e allocs where
    r: "\<And>f. with_epoch f s = f e (s\<lparr>MEMORY_ALLOCATIONS := allocs, epoch := e\<rparr>)"
    and v: "map vpn allocs = map vpn (MEMORY_ALLOCATIONS s)"
    and ok: "\<And>v. epoch_ok e (allocs[i := \<lparr>timestamp = e, vpn = v\<rparr>])"
    and st: "\<And>v. stamped i (MEMORY_ALLOCATIONS s) (allocs[i := \<lparr>timestamp = e, vpn = v\<rparr>])"
    by blast
  let ?a = "\<lparr>timestamp = e, vpn = (vpn (allocs ! i) AND NOT 0xFF) OR ucast pid\<rparr>"
  have "map SA_get_pid allocs = owners s"
    using arg_cong [OF v, of "map (nonzero \<circ> ucast)"]
    by (simp add: owners_def SA_get_pid_eq [abs_def] comp_def)
  moreover have "SA_get_pid ?a = Some pid"
    unfolding SA_get_pid_eq SwapAlloc.simps reparent_pid using assms(3) by simp
  ultimately have "map SA_get_pid (allocs[i := ?a]) = (owners s)[i := Some pid]"
    by (simp add: map_update)
  moreover have "SA_reparent i pid s = (Done (Ok ()), s\<lparr>MEMORY_ALLOCATIONS := allocs[i := ?a], epoch := e\<rparr>)"
    by (simp add: SA_reparent_def r Let_def SA_entry)
  ultimately show ?thesis
    using that [of e "allocs[i := ?a]"] ok by simp
qed

text \<open>Who owns a page after its owner is gone; the address is the physical one.\<close>

definition heir :: "usize \<Rightarrow> 'z Mem_scheme \<Rightarrow> PID option" where
  "heir phys s = (if page_is_lent phys s then Some 1 else None)"

lemma page_is_lent_cong:
  assumes "frames s' = frames s" "satp s' = satp s"
  shows "page_is_lent pa s' = page_is_lent pa s"
  using assms
  by (simp add: page_is_lent_def pagetable_entry_def has_leaf_def l1_entry_def l0_entry_def leaf_frame_def)

lemma release_ram_entry_spec:
  assumes wf: "wf_alloc s" and i: "i < length (MEMORY_ALLOCATIONS s)" and pid: "pid \<noteq> 0"
  obtains s' where "release_ram_entry pid i s = (Done (Ok ()), s')" "wf_alloc s'" "only_alloc s s'"
    "owners s' = (if owners s ! i = Some pid then (owners s)[i := heir (ram_address i s) s] else owners s)"
    "EXTRA_ALLOCATIONS s' = EXTRA_ALLOCATIONS s"
proof (cases "owners s ! i = Some pid")
  case True
  have own: "SA_is_pid (MEMORY_ALLOCATIONS s ! i) pid"
    using True i pid by (simp add: owners_def SA_is_pid_iff)
  have addr: "allocation_offset_to_address i s = Some (ram_address i s)"
    using i wf by (simp add: allocation_offset_to_address_def wf_alloc_def ram_address_def add.commute)
  show ?thesis
  proof (cases "page_is_lent (ram_address i s) s")
    case lent: True
    from SA_reparent_spec [OF wf i one_neq_zero] obtain A e where
      r: "SA_reparent i 1 s = (Done (Ok ()), s\<lparr>MEMORY_ALLOCATIONS := A, epoch := e\<rparr>)"
      "map SA_get_pid A = (owners s)[i := Some 1]" "epoch_ok e A"
      by blast
    let ?s = "s\<lparr>MEMORY_ALLOCATIONS := A, epoch := e\<rparr>"
    have "length A = length (MEMORY_ALLOCATIONS s)"
      using arg_cong [OF r(2), of length] by simp
    then have "wf_alloc ?s"
      using wf r(3) by (simp add: wf_alloc_def ram_pages_def)
    moreover have "only_alloc s ?s"
      using only_allocI [where s = s and l = "last_ram_page s" and A = A and X = "EXTRA_ALLOCATIONS s"
          and e = e and u = "used_pages s"] by simp
    moreover have "release_ram_entry pid i s = (Done (Ok ()), ?s)"
      using own addr lent r(1) by (simp add: release_ram_entry_def kbind_def)
    moreover have "owners ?s = (owners s)[i := heir (ram_address i s) s]"
      using r(2) lent by (simp add: heir_def owners_def [of ?s])
    ultimately show ?thesis
      using that [of ?s] True by simp
  next
    case free: False
    from SA_update_spec [OF wf i option.distinct(1), of None] obtain A e u where
      r: "SA_update i None None s = (Done (Ok ()), s\<lparr>MEMORY_ALLOCATIONS := A, epoch := e, used_pages := u\<rparr>)"
      "map SA_get_pid A = (owners s)[i := None]" "epoch_ok e A"
      by blast
    let ?s = "s\<lparr>MEMORY_ALLOCATIONS := A, epoch := e, used_pages := u\<rparr>"
    have "length A = length (MEMORY_ALLOCATIONS s)"
      using arg_cong [OF r(2), of length] by simp
    then have "wf_alloc ?s"
      by (rule wf_alloc_update [OF wf r(3)])
    moreover have "only_alloc s ?s"
      using only_allocI [where s = s and l = "last_ram_page s" and A = A and X = "EXTRA_ALLOCATIONS s"
          and e = e and u = u] by simp
    moreover have "release_ram_entry pid i s = (Done (Ok ()), ?s)"
      using own addr free r(1) by (simp add: release_ram_entry_def kbind_def)
    moreover have "owners ?s = (owners s)[i := heir (ram_address i s) s]"
      using r(2) free by (simp add: heir_def owners_def [of ?s])
    ultimately show ?thesis
      using that [of ?s] True by simp
  qed
next
  case False
  then have "\<not> SA_is_pid (MEMORY_ALLOCATIONS s ! i) pid"
    using i pid by (simp add: owners_def SA_is_pid_iff)
  then show ?thesis
    using that [of s] False wf by (simp add: release_ram_entry_def)
qed

lemma release_extra_entry_run:
  assumes "i < length (EXTRA_ALLOCATIONS s)" "allocation_offset_to_address_extra i s = Some pa"
  shows "release_extra_entry pid i s =
    (Done (Ok ()), s\<lparr>EXTRA_ALLOCATIONS := (EXTRA_ALLOCATIONS s)
       [i := if EXTRA_ALLOCATIONS s ! i = Some pid then heir pa s else EXTRA_ALLOCATIONS s ! i]\<rparr>)"
  using assms by (simp add: release_extra_entry_def kbind_def heir_def)

section \<open>All entries\<close>

text \<open>The owners after the entries \<open>ds\<close> of a table have been visited.\<close>

definition inherited ::
  "PID \<Rightarrow> (nat \<Rightarrow> PID option) \<Rightarrow> nat list \<Rightarrow> PID option list \<Rightarrow> PID option list \<Rightarrow> bool" where
  "inherited pid h ds os os' =
     (length os' = length os
      \<and> (\<forall>i < length os. os' ! i = (if i \<in> set ds \<and> os ! i = Some pid then h i else os ! i)))"

lemma inherited_step:
  assumes "inherited pid h ds os os1" "i < length os" "i \<notin> set ds"
    "os2 = (if os1 ! i = Some pid then os1[i := h i] else os1)"
  shows "inherited pid h (ds @ [i]) os os2"
  using assms by (auto simp: inherited_def nth_list_update)

lemma inherited_gone:
  assumes "inherited pid h [0..<length os] os os'" "\<And>i. h i \<noteq> Some pid"
  shows "Some pid \<notin> set os'"
  using assms by (auto simp: inherited_def in_set_conv_nth)

lemma release_ram_loop:
  assumes wf: "wf_alloc s" and pid: "pid \<noteq> 0"
  shows "\<exists>s'. kfor [0..<length (MEMORY_ALLOCATIONS s)] (release_ram_entry pid) s = (Done (Ok ()), s')
      \<and> wf_alloc s' \<and> only_alloc s s' \<and> EXTRA_ALLOCATIONS s' = EXTRA_ALLOCATIONS s
      \<and> inherited pid (\<lambda>i. heir (ram_address i s) s) [0..<length (MEMORY_ALLOCATIONS s)] (owners s) (owners s')"
proof (rule kfor_steps [where J = "\<lambda>ds s1. wf_alloc s1 \<and> only_alloc s s1 \<and> EXTRA_ALLOCATIONS s1 = EXTRA_ALLOCATIONS s
    \<and> inherited pid (\<lambda>i. heir (ram_address i s) s) ds (owners s) (owners s1)"])
  show "wf_alloc s \<and> only_alloc s s \<and> EXTRA_ALLOCATIONS s = EXTRA_ALLOCATIONS s
    \<and> inherited pid (\<lambda>i. heir (ram_address i s) s) [] (owners s) (owners s)"
    using wf by (simp add: inherited_def)
  fix ds i rest s1
  assume split: "[0..<length (MEMORY_ALLOCATIONS s)] = ds @ i # rest"
    and J: "wf_alloc s1 \<and> only_alloc s s1 \<and> EXTRA_ALLOCATIONS s1 = EXTRA_ALLOCATIONS s
      \<and> inherited pid (\<lambda>i. heir (ram_address i s) s) ds (owners s) (owners s1)"
  have "i \<in> set [0..<length (MEMORY_ALLOCATIONS s)]" "i \<notin> set ds"
    using split distinct_upt [of 0 "length (MEMORY_ALLOCATIONS s)"] by (simp_all only: split) auto
  then have i: "i < length (MEMORY_ALLOCATIONS s)" "i \<notin> set ds"
    by simp_all
  have "length (MEMORY_ALLOCATIONS s1) = length (MEMORY_ALLOCATIONS s)"
    using J by (simp add: inherited_def)
  with i have i1: "i < length (MEMORY_ALLOCATIONS s1)"
    by simp
  have h: "heir (ram_address i s1) s1 = heir (ram_address i s) s"
    using J only_alloc_pages(4) [of s s1 i] only_alloc_same(3,4) [of s s1]
    by (simp add: heir_def page_is_lent_cong [of s1 s])
  obtain s2 where s2: "release_ram_entry pid i s1 = (Done (Ok ()), s2)" "wf_alloc s2" "only_alloc s1 s2"
    "owners s2 = (if owners s1 ! i = Some pid then (owners s1)[i := heir (ram_address i s1) s1] else owners s1)"
    "EXTRA_ALLOCATIONS s2 = EXTRA_ALLOCATIONS s1"
    using release_ram_entry_spec [OF _ i1 pid] J by blast
  have "inherited pid (\<lambda>i. heir (ram_address i s) s) (ds @ [i]) (owners s) (owners s2)"
    using J i s2(4) h by (intro inherited_step [of pid _ ds "owners s" "owners s1"]) simp_all
  then show "\<exists>s2. release_ram_entry pid i s1 = (Done (Ok ()), s2) \<and> wf_alloc s2 \<and> only_alloc s s2
      \<and> EXTRA_ALLOCATIONS s2 = EXTRA_ALLOCATIONS s
      \<and> inherited pid (\<lambda>i. heir (ram_address i s) s) (ds @ [i]) (owners s) (owners s2)"
    using s2 J only_alloc_trans by auto
qed

lemma set_extra_view:
  "wf_alloc (s\<lparr>EXTRA_ALLOCATIONS := X\<rparr>) = wf_alloc s" "owners (s\<lparr>EXTRA_ALLOCATIONS := X\<rparr>) = owners s"
  "heir pa (s\<lparr>EXTRA_ALLOCATIONS := X\<rparr>) = heir pa s"
  "allocation_offset_to_address_extra i (s\<lparr>EXTRA_ALLOCATIONS := X\<rparr>) = allocation_offset_to_address_extra i s"
  by (simp_all add: wf_alloc_def ram_pages_def owners_def heir_def
      page_is_lent_cong [of "s\<lparr>EXTRA_ALLOCATIONS := X\<rparr>" s] allocation_offset_to_address_extra_def)

definition extra_addressed :: "'z Mem_scheme \<Rightarrow> bool" where
  "extra_addressed s = (\<forall>i < length (EXTRA_ALLOCATIONS s). allocation_offset_to_address_extra i s \<noteq> None)"

definition extra_heir :: "'z Mem_scheme \<Rightarrow> nat \<Rightarrow> PID option" where
  "extra_heir s i = heir (the (allocation_offset_to_address_extra i s)) s"

lemma release_extra_loop:
  assumes "extra_addressed s"
  shows "\<exists>s'. kfor [0..<length (EXTRA_ALLOCATIONS s)] (release_extra_entry pid) s = (Done (Ok ()), s')
      \<and> (\<exists>X. s' = s\<lparr>EXTRA_ALLOCATIONS := X\<rparr>
           \<and> inherited pid (extra_heir s) [0..<length (EXTRA_ALLOCATIONS s)] (EXTRA_ALLOCATIONS s) X)"
proof (rule kfor_steps [where J = "\<lambda>ds s1. \<exists>X. s1 = s\<lparr>EXTRA_ALLOCATIONS := X\<rparr>
    \<and> inherited pid (extra_heir s) ds (EXTRA_ALLOCATIONS s) X"])
  show "\<exists>X. s = s\<lparr>EXTRA_ALLOCATIONS := X\<rparr> \<and> inherited pid (extra_heir s) [] (EXTRA_ALLOCATIONS s) X"
    by (rule exI [of _ "EXTRA_ALLOCATIONS s"]) (simp add: inherited_def)
  fix ds i rest s1
  assume split: "[0..<length (EXTRA_ALLOCATIONS s)] = ds @ i # rest"
    and "\<exists>X. s1 = s\<lparr>EXTRA_ALLOCATIONS := X\<rparr> \<and> inherited pid (extra_heir s) ds (EXTRA_ALLOCATIONS s) X"
  then obtain X where X: "s1 = s\<lparr>EXTRA_ALLOCATIONS := X\<rparr>" "inherited pid (extra_heir s) ds (EXTRA_ALLOCATIONS s) X"
    by blast
  have "i \<in> set [0..<length (EXTRA_ALLOCATIONS s)]" "i \<notin> set ds"
    using split distinct_upt [of 0 "length (EXTRA_ALLOCATIONS s)"] by (simp_all only: split) auto
  then have i: "i < length (EXTRA_ALLOCATIONS s)" "i < length X" "i \<notin> set ds"
    using X(2) by (simp_all add: inherited_def)
  obtain pa where pa: "allocation_offset_to_address_extra i s = Some pa"
    using assms i(1) by (auto simp: extra_addressed_def)
  let ?X = "X[i := if X ! i = Some pid then extra_heir s i else X ! i]"
  have "release_extra_entry pid i s1 = (Done (Ok ()), s\<lparr>EXTRA_ALLOCATIONS := ?X\<rparr>)"
    using release_extra_entry_run [of i s1 pa pid] i pa
    by (simp add: X(1) set_extra_view extra_heir_def)
  moreover have "inherited pid (extra_heir s) (ds @ [i]) (EXTRA_ALLOCATIONS s) ?X"
    using i X(2) by (intro inherited_step [OF X(2)]) simp_all
  ultimately show "\<exists>s2. release_extra_entry pid i s1 = (Done (Ok ()), s2)
      \<and> (\<exists>X. s2 = s\<lparr>EXTRA_ALLOCATIONS := X\<rparr> \<and> inherited pid (extra_heir s) (ds @ [i]) (EXTRA_ALLOCATIONS s) X)"
    by blast
qed

lemma release_all_run:
  assumes "wf_alloc s" "pid \<noteq> 0" "extra_addressed s"
  obtains s' where "release_all_memory_for_process pid s = (Done (Ok ()), s')"
    "wf_alloc s'" "only_alloc s s'"
    "inherited pid (\<lambda>i. heir (ram_address i s) s) [0..<length (owners s)] (owners s) (owners s')"
    "inherited pid (extra_heir s) [0..<length (EXTRA_ALLOCATIONS s)] (EXTRA_ALLOCATIONS s) (EXTRA_ALLOCATIONS s')"
proof -
  from release_ram_loop [OF assms(1,2)] obtain s1 where
    s1: "kfor [0..<length (MEMORY_ALLOCATIONS s)] (release_ram_entry pid) s = (Done (Ok ()), s1)"
    "wf_alloc s1" "only_alloc s s1" "EXTRA_ALLOCATIONS s1 = EXTRA_ALLOCATIONS s"
    "inherited pid (\<lambda>i. heir (ram_address i s) s) [0..<length (MEMORY_ALLOCATIONS s)] (owners s) (owners s1)"
    by blast
  note same = only_alloc_same [OF s1(3)]
  have e: "allocation_offset_to_address_extra i s1 = allocation_offset_to_address_extra i s"
    "extra_heir s1 = extra_heir s" for i
    using same page_is_lent_cong [OF same(3,4)]
    by (simp_all add: allocation_offset_to_address_extra_def extra_heir_def heir_def fun_eq_iff)
  have "extra_addressed s1"
    using assms(3) s1(4) by (simp add: extra_addressed_def e)
  from release_extra_loop [OF this, of pid] obtain X where
    X: "kfor [0..<length (EXTRA_ALLOCATIONS s)] (release_extra_entry pid) s1 = (Done (Ok ()), s1\<lparr>EXTRA_ALLOCATIONS := X\<rparr>)"
    "inherited pid (extra_heir s) [0..<length (EXTRA_ALLOCATIONS s)] (EXTRA_ALLOCATIONS s) X"
    unfolding s1(4) e(2) by blast
  have "release_all_memory_for_process pid s = (Done (Ok ()), s1\<lparr>EXTRA_ALLOCATIONS := X\<rparr>)"
    unfolding release_all_memory_for_process_def using s1(1) X(1) by (simp only: kbind_Ok)
  moreover have "only_alloc s1 (s1\<lparr>EXTRA_ALLOCATIONS := X\<rparr>)"
    using only_allocI [where s = s1 and l = "last_ram_page s1" and A = "MEMORY_ALLOCATIONS s1" and X = X
        and e = "epoch s1" and u = "used_pages s1"] by simp
  ultimately show ?thesis
    using that [of "s1\<lparr>EXTRA_ALLOCATIONS := X\<rparr>"] s1 X(2) only_alloc_trans [OF s1(3)]
    by (simp add: set_extra_view)
qed


lemma demo_extra: "extra_addressed demo_spaces"
  by (auto simp: extra_addressed_def allocation_offset_to_address_extra_def demo_spaces_def demo_mem_def
      PAGE_SIZE_def less_Suc_eq numeral_3_eq_3 word_le_nat_alt)


lemma page_is_lent_eq:
  assumes "va AND 0xfff = 0"
  shows "page_is_lent va s = bit (pte_at s (active s) va) 8"
  using aligned_3 [OF assms]
  by (simp add: page_is_lent_def pagetable_entry_def active_tables pte_at_def flag_test)

text \<open>The page-table routines leave the table of the device regions alone.\<close>

lemma keeps_with_epoch:
  assumes "\<And>e. keeps (\<lambda>s. EXTRA_ALLOCATIONS s = X) (f e)"
  shows "keeps (\<lambda>s. EXTRA_ALLOCATIONS s = X) (with_epoch f)"
  using assms by (auto simp: keeps_def with_epoch_def split: outcome.splits)

lemma keeps_extra_alloc: "keeps (\<lambda>s. EXTRA_ALLOCATIONS s = X) (alloc_page_oomable pid vaddr)"
proof -
  have u: "keeps (\<lambda>s. EXTRA_ALLOCATIONS s = X) (SA_update i p v)" for i p v
    unfolding SA_update_def by (intro keeps_with_epoch keeps_modify) (simp add: Let_def)
  let ?use = "\<lambda>i. kthen (SA_update i (Some pid) vaddr)
      (kthen (modify (\<lambda>s. s\<lparr>last_ram_page := i + 1\<rparr>)) (gets (\<lambda>s. of_nat i * PAGE_SIZE + ram_start s)))"
  have "keeps (\<lambda>s. EXTRA_ALLOCATIONS s = X) (?use i)" for i
    by (intro keeps_intros u keeps_modify) simp
  note use = keepsD [OF this]
  show ?thesis
  proof (rule keepsI)
    fix s :: "'a Mem_scheme" assume "EXTRA_ALLOCATIONS s = X"
    then show "EXTRA_ALLOCATIONS (snd (alloc_page_oomable pid vaddr s)) = X"
      using use [of s] unfolding alloc_page_oomable_def Let_def
      by (simp only: if_distrib [of snd] run_simps snd_conv split: option.split if_split) simp
  qed
qed

lemma keeps_extra_write:
  "keeps (\<lambda>s. EXTRA_ALLOCATIONS s = X) (set_l1 v e)" "keeps (\<lambda>s. EXTRA_ALLOCATIONS s = X) (set_l0 v w e)"
  "keeps (\<lambda>s. EXTRA_ALLOCATIONS s = X) (zero_leaf v)" "keeps (\<lambda>s. EXTRA_ALLOCATIONS s = X) (activate m)"
  "keeps (\<lambda>s. EXTRA_ALLOCATIONS s = X) (entry_of va)" "keeps (\<lambda>s. EXTRA_ALLOCATIONS s = X) (read_entry p)"
  "keeps (\<lambda>s. EXTRA_ALLOCATIONS s = X) (write_entry p e)"
  by (simp_all add: keeps_def set_l1_def set_l0_def zero_leaf_def activate_def entry_of_def read_entry_def
      write_entry_def write_word_def)

lemma keeps_extra_map:
  "keeps (\<lambda>s. EXTRA_ALLOCATIONS s = X) (map_page_fuel n pid phys va flags user :: ('z Mem_scheme, unit) km)"
proof (induction n arbitrary: phys va flags user)
  case 0
  then show ?case
    unfolding map_page_fuel.simps by (rule keeps_pure)
next
  case (Suc n)
  have "keeps (\<lambda>s. EXTRA_ALLOCATIONS s = X) (new_leaf n pid v :: ('z Mem_scheme, unit) km)" for v
    unfolding new_leaf_def by (intro keeps_intros keeps_extra_alloc keeps_extra_write Suc.IH)
  then have l: "keeps (\<lambda>s. EXTRA_ALLOCATIONS s = X)
      (\<lambda>s :: 'z Mem_scheme. if has_leaf s (vpn1 va) then ret () s else new_leaf n pid (vpn1 va) s)"
    by (simp add: keeps_def)
  have w: "keeps (\<lambda>s. EXTRA_ALLOCATIONS s = X) (write_leaf_entry phys va flags user :: ('z Mem_scheme, unit) km)"
    by (simp add: keeps_def write_leaf_entry_def set_l0_def write_word_def)
  show ?case
    unfolding map_page_unfold by (intro keeps_intros l w)
qed

lemma keeps_extra_lend:
  "keeps (\<lambda>s. EXTRA_ALLOCATIONS s = X) (lend_page src va pid dst va' mutable)"
  unfolding lend_page_def lend_page_inner_def Let_def map_page_inner_def
  by (intro keeps_intros keeps_extra_write keeps_extra_map)

text \<open>C38. The test for lent pages looks at the wrong address: it is given the physical address of
  the page and takes it for a virtual one. A page that a client has lent is therefore set free
  when the client ends, and can be handed to any other process, while the server still has it mapped.\<close>

theorem lent_page_freed_at_exit:
  assumes "lendable R csp ca ssp sa s" and "spid \<noteq> 0" and "cpid \<noteq> 0"
    and "\<not> bit (pte_at s (root_of ssp) sa) 0"
    and "valid_at s (root_of ssp) (vpn1 sa) \<or> None \<in> set (owners s)"
    and "extra_addressed s"
  defines "phys \<equiv> pte_phys (pte_at s (root_of csp) ca)"
  assumes "page_owner s phys = Some cpid"
    and "vpn1 phys \<noteq> 1021" and "\<not> same_page phys ca" and "\<not> bit (pte_at s (root_of csp) phys) 8"
  shows "\<exists>s1 s2. lend_page csp ca spid ssp sa mutable s = (Done (Ok phys), s1)
    \<and> release_all_memory_for_process cpid s1 = (Done (Ok ()), s2)
    \<and> page_owner s2 phys = None \<and> virt_to_phys sa (s2\<lparr>satp := ssp\<rparr>) = Ok phys"
proof -
  define e where "e = pte_at s (root_of csp) ca"
  have l: "root_of csp \<noteq> root_of ssp" "root_of csp \<in> R" "root_of ssp \<in> R" "satp s = csp" "sa < USER_AREA_END"
    using assms(1) by (auto simp: lendable_def)
  obtain s1 where lend: "lend_page csp ca spid ssp sa mutable s = (Done (Ok phys), s1)"
    and s1: "wf_alloc s1" "same_rest s s1" "keeps_owners s s1"
    and ptes: "ptes_are R (\<lambda>r w. if r = root_of csp \<and> same_page w ca then lent e
        else if r = root_of ssp \<and> same_page w sa
             then leaf_pte phys (lend_flags mutable e) (spid \<noteq> 1)
        else pte_at s r w) s1"
    using lend_ok [OF assms(1,2,4,5), of mutable] unfolding e_def lend_page_def phys_def by blast
  have x: "EXTRA_ALLOCATIONS s1 = EXTRA_ALLOCATIONS s"
    using keepsD' [OF keeps_extra_lend lend, of "EXTRA_ALLOCATIONS s"] by simp
  then have "extra_addressed s1"
    using assms(6) s1(2)
    by (simp add: extra_addressed_def allocation_offset_to_address_extra_def same_rest_def)
  from release_all_run [OF s1(1) assms(3) this] obtain s2 where
    run: "release_all_memory_for_process cpid s1 = (Done (Ok ()), s2)"
    and s2: "wf_alloc s2" "only_alloc s1 s2"
    and own: "inherited cpid (\<lambda>i. heir (ram_address i s1) s1) [0..<length (owners s1)] (owners s1) (owners s2)"
    by blast
  have po: "page_owner s1 phys = Some cpid"
    using s1(3) assms(8) by (simp add: keeps_owners_def)
  then have m: "is_main_memory phys s1" "phys AND 0xfff = 0" "owners s1 ! ram_index phys s1 = Some cpid"
    by (auto simp: page_owner_def split: if_splits)
  have "active s1 = root_of csp"
    using s1(2) l(4) by (simp add: same_rest_def active_def)
  then have "\<not> page_is_lent phys s1"
    using ptes_areD [OF ptes l(2) assms(9)] assms(10,11) l(1) by (simp add: page_is_lent_eq [OF m(2)])
  then have "owners s2 ! ram_index phys s1 = None"
    using own m(3) ram_index_less [OF s1(1) m(1)] ram_address_index [OF s1(1) m(1,2)]
    by (simp add: inherited_def heir_def)
  then have "page_owner s2 phys = None"
    using m only_alloc_pages [OF s2(2)] by (simp add: page_owner_def)
  moreover have "pte_at s2 = pte_at s1"
    using spaces_frames_cong(3) [OF only_alloc_same(3) [OF s2(2)]] by (simp add: fun_eq_iff)
  then have "virt_to_phys sa (s2\<lparr>satp := ssp\<rparr>) = Ok phys"
    using ptes_areD [OF ptes l(3)] user_vpn1 [OF l(5)] l(1) leaf_pte_props m(2)
    by (simp add: virt_to_phys_eq translation_def same_page_def)
  ultimately show ?thesis
    using lend run by blast
qed

theorem lent_page_freed_at_exit_witness:
  "\<exists>s1 s2. lend_page 0x80C61000 0x60001000 4 0x81061005 0x40002000 True demo_spaces = (Done (Ok 0x61008000), s1)
    \<and> release_all_memory_for_process 3 s1 = (Done (Ok ()), s2)
    \<and> page_owner s2 0x61008000 = None \<and> virt_to_phys 0x40002000 (s2\<lparr>satp := 0x81061005\<rparr>) = Ok 0x61008000"
proof -
  have phys: "pte_phys 0x184020d7 = 0x61008000"
    by (simp add: pte_phys_def)
  have v: "vpn1 0x61008000 = 388"
    by (simp add: vpn1_def)
  have "page_owner demo_spaces 0x61008000 = Some 3"
    using demo_owners by (simp add: page_owner_def is_main_memory_def ram_index_def demo_spaces_def demo_mem_def
        PAGE_SIZE_def)
  moreover have "pte_at demo_spaces 0x61000 0x61008000 = 0"
    by (simp add: pte_at_def v demo_valid)
  ultimately show ?thesis
    using lent_page_freed_at_exit [OF demo_lendable, of "0x40002000" 4 3 True] demo_extra
    by (simp add: demo_pte demo_vpn demo_owners phys v same_page_def)
qed

end
