(* ===== verification/Kernel_State.thy ===== *)
theory Kernel_State
  imports Mem_Syscalls SysCall Server
begin

text \<open>
  The state of the whole kernel: the machine of the memory manager extended with
  \<open>SystemServices\<close> (kernel/src/services.rs), the static tables of processes and interrupt
  handlers and the static variables of the trap handler and of the system calls;
  and the per-process page of thread contexts with its operations
  (kernel/src/arch/riscv/process.rs, and \<open>invoke\<close> of kernel/src/arch/riscv/syscall.rs).
\<close>

section \<open>Threads\<close>

record Thread =
  registers :: "usize list"
  sepc :: usize

definition default_thread :: Thread where
  "default_thread = \<lparr>registers = replicate 31 0, sepc = 0\<rparr>"

text \<open>The \<open>inner\<close> part of \<open>ProcessImpl\<close> is the field \<open>process_inner\<close> of the machine.\<close>

record ProcessImpl =
  hardware_thread :: usize
  last_tid_allocated :: u8
  threads :: "Thread list"

definition MAX_THREAD :: TID where "MAX_THREAD = 31"
definition EXCEPTION_TID :: TID where "EXCEPTION_TID = 1"
definition INITIAL_TID :: TID where "INITIAL_TID = 2"
definition IRQ_TID :: TID where "IRQ_TID = 0"
definition IRQ_TID_SENTINAL :: TID where "IRQ_TID_SENTINAL = 255"
definition RETURN_FROM_ISR :: usize where "RETURN_FROM_ISR = 0xff802000"
definition EXIT_THREAD :: usize where "EXIT_THREAD = 0xff803000"
definition RETURN_FROM_EXCEPTION_HANDLER :: usize where "RETURN_FROM_EXCEPTION_HANDLER = 0xff804000"
definition RETURN_FROM_SWAPPER :: usize where "RETURN_FROM_SWAPPER = 0xff808000"
definition EXCEPTION_STACK_TOP :: usize where "EXCEPTION_STACK_TOP = 0xffff0000"
definition SWAP_STACK_TOP_VADDR :: usize where "SWAP_STACK_TOP_VADDR = 0xE8000000"

section \<open>Processes\<close>

record ExceptionHandler =
  eh_pc :: usize
  eh_sp :: usize

datatype ProcessState =
    Free
  | Allocated
  | Setup ThreadInit
  | Ready usize
  | Running usize
  | Sleeping
  | Exception usize
  | BlockedException usize

record Process =
  proc_mapping :: usize
  proc_state :: ProcessState
  proc_pid :: PID
  ppid :: PID
  current_thread :: TID
  previous_thread :: TID
  exception_handler :: "ExceptionHandler option"

definition runnable_process :: "Process \<Rightarrow> bool" where
  "runnable_process p =
     (case proc_state p of Setup _ \<Rightarrow> True | Ready _ \<Rightarrow> True | Exception _ \<Rightarrow> True | _ \<Rightarrow> False)"

definition process_free :: "Process \<Rightarrow> bool" where
  "process_free p = (proc_state p = Free)"

section \<open>The swapper's state\<close>

text \<open>
  \<open>SWAP\<close> of kernel/src/swap.rs. Its \<open>epoch\<close> and \<open>used_pages\<close> are fields of the machine of the
  memory manager; the copy of the kernel's stack is not modelled.
\<close>

datatype BlockingSwapOp =
    ReadFromSwap PID TID usize usize usize
  | WriteToFlash PID TID PID usize usize
  | BulkErase PID TID PID usize usize
  | HardOomSyscall TID PID

record Swap =
  swap_pc :: usize
  prev_op :: "BlockingSwapOp option"
  nested_op :: "BlockingSwapOp option"
  swapper_state :: usize
  swapper_args :: "usize list"
  mem_alloc_tracker_paddr :: usize
  mem_alloc_tracker_pages :: usize
  oom_irq_backing :: "usize option"
  clearmem_irq_backing :: "usize option"
  unmap_rpt_after_hard_oom :: bool
  oom_thread_backing :: "Thread option"
  oom_stashed_pid :: "PID option"

section \<open>The kernel\<close>

text \<open>
  \<open>SystemServices\<close> (\<open>processes\<close>, \<open>servers\<close>); \<open>PROCESS_TABLE.table\<close> (its \<open>current\<close> is \<open>current_pid\<close> of
  the machine); the page of thread contexts of each address space, by its ASID;
  the interrupt table, the interrupt mask register with its saved copy, and the
  other statics of kernel/src/arch/riscv/irq.rs; the statics of kernel/src/syscall.rs; the
  privilege bit of \<open>sstatus\<close>; the words the random generator will return; and the
  state of the swapper.
\<close>

type_synonym irq_handler = "PID \<times> usize \<times> usize option"

record Kernel = Mem +
  processes :: "Process list"
  servers :: "Server option list"
  PROCESS_TABLE :: "bool list"
  process_impl :: "usize \<Rightarrow> ProcessImpl"
  IRQ_HANDLERS :: "irq_handler option list"
  SIM :: usize
  SIM_BACKING :: usize
  IRQ_ENABLED :: bool
  HANDLING_IRQ :: bool
  PREVIOUS_PAIR :: "(PID \<times> TID) option"
  SWITCHTO_CALLER :: "(PID \<times> TID) option"
  ORIGINAL_PID :: u8
  ORIGINAL_TID :: usize
  NS_TOFU :: bool
  spp_supervisor :: bool
  random_words :: "nat \<Rightarrow> u32"
  SWAP :: Swap

type_synonym 'a kr = "(Kernel, 'a) km"

definition kcheck :: "(Kernel \<Rightarrow> bool) \<Rightarrow> unit kr" where
  "kcheck P s = kassert (P s) s"

definition pid_idx :: "PID \<Rightarrow> nat" where
  "pid_idx pid = unat (ucast pid - (1 :: usize))"

section \<open>The current process\<close>

definition set_current_pid :: "PID \<Rightarrow> unit kr" where
  "set_current_pid pid s =
     (let i = unat (pid - 1) in
      if i < length (PROCESS_TABLE s) \<and> PROCESS_TABLE s ! i
      then modify (\<lambda>s. s\<lparr>current_pid := pid\<rparr>) s else panic s)"

text \<open>\<open>Process::current\<close> checks that the active address space is that of the current
  process.\<close>

definition ArchProcess_current :: "PID kr" where
  "ArchProcess_current =
     kthen (kcheck (\<lambda>s. ucast (current_pid s) = drop_bit 22 (satp s) AND 0x1ff)) (gets current_pid)"

definition Process_activate :: "Process \<Rightarrow> unit kr" where
  "Process_activate p =
     kthen (set_current_pid (proc_pid p))
    (kthen (activate (proc_mapping p))
    (kthen ArchProcess_current (ret ())))"

section \<open>Thread contexts of the active process\<close>

definition impl :: "Kernel \<Rightarrow> ProcessImpl" where
  "impl s = process_impl s (inner_key s)"

definition set_impl :: "(ProcessImpl \<Rightarrow> ProcessImpl) \<Rightarrow> unit kr" where
  "set_impl f = modify (\<lambda>s. s\<lparr>process_impl := (process_impl s)(inner_key s := f (impl s))\<rparr>)"

definition fixup_irq :: "TID \<Rightarrow> TID" where
  "fixup_irq tid = (if tid = IRQ_TID_SENTINAL then 0 else tid)"

definition current_tid :: "Kernel \<Rightarrow> TID" where
  "current_tid s = hardware_thread (impl s) - 1"

definition set_tid :: "TID \<Rightarrow> unit kr" where
  "set_tid tid =
     (let tid = fixup_irq tid in
      kthen (kcheck (\<lambda>s. unat tid < length (threads (impl s))))
            (set_impl (\<lambda>p. p\<lparr>hardware_thread := tid + 1\<rparr>)))"

definition thread :: "TID \<Rightarrow> Thread kr" where
  "thread tid =
     (let tid = fixup_irq tid in
      kthen (kcheck (\<lambda>s. unat tid < length (threads (impl s))))
            (gets (\<lambda>s. threads (impl s) ! unat tid)))"

text \<open>\<open>thread_mut\<close> followed by an update of the thread.\<close>

definition thread_mut :: "TID \<Rightarrow> (Thread \<Rightarrow> Thread) \<Rightarrow> unit kr" where
  "thread_mut tid f =
     (let i = unat (fixup_irq tid) in
      kthen (kcheck (\<lambda>s. i < length (threads (impl s))))
            (set_impl (\<lambda>p. p\<lparr>threads := (threads p)[i := f (threads p ! i)]\<rparr>)))"

definition current_thread_get :: "Thread kr" where
  "current_thread_get =
     kthen (kcheck (\<lambda>s. unat (current_tid s) < length (threads (impl s))))
           (gets (\<lambda>s. threads (impl s) ! unat (current_tid s)))"

definition current_thread_mut :: "(Thread \<Rightarrow> Thread) \<Rightarrow> unit kr" where
  "current_thread_mut f =
     kthen (kcheck (\<lambda>s. hardware_thread (impl s) \<noteq> 0))
    (kthen (kcheck (\<lambda>s. unat (current_tid s) < length (threads (impl s))))
           (\<lambda>s. set_impl (\<lambda>p. p\<lparr>threads := (threads p)
              [unat (current_tid s) := f (threads p ! unat (current_tid s))]\<rparr>) s))"

definition thread_exists :: "TID \<Rightarrow> bool kr" where
  "thread_exists tid = kbind (thread (fixup_irq tid)) (\<lambda>t. ret (sepc t \<noteq> 0))"

definition find_free_thread :: "TID option kr" where
  "find_free_thread s =
     (let p = impl s; start = unat (last_tid_allocated p) in
      if start > length (threads p) then panic s
      else case find (\<lambda>tid. tid \<noteq> unat IRQ_TID \<and> tid \<noteq> unat EXCEPTION_TID \<and> sepc (threads p ! tid) = 0)
                  ([start..<length (threads p)] @ [0..<start]) of
             Some tid \<Rightarrow> kthen (set_impl (\<lambda>p. p\<lparr>last_tid_allocated := of_nat tid\<rparr>))
                              (ret (Some (of_nat tid))) s
           | None \<Rightarrow> ret None s)"

definition find_thread :: "(TID \<Rightarrow> Thread \<Rightarrow> bool) \<Rightarrow> Kernel \<Rightarrow> TID option" where
  "find_thread f s =
     map_option of_nat
       (find (\<lambda>i. sepc (threads (impl s) ! i) \<noteq> 0 \<and> f (of_nat i) (threads (impl s) ! i))
             [0..<length (threads (impl s))])"

definition write_registers :: "nat \<Rightarrow> usize list \<Rightarrow> usize list \<Rightarrow> usize list" where
  "write_registers from vals rs =
     foldl (\<lambda>rs (i, v). rs[i := v]) rs (zip [from..<length rs] vals)"

fun args_list :: "args8 \<Rightarrow> usize list" where
  "args_list (a0, a1, a2, a3, a4, a5, a6, a7) = [a0, a1, a2, a3, a4, a5, a6, a7]"

definition arch_set_thread_result :: "TID \<Rightarrow> Result \<Rightarrow> unit kr" where
  "arch_set_thread_result tid result =
     thread_mut tid (\<lambda>t. t\<lparr>registers :=
       write_registers 9 (args_list (Result_to_args result)) (registers t)\<rparr>)"

definition retry_instruction :: "TID \<Rightarrow> unit kr" where
  "retry_instruction tid =
     kthen (kcheck (\<lambda>s. unat tid < length (threads (impl s))))
           (set_impl (\<lambda>p. p\<lparr>threads := (threads p)[unat tid :=
              (let t = threads p ! unat tid in if sepc t \<ge> 4 then t\<lparr>sepc := sepc t - 4\<rparr> else t)]\<rparr>))"

section \<open>Entering a thread\<close>

definition set_supervisor :: "bool \<Rightarrow> unit kr" where
  "set_supervisor b = modify (\<lambda>s. s\<lparr>spp_supervisor := b\<rparr>)"

definition invoked :: "usize \<Rightarrow> usize \<Rightarrow> usize \<Rightarrow> usize list \<Rightarrow> Thread \<Rightarrow> Thread" where
  "invoked pc sp ret_addr args t =
     t\<lparr>registers := write_registers 9 args ((registers t)[0 := ret_addr, 1 := sp]), sepc := pc\<rparr>"

definition a0 :: "Thread \<Rightarrow> usize" where "a0 t = registers t ! 9"
definition a1 :: "Thread \<Rightarrow> usize" where "a1 t = registers t ! 10"
definition stack_pointer :: "Thread \<Rightarrow> usize" where "stack_pointer t = registers t ! 1"

definition setup_thread :: "TID \<Rightarrow> ThreadInit \<Rightarrow> unit kr" where
  "setup_thread new_tid setup =
     kbind (gets current_pid) (\<lambda>pid.
     kbind (thread new_tid) (\<lambda>_.
       let sp = addr (ti_stack setup) + rsize (ti_stack setup) in
       if sp \<le> 16 then fail BadAddress
       else kthen (set_supervisor (pid = 1))
              (thread_mut new_tid (\<lambda>t.
                 invoked (ti_call setup) ((sp - 16) AND NOT 0xf) EXIT_THREAD
                   [ti_arg1 setup, ti_arg2 setup, ti_arg3 setup, ti_arg4 setup]
                   (t\<lparr>registers := map (\<lambda>_. 0) (registers t), sepc := 0\<rparr>)))))"

definition default_inner :: ProcessInner where
  "default_inner =
     \<lparr>mem_default_base = 0x60000000, mem_default_last = 0x60000000,
      mem_message_base = 0x40000000, mem_message_last = 0x40000000,
      mem_heap_base = 0x20000000, mem_heap_size = 0, mem_heap_max = 0x80000,
      connection_map = replicate 32 None, inner_pid = 1\<rparr>"

definition initial_thread :: "ThreadInit \<Rightarrow> Thread" where
  "initial_thread i =
     \<lparr>registers = (registers default_thread)
        [1 := addr (ti_stack i) + rsize (ti_stack i), 9 := ti_arg1 i, 10 := ti_arg2 i,
         11 := ti_arg3 i, 12 := ti_arg4 i],
      sepc = ti_call i\<rparr>"

definition setup_process :: "PID \<Rightarrow> ThreadInit \<Rightarrow> unit kr" where
  "setup_process pid i =
     kbind arch_current_pid (\<lambda>hw.
     kthen (kassert (pid = hw))
    (kthen (kcheck (\<lambda>s. pid_idx pid < length (PROCESS_TABLE s)))
    (kthen (kcheck (\<lambda>s. \<not> PROCESS_TABLE s ! pid_idx pid))
    (kthen (modify (\<lambda>s. s\<lparr>PROCESS_TABLE := (PROCESS_TABLE s)[pid_idx pid := True]\<rparr>))
    (kthen (set_impl (\<lambda>p. p\<lparr>hardware_thread := INITIAL_TID + 1,
              threads := (map (\<lambda>_. default_thread) (threads p))
                           [unat INITIAL_TID := initial_thread i]\<rparr>))
    (kthen (with_inner_mut (\<lambda>_. default_inner\<lparr>inner_pid := pid\<rparr>))
    (let init_sp = addr (ti_stack i) AND NOT 0xfff in
     if init_sp \<noteq> 0
     then kthen (expect (reserve_range init_sp (rsize (ti_stack i)) (MemoryFlags_or FLAG_R FLAG_W))) (ret ())
     else ret ())))))))"

definition arch_destroy_thread :: "TID \<Rightarrow> usize kr" where
  "arch_destroy_thread tid =
     kbind (thread tid) (\<lambda>t.
       if sepc t = 0 \<or> tid = IRQ_TID then fail ThreadNotAvailable
       else kthen (thread_mut tid (\<lambda>t. t\<lparr>registers := map (\<lambda>_. 0) (registers t), sepc := 0\<rparr>))
                  (ret (a0 t)))"

definition ArchProcess_destroy :: "PID \<Rightarrow> unit kr" where
  "ArchProcess_destroy pid =
     kthen (kcheck (\<lambda>s. pid_idx pid < length (PROCESS_TABLE s)))
           (modify (\<lambda>s. s\<lparr>PROCESS_TABLE := (PROCESS_TABLE s)[pid_idx pid := False]\<rparr>))"

end
