(* ===== verification/Irq.thy ===== *)
theory Irq
  imports Kernel_State
begin

text \<open>
  The table of interrupt handlers (kernel/src/irq.rs) and the interrupt mask
  (kernel/src/arch/riscv/irq.rs). The mask register holds the enabled interrupts; while
  interrupts are off it is zero and the enabled ones are in \<open>SIM_BACKING\<close>.
\<close>

section \<open>The mask\<close>

definition disable_all_irqs :: "unit kr" where
  "disable_all_irqs = modify (\<lambda>s. s\<lparr>SIM_BACKING := SIM s, IRQ_ENABLED := False, SIM := 0\<rparr>)"

definition enable_all_irqs :: "unit kr" where
  "enable_all_irqs = modify (\<lambda>s. s\<lparr>IRQ_ENABLED := True, SIM := SIM_BACKING s\<rparr>)"

definition enable_irq :: "usize \<Rightarrow> unit kr" where
  "enable_irq irq_no = modify (\<lambda>s.
     if IRQ_ENABLED s then s\<lparr>SIM := SIM s OR thread_bit irq_no\<rparr>
     else s\<lparr>SIM_BACKING := SIM_BACKING s OR thread_bit irq_no\<rparr>)"

definition disable_irq :: "usize \<Rightarrow> unit kr" where
  "disable_irq irq_no = modify (\<lambda>s.
     if IRQ_ENABLED s then s\<lparr>SIM := SIM s AND NOT (thread_bit irq_no)\<rparr>
     else s\<lparr>SIM_BACKING := SIM_BACKING s AND NOT (thread_bit irq_no)\<rparr>)"

section \<open>The handlers\<close>

definition interrupt_claim :: "usize \<Rightarrow> PID \<Rightarrow> usize \<Rightarrow> usize option \<Rightarrow> unit kr" where
  "interrupt_claim irq pid f arg s =
     (if unat irq \<ge> length (IRQ_HANDLERS s) then fail InterruptNotFound s
      else if IRQ_HANDLERS s ! unat irq \<noteq> None then fail InterruptInUse s
      else kthen (modify (\<lambda>s. s\<lparr>IRQ_HANDLERS := (IRQ_HANDLERS s)[unat irq := Some (pid, f, arg)]\<rparr>))
                 (enable_irq irq) s)"

text \<open>The bound is tested with \<open>>\<close>; the index that follows panics on the length itself.\<close>

definition interrupt_free :: "usize \<Rightarrow> PID \<Rightarrow> unit kr" where
  "interrupt_free irq pid s =
     (if unat irq > length (IRQ_HANDLERS s) then fail InterruptNotFound s
      else if unat irq = length (IRQ_HANDLERS s) then panic s
      else if \<not> (case IRQ_HANDLERS s ! unat irq of Some (p, _) \<Rightarrow> p = pid | None \<Rightarrow> False)
      then fail InterruptNotFound s
      else kthen (disable_irq irq)
             (modify (\<lambda>s. s\<lparr>IRQ_HANDLERS := (IRQ_HANDLERS s)[unat irq := None]\<rparr>)) s)"

definition release_interrupt :: "PID \<Rightarrow> nat \<Rightarrow> unit kr" where
  "release_interrupt pid irq s =
     (case IRQ_HANDLERS s ! irq of
        Some (p, _) \<Rightarrow>
          if p = pid
          then kthen (disable_irq (of_nat irq))
                 (modify (\<lambda>s. s\<lparr>IRQ_HANDLERS := (IRQ_HANDLERS s)[irq := None]\<rparr>)) s
          else ret () s
      | None \<Rightarrow> ret () s)"

definition release_interrupts_for_pid :: "PID \<Rightarrow> unit kr" where
  "release_interrupts_for_pid pid s =
     kfor [0..<length (IRQ_HANDLERS s)] (release_interrupt pid) s"

end
