(* ===== verification/Scheduler.thy ===== *)
theory Scheduler
  imports Irq
begin

text \<open>
  The process table and the scheduler of kernel/src/services.rs: looking processes up,
  waking and blocking threads, switching between threads and processes, callbacks
  into user space, exception handlers, and the life of a thread. The debugger states
  belong to a feature that is off on this board.
\<close>

section \<open>The process table\<close>

definition get_process :: "PID \<Rightarrow> Process kr" where
  "get_process pid s =
     (if pid_idx pid \<ge> length (processes s) then fail ProcessNotFound s
      else let p = processes s ! pid_idx pid in
           if get_pid (proc_mapping p) \<noteq> Some pid then fail ProcessNotFound s
           else if proc_state p = Free then fail ProcessNotFound s
           else ret p s)"

text \<open>An assignment to fields of the process that \<open>get_process_mut\<close> returned.\<close>

definition set_process :: "PID \<Rightarrow> (Process \<Rightarrow> Process) \<Rightarrow> unit kr" where
  "set_process pid f = modify (\<lambda>s.
     s\<lparr>processes := (processes s)[pid_idx pid := f (processes s ! pid_idx pid)]\<rparr>)"

abbreviation set_state :: "PID \<Rightarrow> ProcessState \<Rightarrow> unit kr" where
  "set_state pid st \<equiv> set_process pid (\<lambda>p. p\<lparr>proc_state := st\<rparr>)"

definition set_current_thread :: "PID \<Rightarrow> TID \<Rightarrow> unit kr" where
  "set_current_thread pid tid = set_process pid (\<lambda>p. p\<lparr>current_thread := tid\<rparr>)"

definition server_from_sidx :: "usize \<Rightarrow> Kernel \<Rightarrow> Server option" where
  "server_from_sidx sidx s =
     (if unat sidx \<ge> length (servers s) then None else servers s ! unat sidx)"

text \<open>A method call on the server that \<open>server_from_sidx_mut(..).expect(..)\<close> returned.\<close>

definition on_server :: "usize \<Rightarrow> (Server \<Rightarrow> (Error, 'a \<times> Server) outcome) \<Rightarrow> 'a kr" where
  "on_server sidx f s =
     (case server_from_sidx sidx s of
        None \<Rightarrow> panic s
      | Some srv \<Rightarrow>
          (case f srv of
             Ok (x, srv') \<Rightarrow> (Done (Ok x), s\<lparr>servers := (servers s)[unat sidx := Some srv']\<rparr>)
           | Err e \<Rightarrow> fail e s
           | Panic \<Rightarrow> panic s))"

section \<open>Choosing a thread\<close>

definition MULTIPLY_DEBRUIJN_BIT_POSITION :: "usize list" where
  "MULTIPLY_DEBRUIJN_BIT_POSITION =
     [0, 1, 28, 2, 29, 14, 24, 3, 30, 22, 20, 15, 25, 17, 4, 8, 31, 27, 13, 23, 21, 19, 16, 7, 26,
      12, 18, 6, 11, 5, 10, 9]"

definition trailing_zeros :: "usize \<Rightarrow> usize" where
  "trailing_zeros v =
     MULTIPLY_DEBRUIJN_BIT_POSITION ! unat (drop_bit 27 ((NOT (v - 1) AND v) * 0x077CB531))"

definition find_next_thread :: "usize \<Rightarrow> usize \<Rightarrow> (Error, usize) outcome" where
  "find_next_thread thread_mask current =
     (if thread_mask = 0 then Panic
      else if thread_mask AND (thread_mask - 1) = 0 then Ok (trailing_zeros thread_mask)
      else let upper_bits = thread_mask AND NOT (push_bit (unat (current AND 31)) 2 - 1) in
           if upper_bits \<noteq> 0 then Ok (trailing_zeros upper_bits)
           else Ok (trailing_zeros thread_mask))"

section \<open>Waking and blocking threads\<close>

definition runnable :: "PID \<Rightarrow> TID option \<Rightarrow> bool kr" where
  "runnable pid tid =
     kbind (get_process pid) (\<lambda>p.
       ret (case tid of
              Some tid \<Rightarrow>
                (case proc_state p of
                   Running x \<Rightarrow> tid = current_thread p \<or> x AND thread_bit tid \<noteq> 0
                 | Ready x \<Rightarrow> x AND thread_bit tid \<noteq> 0
                 | Sleeping \<Rightarrow> True
                 | _ \<Rightarrow> False)
            | None \<Rightarrow>
                (case proc_state p of Running _ \<Rightarrow> True | Ready _ \<Rightarrow> True | Sleeping \<Rightarrow> True | _ \<Rightarrow> False)))"

definition woken :: "TID \<Rightarrow> ProcessState \<Rightarrow> ProcessState option" where
  "woken tid st =
     (case st of
        Running x \<Rightarrow> if x AND thread_bit tid = 0 then Some (Running (x OR thread_bit tid)) else None
      | Ready x \<Rightarrow> if x AND thread_bit tid = 0 then Some (Ready (x OR thread_bit tid)) else None
      | Sleeping \<Rightarrow> Some (Ready (thread_bit tid))
      | Exception x \<Rightarrow> Some (Exception x)
      | BlockedException x \<Rightarrow> Some (Exception x)
      | _ \<Rightarrow> None)"

definition ready_thread :: "PID \<Rightarrow> TID \<Rightarrow> unit kr" where
  "ready_thread pid tid =
     kbind (get_process pid) (\<lambda>p.
       case woken tid (proc_state p) of Some st \<Rightarrow> set_state pid st | None \<Rightarrow> panic)"

definition set_last_thread :: "PID \<Rightarrow> TID \<Rightarrow> unit kr" where
  "set_last_thread pid tid =
     kbind (get_process pid) (\<lambda>p.
       case proc_state p of
         Ready x \<Rightarrow> if x AND thread_bit tid \<noteq> 0 then set_current_thread pid tid
                    else fail ThreadNotAvailable
       | Sleeping \<Rightarrow> fail ThreadNotAvailable
       | Running _ \<Rightarrow> panic
       | _ \<Rightarrow> fail ProcessNotFound)"

definition unschedule_thread :: "PID \<Rightarrow> TID \<Rightarrow> unit kr" where
  "unschedule_thread pid tid =
     kbind (get_process pid) (\<lambda>p.
       case proc_state p of
         Running x \<Rightarrow> if x AND thread_bit tid \<noteq> 0 then panic
                      else set_state pid (if x = 0 then Sleeping else Ready x)
       | Exception x \<Rightarrow> set_state pid (BlockedException x)
       | _ \<Rightarrow> panic)"

text \<open>\<open>thread_is_running\<close> panics instead of returning false.\<close>

definition thread_is_running :: "PID \<Rightarrow> TID \<Rightarrow> unit kr" where
  "thread_is_running pid tid =
     kbind (expect (get_process pid)) (\<lambda>p.
       case proc_state p of
         Running x \<Rightarrow> if x AND thread_bit tid = 0 then ret () else panic
       | _ \<Rightarrow> panic)"

definition set_thread_result :: "PID \<Rightarrow> TID \<Rightarrow> Result \<Rightarrow> unit kr" where
  "set_thread_result pid tid result =
     kbind (gets current_pid) (\<lambda>cur.
       if cur = pid then kthen ArchProcess_current (arch_set_thread_result tid result)
       else kbind (get_process pid) (\<lambda>target.
            kthen (Process_activate target)
           (kthen ArchProcess_current
           (kthen (arch_set_thread_result tid result)
           (kbind (expect (get_process cur)) Process_activate)))))"

section \<open>Switching threads\<close>

definition chosen_thread :: "TID option \<Rightarrow> usize \<Rightarrow> TID \<Rightarrow> TID kr" where
  "chosen_thread tid ready current =
     (case tid of Some t \<Rightarrow> ret t | None \<Rightarrow> lift (find_next_thread ready current))"

definition enter_thread :: "TID \<Rightarrow> unit kr" where
  "enter_thread tid = kthen ArchProcess_current (set_tid tid)"

definition switch_to_thread :: "PID \<Rightarrow> TID option \<Rightarrow> unit kr" where
  "switch_to_thread pid tid =
     kbind (get_process pid) (\<lambda>p.
       case proc_state p of
         Free \<Rightarrow> fail ProcessNotFound
       | Sleeping \<Rightarrow> fail ProcessNotFound
       | Allocated \<Rightarrow> fail ProcessNotFound
       | BlockedException _ \<Rightarrow> panic
       | Exception x \<Rightarrow>
           kthen (Process_activate p) (enter_thread EXCEPTION_TID)
       | Setup setup \<Rightarrow>
           kthen (Process_activate p)
          (kthen (kassert (case tid of Some t \<Rightarrow> t = INITIAL_TID | None \<Rightarrow> True))
          (kthen ArchProcess_current
          (kthen (setup_thread INITIAL_TID setup)
          (kthen (set_tid INITIAL_TID)
          (kthen (with_inner_mut (\<lambda>i. i\<lparr>inner_pid := pid\<rparr>))
                 (set_process pid (\<lambda>p. p\<lparr>current_thread := INITIAL_TID, proc_state := Running 0\<rparr>)))))))
       | Ready ready \<Rightarrow>
           if ready = 0 then panic
           else kbind (chosen_thread tid ready (current_thread p)) (\<lambda>new.
                kthen (kassert (ready AND thread_bit new \<noteq> 0))
               (kthen (Process_activate p)
               (kthen (enter_thread new)
                      (set_process pid (\<lambda>p. p\<lparr>current_thread := new,
                         proc_state := Running (ready AND NOT (thread_bit new))\<rparr>)))))
       | Running others \<Rightarrow>
           let ready = others OR thread_bit (current_thread p) in
           kbind (chosen_thread tid ready (current_thread p)) (\<lambda>new.
             if ready AND thread_bit new = 0 then fail InvalidThread
             else kthen (enter_thread new)
                        (set_process pid (\<lambda>p. p\<lparr>current_thread := new,
                           proc_state := Running (ready AND NOT (thread_bit new))\<rparr>))))"

section \<open>Switching processes\<close>

datatype PostActivateOp =
    PA_None
  | SetThreadResult Result
  | RememberServerMessage usize PID TID Message "usize option"

text \<open>The slot the message was remembered in, or the thread.\<close>

definition post_activate :: "PostActivateOp \<Rightarrow> TID \<Rightarrow> usize option kr" where
  "post_activate op new_tid =
     (case op of
        RememberServerMessage sidx pid tid message client_address \<Rightarrow>
          kbind (on_server sidx (queue_response pid tid message client_address)) (\<lambda>si.
          ret (Some (of_nat si)))
      | SetThreadResult result \<Rightarrow>
          kthen ArchProcess_current (kthen (arch_set_thread_result new_tid result) (ret None))
      | PA_None \<Rightarrow> ret None)"

text \<open>Deciding which thread of the new process is to run.\<close>

definition resolve_thread :: "PID \<Rightarrow> TID \<Rightarrow> TID kr" where
  "resolve_thread new_pid new_tid =
     kbind (get_process new_pid) (\<lambda>new.
       case proc_state new of
         Free \<Rightarrow> fail ProcessNotFound
       | Setup _ \<Rightarrow> ret INITIAL_TID
       | Allocated \<Rightarrow> ret INITIAL_TID
       | Exception _ \<Rightarrow> ret EXCEPTION_TID
       | Ready x \<Rightarrow>
           kthen (kassert (x \<noteq> 0))
          (kbind (if new_tid = 0 then lift (find_next_thread x (current_thread new)) else ret new_tid) (\<lambda>t.
             if x AND thread_bit t = 0 then fail ProcessNotFound
             else kthen (set_current_thread new_pid t) (ret t)))
       | Running _ \<Rightarrow> panic
       | Sleeping \<Rightarrow> fail ProcessNotFound
       | BlockedException _ \<Rightarrow> fail ProcessNotFound)"

text \<open>Activating its memory and making it the running process.\<close>

definition enter_process :: "PID \<Rightarrow> TID \<Rightarrow> unit kr" where
  "enter_process new_pid new_tid =
     kbind (get_process new_pid) (\<lambda>new.
     kthen (activate (proc_mapping new))
    (kthen
       (case proc_state new of
          Setup thread_init \<Rightarrow>
            kthen (expect (setup_process new_pid thread_init))
           (kthen (with_inner_mut (\<lambda>i. i\<lparr>inner_pid := new_pid\<rparr>))
                  (set_state new_pid (Running 0)))
        | Allocated \<Rightarrow>
            kthen (with_inner_mut (\<lambda>i. i\<lparr>inner_pid := new_pid\<rparr>))
                  (set_state new_pid (Running 0))
        | Free \<Rightarrow> panic
        | Ready x \<Rightarrow> set_state new_pid (Running (x AND NOT (thread_bit new_tid)))
        | Running x \<Rightarrow> set_state new_pid (Running (x AND NOT (thread_bit new_tid)))
        | Sleeping \<Rightarrow> set_state new_pid (Running 0)
        | Exception x \<Rightarrow> ret ()
        | BlockedException _ \<Rightarrow> panic)
       (kbind (get_process new_pid) Process_activate)))"

text \<open>What becomes of the process that was running.\<close>

definition left_state :: "TID \<Rightarrow> bool \<Rightarrow> ProcessState \<Rightarrow> ProcessState option" where
  "left_state previous_tid can_resume st =
     (case st of
        Running x \<Rightarrow>
          if x = 0 then Some (if can_resume then Ready (thread_bit previous_tid) else Sleeping)
          else Some (Ready (if can_resume then x OR thread_bit previous_tid else x))
      | Exception x \<Rightarrow> Some (if can_resume then Exception x else BlockedException x)
      | _ \<Rightarrow> None)"

definition leave_process :: "PID \<Rightarrow> TID \<Rightarrow> bool \<Rightarrow> unit kr" where
  "leave_process previous_pid previous_tid can_resume =
     kbind (expect (get_process previous_pid)) (\<lambda>previous.
     kthen (set_current_thread previous_pid previous_tid)
       (case left_state previous_tid can_resume (proc_state previous) of
          Some st \<Rightarrow> set_state previous_pid st
        | None \<Rightarrow> panic))"

definition switch_process :: "TID \<Rightarrow> PID \<Rightarrow> TID \<Rightarrow> bool \<Rightarrow> PostActivateOp \<Rightarrow> TID kr" where
  "switch_process previous_tid new_pid new_tid can_resume op =
     kbind (gets current_pid) (\<lambda>previous_pid.
     kbind (resolve_thread new_pid new_tid) (\<lambda>new_tid.
     kthen (enter_process new_pid new_tid)
    (kbind (post_activate op new_tid) (\<lambda>sender_idx.
     kthen (leave_process previous_pid previous_tid can_resume)
    (kthen (enter_thread new_tid)
     (ret (case sender_idx of Some si \<Rightarrow> si | None \<Rightarrow> new_tid)))))))"

text \<open>The other thread is of the process that runs already.\<close>

definition switch_own_thread :: "TID \<Rightarrow> PID \<Rightarrow> TID \<Rightarrow> bool \<Rightarrow> PostActivateOp \<Rightarrow> TID kr" where
  "switch_own_thread previous_tid new_pid new_tid can_resume op =
     kbind (post_activate op new_tid) (\<lambda>sender_idx.
     kbind (get_process new_pid) (\<lambda>new.
       if previous_tid = new_tid
       then kthen (kassert can_resume)
           (kthen ArchProcess_current
           (kthen (expect (set_tid new_tid))
           (kthen (set_current_thread new_pid new_tid) (ret new_tid))))
       else case proc_state new of
              Running x \<Rightarrow>
                kthen (kassert (x AND thread_bit (current_thread new) = 0))
               (let x = x OR (if can_resume then thread_bit (current_thread new) else 0) in
                kbind (if new_tid = 0 then lift (find_next_thread x (current_thread new))
                       else ret new_tid) (\<lambda>t.
                  if x AND thread_bit t = 0 then fail ThreadNotAvailable
                  else kthen (set_process new_pid (\<lambda>p. p\<lparr>current_thread := t,
                                proc_state := Running (x AND NOT (thread_bit t))\<rparr>))
                      (kthen (enter_thread t)
                      (ret (case sender_idx of Some si \<Rightarrow> si | None \<Rightarrow> t)))))
            | _ \<Rightarrow> panic))"

definition activate_process_thread ::
  "TID \<Rightarrow> PID \<Rightarrow> TID \<Rightarrow> bool \<Rightarrow> PostActivateOp \<Rightarrow> TID kr" where
  "activate_process_thread previous_tid new_pid new_tid can_resume op =
     kbind (gets current_pid) (\<lambda>previous_pid.
       if new_pid \<noteq> previous_pid
       then switch_process previous_tid new_pid new_tid can_resume op
       else switch_own_thread previous_tid new_pid new_tid can_resume op)"

section \<open>Callbacks into user space\<close>

datatype CallbackType =
    CB_Interrupt usize usize
  | CB_Swap "usize list"
  | CB_SwapInIrq "usize list"

text \<open>The process that ran a callback stops running.\<close>

definition finish_swap :: "unit kr" where
  "finish_swap =
     kbind (gets current_pid) (\<lambda>cur.
     kbind (expect (get_process cur)) (\<lambda>p.
       case proc_state p of
         Running x \<Rightarrow> set_state cur (if x = 0 then Sleeping else Ready x)
       | _ \<Rightarrow> panic))"

definition swap_resume_to_userspace :: "PID \<Rightarrow> TID \<Rightarrow> unit kr" where
  "swap_resume_to_userspace pid tid =
     kbind (get_process pid) (\<lambda>p.
       case proc_state p of
         Ready x \<Rightarrow> if x AND thread_bit tid \<noteq> 0
                    then set_state pid (Running (x AND NOT (thread_bit tid))) else panic
       | _ \<Rightarrow> panic)"

definition finish_callback_and_resume :: "PID \<Rightarrow> TID \<Rightarrow> unit kr" where
  "finish_callback_and_resume pid tid =
     kthen finish_swap
    (kthen (swap_resume_to_userspace pid tid)
    (kbind (get_process pid) (\<lambda>p.
     kthen (activate (proc_mapping p))
    (kthen (Process_activate p)
    (kthen (enter_thread tid)
           (set_current_thread pid tid))))))"

text \<open>The interrupted process is marked ready, except for a fault inside a handler.\<close>

definition pause_current :: "unit kr" where
  "pause_current =
     kbind (gets current_pid) (\<lambda>cur.
     kbind (expect (get_process cur)) (\<lambda>p.
     kbind (gets current_tid) (\<lambda>hw.
       let ct = (if current_thread p = 0 then hw else current_thread p) in
       kthen (set_current_thread cur ct)
         (case proc_state p of
            Running x \<Rightarrow> set_state cur (Ready (x OR thread_bit ct))
          | _ \<Rightarrow> panic))))"

definition callback_threads :: "ProcessState \<Rightarrow> usize option" where
  "callback_threads st =
     (case st of
        Ready x \<Rightarrow> Some x
      | Running x \<Rightarrow> Some x
      | Exception x \<Rightarrow> Some x
      | Sleeping \<Rightarrow> Some 0
      | BlockedException _ \<Rightarrow> Some 0
      | _ \<Rightarrow> None)"

definition callback_frame :: "PID \<Rightarrow> usize \<Rightarrow> CallbackType \<Rightarrow> unit kr" where
  "callback_frame pid pc cb =
     kthen ArchProcess_current
    (kbind (if pid = 1 then ret EXCEPTION_STACK_TOP
            else case cb of
                   CB_Interrupt _ _ \<Rightarrow> kbind current_thread_get (\<lambda>t. ret (stack_pointer t))
                 | _ \<Rightarrow> ret SWAP_STACK_TOP_VADDR) (\<lambda>sp.
     kthen (expect (set_tid IRQ_TID))
    (kthen (set_supervisor (pid = 1))
      (case cb of
         CB_Interrupt irq_no arg \<Rightarrow>
           current_thread_mut (invoked pc sp RETURN_FROM_ISR [irq_no, arg])
       | CB_Swap args \<Rightarrow> current_thread_mut (invoked pc sp RETURN_FROM_SWAPPER args)
       | CB_SwapInIrq args \<Rightarrow> current_thread_mut (invoked pc sp RETURN_FROM_SWAPPER args)))))"

definition make_callback_to :: "PID \<Rightarrow> usize \<Rightarrow> CallbackType \<Rightarrow> unit kr" where
  "make_callback_to pid pc cb =
     kthen (case cb of CB_SwapInIrq _ \<Rightarrow> ret () | _ \<Rightarrow> pause_current)
    (kbind (get_process pid) (\<lambda>p.
       case callback_threads (proc_state p) of
         None \<Rightarrow> panic
       | Some available \<Rightarrow>
           kthen (set_process pid (\<lambda>p. p\<lparr>proc_state := Running available,
              previous_thread := (if current_thread p \<noteq> IRQ_TID then current_thread p
                                  else previous_thread p),
              current_thread := IRQ_TID\<rparr>))
          (kthen (activate (proc_mapping p))
          (kthen (Process_activate p)
                 (callback_frame pid pc cb)))))"

section \<open>Exception handlers\<close>

text \<open>Failing to find a process or a handler is \<open>None\<close>, not an error.\<close>

definition begin_exception_handler :: "PID \<Rightarrow> ExceptionHandler option kr" where
  "begin_exception_handler pid =
     kmatch (get_process pid) (\<lambda>r. case r of
         Inl e \<Rightarrow> ret None
       | Inr p \<Rightarrow>
           (case exception_handler p of
              None \<Rightarrow> ret None
            | Some handler \<Rightarrow>
                (case (case proc_state p of
                         Running x \<Rightarrow> Some (Exception (x OR thread_bit (current_thread p)))
                       | Ready x \<Rightarrow> Some (Exception x)
                       | _ \<Rightarrow> None) of
                   None \<Rightarrow> ret None
                 | Some st \<Rightarrow>
                     kthen (set_process pid (\<lambda>p. p\<lparr>proc_state := st,
                        previous_thread := current_thread p, current_thread := EXCEPTION_TID\<rparr>))
                    (kmatch (enter_thread EXCEPTION_TID) (\<lambda>r. case r of
                        Inl e \<Rightarrow> ret None
                      | Inr _ \<Rightarrow> ret (Some handler))))))"

definition finish_exception_handler_and_resume :: "PID \<Rightarrow> unit kr" where
  "finish_exception_handler_and_resume pid =
     kbind (get_process pid) (\<lambda>p.
       case proc_state p of
         Exception x \<Rightarrow>
           kthen (kassert (x AND thread_bit (previous_thread p) \<noteq> 0))
          (kthen (set_process pid (\<lambda>p. p\<lparr>
              proc_state := Running (x AND NOT (thread_bit (previous_thread p))),
              current_thread := previous_thread p\<rparr>))
                 (enter_thread (previous_thread p)))
       | _ \<Rightarrow> fail ThreadNotAvailable)"

section \<open>Threads\<close>

definition create_thread :: "PID \<Rightarrow> ThreadInit \<Rightarrow> TID kr" where
  "create_thread pid thread_init =
     kbind (get_process pid) (\<lambda>p.
     kthen (Process_activate p)
    (kthen ArchProcess_current
    (kbind find_free_thread (\<lambda>free.
     kbind (lift (ok_or free ThreadNotAvailable)) (\<lambda>new_tid.
     kthen (setup_thread new_tid thread_init)
       (case proc_state p of
          Running x \<Rightarrow> kthen (set_state pid (Running (x OR thread_bit new_tid))) (ret new_tid)
        | Allocated \<Rightarrow>
            kthen (with_inner_mut (\<lambda>i. i\<lparr>inner_pid := pid\<rparr>))
           (kthen (set_state pid (Ready (thread_bit new_tid))) (ret new_tid))
        | _ \<Rightarrow> panic))))))"

definition destroy_thread :: "PID \<Rightarrow> TID \<Rightarrow> bool kr" where
  "destroy_thread pid tid =
     kthen (kcheck (\<lambda>s. current_pid s = pid))
    (kbind (get_process pid) (\<lambda>p.
       case proc_state p of
         Running waiting \<Rightarrow>
           kthen ArchProcess_current
          (kbind (kmatch (arch_destroy_thread tid)
                    (\<lambda>r. ret (case r of Inl _ \<Rightarrow> 0 | Inr v \<Rightarrow> v))) (\<lambda>return_value.
           kbind (gets (find_thread (\<lambda>waiting_tid thr.
                     waiting AND thread_bit waiting_tid = 0
                     \<and> a0 thr = SysCallNumber_as_usize Num_JoinThread \<and> a1 thr = tid))) (\<lambda>joiner.
           kbind (case joiner of
                    Some waiting_tid \<Rightarrow>
                      kthen (set_thread_result pid waiting_tid (Res_Scalar1 return_value))
                            (ret (waiting OR thread_bit waiting_tid))
                  | None \<Rightarrow> ret waiting) (\<lambda>waiting_threads.
           kbind (get_process pid) (\<lambda>p.
             let new_pid = (if waiting_threads = 0 then ppid p else pid) in
             kthen (set_state pid (if waiting_threads = 0 then Sleeping else Ready waiting_threads))
            (kthen (switch_to_thread new_pid None)
                   (ret (new_pid \<noteq> pid))))))))
       | _ \<Rightarrow> panic))"

definition or_process_not_found :: "'a kr \<Rightarrow> Result kr" where
  "or_process_not_found m =
     kmatch m (\<lambda>r. case r of Inl _ \<Rightarrow> fail ProcessNotFound | Inr _ \<Rightarrow> ret Res_ResumeProcess)"

definition join_thread :: "PID \<Rightarrow> TID \<Rightarrow> TID \<Rightarrow> Result kr" where
  "join_thread pid tid join_tid =
     kthen (kcheck (\<lambda>s. current_pid s = pid))
       (if tid = join_tid then fail ThreadNotAvailable
        else kthen ArchProcess_current
            (kbind (thread_exists join_tid) (\<lambda>there.
               if there
               then kbind (expect (get_process pid)) (\<lambda>p.
                    or_process_not_found (activate_process_thread tid (ppid p) 0 False PA_None))
               else ret (Res_Scalar1 0))))"

end
