(* ===== verification/Services.thy ===== *)
theory Services
  imports Scheduler
begin

text \<open>
  The rest of \<open>SystemServices\<close> (kernel/src/services.rs): memory moved or lent with a
  message, servers and the connections to them, and the end of a process; with
  \<open>Server::destroy\<close> of kernel/src/server.rs, which answers the clients of a server.
  A server's queue lies in a page of its process. The kernel activates that address
  space before it touches the queue; the model keeps the queue in the server
  itself and performs the activations.
\<close>

section \<open>Memory that travels with a message\<close>

definition page_offsets :: "usize \<Rightarrow> usize list" where
  "page_offsets len = map (\<lambda>i. of_nat (i * 4096)) [0..<unat len div 4096]"

definition misaligned :: "usize \<Rightarrow> bool" where
  "misaligned x = (x AND 0xfff \<noteq> 0)"

text \<open>The last error of the loop is remembered, the loop goes on.\<close>

primrec transfer_pages ::
  "(usize \<Rightarrow> unit kr) \<Rightarrow> (usize \<Rightarrow> 'a kr) \<Rightarrow> usize list \<Rightarrow> Error option \<Rightarrow> Error option kr" where
  "transfer_pages pre f [] error = ret error"
| "transfer_pages pre f (x # xs) error =
     kthen (pre x)
       (kmatch (f x) (\<lambda>r. transfer_pages pre f xs (case r of Inl e \<Rightarrow> Some e | Inr _ \<Rightarrow> error)))"

definition find_message_address :: "usize \<Rightarrow> usize \<Rightarrow> usize \<Rightarrow> usize \<Rightarrow> usize kr" where
  "find_message_address src_mapping dest_mapping dest_virt len =
     kthen (activate dest_mapping)
       (kmatch (find_virtual_address dest_virt len MT_Messages) (\<lambda>r.
          kthen (activate src_mapping)
            (case r of Inl e \<Rightarrow> fail e | Inr virt \<Rightarrow> ret virt)))"

definition ensure_pages :: "usize \<Rightarrow> usize \<Rightarrow> unit kr" where
  "ensure_pages virt len = kfor (page_offsets len) (\<lambda>off. ensure_page_exists (virt + off))"

definition ensure_aligned :: "usize \<Rightarrow> usize \<Rightarrow> usize \<Rightarrow> unit kr" where
  "ensure_aligned src_virt dest_virt off =
     kthen (kassert ((src_virt + off) AND 0xfff = 0))
    (kthen (kassert ((dest_virt + off) AND 0xfff = 0))
           (ensure_page_exists (src_virt + off)))"

definition or_panic :: "usize \<Rightarrow> Error option \<Rightarrow> usize kr" where
  "or_panic virt error = (case error of None \<Rightarrow> ret virt | Some _ \<Rightarrow> panic)"

definition send_memory :: "usize \<Rightarrow> PID \<Rightarrow> usize \<Rightarrow> usize \<Rightarrow> usize kr" where
  "send_memory src_virt dest_pid dest_virt len =
     (if len = 0 then fail BadAddress
      else if misaligned len then fail BadAddress
      else if misaligned src_virt then fail BadAddress
      else if misaligned dest_virt then fail BadAddress
      else if saturating_add dest_virt len > USER_AREA_END then fail BadAddress
      else kbind (gets current_pid) (\<lambda>cur.
        if cur = dest_pid then kthen (ensure_pages src_virt len) (ret src_virt)
        else kbind (get_process cur) (\<lambda>src.
             kbind (get_process dest_pid) (\<lambda>dest.
             kbind (find_message_address (proc_mapping src) (proc_mapping dest) dest_virt len) (\<lambda>virt.
             kbind (transfer_pages (ensure_aligned src_virt virt)
                      (\<lambda>off. move_page cur (proc_mapping src) (src_virt + off)
                               dest_pid (proc_mapping dest) (virt + off))
                      (page_offsets len) None)
               (or_panic virt))))))"

definition lend_memory :: "usize \<Rightarrow> PID \<Rightarrow> usize \<Rightarrow> usize \<Rightarrow> bool \<Rightarrow> usize kr" where
  "lend_memory src_virt dest_pid dest_virt len mutable =
     (if len = 0 then fail BadAddress
      else if misaligned len then fail BadAlignment
      else if misaligned src_virt then fail BadAlignment
      else if misaligned dest_virt then fail BadAlignment
      else kbind (gets current_pid) (\<lambda>cur.
        if cur = dest_pid
        then kthen (kfor (page_offsets len) (\<lambda>off.
                      kthen (kassert ((src_virt + off) AND 0xfff = 0)) (ensure_page_exists (src_virt + off))))
                   (ret src_virt)
        else kbind (get_process cur) (\<lambda>src.
             kbind (get_process dest_pid) (\<lambda>dest.
             kbind (find_message_address (proc_mapping src) (proc_mapping dest) dest_virt len) (\<lambda>virt.
             kbind (transfer_pages (ensure_aligned src_virt virt)
                      (\<lambda>off. lend_page (proc_mapping src) (src_virt + off)
                               dest_pid (proc_mapping dest) (virt + off) mutable)
                      (page_offsets len) None)
               (or_panic virt))))))"

definition return_memory :: "usize \<Rightarrow> PID \<Rightarrow> usize \<Rightarrow> usize \<Rightarrow> usize kr" where
  "return_memory src_virt dest_pid dest_virt len =
     (if len = 0 then fail BadAddress
      else if misaligned len then fail BadAddress
      else if misaligned src_virt then fail BadAddress
      else if misaligned dest_virt then fail BadAddress
      else kbind (gets current_pid) (\<lambda>cur.
        if cur = dest_pid then ret src_virt
        else kbind (get_process cur) (\<lambda>src.
             kbind (get_process dest_pid) (\<lambda>dest.
             kbind (transfer_pages
                      (\<lambda>off. kthen (kassert ((src_virt + off) AND 0xfff = 0))
                                   (kassert ((dest_virt + off) AND 0xfff = 0)))
                      (\<lambda>off. unlend_page (proc_mapping src) (src_virt + off)
                               dest_pid (proc_mapping dest) (dest_virt + off))
                      (page_offsets len) None)
               (\<lambda>error. case error of None \<Rightarrow> ret dest_virt | Some e \<Rightarrow> fail e)))))"

section \<open>Connections\<close>

text \<open>The slots of the connection map: 0 (\<open>None\<close>) is free, 1 a tombstone, others are the
  server index plus two.\<close>

fun find_connection ::
  "SID \<Rightarrow> Server option list \<Rightarrow> nat \<Rightarrow> u8 option list \<Rightarrow> (Error, nat option) outcome" where
  "find_connection sd srvs i [] = Ok None"
| "find_connection sd srvs i (None # slots) = find_connection sd srvs (Suc i) slots"
| "find_connection sd srvs i (Some c # slots) =
     (if unat c < 2 then find_connection sd srvs (Suc i) slots
      else if unat c - 2 \<ge> length srvs then Panic
      else case srvs ! (unat c - 2) of
             Some srv \<Rightarrow> if sid srv = sd then Ok (Some i) else find_connection sd srvs (Suc i) slots
           | None \<Rightarrow> find_connection sd srvs (Suc i) slots)"

definition index_where :: "('a \<Rightarrow> bool) \<Rightarrow> 'a list \<Rightarrow> nat option" where
  "index_where P xs = find (\<lambda>i. P (xs ! i)) [0..<length xs]"

definition has_sid :: "SID \<Rightarrow> Server option \<Rightarrow> bool" where
  "has_sid sd entry = (case entry of Some srv \<Rightarrow> sid srv = sd | None \<Rightarrow> False)"

definition owned_server :: "SID \<Rightarrow> PID \<Rightarrow> Server option \<Rightarrow> bool" where
  "owned_server sd pid entry =
     (case entry of Some srv \<Rightarrow> sid srv = sd \<and> srv_pid srv = pid | None \<Rightarrow> False)"

definition connect_to_server :: "SID \<Rightarrow> CID kr" where
  "connect_to_server sd =
     kthen (kcheck (\<lambda>s. current_pid s = inner_pid (inner s)))
    (kbind (\<lambda>s. lift (find_connection sd (servers s) 0 (connection_map (inner s))) s) (\<lambda>existing.
       case existing of
         Some i \<Rightarrow> ret (of_nat i + 2)
       | None \<Rightarrow>
           kbind (\<lambda>s. lift (ok_or (index_where (\<lambda>c. c = None) (connection_map (inner s))) OutOfMemory) s) (\<lambda>slot.
           kbind (gets (\<lambda>s. index_where (has_sid sd) (servers s))) (\<lambda>server_idx.
             case server_idx of
               Some i \<Rightarrow>
                 kthen (with_inner_mut (\<lambda>p. p\<lparr>connection_map :=
                          (connection_map p)[slot := Some (of_nat i + 2)]\<rparr>))
                       (ret (of_nat slot + 2))
             | None \<Rightarrow> fail ServerNotFound))))"

definition connect_process_to_server :: "PID \<Rightarrow> SID \<Rightarrow> CID kr" where
  "connect_process_to_server target_pid sd =
     kbind (gets current_pid) (\<lambda>original_pid.
     kbind (get_process target_pid) (\<lambda>p.
     kthen (Process_activate p)
    (kmatch (connect_to_server sd) (\<lambda>result.
     kbind (get_process original_pid) (\<lambda>p.
     kthen (expect (Process_activate p))
       (case result of Inl e \<Rightarrow> fail e | Inr cid \<Rightarrow> ret cid))))))"

definition disconnect_from_server :: "CID \<Rightarrow> unit kr" where
  "disconnect_from_server cid =
     (if cid < 2 then fail ServerNotFound
      else let slot = unat (cid - 2) in
        kthen (kcheck (\<lambda>s. current_pid s = inner_pid (inner s)))
          (\<lambda>s. if slot \<ge> length (connection_map (inner s)) then fail ServerNotFound s
               else if connection_map (inner s) ! slot = None then fail ServerNotFound s
               else with_inner_mut (\<lambda>p. p\<lparr>connection_map := (connection_map p)[slot := None]\<rparr>) s))"

definition sidx_from_sid :: "SID \<Rightarrow> PID \<Rightarrow> Kernel \<Rightarrow> usize option" where
  "sidx_from_sid sd pid s = map_option of_nat (index_where (owned_server sd pid) (servers s))"

definition sidx_from_cid :: "CID \<Rightarrow> usize option kr" where
  "sidx_from_cid cid =
     (if cid < 2 then ret None
      else let slot = unat (cid - 2) in
        kthen (kcheck (\<lambda>s. current_pid s = inner_pid (inner s)))
          (gets (\<lambda>s.
             if slot \<ge> length (connection_map (inner s)) then None
             else case connection_map (inner s) ! slot of
                    None \<Rightarrow> None
                  | Some c \<Rightarrow>
                      if unat c < 2 then None
                      else if unat c - 2 \<ge> length (servers s) then None
                      else Some (of_nat (unat c - 2)))))"

section \<open>Creating servers\<close>

definition get_u32 :: "u32 kr" where
  "get_u32 = kbind (gets (\<lambda>s. random_words s 0)) (\<lambda>w.
     kthen (modify (\<lambda>s. s\<lparr>random_words := (\<lambda>n. random_words s (Suc n))\<rparr>)) (ret w))"

definition create_server_id :: "SID kr" where
  "create_server_id =
     kbind get_u32 (\<lambda>a. kbind get_u32 (\<lambda>b. kbind get_u32 (\<lambda>c. kbind get_u32 (\<lambda>d.
       ret (SID_from_u32 a b c d)))))"

definition create_server_with_address :: "PID \<Rightarrow> SID \<Rightarrow> bool \<Rightarrow> (SID \<times> CID) kr" where
  "create_server_with_address pid sd connect =
     kbind (get_process pid) (\<lambda>p.
     kthen (kassert (ppid p = 1))
    (kbind (gets (\<lambda>s. index_where (\<lambda>e. e = None) (servers s))) (\<lambda>free.
       case free of
         None \<Rightarrow> fail ServerNotFound
       | Some i \<Rightarrow>
           kbind (map_zeroed_page pid False) (\<lambda>virt.
           kbind (lift (MemoryRange_new virt PAGE_SIZE)) (\<lambda>backing.
           kbind (expect (lift (Server_init None pid sd backing))) (\<lambda>srv.
           kthen (modify (\<lambda>s. s\<lparr>servers := (servers s)[i := Some srv]\<rparr>))
          (kbind (if connect then connect_to_server sd else ret 0) (\<lambda>cid.
             ret (sd, cid)))))))))"

definition create_server :: "PID \<Rightarrow> bool \<Rightarrow> (SID \<times> CID) kr" where
  "create_server pid connect =
     kbind create_server_id (\<lambda>sd. create_server_with_address pid sd connect)"

section \<open>Queueing for a server\<close>

definition queue_server_message ::
  "usize \<Rightarrow> PID \<Rightarrow> TID \<Rightarrow> Message \<Rightarrow> usize option \<Rightarrow> nat kr" where
  "queue_server_message sidx pid tid message original_address =
     kbind (gets current_pid) (\<lambda>cur.
     kbind (\<lambda>s. lift (ok_or (server_from_sidx sidx s) ServerNotFound) s) (\<lambda>srv.
     kbind (get_process (srv_pid srv)) (\<lambda>server_process.
     kthen (activate (proc_mapping server_process))
    (kmatch (on_server sidx (queue_message pid tid message original_address)) (\<lambda>result.
     kbind (expect (get_process cur)) (\<lambda>current_process.
     kthen (activate (proc_mapping current_process))
       (case result of Inl e \<Rightarrow> fail e | Inr qi \<Rightarrow> ret qi)))))))"

definition remember_server_message ::
  "usize \<Rightarrow> PID \<Rightarrow> TID \<Rightarrow> Message \<Rightarrow> usize option \<Rightarrow> nat kr" where
  "remember_server_message sidx pid tid message client_address =
     kbind (\<lambda>s. lift (ok_or (server_from_sidx sidx s) ServerNotFound) s) (\<lambda>srv.
     kbind (get_process (srv_pid srv)) (\<lambda>server_process.
     kthen (activate (proc_mapping server_process))
    (kmatch (on_server sidx (queue_response pid tid message client_address)) (\<lambda>result.
     kbind (expect (get_process pid)) (\<lambda>current_process.
     kthen (activate (proc_mapping current_process))
       (case result of Inl e \<Rightarrow> fail e | Inr qi \<Rightarrow> ret qi))))))"

section \<open>Destroying servers\<close>

primrec unmap_remembering :: "usize list \<Rightarrow> Error option \<Rightarrow> Error option kr" where
  "unmap_remembering [] error = ret error"
| "unmap_remembering (a # as) error =
     kmatch (unmap_page a) (\<lambda>r. unmap_remembering as
       (case r of Inl e \<Rightarrow> (if error = None then Some e else error) | Inr _ \<Rightarrow> error))"

text \<open>What a queued message is owed when its server goes away.\<close>

definition return_lent :: "u16 \<Rightarrow> u8 \<Rightarrow> usize \<Rightarrow> usize \<Rightarrow> usize \<Rightarrow> unit kr" where
  "return_lent p t ca sa bs =
     kbind (lift (unwrap (nonzero (ucast p)))) (\<lambda>client_pid.
     kthen (expect (return_memory sa client_pid ca bs))
    (kthen (expect (ready_thread client_pid (ucast t)))
           (expect (set_thread_result client_pid (ucast t) (Res_Error ServerNotFound)))))"

definition answer_blocked :: "u16 \<Rightarrow> u8 \<Rightarrow> unit kr" where
  "answer_blocked p t =
     kbind (lift (unwrap (nonzero (ucast p)))) (\<lambda>client_pid.
     kthen (expect (set_thread_result client_pid (ucast t) (Res_Error ServerNotFound)))
           (expect (ready_thread client_pid (ucast t))))"

definition destroy_entry :: "QueuedMessage \<Rightarrow> unit kr" where
  "destroy_entry m =
     (case m of
        Q_WaitingForget _ _ _ _ _ _ \<Rightarrow> panic
      | Q_WaitingReturnMemory _ _ _ _ _ _ \<Rightarrow> panic
      | Q_WaitingReturnScalar _ _ _ _ \<Rightarrow> panic
      | Q_Empty \<Rightarrow> ret ()
      | Q_ScalarMessage _ _ _ _ _ _ _ _ _ \<Rightarrow> ret ()
      | Q_MemoryMessageSend _ _ _ _ _ virt sz _ _ \<Rightarrow>
          kbind (unmap_remembering (page_range virt (virt + sz)) None) (\<lambda>error. kassert (error = None))
      | Q_BlockingScalarTerminated p t _ _ _ _ _ _ _ \<Rightarrow> answer_blocked p t
      | Q_BlockingScalarMessage p t _ _ _ _ _ _ _ \<Rightarrow> answer_blocked p t
      | Q_MemoryMessageROLend p t _ ca _ sa bs _ _ \<Rightarrow> return_lent p t ca sa bs
      | Q_MemoryMessageRWLend p t _ ca _ sa bs _ _ \<Rightarrow> return_lent p t ca sa bs
      | Q_MemoryMessageROLendTerminated p t _ ca _ sa bs _ _ \<Rightarrow> return_lent p t ca sa bs
      | Q_MemoryMessageRWLendTerminated p t _ ca _ sa bs _ _ \<Rightarrow> return_lent p t ca sa bs)"

text \<open>The mask has 32 bits and every round takes one, so 33 rounds are enough.\<close>

primrec wake_waiting :: "nat \<Rightarrow> PID \<Rightarrow> Server \<Rightarrow> unit kr" where
  "wake_waiting 0 server_pid srv = panic"
| "wake_waiting (Suc n) server_pid srv =
     kbind (lift (take_available_thread srv)) (\<lambda>(tid, srv').
       case tid of
         None \<Rightarrow> ret ()
       | Some server_tid \<Rightarrow>
           kthen (expect (ready_thread server_pid server_tid))
          (kthen (expect (set_thread_result server_pid server_tid (Res_Error ServerNotFound)))
                 (wake_waiting n server_pid srv')))"

text \<open>\<open>Server::destroy\<close>; false stands for handing the server back.\<close>

definition Server_destroy :: "Server \<Rightarrow> bool kr" where
  "Server_destroy srv =
     (if list_ex is_in_server (queue srv) then ret False
      else kthen (kfor (queue srv) destroy_entry)
          (kbind (gets current_pid) (\<lambda>server_pid.
           kthen (wake_waiting 33 server_pid srv)
          (kthen (kfor (page_range (queue_ptr srv) (queue_ptr srv + of_nat (length (queue srv))))
                    (\<lambda>a. kthen (expect (unmap_page a)) (ret ())))
                 (ret True)))))"

text \<open>Replacing the connections to a server in every process.\<close>

definition replace_connections :: "nat \<Rightarrow> u8 option \<Rightarrow> ProcessInner \<Rightarrow> ProcessInner" where
  "replace_connections i new p =
     p\<lparr>connection_map := map (\<lambda>c. if c = Some (of_nat i + 2) then new else c) (connection_map p)\<rparr>"

definition destroy_server :: "PID \<Rightarrow> SID \<Rightarrow> unit kr" where
  "destroy_server pid sd =
     kbind (\<lambda>s. lift (ok_or (index_where (owned_server sd pid) (servers s)) ServerNotFound) s) (\<lambda>i.
     kbind (\<lambda>s. lift (unwrap (servers s ! i)) s) (\<lambda>srv.
     kthen (modify (\<lambda>s. s\<lparr>servers := (servers s)[i := None]\<rparr>))
    (kbind (Server_destroy srv) (\<lambda>destroyed.
       if \<not> destroyed
       then kthen (modify (\<lambda>s. s\<lparr>servers := (servers s)[i := Some srv]\<rparr>)) (fail ServerQueueFull)
       else kbind (gets current_pid) (\<lambda>cur.
            kthen (\<lambda>s. kfor (processes s) (\<lambda>p.
                      if process_free p then ret ()
                      else kthen (expect (Process_activate p))
                                 (with_inner_mut (replace_connections i None))) s)
           (kbind (expect (get_process cur)) (\<lambda>p. expect (Process_activate p))))))))"

section \<open>The end of a process\<close>

definition terminate :: "nat \<Rightarrow> unit kr" where
  "terminate i s =
     (let p = processes s ! i in
      if process_free p then fail ProcessNotFound s
      else kthen (release_all_memory_for_process (proc_pid p))
          (kthen (release_interrupts_for_pid (proc_pid p))
          (kthen (ArchProcess_destroy (proc_pid p))
                 (modify (\<lambda>s. s\<lparr>processes := (processes s)
                    [i := (processes s ! i)\<lparr>proc_state := Free\<rparr>]\<rparr>)))) s)"

definition disconnect_clients :: "nat \<Rightarrow> unit kr" where
  "disconnect_clients i s =
     kfor (processes s) (\<lambda>p.
       if process_free p then ret ()
       else kthen (Process_activate p) (with_inner_mut (replace_connections i (Some 1)))) s"

definition forget_process_in_server :: "PID \<Rightarrow> nat \<Rightarrow> unit kr" where
  "forget_process_in_server target_pid i s =
     (case servers s ! i of
        None \<Rightarrow> ret () s
      | Some srv \<Rightarrow>
          kthen (if srv_pid srv = target_pid then disconnect_clients i else ret ())
         (kthen (kcheck (\<lambda>s. unat (srv_pid srv - 1) < length (processes s)))
         (kbind (gets (\<lambda>s. processes s ! unat (srv_pid srv - 1))) (\<lambda>p.
          kthen (expect (Process_activate p))
            (modify (\<lambda>s. s\<lparr>servers := (servers s)[i := Some (discard_messages_for_pid target_pid srv)]\<rparr>))))) s)"

definition remove_servers :: "PID \<Rightarrow> unit kr" where
  "remove_servers target_pid = modify (\<lambda>s. s\<lparr>servers := map (\<lambda>e. case e of
       Some srv \<Rightarrow> if srv_pid srv = target_pid then None else e | None \<Rightarrow> None) (servers s)\<rparr>)"

definition terminate_process :: "PID \<Rightarrow> PID kr" where
  "terminate_process target_pid =
     kthen (\<lambda>s. kfor [0..<length (servers s)] (forget_process_in_server target_pid) s)
    (kthen (remove_servers target_pid)
    (kbind (get_process target_pid) (\<lambda>p.
     kthen (Process_activate p)
    (kthen (terminate (pid_idx target_pid))
    (kthen (expect (switch_to_thread (ppid p) None))
           (ret (ppid p)))))))"

definition shutdown_server :: "nat \<Rightarrow> unit kr" where
  "shutdown_server i s =
     (case servers s ! i of
        None \<Rightarrow> ret () s
      | Some srv \<Rightarrow>
          kthen (modify (\<lambda>s. s\<lparr>servers := (servers s)[i := None]\<rparr>))
         (kbind (Server_destroy srv) kassert) s)"

definition shutdown_process :: "nat \<Rightarrow> unit kr" where
  "shutdown_process i s =
     (let p = processes s ! i in
      if process_free p then ret () s
      else kthen (expect (Process_activate p)) (expect (terminate i)) s)"

definition shutdown :: "unit kr" where
  "shutdown =
     kthen (\<lambda>s. kfor [0..<length (servers s)] shutdown_server s)
           (\<lambda>s. kfor [0..<length (processes s)] shutdown_process s)"

end
