(* ===== verification/Handlers.thy ===== *)
theory Handlers
  imports Services
begin

text \<open>
  The system calls on messages, threads, processes and interrupts
  (kernel/src/syscall.rs) and the dispatch of a hardware interrupt (\<open>handle\<close> of
  kernel/src/irq.rs). \<open>pid\<close> and \<open>tid\<close> are the
  process and thread that made the call, \<open>in_irq\<close> that it made it from an interrupt handler.
\<close>

section \<open>Yielding\<close>

definition take_switchto_caller :: "(PID \<times> TID) option kr" where
  "take_switchto_caller =
     kbind (gets SWITCHTO_CALLER) (\<lambda>c. kthen (modify (\<lambda>s. s\<lparr>SWITCHTO_CALLER := None\<rparr>)) (ret c))"

definition reset_switchto_caller :: "unit kr" where
  "reset_switchto_caller = modify (\<lambda>s. s\<lparr>SWITCHTO_CALLER := None\<rparr>)"

text \<open>\<open>ss.set_last_thread(PID::new(ORIGINAL_PID).unwrap(), ORIGINAL_TID).ok()\<close>\<close>

definition restore_last_thread :: "unit kr" where
  "restore_last_thread =
     kbind (\<lambda>s. lift (unwrap (nonzero (ORIGINAL_PID s))) s) (\<lambda>pid.
     kbind (gets ORIGINAL_TID) (\<lambda>tid. ignore (set_last_thread pid tid)))"

text \<open>\<open>let result = ...; ss.set_last_thread(..).ok(); result\<close>\<close>

definition then_restore_last_thread :: "Result kr \<Rightarrow> Result kr" where
  "then_restore_last_thread m =
     kmatch m (\<lambda>r. kthen restore_last_thread (case r of Inl e \<Rightarrow> fail e | Inr x \<Rightarrow> ret x))"

definition do_yield :: "PID \<Rightarrow> TID \<Rightarrow> Result kr" where
  "do_yield pid tid =
     kbind take_switchto_caller (\<lambda>caller.
     kbind (lift (unwrap caller)) (\<lambda>(parent_pid, parent_ctx).
       then_restore_last_thread
         (or_process_not_found (activate_process_thread tid parent_pid parent_ctx True PA_None))))"

definition retry_syscall :: "PID \<Rightarrow> TID \<Rightarrow> Result kr" where
  "retry_syscall pid tid =
     kthen ArchProcess_current (kthen (retry_instruction tid) (do_yield pid tid))"

text \<open>Giving the processor back to the parent of the process.\<close>

definition park_in_parent :: "PID \<Rightarrow> TID \<Rightarrow> Result kr" where
  "park_in_parent pid tid =
     kbind (expect (get_process pid)) (\<lambda>p.
     kthen reset_switchto_caller
       (then_restore_last_thread
         (or_process_not_found (activate_process_thread tid (ppid p) 0 False PA_None))))"

section \<open>Sending a message\<close>

definition message_buffer :: "Message \<Rightarrow> MemoryMessage option" where
  "message_buffer m =
     (case m of MutableBorrow mm \<Rightarrow> Some mm | Borrow mm \<Rightarrow> Some mm | Move mm \<Rightarrow> Some mm | _ \<Rightarrow> None)"

definition return_thread :: "usize \<Rightarrow> TID option \<Rightarrow> unit kr" where
  "return_thread sidx tid =
     (case tid of
        Some st \<Rightarrow> on_server sidx (\<lambda>srv. bind_outcome (return_available_thread st srv) (\<lambda>srv'. Ok ((), srv')))
      | None \<Rightarrow> ret ())"

text \<open>\<open>m.inspect_err(|_| return_thread(..))\<close>\<close>

definition returning_thread :: "usize \<Rightarrow> TID option \<Rightarrow> 'a kr \<Rightarrow> 'a kr" where
  "returning_thread sidx tid m =
     kmatch m (\<lambda>r. case r of Inl e \<Rightarrow> kthen (return_thread sidx tid) (fail e) | Inr x \<Rightarrow> ret x)"

text \<open>Whether the message can be delivered; for memory messages the queue is inspected in the
  address space of the server.\<close>

definition check_capacity :: "usize \<Rightarrow> PID \<Rightarrow> TID option \<Rightarrow> bool kr" where
  "check_capacity sidx server_pid avail_tid =
     kbind (gets current_pid) (\<lambda>cur.
     kbind (returning_thread sidx avail_tid (get_process server_pid)) (\<lambda>server_process.
     kthen (activate (proc_mapping server_process))
    (kbind (on_server sidx (\<lambda>srv. Ok (has_queue_capacity srv, srv))) (\<lambda>capacity.
     kbind (expect (get_process cur)) (\<lambda>current_process.
     kthen (activate (proc_mapping current_process)) (ret capacity))))))"

definition can_deliver :: "usize \<Rightarrow> PID \<Rightarrow> Message \<Rightarrow> TID option \<Rightarrow> bool kr" where
  "can_deliver sidx server_pid message avail_tid =
     (let needs_slot = (avail_tid = None \<or> is_blocking message) in
      if message_buffer message \<noteq> None
      then (if needs_slot then check_capacity sidx server_pid avail_tid else ret True)
      else kbind (on_server sidx (\<lambda>srv. Ok (has_queue_capacity_scalar srv, srv))) (\<lambda>c.
             ret (\<not> needs_slot \<or> c)))"

text \<open>Moving or lending the buffer into the server; the message carries its address there.\<close>

definition relocated :: "usize \<Rightarrow> TID option \<Rightarrow> (MemoryMessage \<Rightarrow> Message) \<Rightarrow> MemoryMessage \<Rightarrow> usize \<Rightarrow> Message kr" where
  "relocated sidx avail_tid kind msg new_virt =
     kbind (returning_thread sidx avail_tid (lift (MemoryRange_new new_virt (rsize (mm_buf msg))))) (\<lambda>b.
       ret (kind (msg\<lparr>mm_buf := b\<rparr>)))"

definition transfer_message :: "usize \<Rightarrow> PID \<Rightarrow> TID option \<Rightarrow> Message \<Rightarrow> Message kr" where
  "transfer_message sidx server_pid avail_tid message =
     (case message of
        Scalar _ \<Rightarrow> ret message
      | BlockingScalar _ \<Rightarrow> ret message
      | Move msg \<Rightarrow>
          kbind (returning_thread sidx avail_tid
                   (send_memory (addr (mm_buf msg)) server_pid 0 (rsize (mm_buf msg))))
            (relocated sidx avail_tid Move msg)
      | MutableBorrow msg \<Rightarrow>
          kbind (returning_thread sidx avail_tid
                   (lend_memory (addr (mm_buf msg)) server_pid 0 (rsize (mm_buf msg)) True))
            (relocated sidx avail_tid MutableBorrow msg)
      | Borrow msg \<Rightarrow>
          kbind (returning_thread sidx avail_tid
                   (lend_memory (addr (mm_buf msg)) server_pid 0 (rsize (mm_buf msg)) False))
            (relocated sidx avail_tid Borrow msg))"

definition envelope :: "usize \<Rightarrow> usize \<Rightarrow> PID \<Rightarrow> Message \<Rightarrow> MessageEnvelope" where
  "envelope sidx sender_idx pid message =
     \<lparr>env_sender = SenderID_to_sender
        \<lparr>snd_sidx = sidx, snd_idx = sender_idx, snd_pid = Some pid\<rparr>,
      env_body = message\<rparr>"

text \<open>A server thread is waiting: it gets the message at once.\<close>

definition deliver_directly ::
  "PID \<Rightarrow> TID \<Rightarrow> usize \<Rightarrow> PID \<Rightarrow> TID \<Rightarrow> Message \<Rightarrow> usize option \<Rightarrow> Result kr" where
  "deliver_directly pid tid sidx server_pid server_tid message client_address =
     kthen (returning_thread sidx (Some server_tid) (ready_thread server_pid server_tid))
    (kbind (expect (runnable server_pid (Some server_tid))) (\<lambda>can_run.
       if \<not> is_blocking message
       then kthen (set_thread_result server_pid server_tid
                     (Res_MessageEnvelope (envelope sidx 0 pid message)))
                  (ret Res_Ok)
       else if \<not> can_run
       then kbind (returning_thread sidx (Some server_tid)
                     (remember_server_message sidx pid tid message client_address)) (\<lambda>sender_idx.
            kbind take_switchto_caller (\<lambda>caller.
            kbind (lift (unwrap caller)) (\<lambda>(parent_pid, parent_tid).
              then_restore_last_thread
                (returning_thread sidx (Some server_tid)
                  (or_process_not_found
                    (activate_process_thread tid parent_pid parent_tid False
                       (SetThreadResult (Res_MessageEnvelope
                          (envelope sidx (of_nat sender_idx) pid message)))))))))
       else kmatch (activate_process_thread tid server_pid server_tid False
                      (RememberServerMessage sidx pid tid message client_address)) (\<lambda>r. case r of
                Inr sender_idx \<Rightarrow> ret (Res_MessageEnvelope (envelope sidx sender_idx pid message))
              | Inl _ \<Rightarrow> kthen (return_thread sidx (Some server_tid)) (fail ProcessNotFound))))"

definition send_message :: "PID \<Rightarrow> TID \<Rightarrow> CID \<Rightarrow> Message \<Rightarrow> Result kr" where
  "send_message pid tid cid message =
     kbind (sidx_from_cid cid) (\<lambda>found.
     kbind (lift (ok_or found ServerNotFound)) (\<lambda>sidx.
     kbind (\<lambda>s. lift (unwrap (server_from_sidx sidx s)) s) (\<lambda>srv.
     let server_pid = srv_pid srv;
         client_address = Option.bind (message_buffer message) (\<lambda>msg. nonzero (addr (mm_buf msg))) in
     kbind (on_server sidx take_available_thread) (\<lambda>available_tid.
     kbind (can_deliver sidx server_pid message available_tid) (\<lambda>deliverable.
       if \<not> deliverable then fail ServerQueueFull
       else kbind (transfer_message sidx server_pid available_tid message) (\<lambda>message.
         case available_tid of
           Some server_tid \<Rightarrow>
             deliver_directly pid tid sidx server_pid server_tid message client_address
         | None \<Rightarrow>
             kthen (queue_server_message sidx pid tid message client_address)
               (if is_blocking message then park_in_parent pid tid else ret Res_Ok)))))))"

definition sys_SendMessage :: "PID \<Rightarrow> TID \<Rightarrow> CID \<Rightarrow> Message \<Rightarrow> Result kr" where
  "sys_SendMessage pid tid cid message =
     kmatch (send_message pid tid cid message) (\<lambda>r. case r of
         Inr x \<Rightarrow> ret x
       | Inl e \<Rightarrow> if e = ServerQueueFull then retry_syscall pid tid else fail e)"

section \<open>Answering a message\<close>

text \<open>The server of a sender, which has to belong to the calling process.\<close>

definition own_server :: "usize \<Rightarrow> PID \<Rightarrow> Server kr" where
  "own_server sidx pid =
     kbind (\<lambda>s. lift (ok_or (server_from_sidx sidx s) ServerNotFound) s) (\<lambda>srv.
       if srv_pid srv \<noteq> pid then fail ServerNotFound else ret srv)"

definition redeem :: "usize \<Rightarrow> usize \<Rightarrow> MemoryRange option \<Rightarrow> WaitingMessage kr" where
  "redeem sidx idx buf s =
     (case server_from_sidx sidx s of
        None \<Rightarrow> panic s
      | Some srv \<Rightarrow>
          (let (r, srv') = take_waiting_message (unat idx) buf srv
           in lift r (s\<lparr>servers := (servers s)[unat sidx := Some srv']\<rparr>)))"

text \<open>The client is woken; who goes on running depends on whose quantum it is.\<close>

definition stay_in_server :: "PID \<Rightarrow> bool \<Rightarrow> PID \<Rightarrow> TID \<Rightarrow> bool kr" where
  "stay_in_server server_pid in_irq client_pid client_tid =
     (if in_irq then ret True
      else kbind (runnable client_pid (Some client_tid)) (\<lambda>can_run.
           kbind (gets ORIGINAL_PID) (\<lambda>opid.
           kbind (gets ORIGINAL_TID) (\<lambda>otid.
             ret (\<not> can_run \<or> opid = server_pid \<and> otid = client_tid)))))"

definition answer_client ::
  "PID \<Rightarrow> TID \<Rightarrow> bool \<Rightarrow> PID \<Rightarrow> TID \<Rightarrow> Result \<Rightarrow> Result \<Rightarrow> Result kr" where
  "answer_client server_pid server_tid in_irq client_pid client_tid return_value server_result =
     kbind (stay_in_server server_pid in_irq client_pid client_tid) (\<lambda>stay.
       if stay
       then kthen (set_thread_result client_pid client_tid return_value) (ret server_result)
       else kthen (unschedule_thread server_pid server_tid)
           (kthen (ready_thread server_pid server_tid)
           (kthen (set_thread_result server_pid server_tid server_result)
           (kthen (switch_to_thread client_pid (Some client_tid))
                  (ret return_value)))))"

definition sys_return_memory ::
  "PID \<Rightarrow> TID \<Rightarrow> bool \<Rightarrow> MessageSender \<Rightarrow> MemoryRange \<Rightarrow> usize option \<Rightarrow> usize option \<Rightarrow> Result kr" where
  "sys_return_memory server_pid server_tid in_irq sender buf off valid =
     (let sender = SenderID_from_sender sender in
      kthen (own_server (snd_sidx sender) server_pid)
     (kbind (redeem (snd_sidx sender) (snd_idx sender) (Some buf)) (\<lambda>waiting.
        case waiting of
          BorrowedMemory client_pid client_tid server_addr client_addr len \<Rightarrow>
            kthen (return_memory server_addr client_pid client_addr len)
           (kthen (ready_thread client_pid client_tid)
                  (answer_client server_pid server_tid in_irq client_pid client_tid
                     (Res_MemoryReturned off valid) Res_Ok))
        | MovedMemory \<Rightarrow> ret Res_Ok
        | ForgetMemory rng \<Rightarrow>
            if misaligned (addr rng) then fail BadAlignment
            else kbind (unmap_remembering (page_range (addr rng) (addr rng + rsize rng)) None) (\<lambda>error.
                   case error of None \<Rightarrow> ret Res_Ok | Some e \<Rightarrow> fail e)
        | WM_ScalarMessage _ _ \<Rightarrow> fail DoubleFree
        | WM_None \<Rightarrow> fail DoubleFree)))"

definition return_result :: "PID \<Rightarrow> TID \<Rightarrow> bool \<Rightarrow> MessageSender \<Rightarrow> Result \<Rightarrow> Result kr" where
  "return_result server_pid server_tid in_irq sender return_value =
     (let sender = SenderID_from_sender sender in
      kthen (own_server (snd_sidx sender) server_pid)
     (kbind (redeem (snd_sidx sender) (snd_idx sender) None) (\<lambda>waiting.
        case waiting of
          WM_ScalarMessage client_pid client_tid \<Rightarrow>
            kthen (ready_thread client_pid client_tid)
                  (answer_client server_pid server_tid in_irq client_pid client_tid return_value Res_Ok)
        | _ \<Rightarrow> fail DoubleFree)))"

section \<open>Receiving a message\<close>

definition park_server_thread :: "usize \<Rightarrow> TID \<Rightarrow> unit kr" where
  "park_server_thread sidx tid =
     on_server sidx (\<lambda>srv. bind_outcome (park_thread tid srv) (\<lambda>srv'. Ok ((), srv')))"

definition receive_message :: "PID \<Rightarrow> TID \<Rightarrow> SID \<Rightarrow> bool \<Rightarrow> Result kr" where
  "receive_message pid tid sd blocking =
     kthen (thread_is_running pid tid)
    (kbind (\<lambda>s. lift (ok_or (sidx_from_sid sd pid s) ServerNotFound) s) (\<lambda>sidx.
     kthen (own_server sidx pid)
    (kbind (on_server sidx (take_next_message sidx)) (\<lambda>next.
       case next of
         Some msg \<Rightarrow> ret (Res_MessageEnvelope msg)
       | None \<Rightarrow>
           if \<not> blocking then ret Res_None
           else kthen (park_server_thread sidx tid) (park_in_parent pid tid)))))"

definition scalar_answer ::
  "usize \<Rightarrow> usize \<Rightarrow> usize \<Rightarrow> usize \<Rightarrow> usize \<Rightarrow> usize \<Rightarrow> Result" where
  "scalar_answer scalar_type x0 x1 x2 x3 x4 =
     (if scalar_type = 1 then Res_Scalar1 x1
      else if scalar_type = 2 then Res_Scalar2 x1 x2
      else Res_Scalar5 x0 x1 x2 x3 x4)"

definition reply_and_receive_next ::
  "PID \<Rightarrow> TID \<Rightarrow> bool \<Rightarrow> MessageSender \<Rightarrow> usize \<Rightarrow> usize \<Rightarrow> usize \<Rightarrow> usize \<Rightarrow> usize \<Rightarrow> usize \<Rightarrow> Result kr" where
  "reply_and_receive_next server_pid server_tid in_irq sender x0 x1 x2 x3 x4 scalar_type =
     (let sender = SenderID_from_sender sender in
      kthen (own_server (snd_sidx sender) server_pid)
     (kbind (redeem (snd_sidx sender) (snd_idx sender) None) (\<lambda>waiting.
      kbind (on_server (snd_sidx sender) (take_next_message (snd_sidx sender))) (\<lambda>next.
      kthen (if next = None then park_server_thread (snd_sidx sender) server_tid else ret ())
     (kbind (case waiting of
               WM_ScalarMessage client_pid client_tid \<Rightarrow>
                 ret (client_pid, client_tid, scalar_answer scalar_type x0 x1 x2 x3 x4)
             | BorrowedMemory client_pid client_tid server_addr client_addr len \<Rightarrow>
                 kthen (return_memory server_addr client_pid client_addr len)
                       (ret (client_pid, client_tid, Res_MemoryReturned (nonzero x3) (nonzero x4)))
             | _ \<Rightarrow> fail DoubleFree) (\<lambda>(client_pid, client_tid, result).
      kthen (ready_thread client_pid client_tid)
        (case next of
           Some msg \<Rightarrow>
             answer_client server_pid server_tid in_irq client_pid client_tid result
               (Res_MessageEnvelope msg)
         | None \<Rightarrow>
             or_process_not_found
               (activate_process_thread server_tid client_pid client_tid False
                  (SetThreadResult result)))))))))"

section \<open>Scheduling calls\<close>

definition sys_SwitchTo :: "PID \<Rightarrow> TID \<Rightarrow> PID \<Rightarrow> TID \<Rightarrow> Result kr" where
  "sys_SwitchTo pid tid new_pid new_tid =
     kthen (kcheck (\<lambda>s. SWITCHTO_CALLER s = None))
    (kthen (modify (\<lambda>s. s\<lparr>SWITCHTO_CALLER := Some (pid, tid)\<rparr>))
    (kbind (activate_process_thread tid new_pid new_tid True PA_None) (\<lambda>new_tid.
     kthen (modify (\<lambda>s. s\<lparr>ORIGINAL_PID := new_pid, ORIGINAL_TID := new_tid\<rparr>))
           (ret Res_ResumeProcess))))"

definition sys_ReturnToParent :: "Result kr" where
  "sys_ReturnToParent =
     kbind take_switchto_caller (\<lambda>caller.
     kthen (case caller of
              Some (parent_pid, parent_ctx) \<Rightarrow>
                modify (\<lambda>s. s\<lparr>PREVIOUS_PAIR := Some (parent_pid, parent_ctx)\<rparr>)
            | None \<Rightarrow> ret ())
           (ret Res_ResumeProcess))"

definition sys_WaitEvent :: "PID \<Rightarrow> TID \<Rightarrow> Result kr" where
  "sys_WaitEvent pid tid = park_in_parent pid tid"

definition sys_CreateThread :: "PID \<Rightarrow> TID \<Rightarrow> ThreadInit \<Rightarrow> Result kr" where
  "sys_CreateThread pid tid thread_init =
     kbind (create_thread pid thread_init) (\<lambda>new_tid.
     kthen (expect (switch_to_thread pid (Some new_tid)))
    (kthen (expect (set_thread_result pid tid (Res_ThreadID new_tid)))
           (ret Res_ResumeProcess)))"

definition sys_JoinThread :: "PID \<Rightarrow> TID \<Rightarrow> TID \<Rightarrow> Result kr" where
  "sys_JoinThread pid tid other_tid =
     (if other_tid \<ge> MAX_THREAD then fail ThreadNotAvailable
      else kbind (join_thread pid tid other_tid) (\<lambda>r.
           kthen (if r = Res_ResumeProcess then reset_switchto_caller else ret ()) (ret r)))"

definition sys_TerminateProcess :: "PID \<Rightarrow> TID \<Rightarrow> Result kr" where
  "sys_TerminateProcess pid tid =
     kthen (unschedule_thread pid tid)
    (kthen (terminate_process pid)
    (kthen reset_switchto_caller
           (ret Res_ResumeProcess)))"

definition sys_Shutdown :: "Result kr" where
  "sys_Shutdown = kthen shutdown (ret Res_Ok)"

section \<open>Calls on servers\<close>

text \<open>\<open>xous-name-server\<close>; whoever asks for this address first gets it.\<close>

definition NS_SID :: SID where
  "NS_SID = SID_from_u32 (u32_from_le_bytes 0x78 0x6f 0x75 0x73) (u32_from_le_bytes 0x2d 0x6e 0x61 0x6d)
     (u32_from_le_bytes 0x65 0x2d 0x73 0x65) (u32_from_le_bytes 0x72 0x76 0x65 0x72)"

definition sys_CreateServerWithAddress :: "PID \<Rightarrow> SID \<Rightarrow> Result kr" where
  "sys_CreateServerWithAddress pid name =
     kbind (gets NS_TOFU) (\<lambda>taken.
     kthen (if name = NS_SID then modify (\<lambda>s. s\<lparr>NS_TOFU := True\<rparr>) else ret ())
       (if name = NS_SID \<and> taken then fail ServerExists
        else kbind (create_server_with_address pid name True) (\<lambda>(sd, cid). ret (Res_NewServerID sd cid))))"

definition sys_CreateServer :: "PID \<Rightarrow> Result kr" where
  "sys_CreateServer pid = kbind (create_server pid True) (\<lambda>(sd, cid). ret (Res_NewServerID sd cid))"

definition sys_CreateServerId :: "Result kr" where
  "sys_CreateServerId = kbind create_server_id (\<lambda>sd. ret (Res_ServerID sd))"

definition sys_TryConnect :: "SID \<Rightarrow> Result kr" where
  "sys_TryConnect sd = kbind (connect_to_server sd) (\<lambda>cid. ret (Res_ConnectionID cid))"

definition retry_not_found :: "PID \<Rightarrow> TID \<Rightarrow> CID kr \<Rightarrow> Result kr" where
  "retry_not_found pid tid m =
     kmatch m (\<lambda>r. case r of
         Inr cid \<Rightarrow> ret (Res_ConnectionID cid)
       | Inl e \<Rightarrow> if e = ServerNotFound then retry_syscall pid tid else fail e)"

definition sys_Connect :: "PID \<Rightarrow> TID \<Rightarrow> SID \<Rightarrow> Result kr" where
  "sys_Connect pid tid sd = retry_not_found pid tid (connect_to_server sd)"

definition sys_ConnectForProcess :: "TID \<Rightarrow> PID \<Rightarrow> SID \<Rightarrow> Result kr" where
  "sys_ConnectForProcess tid target sd = retry_not_found target tid (connect_process_to_server target sd)"

definition sys_Disconnect :: "CID \<Rightarrow> Result kr" where
  "sys_Disconnect cid = kthen (disconnect_from_server cid) (ret Res_Ok)"

definition sys_DestroyServer :: "PID \<Rightarrow> SID \<Rightarrow> Result kr" where
  "sys_DestroyServer pid sd = kthen (destroy_server pid sd) (ret Res_Ok)"

section \<open>Interrupts\<close>

definition sys_ClaimInterrupt :: "PID \<Rightarrow> usize \<Rightarrow> usize \<Rightarrow> usize option \<Rightarrow> Result kr" where
  "sys_ClaimInterrupt pid no callback arg = kthen (interrupt_claim no pid callback arg) (ret Res_Ok)"

definition sys_FreeInterrupt :: "PID \<Rightarrow> usize \<Rightarrow> Result kr" where
  "sys_FreeInterrupt pid no = kthen (interrupt_free no pid) (ret Res_Ok)"

text \<open>The first pending interrupt with a handler is dispatched; those before it without one
  are masked.\<close>

primrec handle_pending :: "usize \<Rightarrow> nat list \<Rightarrow> Result kr" where
  "handle_pending pending [] = ret Res_ResumeProcess"
| "handle_pending pending (irq_no # irqs) =
     (if pending AND thread_bit (of_nat irq_no) \<noteq> 0
      then kbind (gets (\<lambda>s. IRQ_HANDLERS s ! irq_no)) (\<lambda>handler. case handler of
               Some (pid, f, arg) \<Rightarrow>
                 kthen disable_all_irqs
                (kthen (make_callback_to pid f (CB_Interrupt (of_nat irq_no) (or_null arg)))
                       (ret Res_ResumeProcess))
             | None \<Rightarrow> kthen (disable_irq (of_nat irq_no)) (handle_pending pending irqs))
      else handle_pending pending irqs)"

definition irq_handle :: "usize \<Rightarrow> Result kr" where
  "irq_handle pending s = handle_pending pending [0..<length (IRQ_HANDLERS s)] s"

end
