(* ===== verification/Thread_Choice.thy ===== *)
theory Thread_Choice
  imports Scheduler
begin

text \<open>
  The choice of the next thread (\<open>find_next_thread\<close> of kernel/src/services.rs): the
  de Bruijn multiplication finds the lowest set bit, and the function is a
  round-robin choice among the threads of the mask.
\<close>

section \<open>The lowest set bit\<close>

lemma debruijn_table:
  assumes "k < 32"
  shows "MULTIPLY_DEBRUIJN_BIT_POSITION ! unat (drop_bit 27 ((2 :: usize) ^ k * 0x077CB531)) = of_nat k"
proof -
  have "k \<in> set [0..<32]" using assms by simp
  then show ?thesis
    unfolding MULTIPLY_DEBRUIJN_BIT_POSITION_def
    by (simp add: upt_rec drop_bit_eq_div, elim disjE, simp_all)
qed

lemma lowest_bit_isolated:
  fixes v :: "'a::len word"
  assumes b: "bit v k" and low: "\<And>i. i < k \<Longrightarrow> \<not> bit v i"
  shows "NOT (v - 1) AND v = 2 ^ k"
proof -
  have k: "k < LENGTH('a)" using b by (rule bit_imp_le_length)
  have up: "bit v i \<Longrightarrow> i \<noteq> k \<Longrightarrow> k < i" for i
    using low [of i] by (cases i k rule: linorder_cases) auto
  define w where "w = v AND NOT (mask (Suc k))"
  have wbit: "bit w i \<longleftrightarrow> k < i \<and> bit v i" for i
    unfolding w_def by (auto simp: bit_and_iff bit_not_iff bit_mask_iff simp del: mask_Suc_exp mask_Suc_double dest: bit_imp_le_length)
  have split: "v = w + 2 ^ k"
  proof -
    have "w + 2 ^ k = w OR 2 ^ k"
      by (rule disjunctive_add_eq_or) (auto intro!: bit_word_eqI simp: wbit bit_and_iff bit_exp_iff)
    also have "\<dots> = v"
      using b k
      by (intro bit_word_eqI) (auto simp: bit_or_iff wbit bit_exp_iff intro: up)
    finally show ?thesis by simp
  qed
  have "v - 1 = w + mask k"
    by (simp add: split mask_eq_exp_minus_1)
  also have "\<dots> = w OR mask k"
    by (rule disjunctive_add_eq_or) (auto intro!: bit_word_eqI simp: wbit bit_and_iff bit_mask_iff)
  finally have v1: "v - 1 = w OR mask k" .
  show ?thesis
    using b k
    by (intro bit_word_eqI)
      (auto simp: v1 bit_and_iff bit_not_iff bit_or_iff wbit bit_mask_iff bit_exp_iff dest: up)
qed

lemma trailing_zeros_lowest:
  assumes "bit v k" "\<And>i. i < k \<Longrightarrow> \<not> bit v i"
  shows "trailing_zeros v = of_nat k"
proof -
  have "k < 32" using bit_imp_le_length [OF assms(1)] by simp
  then show ?thesis
    by (simp add: trailing_zeros_def lowest_bit_isolated [OF assms] debruijn_table)
qed

section \<open>Round robin\<close>

text \<open>The indices below \<open>n\<close> after \<open>c\<close> in cyclic order, \<open>c\<close> itself last.\<close>

definition cyclic_after :: "nat \<Rightarrow> nat \<Rightarrow> nat list" where
  "cyclic_after n c = [Suc c..<n] @ [0..<Suc c]"

lemma find_upt_Some:
  "find P [a..<b] = Some k \<longleftrightarrow> a \<le> k \<and> k < b \<and> P k \<and> (\<forall>i. a \<le> i \<and> i < k \<longrightarrow> \<not> P i)"
  (is "?l = ?r")
proof
  assume ?l
  then obtain i where i: "i < b - a" "P (a + i)" "k = a + i" and below: "\<And>j. j < i \<Longrightarrow> \<not> P (a + j)"
    by (auto simp: find_Some_iff)
  have "\<not> P j" if "a \<le> j" "j < k" for j
    using below [of "j - a"] that i(3) by auto
  with i show ?r by auto
next
  assume r: ?r
  show ?l
    unfolding find_Some_iff
    by (rule exI [of _ "k - a"]) (use r in auto)
qed

lemma find_append: "find P (xs @ ys) = (case find P xs of Some x \<Rightarrow> Some x | None \<Rightarrow> find P ys)"
  by (induction xs) auto

lemma cyclic_find_cases:
  assumes "find P (cyclic_after n c) = Some t"
  shows "c < t \<and> t < n \<and> P t \<and> (\<forall>i. c < i \<and> i < t \<longrightarrow> \<not> P i)
     \<or> t \<le> c \<and> P t \<and> (\<forall>i. c < i \<and> i < n \<longrightarrow> \<not> P i) \<and> (\<forall>i<t. \<not> P i)"
proof (cases "find P [Suc c..<n]")
  case None
  with assms have "find P [0..<Suc c] = Some t"
    by (simp add: cyclic_after_def find_append del: upt_Suc)
  with None show ?thesis
    by (auto simp: find_upt_Some find_None_iff simp del: upt_Suc)
next
  case (Some k)
  with assms have "k = t"
    by (simp add: cyclic_after_def find_append)
  with Some show ?thesis
    by (auto simp: find_upt_Some)
qed

lemma cyclic_find_ex:
  assumes "P k" "k < n" "c < n"
  obtains t where "find P (cyclic_after n c) = Some t" "t < n" "P t"
proof -
  have "k \<in> set (cyclic_after n c)"
    using assms by (auto simp: cyclic_after_def)
  then have "find P (cyclic_after n c) \<noteq> None"
    using assms(1) unfolding find_None_iff by blast
  then obtain t where t: "find P (cyclic_after n c) = Some t" by blast
  have "t < n" "P t" using cyclic_find_cases [OF t] assms(3) by auto
  with t that show thesis by blast
qed

text \<open>How many indices are between \<open>c\<close> and \<open>t\<close> in cyclic order.\<close>

definition turns :: "nat \<Rightarrow> nat \<Rightarrow> nat \<Rightarrow> nat" where
  "turns n c t = (t + n - Suc c) mod n"

lemma turns_less: "0 < n \<Longrightarrow> turns n c t < n"
  by (simp add: turns_def)

lemma turns_cases:
  assumes "c < n" "t < n"
  shows "turns n c t = (if c < t then t - Suc c else t + n - Suc c)"
  using assms by (auto simp: turns_def mod_if)

text \<open>The index found is the nearest one, and finding another than \<open>t\<close> brings \<open>t\<close> nearer.\<close>

lemma cyclic_find_nearest:
  assumes "find P (cyclic_after n c) = Some k" "P t" "c < n" "t < n"
  shows "turns n c k \<le> turns n c t"
proof -
  have "c < k \<and> k < n \<and> (c < t \<longrightarrow> k \<le> t) \<or> k \<le> c \<and> t \<le> c \<and> k \<le> t"
    using cyclic_find_cases [OF assms(1)] assms(2-) by (metis linorder_not_le)
  then show ?thesis
    using assms(3,4) by (auto simp: turns_cases)
qed

lemma cyclic_find_closer:
  assumes "find P (cyclic_after n c) = Some k" "P t" "c < n" "t < n" "k \<noteq> t"
  shows "turns n k t < turns n c t"
proof -
  have "c < k \<and> k < n \<and> (c < t \<longrightarrow> k < t) \<or> k \<le> c \<and> t \<le> c \<and> k < t"
    using cyclic_find_cases [OF assms(1)] assms(2-) by (metis linorder_neqE_nat linorder_not_le)
  then show ?thesis
    using assms(3,4) by (auto simp: turns_cases)
qed

definition next_ready :: "usize \<Rightarrow> nat \<Rightarrow> nat option" where
  "next_ready x c = find (bit x) (cyclic_after 32 c)"

lemma next_ready_cases:
  assumes "next_ready x c = Some t"
  shows "c < t \<and> t < 32 \<and> bit x t \<and> (\<forall>i. c < i \<and> i < t \<longrightarrow> \<not> bit x i)
     \<or> t \<le> c \<and> bit x t \<and> (\<forall>i. c < i \<and> i < 32 \<longrightarrow> \<not> bit x i) \<and> (\<forall>i<t. \<not> bit x i)"
  using cyclic_find_cases [OF assms [unfolded next_ready_def]] .

lemma word_bit_ex: "(x :: 'a::len word) \<noteq> 0 \<Longrightarrow> \<exists>k. bit x k"
  by (metis bit_0_eq bit_eqI bot_apply bot_bool_def)

lemma bit_upper:
  assumes "c < 32"
  shows "bit (x AND NOT (push_bit c 2 - 1 :: usize)) i \<longleftrightarrow> c < i \<and> bit x i"
proof -
  have "push_bit c 2 - 1 = (mask (Suc c) :: usize)"
    by (simp add: mask_eq_exp_minus_1 push_bit_eq_mult mult.commute)
  then show ?thesis
    using assms by (auto simp: bit_and_iff bit_not_iff bit_mask_iff simp del: mask_Suc_exp mask_Suc_double
        dest: bit_imp_le_length)
qed

lemma single_bit:
  fixes x :: "'a::len word"
  assumes x: "x AND (x - 1) = 0" and bits: "bit x k" "bit x j"
  shows "j = k"
proof -
  obtain l where l: "bit x l" "\<And>i. i < l \<Longrightarrow> \<not> bit x i"
    using bits(1) exists_least_iff [of "bit x"] by blast
  have "i = l" if "bit x i" for i
  proof -
    have "\<not> bit (x AND (x - 1)) i" using x by simp
    then have "bit (NOT (x - 1) AND x) i"
      using that by (auto simp: bit_and_iff bit_not_iff dest: bit_imp_le_length)
    then show ?thesis
      by (simp add: lowest_bit_isolated [OF l] bit_exp_iff)
  qed
  from this [OF bits(1)] this [OF bits(2)] show ?thesis by simp
qed

lemma unat_and_31: "unat (w AND 31 :: usize) = unat w mod 32"
proof -
  have "(31 :: usize) = mask 5" by (simp add: mask_eq_exp_minus_1)
  then have "w AND 31 = take_bit 5 w" by (simp only: take_bit_eq_mask)
  then show ?thesis by (simp add: take_bit_eq_mod unat_mod_distrib)
qed

lemma find_next_thread_next_ready:
  assumes x: "x \<noteq> 0" and c: "c < 32"
  obtains t where "next_ready x c = Some t" "find_next_thread x (of_nat c) = Ok (of_nat t)" "t < 32" "bit x t"
proof -
  obtain k where "bit x k" using word_bit_ex [OF x] by blast
  then obtain t where t: "next_ready x c = Some t"
    using cyclic_find_ex [of "bit x" k 32 c] c bit_imp_le_length [of x k] unfolding next_ready_def by auto
  note cases = next_ready_cases [OF t]
  have b: "bit x t" using cases by blast
  have t32: "t < 32" using bit_imp_le_length [OF b] by simp
  let ?u = "x AND NOT (push_bit c 2 - 1)"
  have ct: "unat ((of_nat c :: usize) AND 31) = c"
    using c by (simp add: unat_and_31 unat_of_nat)
  have "find_next_thread x (of_nat c) = Ok (of_nat t)"
  proof (cases "x AND (x - 1) = 0")
    case True
    have "\<not> bit x i" if "i < t" for i
      using single_bit [OF True b, of i] that by auto
    with x True show ?thesis
      by (simp add: find_next_thread_def trailing_zeros_lowest [OF b])
  next
    case False
    show ?thesis
    proof (cases "c < t")
      case True
      have "bit ?u t" using True b by (simp add: bit_upper [OF c])
      moreover have "\<not> bit ?u i" if "i < t" for i
        using cases True that by (auto simp: bit_upper [OF c])
      ultimately have "trailing_zeros ?u = of_nat t" "?u \<noteq> 0"
        by (auto intro: trailing_zeros_lowest)
      with x False show ?thesis by (simp add: find_next_thread_def ct Let_def)
    next
      case le: False
      with cases have "\<not> (c < i \<and> bit x i)" for i
        using bit_imp_le_length [of x i] by auto
      then have "\<not> bit ?u i" for i by (simp add: bit_upper [OF c])
      then have "?u = 0" using word_bit_ex by blast
      moreover have "trailing_zeros x = of_nat t"
        using cases le by (intro trailing_zeros_lowest [OF b]) auto
      ultimately show ?thesis using x False by (simp add: find_next_thread_def ct Let_def)
    qed
  qed
  with t t32 b that show thesis by blast
qed

text \<open>C20. For a non-empty mask \<open>find_next_thread\<close> returns the ready thread that comes first after the
  current one in cyclic order, as the reference search \<open>next_ready\<close> does: the de Bruijn table,
  the shortcut for a single thread and the split into upper and lower threads
  compute a round-robin choice, and no ready thread is nearer to its turn.\<close>

theorem find_next_thread_round_robin:
  assumes "x \<noteq> 0" "c < 32"
  shows "\<exists>t. next_ready x c = Some t \<and> find_next_thread x (of_nat c) = Ok (of_nat t) \<and> t < 32 \<and>
    bit x t \<and> (\<forall>u. bit x u \<longrightarrow> turns 32 c t \<le> turns 32 c u)"
proof -
  obtain t where t: "next_ready x c = Some t" "find_next_thread x (of_nat c) = Ok (of_nat t)" "t < 32" "bit x t"
    using find_next_thread_next_ready [OF assms] .
  have "turns 32 c t \<le> turns 32 c u" if "bit x u" for u
    using cyclic_find_nearest [OF t(1) [unfolded next_ready_def] that assms(2)] bit_imp_le_length [OF that]
    by simp
  with t show ?thesis by blast
qed

theorem find_next_thread_round_robin_witness:
  "\<exists>t. next_ready 0x24 2 = Some t \<and> find_next_thread 0x24 2 = Ok (of_nat t) \<and> bit (0x24 :: usize) t"
  using find_next_thread_round_robin [of "0x24" 2] by auto

end
