(* ===== verification/Sched_Runs.thy ===== *)
theory Sched_Runs
  imports Handlers Thread_Choice
begin

text \<open>
  Runs of the scheduler on processes that are in good order: each routine is given as
  the change it makes to the process table, the active address space and the
  thread contexts.
\<close>

section \<open>Processes in good order\<close>

definition asid :: "usize \<Rightarrow> usize" where
  "asid m = drop_bit 22 m AND 0x1ff"

abbreviation proc_at :: "Kernel \<Rightarrow> PID \<Rightarrow> Process" where
  "proc_at s q \<equiv> processes s ! pid_idx q"

text \<open>The process exists, its slot and its address space carry its number, and it has its
  thread contexts.\<close>

definition live :: "Kernel \<Rightarrow> PID \<Rightarrow> bool" where
  "live s q =
     (q \<noteq> 0 \<and> pid_idx q < length (processes s) \<and> proc_state (proc_at s q) \<noteq> Free \<and>
      proc_pid (proc_at s q) = q \<and> asid (proc_mapping (proc_at s q)) = ucast q \<and>
      pid_idx q < length (PROCESS_TABLE s) \<and> PROCESS_TABLE s ! pid_idx q \<and>
      length (threads (process_impl s (ucast q))) = 31)"

lemma unat_ucast_pid: "unat (ucast (q :: PID) :: usize) = unat q"
  by (simp add: unsigned_ucast_eq take_bit_nat_eq_self unsigned_less [THEN less_le_trans])

lemma pid_idx_eq: "q \<noteq> 0 \<Longrightarrow> pid_idx q = unat q - 1"
  by (simp add: pid_idx_def unat_sub_if' unat_ucast_pid unat_gt_0 Suc_leI)

lemma pid_idx_u8: "q \<noteq> 0 \<Longrightarrow> unat (q - 1) = pid_idx q"
  by (simp add: pid_idx_eq unat_sub_if' word_le_nat_alt unat_gt_0 Suc_leI)

lemma pid_idx_inj: "q \<noteq> 0 \<Longrightarrow> r \<noteq> 0 \<Longrightarrow> pid_idx q = pid_idx r \<longleftrightarrow> q = r"
  by (metis One_nat_def Suc_pred pid_idx_eq unat_gt_0 word_unat_eq_iff)

lemma inner_key_asid: "inner_key s = asid (satp s)"
  by (simp add: inner_key_def asid_def)

lemma get_pid_asid:
  assumes "asid m = ucast q" "q \<noteq> 0"
  shows "get_pid m = Some q"
proof -
  have "ucast (drop_bit 22 m AND 0x1ff) = q"
    using assms(1) unfolding asid_def by (metis ucast_u8_usize)
  then show ?thesis using assms(2) by (simp add: get_pid_def nonzero_def)
qed

section \<open>Changes\<close>

definition setp :: "PID \<Rightarrow> (Process \<Rightarrow> Process) \<Rightarrow> Kernel \<Rightarrow> Kernel" where
  "setp q f s = s\<lparr>processes := (processes s)[pid_idx q := f (proc_at s q)]\<rparr>"

definition goto :: "PID \<Rightarrow> Kernel \<Rightarrow> Kernel" where
  "goto q s = s\<lparr>current_pid := q, satp := proc_mapping (proc_at s q)\<rparr>"

definition on_thread :: "TID \<Rightarrow> Kernel \<Rightarrow> Kernel" where
  "on_thread t s = s\<lparr>process_impl := (process_impl s)(inner_key s :=
     (impl s)\<lparr>hardware_thread := t + 1\<rparr>)\<rparr>"

text \<open>The process whose address space is active is the current one.\<close>

definition in_space :: "Kernel \<Rightarrow> PID \<Rightarrow> bool" where
  "in_space s q = (current_pid s = q \<and> asid (satp s) = ucast q)"

named_theorems change_simps

lemma setp_simps [change_simps]:
  "length (processes (setp q f s)) = length (processes s)"
  "PROCESS_TABLE (setp q f s) = PROCESS_TABLE s"
  "process_impl (setp q f s) = process_impl s"
  "current_pid (setp q f s) = current_pid s" "satp (setp q f s) = satp s"
  "SWITCHTO_CALLER (setp q f s) = SWITCHTO_CALLER s"
  "ORIGINAL_PID (setp q f s) = ORIGINAL_PID s" "ORIGINAL_TID (setp q f s) = ORIGINAL_TID s"
  by (simp_all add: setp_def)

lemma goto_simps [change_simps]:
  "processes (goto q s) = processes s" "PROCESS_TABLE (goto q s) = PROCESS_TABLE s"
  "process_impl (goto q s) = process_impl s" "current_pid (goto q s) = q"
  "satp (goto q s) = proc_mapping (proc_at s q)"
  "SWITCHTO_CALLER (goto q s) = SWITCHTO_CALLER s"
  "ORIGINAL_PID (goto q s) = ORIGINAL_PID s" "ORIGINAL_TID (goto q s) = ORIGINAL_TID s"
  by (simp_all add: goto_def)

lemma on_thread_simps [change_simps]:
  "processes (on_thread t s) = processes s" "PROCESS_TABLE (on_thread t s) = PROCESS_TABLE s"
  "current_pid (on_thread t s) = current_pid s" "satp (on_thread t s) = satp s"
  "SWITCHTO_CALLER (on_thread t s) = SWITCHTO_CALLER s"
  "ORIGINAL_PID (on_thread t s) = ORIGINAL_PID s" "ORIGINAL_TID (on_thread t s) = ORIGINAL_TID s"
  "threads (process_impl (on_thread t s) k) = threads (process_impl s k)"
  "hardware_thread (impl (on_thread t s)) = t + 1"
  by (simp_all add: on_thread_def impl_def inner_key_def)

lemma Process_activate_cong:
  "proc_pid p = proc_pid q \<Longrightarrow> proc_mapping p = proc_mapping q \<Longrightarrow> Process_activate p = Process_activate q"
  by (simp add: Process_activate_def)

lemma goto_satp: "goto q (s\<lparr>satp := m\<rparr>) = goto q s"
  by (simp add: goto_def)

lemma other_fields [change_simps]:
  "SIM (setp q f s) = SIM s" "SIM_BACKING (setp q f s) = SIM_BACKING s" "IRQ_ENABLED (setp q f s) = IRQ_ENABLED s"
  "HANDLING_IRQ (setp q f s) = HANDLING_IRQ s" "PREVIOUS_PAIR (setp q f s) = PREVIOUS_PAIR s"
  "IRQ_HANDLERS (setp q f s) = IRQ_HANDLERS s"
  "SIM (goto q s) = SIM s" "SIM_BACKING (goto q s) = SIM_BACKING s" "IRQ_ENABLED (goto q s) = IRQ_ENABLED s"
  "HANDLING_IRQ (goto q s) = HANDLING_IRQ s" "PREVIOUS_PAIR (goto q s) = PREVIOUS_PAIR s"
  "IRQ_HANDLERS (goto q s) = IRQ_HANDLERS s"
  "SIM (on_thread t s) = SIM s" "SIM_BACKING (on_thread t s) = SIM_BACKING s"
  "IRQ_ENABLED (on_thread t s) = IRQ_ENABLED s" "HANDLING_IRQ (on_thread t s) = HANDLING_IRQ s"
  "PREVIOUS_PAIR (on_thread t s) = PREVIOUS_PAIR s" "IRQ_HANDLERS (on_thread t s) = IRQ_HANDLERS s"
  "servers (setp q f s) = servers s" "servers (goto q s) = servers s" "servers (on_thread t s) = servers s"
  "SWAP (setp q f s) = SWAP s" "SWAP (goto q s) = SWAP s" "SWAP (on_thread t s) = SWAP s"
  by (simp_all add: setp_def goto_def on_thread_def)

lemma impl_setp: "impl (setp q f s) = impl s"
  by (simp add: setp_def impl_def inner_key_def)

lemma proc_at_setp:
  assumes "live s q" "r \<noteq> 0"
  shows "proc_at (setp q f s) r = (if r = q then f (proc_at s q) else proc_at s r)"
  using assms by (simp add: live_def setp_def nth_list_update pid_idx_inj)

lemma live_setp:
  assumes "live s q" "live s r"
    "proc_state (f (proc_at s q)) \<noteq> Free" "proc_pid (f (proc_at s q)) = proc_pid (proc_at s q)"
    "proc_mapping (f (proc_at s q)) = proc_mapping (proc_at s q)"
  shows "live (setp q f s) r"
  using assms(2-) proc_at_setp [OF assms(1), of r f]
  by (auto simp: live_def setp_simps)

lemma live_goto [simp]: "live (goto r s) q = live s q"
  by (simp add: live_def change_simps)

lemma live_on_thread [simp]: "live (on_thread t s) q = live s q"
  by (simp add: live_def change_simps)

section \<open>Basic runs\<close>

lemma get_process_run: "live s q \<Longrightarrow> get_process q s = (Done (Ok (proc_at s q)), s)"
  by (simp add: get_process_def live_def get_pid_asid)

lemma set_process_run: "set_process q f s = (Done (Ok ()), setp q f s)"
  by (simp add: set_process_def setp_def)

lemma ArchProcess_current_run: "in_space s q \<Longrightarrow> ArchProcess_current s = (Done (Ok q), s)"
  by (simp add: ArchProcess_current_def kcheck_def kassert_def in_space_def kbind_def asid_def)

lemma activate_mapping_run:
  "activate (proc_mapping (proc_at s q)) s = (Done (Ok ()), s\<lparr>satp := proc_mapping (proc_at s q)\<rparr>)"
  by (simp add: activate_def)

lemma in_space_goto: "live s q \<Longrightarrow> in_space (goto q s) q"
  by (simp add: in_space_def change_simps live_def)

lemma Process_activate_run:
  assumes "live s q"
  shows "Process_activate (proc_at s q) s = (Done (Ok ()), goto q s)"
proof -
  have p: "proc_pid (proc_at s q) = q" "q \<noteq> 0" using assms by (simp_all add: live_def)
  have 1: "set_current_pid q s = (Done (Ok ()), s\<lparr>current_pid := q\<rparr>)"
    using assms pid_idx_u8 [OF p(2)] by (simp add: set_current_pid_def live_def Let_def)
  have 2: "activate (proc_mapping (proc_at s q)) (s\<lparr>current_pid := q\<rparr>) = (Done (Ok ()), goto q s)"
    by (simp add: activate_def goto_def)
  show ?thesis
    unfolding Process_activate_def p
    by (simp add: kbind_Ok 1 2 ArchProcess_current_run [OF in_space_goto [OF assms]])
qed

lemma set_tid_run:
  assumes "unat t < 31" "length (threads (impl s)) = 31"
  shows "set_tid t s = (Done (Ok ()), on_thread t s)"
proof -
  have "t \<noteq> 255" using assms(1) by auto
  then show ?thesis
    using assms by (simp add: set_tid_def fixup_irq_def IRQ_TID_SENTINAL_def kcheck_def kassert_def
        set_impl_def on_thread_def kbind_def Let_def)
qed

lemma impl_in_space: "in_space s q \<Longrightarrow> impl s = process_impl s (ucast q)"
  by (simp add: impl_def inner_key_asid in_space_def)

lemma enter_thread_run:
  assumes "in_space s q" "live s q" "unat t < 31"
  shows "enter_thread t s = (Done (Ok ()), on_thread t s)"
proof -
  have "length (threads (impl s)) = 31"
    using assms by (simp add: impl_in_space live_def)
  from set_tid_run [OF assms(3) this] show ?thesis
    by (simp add: enter_thread_def kbind_Ok ArchProcess_current_run [OF assms(1)])
qed

section \<open>Thread masks\<close>

lemma bit_thread_bit: "bit (thread_bit t) i \<longleftrightarrow> i = unat t mod 32"
  by (auto simp: thread_bit_def unat_and_31 bit_exp_iff)

lemma and_thread_bit: "x AND thread_bit t = 0 \<longleftrightarrow> \<not> bit x (unat t mod 32)"
proof
  assume "x AND thread_bit t = 0"
  then have "\<not> bit (x AND thread_bit t) (unat t mod 32)" by simp
  then show "\<not> bit x (unat t mod 32)" by (simp add: bit_and_iff bit_thread_bit)
next
  assume "\<not> bit x (unat t mod 32)"
  then show "x AND thread_bit t = 0"
    by (intro bit_word_eqI) (auto simp: bit_and_iff bit_thread_bit)
qed

lemma bit_add_thread: "bit (x OR thread_bit t) i \<longleftrightarrow> bit x i \<or> i = unat t mod 32"
  by (simp add: bit_or_iff bit_thread_bit)

lemma or_thread_nonzero: "x OR thread_bit t \<noteq> 0"
  using bit_add_thread [of x t "unat t mod 32"] by auto

lemma bit_del_thread: "bit (x AND NOT (thread_bit t)) i \<longleftrightarrow> bit x i \<and> i \<noteq> unat t mod 32"
  by (auto simp: bit_and_iff bit_not_iff bit_thread_bit dest: bit_imp_le_length)

lemma or_and_not_thread:
  assumes "\<not> bit x (unat t)" "unat t < 32"
  shows "(x OR thread_bit t) AND NOT (thread_bit t) = x"
  using assms by (intro bit_word_eqI) (auto simp: bit_del_thread bit_add_thread)

section \<open>Switching processes\<close>

definition entered :: "PID \<Rightarrow> TID \<Rightarrow> usize \<Rightarrow> Kernel \<Rightarrow> Kernel" where
  "entered b t y s =
     goto b (setp b (\<lambda>q. q\<lparr>current_thread := t, proc_state := Running (y AND NOT (thread_bit t))\<rparr>) s)"

lemma setp_setp: "setp q f (setp q g s) = setp q (\<lambda>p. f (g p)) s" if "live s q"
  using that by (simp add: setp_def live_def)

lemma goto_setp_satp:
  "goto b (setp b f (s\<lparr>satp := m\<rparr>)) = goto b (setp b f s)"
  by (simp add: goto_def setp_def)

lemma resolve_thread_run:
  assumes b: "live s b" and st: "proc_state (proc_at s b) = Ready y"
    and pick: "if nt = 0 then find_next_thread y (current_thread (proc_at s b)) = Ok t else t = nt"
    and t: "bit y (unat t)" "unat t < 32"
  shows "resolve_thread b nt s = (Done (Ok t), setp b (\<lambda>q. q\<lparr>current_thread := t\<rparr>) s)"
proof -
  have "y \<noteq> 0" "y AND thread_bit t \<noteq> 0" using t by (auto simp: and_thread_bit)
  moreover have "(if nt = 0 then lift (find_next_thread y (current_thread (proc_at s b))) else ret nt) s
      = (Done (Ok t), s)"
    using pick by (auto split: if_splits)
  ultimately show ?thesis
    by (simp add: resolve_thread_def kbind_Ok get_process_run [OF b] st kassert_def
        set_current_thread_def set_process_run)
qed

lemma enter_process_run:
  assumes b: "live s b" and st: "proc_state (proc_at s b) = Ready y"
  shows "enter_process b t s =
    (Done (Ok ()), goto b (setp b (\<lambda>q. q\<lparr>proc_state := Running (y AND NOT (thread_bit t))\<rparr>) s))"
proof -
  let ?f = "\<lambda>q. q\<lparr>proc_state := Running (y AND NOT (thread_bit t))\<rparr>"
  let ?m = "proc_mapping (proc_at s b)"
  let ?s = "setp b ?f (s\<lparr>satp := ?m\<rparr>)"
  have "live (s\<lparr>satp := ?m\<rparr>) b" using b by (simp add: live_def)
  then have l: "live ?s b" by (intro live_setp) auto
  show ?thesis
    by (simp add: enter_process_def kbind_Ok get_process_run [OF b] activate_mapping_run st
        set_process_run get_process_run [OF l] Process_activate_run [OF l] goto_setp_satp)
qed

lemma leave_process_run:
  assumes "live s a" "left_state pt cr (proc_state (proc_at s a)) = Some l"
  shows "leave_process a pt cr s =
    (Done (Ok ()), setp a (\<lambda>q. q\<lparr>current_thread := pt, proc_state := l\<rparr>) s)"
  using assms
  by (simp add: leave_process_def expect_def kmatch_def kbind_Ok get_process_run set_current_thread_def
      set_process_run setp_setp)

lemma activate_process_thread_run:
  assumes live: "live s a" "live s b" and ne: "a \<noteq> b" and cur: "current_pid s = a"
    and st: "proc_state (proc_at s b) = Ready y"
    and pick: "if nt = 0 then find_next_thread y (current_thread (proc_at s b)) = Ok t else t = nt"
    and t: "bit y (unat t)" "unat t < 31"
    and post: "post_activate op t (entered b t y s) = (Done (Ok r), s2)"
      "live s2 a" "live s2 b" "in_space s2 b" "proc_at s2 a = proc_at s a"
    and left: "left_state pt cr (proc_state (proc_at s a)) = Some l"
  shows "activate_process_thread pt b nt cr op s =
    (Done (Ok (case r of Some i \<Rightarrow> i | None \<Rightarrow> t)),
     on_thread t (setp a (\<lambda>q. q\<lparr>current_thread := pt, proc_state := l\<rparr>) s2))"
proof -
  let ?s1 = "setp b (\<lambda>q. q\<lparr>current_thread := t\<rparr>) s"
  let ?s3 = "setp a (\<lambda>q. q\<lparr>current_thread := pt, proc_state := l\<rparr>) s2"
  have t32: "unat t < 32" using t by simp
  note r1 = resolve_thread_run [OF live(2) st pick t(1) t32]
  have b0: "b \<noteq> 0" using live(2) by (simp add: live_def)
  have p1: "proc_at ?s1 b = (proc_at s b)\<lparr>current_thread := t\<rparr>"
    using proc_at_setp [OF live(2) b0] by simp
  have l1: "live ?s1 b"
    using live(2) by (intro live_setp) (simp_all add: live_def)
  have r2: "enter_process b t ?s1 = (Done (Ok ()), entered b t y s)"
    using enter_process_run [OF l1, of y t] st p1 by (simp add: entered_def setp_setp live)
  have r3: "leave_process a pt cr s2 = (Done (Ok ()), ?s3)"
    using post left by (intro leave_process_run) simp_all
  have "l \<noteq> Free"
    using left by (auto simp: left_state_def split: ProcessState.splits if_splits)
  then have "live ?s3 b"
    using post by (intro live_setp) (auto simp: live_def)
  moreover have "in_space ?s3 b"
    using post(4) by (simp add: in_space_def change_simps)
  ultimately have r4: "enter_thread t ?s3 = (Done (Ok ()), on_thread t ?s3)"
    using t(2) by (intro enter_thread_run)
  show ?thesis
    using ne cur
    by (simp add: activate_process_thread_def switch_process_def kbind_Ok r1 r2 post(1) r3 r4)
qed

text \<open>The state after a switch from process \<open>a\<close> to thread \<open>t\<close> of process \<open>b\<close>.\<close>

definition switched :: "PID \<Rightarrow> TID \<Rightarrow> ProcessState \<Rightarrow> PID \<Rightarrow> TID \<Rightarrow> usize \<Rightarrow> Kernel \<Rightarrow> Kernel" where
  "switched a pt l b t y s =
     on_thread t (setp a (\<lambda>q. q\<lparr>current_thread := pt, proc_state := l\<rparr>) (entered b t y s))"

lemma entered_live:
  assumes "live s a" "live s b"
  shows "live (entered b t y s) a"
  using assms by (simp add: entered_def) (intro live_setp, simp_all add: live_def)

lemma switched_simps [change_simps]:
  "length (processes (switched a pt l b t y s)) = length (processes s)"
  "PROCESS_TABLE (switched a pt l b t y s) = PROCESS_TABLE s"
  "current_pid (switched a pt l b t y s) = b"
  "SWITCHTO_CALLER (switched a pt l b t y s) = SWITCHTO_CALLER s"
  "ORIGINAL_PID (switched a pt l b t y s) = ORIGINAL_PID s"
  "ORIGINAL_TID (switched a pt l b t y s) = ORIGINAL_TID s"
  by (simp_all add: switched_def entered_def change_simps)

lemma switched_view:
  assumes live: "live s a" "live s b" and ne: "a \<noteq> b" and l: "l \<noteq> Free"
  shows "in_space (switched a pt l b t y s) b"
    "current_tid (switched a pt l b t y s) = t"
    "q \<noteq> 0 \<Longrightarrow> proc_at (switched a pt l b t y s) q =
       (if q = a then (proc_at s a)\<lparr>current_thread := pt, proc_state := l\<rparr>
        else if q = b then (proc_at s b)\<lparr>current_thread := t, proc_state := Running (y AND NOT (thread_bit t))\<rparr>
        else proc_at s q)"
    "live s q \<Longrightarrow> live (switched a pt l b t y s) q"
proof -
  let ?g = "\<lambda>q. q\<lparr>current_thread := t, proc_state := Running (y AND NOT (thread_bit t))\<rparr>"
  let ?e = "entered b t y s"
  have nz: "a \<noteq> 0" "b \<noteq> 0" using live by (auto simp: live_def)
  have la: "live ?e a" by (rule entered_live [OF live])
  have pe: "proc_at ?e r = (if r = b then ?g (proc_at s b) else proc_at s r)" if "r \<noteq> 0" for r
    using proc_at_setp [OF live(2) that, of ?g] by (simp add: entered_def change_simps)
  show "in_space (switched a pt l b t y s) b"
    using proc_at_setp [OF live(2) nz(2), of ?g] live
    by (simp add: in_space_def switched_def entered_def change_simps live_def)
  show "current_tid (switched a pt l b t y s) = t"
    by (simp add: switched_def current_tid_def change_simps)
  show "proc_at (switched a pt l b t y s) q =
       (if q = a then (proc_at s a)\<lparr>current_thread := pt, proc_state := l\<rparr>
        else if q = b then ?g (proc_at s b) else proc_at s q)" if "q \<noteq> 0"
    using proc_at_setp [OF la that] pe [OF that] pe [OF nz(1)] ne
    by (simp add: switched_def change_simps)
  show "live (switched a pt l b t y s) q" if "live s q"
  proof -
    have "live ?e q" using entered_live [OF that live(2)] .
    with la l show ?thesis
      unfolding switched_def live_on_thread by (intro live_setp) simp_all
  qed
qed

lemma switch_run:
  assumes "live s a" "live s b" "a \<noteq> b" "current_pid s = a"
    "proc_state (proc_at s b) = Ready y"
    "if nt = 0 then find_next_thread y (current_thread (proc_at s b)) = Ok t else t = nt"
    "bit y (unat t)" "unat t < 31"
    "left_state pt cr (proc_state (proc_at s a)) = Some l"
  shows "activate_process_thread pt b nt cr PA_None s = (Done (Ok t), switched a pt l b t y s)"
proof -
  let ?g = "\<lambda>q. q\<lparr>current_thread := t, proc_state := Running (y AND NOT (thread_bit t))\<rparr>"
  have nz: "a \<noteq> 0" using assms by (auto simp: live_def)
  have "in_space (entered b t y s) b"
    unfolding entered_def using assms(2) by (intro in_space_goto live_setp) (simp_all add: live_def)
  moreover have "proc_at (entered b t y s) a = proc_at s a"
    using proc_at_setp [OF assms(2) nz, of ?g] assms(3) by (simp add: entered_def change_simps)
  moreover have "post_activate PA_None t (entered b t y s) = (Done (Ok None), entered b t y s)"
    by (simp add: post_activate_def)
  ultimately show ?thesis
    using activate_process_thread_run [OF assms(1-8) _ _ _ _ _ assms(9), of PA_None None "entered b t y s"]
      entered_live [OF assms(1,2)] entered_live [OF assms(2,2)]
    by (simp add: switched_def)
qed

section \<open>Waking, blocking and resuming a thread\<close>

lemma ready_thread_run:
  assumes "live s q" "woken u (proc_state (proc_at s q)) = Some st"
  shows "ready_thread q u s = (Done (Ok ()), setp q (\<lambda>p. p\<lparr>proc_state := st\<rparr>) s)"
  using assms by (simp add: ready_thread_def kbind_Ok get_process_run set_process_run)

text \<open>Thread \<open>t\<close> of process \<open>a\<close> runs.\<close>

definition thread_runs :: "PID \<Rightarrow> TID \<Rightarrow> Kernel \<Rightarrow> bool" where
  "thread_runs a t s =
     (live s a \<and> in_space s a \<and> current_thread (proc_at s a) = t \<and> current_tid s = t \<and>
      0 < unat t \<and> unat t < 31 \<and>
      (case proc_state (proc_at s a) of Running x \<Rightarrow> \<not> bit x (unat t) | _ \<Rightarrow> False))"

lemma unschedule_run:
  assumes "live s q" "proc_state (proc_at s q) = Running x" "\<not> bit x (unat t)" "unat t < 32"
  shows "unschedule_thread q t s =
    (Done (Ok ()), setp q (\<lambda>p. p\<lparr>proc_state := (if x = 0 then Sleeping else Ready x)\<rparr>) s)"
proof -
  have "x AND thread_bit t = 0" using assms by (simp add: and_thread_bit)
  then show ?thesis
    using assms by (simp add: unschedule_thread_def kbind_Ok get_process_run set_process_run)
qed

lemma switch_to_ready_run:
  assumes "live s q" "proc_state (proc_at s q) = Ready y" "bit y (unat t)" "unat t < 31"
  shows "switch_to_thread q (Some t) s =
    (Done (Ok ()), setp q (\<lambda>p. p\<lparr>current_thread := t, proc_state := Running (y AND NOT (thread_bit t))\<rparr>)
       (on_thread t (goto q s)))"
proof -
  have "y AND thread_bit t \<noteq> 0" "y \<noteq> 0" using assms(3,4) by (auto simp: and_thread_bit)
  moreover have "enter_thread t (goto q s) = (Done (Ok ()), on_thread t (goto q s))"
    using assms(1,4) by (intro enter_thread_run [OF in_space_goto [OF assms(1)]]) simp_all
  ultimately show ?thesis
    using assms
    by (simp add: switch_to_thread_def kbind_Ok get_process_run chosen_thread_def kassert_def
        Process_activate_run [OF assms(1)] set_process_run)
qed

end
