(* ===== verification/Demo_Kernel.thy ===== *)
theory Demo_Kernel
  imports Sched_Runs Demo_Machine
begin

text \<open>
  A kernel on the machine with two address spaces, on which the statements about the
  scheduler, the interrupts and the messages are instantiated. Process 1 is the kernel and runs on thread
  2. Process 3 is ready on thread 2. Process 4 is ready on threads 2 and 3.
\<close>

definition free_process :: Process where
  "free_process =
     \<lparr>proc_mapping = 0, proc_state = Free, proc_pid = 1, ppid = 1, current_thread = 2,
      previous_thread = 2, exception_handler = None\<rparr>"

definition demo_process :: "PID \<Rightarrow> usize \<Rightarrow> ProcessState \<Rightarrow> Process" where
  "demo_process q m st =
     free_process\<lparr>proc_mapping := m, proc_state := st, proc_pid := q\<rparr>"

definition demo_processes :: "Process list" where
  "demo_processes =
     (replicate 64 free_process)
       [0 := demo_process 1 0x80461010 (Running 0),
        2 := demo_process 3 0x80C61000 (Ready 4),
        3 := demo_process 4 0x81061005 (Ready 0xC)]"

definition demo_impl :: ProcessImpl where
  "demo_impl = \<lparr>hardware_thread = 3, last_tid_allocated = 2,
     threads = (replicate 31 default_thread)[2 := default_thread\<lparr>sepc := 0x10000\<rparr>,
                                             3 := default_thread\<lparr>sepc := 0x10000\<rparr>]\<rparr>"

definition demo_swap :: Swap where
  "demo_swap = \<lparr>swap_pc = 0x20000, prev_op = None, nested_op = None, swapper_state = 0x30000,
     swapper_args = replicate 8 0, mem_alloc_tracker_paddr = 0x61200000, mem_alloc_tracker_pages = 4,
     oom_irq_backing = None, clearmem_irq_backing = None, unmap_rpt_after_hard_oom = False,
     oom_thread_backing = None, oom_stashed_pid = None\<rparr>"

definition demo_kernel :: Kernel where
  "demo_kernel = Mem.extend (demo_spaces\<lparr>satp := 0x80461010, current_pid := 1\<rparr>)
     (Kernel.fields demo_processes (replicate 128 None)
        ((replicate 64 False)[0 := True, 2 := True, 3 := True]) (\<lambda>_. demo_impl)
        (replicate 32 None) 0 0 True False None None 2 2 False False (\<lambda>n. of_nat n) demo_swap)"

lemma demo_kernel_simps:
  "processes demo_kernel = demo_processes" "satp demo_kernel = 0x80461010" "current_pid demo_kernel = 1"
  "PROCESS_TABLE demo_kernel = (replicate 64 False)[0 := True, 2 := True, 3 := True]"
  "process_impl demo_kernel k = demo_impl" "servers demo_kernel = replicate 128 None"
  "IRQ_HANDLERS demo_kernel = replicate 32 None" "SIM demo_kernel = 0" "IRQ_ENABLED demo_kernel"
  "SWITCHTO_CALLER demo_kernel = None" "PREVIOUS_PAIR demo_kernel = None"
  "\<not> HANDLING_IRQ demo_kernel" "SWAP demo_kernel = demo_swap"
  by (simp_all add: demo_kernel_def Mem.extend_def Kernel.fields_def)

lemma demo_pid_idx: "pid_idx 1 = 0" "pid_idx 3 = 2" "pid_idx 4 = 3"
  by (simp_all add: pid_idx_def)

lemma demo_proc_at:
  assumes "q \<noteq> 0" "unat q \<le> 64"
  shows "proc_at demo_kernel q =
    (if q = 1 then demo_process 1 0x80461010 (Running 0)
     else if q = 3 then demo_process 3 0x80C61000 (Ready 4)
     else if q = 4 then demo_process 4 0x81061005 (Ready 0xC)
     else free_process)"
proof -
  have "pid_idx q < 64" "pid_idx q = 0 \<longleftrightarrow> q = 1" "pid_idx q = 2 \<longleftrightarrow> q = 3" "pid_idx q = 3 \<longleftrightarrow> q = 4"
    using assms by (auto simp: pid_idx_eq word_unat_eq_iff)
  then show ?thesis
    by (simp add: demo_kernel_simps demo_processes_def nth_list_update demo_pid_idx)
qed

lemma demo_live: "live demo_kernel 1" "live demo_kernel 3" "live demo_kernel 4"
  by (simp_all add: live_def demo_proc_at demo_kernel_simps demo_pid_idx demo_processes_def demo_process_def
      free_process_def asid_def demo_impl_def)

lemma demo_in_space: "in_space demo_kernel 1"
  by (simp add: in_space_def demo_kernel_simps asid_def)

end
