(* ===== verification/Main_Loop.thy ===== *)
theory Main_Loop
  imports Sched_Runs Demo_Kernel
begin

text \<open>
  The loop of kernel/src/main.rs that gives the processor to one runnable process after the
  other, and the proof that it is fair: a thread that is ready gets the processor after
  at most \<open>64 * 32\<close> rounds.
\<close>

section \<open>The loop\<close>

definition next_pid_to_run :: "PID option \<Rightarrow> PID option kr" where
  "next_pid_to_run last_pid s =
     (let next_pid = (case last_pid of Some v \<Rightarrow> unat v | None \<Rightarrow> 1) in
      if next_pid > length (processes s) then panic s
      else ret (map_option proc_pid
             (find runnable_process (drop next_pid (processes s) @ take next_pid (processes s)))) s)"

text \<open>
  What the process does with its quantum: it may wake threads that are blocked, and it
  ends the quantum by yielding or by waiting for an event.
\<close>

datatype quantum_end = Yields | Waits

type_synonym quantum = "(PID \<times> TID) list \<times> quantum_end"

definition thread_blocked :: "Kernel \<Rightarrow> PID \<Rightarrow> TID \<Rightarrow> bool" where
  "thread_blocked s q u =
     (1 < q \<and> q \<le> 64 \<and> unat u < 31 \<and>
      (case proc_state (proc_at s q) of
         Ready x \<Rightarrow> \<not> bit x (unat u)
       | Running x \<Rightarrow> \<not> bit x (unat u) \<and> u \<noteq> current_thread (proc_at s q)
       | Sleeping \<Rightarrow> True
       | _ \<Rightarrow> False))"

definition wake_blocked :: "PID \<times> TID \<Rightarrow> unit kr" where
  "wake_blocked w s = (case w of (q, u) \<Rightarrow> if thread_blocked s q u then ready_thread q u s else ret () s)"

text \<open>One round of the loop in \<open>kmain\<close>, on the kernel thread \<open>kt\<close>: the thread that ran.\<close>

definition kmain_round :: "TID \<Rightarrow> PID option \<Rightarrow> quantum \<Rightarrow> (PID \<times> TID) option kr" where
  "kmain_round kt last_pid quant =
     kbind (next_pid_to_run last_pid) (\<lambda>pid. case pid of
         None \<Rightarrow> kthen (kfor (fst quant) wake_blocked) (ret None)
       | Some p \<Rightarrow>
           kthen (sys_SwitchTo 1 kt p 0)
          (kbind (gets current_tid) (\<lambda>t.
           kthen (kfor (fst quant) wake_blocked)
          (kthen (case snd quant of Yields \<Rightarrow> do_yield p t | Waits \<Rightarrow> sys_WaitEvent p t)
                 (ret (Some (p, t)))))))"

fun kmain_trace :: "TID \<Rightarrow> PID option \<Rightarrow> quantum list \<Rightarrow> Kernel \<Rightarrow> (PID \<times> TID) option list" where
  "kmain_trace kt last_pid [] s = []"
| "kmain_trace kt last_pid (quant # quants) s =
     (case kmain_round kt last_pid quant s of
        (Done (Ok who), s') \<Rightarrow> who # kmain_trace kt (map_option fst who) quants s'
      | _ \<Rightarrow> [])"

section \<open>Between the rounds\<close>

definition wf_mask :: "usize \<Rightarrow> bool" where
  "wf_mask x = (x \<noteq> 0 \<and> (\<forall>i. bit x i \<longrightarrow> i < 31))"

lemma wf_maskI: "x \<noteq> 0 \<Longrightarrow> \<not> bit x 31 \<Longrightarrow> wf_mask x"
proof -
  assume x: "x \<noteq> 0" "\<not> bit x 31"
  have "i < 31" if "bit x i" for i
    using that x(2) bit_imp_le_length [OF that] by (cases "i = 31") auto
  with x(1) show ?thesis by (simp add: wf_mask_def)
qed

definition slot_ok :: "Kernel \<Rightarrow> PID \<Rightarrow> bool" where
  "slot_ok s q =
     (live s q \<and> ppid (proc_at s q) = 1 \<and> unat (current_thread (proc_at s q)) < 31)"

definition waiting_ok :: "Kernel \<Rightarrow> PID \<Rightarrow> bool" where
  "waiting_ok s q =
     (proc_state (proc_at s q) = Free \<or>
      slot_ok s q \<and>
      (case proc_state (proc_at s q) of Sleeping \<Rightarrow> True | Ready x \<Rightarrow> wf_mask x | _ \<Rightarrow> False))"

text \<open>The kernel's own thread runs; every other process is free, asleep or ready.\<close>

definition kernel_runs :: "TID \<Rightarrow> Kernel \<Rightarrow> bool" where
  "kernel_runs kt s =
     (0 < unat kt \<and> unat kt < 31 \<and> length (processes s) = 64 \<and> in_space s 1 \<and>
      SWITCHTO_CALLER s = None \<and> live s 1 \<and> proc_state (proc_at s 1) = Running 0 \<and>
      (\<forall>q. 1 < q \<and> q \<le> 64 \<longrightarrow> waiting_ok s q))"

text \<open>Thread \<open>t\<close> of process \<open>p\<close> runs in the quantum it was given by the kernel.\<close>

definition user_runs :: "TID \<Rightarrow> PID \<Rightarrow> TID \<Rightarrow> usize \<Rightarrow> Kernel \<Rightarrow> bool" where
  "user_runs kt p t x s =
     (0 < unat kt \<and> unat kt < 31 \<and> length (processes s) = 64 \<and> in_space s p \<and> 1 < p \<and> p \<le> 64 \<and>
      SWITCHTO_CALLER s = Some (1, kt) \<and> ORIGINAL_PID s = p \<and> ORIGINAL_TID s = t \<and> current_tid s = t \<and>
      live s 1 \<and> proc_state (proc_at s 1) = Ready (thread_bit kt) \<and> current_thread (proc_at s 1) = kt \<and>
      slot_ok s p \<and> current_thread (proc_at s p) = t \<and> proc_state (proc_at s p) = Running x \<and>
      \<not> bit x (unat t) \<and> (\<forall>i. bit x i \<longrightarrow> i < 31) \<and>
      (\<forall>q. 1 < q \<and> q \<le> 64 \<and> q \<noteq> p \<longrightarrow> waiting_ok s q))"

text \<open>The part of a process the fairness proof looks at.\<close>

definition ready_in :: "Kernel \<Rightarrow> PID \<Rightarrow> nat \<Rightarrow> bool" where
  "ready_in s q t =
     (case proc_state (proc_at s q) of Ready x \<Rightarrow> bit x t | Running x \<Rightarrow> bit x t | _ \<Rightarrow> False)"

lemma mask_eq_single: "unat kt < 31 \<Longrightarrow> bit (thread_bit kt) i = (i = unat kt)"
  by (simp add: bit_thread_bit)

lemma thread_bit_nonzero: "thread_bit t \<noteq> 0"
  by (metis and_thread_bit and.idem bit_thread_bit)

lemma find_next_single:
  assumes "unat kt < 31" "unat c < 32"
  shows "find_next_thread (thread_bit kt) c = Ok kt"
proof -
  obtain t where t: "find_next_thread (thread_bit kt) (of_nat (unat c)) = Ok (of_nat t)" "bit (thread_bit kt) t"
    using find_next_thread_next_ready [OF thread_bit_nonzero assms(2)] by blast
  have "t = unat kt" using t(2) assms(1) by (simp add: mask_eq_single)
  with t(1) show ?thesis by simp
qed

lemma find_next_wf:
  assumes "wf_mask x" "unat c < 31"
  obtains t where "find_next_thread x c = Ok t" "bit x (unat t)" "unat t < 31"
    "next_ready x (unat c) = Some (unat t)"
proof -
  obtain t where t: "next_ready x (unat c) = Some t" "find_next_thread x (of_nat (unat c)) = Ok (of_nat t)"
    "t < 32" "bit x t"
    using find_next_thread_next_ready [of x "unat c"] assms by (auto simp: wf_mask_def)
  have "t < 31" using t(4) assms(1) by (simp add: wf_mask_def)
  with t show thesis by (intro that [of "of_nat t"]) (simp_all add: unat_of_nat)
qed

lemma waiting_ok_cong:
  assumes "waiting_ok s q" "proc_at s' q = proc_at s q" "live s q \<Longrightarrow> live s' q"
  shows "waiting_ok s' q"
  using assms by (auto simp: waiting_ok_def slot_ok_def)

section \<open>Giving the processor to a process\<close>

definition with_caller :: "(PID \<times> TID) option \<Rightarrow> Kernel \<Rightarrow> Kernel" where
  "with_caller c s = s\<lparr>SWITCHTO_CALLER := c\<rparr>"

definition with_original :: "PID \<Rightarrow> TID \<Rightarrow> Kernel \<Rightarrow> Kernel" where
  "with_original p t s = s\<lparr>ORIGINAL_PID := p, ORIGINAL_TID := t\<rparr>"

lemma with_caller_simps [change_simps]:
  "processes (with_caller c s) = processes s" "PROCESS_TABLE (with_caller c s) = PROCESS_TABLE s"
  "process_impl (with_caller c s) = process_impl s" "current_pid (with_caller c s) = current_pid s"
  "satp (with_caller c s) = satp s" "SWITCHTO_CALLER (with_caller c s) = c"
  "ORIGINAL_PID (with_caller c s) = ORIGINAL_PID s" "ORIGINAL_TID (with_caller c s) = ORIGINAL_TID s"
  by (simp_all add: with_caller_def)

lemma with_original_simps [change_simps]:
  "processes (with_original p t s) = processes s" "PROCESS_TABLE (with_original p t s) = PROCESS_TABLE s"
  "process_impl (with_original p t s) = process_impl s"
  "current_pid (with_original p t s) = current_pid s"
  "satp (with_original p t s) = satp s" "SWITCHTO_CALLER (with_original p t s) = SWITCHTO_CALLER s"
  "ORIGINAL_PID (with_original p t s) = p" "ORIGINAL_TID (with_original p t s) = t"
  by (simp_all add: with_original_def)

lemma live_with [simp]:
  "live (with_caller c s) q = live s q" "live (with_original p t s) q = live s q"
  by (simp_all add: live_def change_simps)

lemma sys_SwitchTo_run:
  assumes k: "kernel_runs kt s" and p: "1 < p" "p \<le> 64" and st: "proc_state (proc_at s p) = Ready x"
  obtains t s' where
    "sys_SwitchTo 1 kt p 0 s = (Done (Ok Res_ResumeProcess), s')"
    "user_runs kt p t (x AND NOT (thread_bit t)) s'"
    "next_ready x (unat (current_thread (proc_at s p))) = Some (unat t)" "bit x (unat t)" "unat t < 31"
    "\<forall>q. 1 < q \<and> q \<noteq> p \<longrightarrow> proc_at s' q = proc_at s q"
proof -
  have ps: "waiting_ok s p" and k1: "live s 1" "in_space s 1" "SWITCHTO_CALLER s = None"
      "proc_state (proc_at s 1) = Running 0"
    using k p by (auto simp: kernel_runs_def)
  have lp: "live s p" "slot_ok s p" "wf_mask x" "unat (current_thread (proc_at s p)) < 31"
    using ps st by (auto simp: waiting_ok_def slot_ok_def)
  obtain t where t: "find_next_thread x (current_thread (proc_at s p)) = Ok t" "bit x (unat t)" "unat t < 31"
    "next_ready x (unat (current_thread (proc_at s p))) = Some (unat t)"
    using find_next_wf [OF lp(3,4)] .
  let ?s1 = "with_caller (Some (1, kt)) s"
  let ?s2 = "switched 1 kt (Ready (thread_bit kt)) p t x ?s1"
  let ?s' = "with_original p t ?s2"
  have p1: "1 \<noteq> p" "p \<noteq> 0" using p by auto
  have run: "activate_process_thread kt p 0 True PA_None ?s1 = (Done (Ok t), ?s2)"
    using k1 lp st t p1
    by (intro switch_run) (simp_all add: change_simps in_space_def left_state_def)
  have "sys_SwitchTo 1 kt p 0 s = (Done (Ok Res_ResumeProcess), ?s')"
    using k1(3) run
    by (simp add: sys_SwitchTo_def kcheck_def kassert_def kbind_Ok with_caller_def with_original_def)
  moreover
  have l1: "live ?s1 1" "live ?s1 p" using k1 lp by simp_all
  note v = switched_view [OF l1 p1(1), where l = "Ready (thread_bit kt)" and pt = kt and t = t and y = x,
      OF ProcessState.distinct(5) [symmetric]]
  have at: "proc_at ?s' q = proc_at s q" if "1 < q" "q \<noteq> p" for q
  proof -
    have "q \<noteq> 1" "q \<noteq> 0" using that by auto
    with v(3) [of q] that show ?thesis by (simp add: change_simps)
  qed
  moreover have "user_runs kt p t (x AND NOT (thread_bit t)) ?s'"
  proof -
    have w: "waiting_ok ?s' q" if "1 < q" "q \<le> 64" "q \<noteq> p" for q
    proof (rule waiting_ok_cong)
      show "waiting_ok s q" using k that by (simp add: kernel_runs_def)
      show "proc_at ?s' q = proc_at s q" by (rule at [OF that(1,3)])
      show "live s q \<Longrightarrow> live ?s' q" using v(4) [of q] by simp
    qed
    have i: "in_space ?s' p" "current_tid ?s' = t"
      using v(1,2) by (simp_all add: in_space_def change_simps current_tid_def impl_def inner_key_def)
    have a1: "proc_at ?s' 1 = (proc_at s 1)\<lparr>current_thread := kt, proc_state := Ready (thread_bit kt)\<rparr>"
      using v(3) [of 1] by (simp add: change_simps)
    have ap: "proc_at ?s' p = (proc_at s p)\<lparr>current_thread := t,
        proc_state := Running (x AND NOT (thread_bit t))\<rparr>"
      using v(3) [OF p1(2)] p1 by (simp add: change_simps)
    have lv: "live ?s' 1" "live ?s' p" using v(4) k1 lp by simp_all
    have m: "\<not> bit (x AND NOT (thread_bit t)) (unat t)" "\<forall>i. bit (x AND NOT (thread_bit t)) i \<longrightarrow> i < 31"
      using t(3) lp(3) by (simp_all add: bit_del_thread wf_mask_def)
    show ?thesis
      unfolding user_runs_def
      using k p p1 w i a1 ap lv lp t(3) m
      by (simp add: kernel_runs_def change_simps slot_ok_def)
  qed
  ultimately show thesis using that t by blast
qed

section \<open>Waking threads in a quantum\<close>

text \<open>Only more threads are ready, and nobody's cursor moves.\<close>

definition only_woken :: "Kernel \<Rightarrow> Kernel \<Rightarrow> bool" where
  "only_woken s s' = (\<forall>q. 1 < q \<and> q \<le> 64 \<longrightarrow>
     current_thread (proc_at s' q) = current_thread (proc_at s q) \<and>
     (\<forall>i. ready_in s q i \<longrightarrow> ready_in s' q i))"

lemma only_woken_refl: "only_woken s s"
  by (simp add: only_woken_def)

lemma only_woken_trans: "only_woken s s' \<Longrightarrow> only_woken s' s'' \<Longrightarrow> only_woken s s''"
  by (simp add: only_woken_def)

lemma wake_run:
  assumes r: "user_runs kt p t x s"
  obtains x' s' where "wake_blocked w s = (Done (Ok ()), s')" "user_runs kt p t x' s'" "only_woken s s'"
proof (cases "thread_blocked s (fst w) (snd w)")
  case False
  then have "wake_blocked w s = (Done (Ok ()), s)"
    by (cases w) (simp add: wake_blocked_def)
  then show thesis using r only_woken_refl that by blast
next
  case True
  obtain q u where w: "w = (q, u)" by (cases w)
  have q: "1 < q" "q \<le> 64" "unat u < 31" "q \<noteq> 0" "q \<noteq> 1"
    using True by (auto simp: w thread_blocked_def)
  have um: "unat u mod 32 = unat u" using q(3) by simp
  have nfree: "proc_state (proc_at s q) \<noteq> Free"
    using True by (auto simp: w thread_blocked_def)
  have lq: "live s q" "slot_ok s q"
  proof -
    have "slot_ok s q"
    proof (cases "q = p")
      case True then show ?thesis using r by (simp add: user_runs_def)
    next
      case False
      then have "waiting_ok s q" using r q by (simp add: user_runs_def)
      then show ?thesis using nfree by (simp add: waiting_ok_def)
    qed
    then show "live s q" "slot_ok s q" by (simp_all add: slot_ok_def)
  qed
  obtain st where st: "woken u (proc_state (proc_at s q)) = Some st"
    and st_cases: "(\<exists>y. proc_state (proc_at s q) = Running y \<and> st = Running (y OR thread_bit u) \<and>
        \<not> bit y (unat u) \<and> u \<noteq> current_thread (proc_at s q))
      \<or> (\<exists>y. proc_state (proc_at s q) = Ready y \<and> st = Ready (y OR thread_bit u))
      \<or> proc_state (proc_at s q) = Sleeping \<and> st = Ready (thread_bit u)"
    using True um by (auto simp: w thread_blocked_def woken_def and_thread_bit split: ProcessState.splits)
  let ?f = "\<lambda>p. p\<lparr>proc_state := st\<rparr>"
  let ?s' = "setp q ?f s"
  have stf: "st \<noteq> Free" using st_cases by auto
  have at: "proc_at ?s' r = (if r = q then ?f (proc_at s q) else proc_at s r)" if "r \<noteq> 0" for r
    by (rule proc_at_setp [OF lq(1) that])
  have lv: "live s r \<Longrightarrow> live ?s' r" for r
    using stf by (intro live_setp [OF lq(1)]) simp_all
  have run: "wake_blocked w s = (Done (Ok ()), ?s')"
    using True ready_thread_run [OF lq(1) st] by (simp add: wake_blocked_def w)
  have ow: "only_woken s ?s'"
    unfolding only_woken_def
  proof (intro allI impI conjI)
    fix r :: PID and i assume rr: "1 < r \<and> r \<le> 64"
    then have "r \<noteq> 0" by auto
    note a = at [OF this]
    show "current_thread (proc_at ?s' r) = current_thread (proc_at s r)" by (simp add: a)
    show "ready_in s r i \<Longrightarrow> ready_in ?s' r i"
      using st_cases by (auto simp: ready_in_def a bit_add_thread)
  qed
  have others: "waiting_ok ?s' r" if "1 < r" "r \<le> 64" "r \<noteq> p" for r :: PID
  proof (cases "r = q")
    case False
    have r0: "r \<noteq> 0" using that by auto
    show ?thesis
      by (rule waiting_ok_cong [of s]) (use r that False at [OF r0] lv in \<open>simp_all add: user_runs_def\<close>)
  next
    case eq: True
    then have "waiting_ok s q" using r that by (simp add: user_runs_def)
    then have "(\<exists>y. proc_state (proc_at s q) = Ready y \<and> wf_mask y \<and> st = Ready (y OR thread_bit u))
        \<or> st = Ready (thread_bit u)"
      using st_cases by (auto simp: waiting_ok_def)
    then have "\<exists>z. st = Ready z \<and> wf_mask z"
    proof
      assume "\<exists>y. proc_state (proc_at s q) = Ready y \<and> wf_mask y \<and> st = Ready (y OR thread_bit u)"
      then obtain y where "wf_mask y" "st = Ready (y OR thread_bit u)" by blast
      then show ?thesis using q(3) um by (auto simp: wf_mask_def bit_add_thread or_thread_nonzero)
    next
      assume "st = Ready (thread_bit u)"
      then show ?thesis using q(3) um by (auto simp: wf_mask_def bit_thread_bit thread_bit_nonzero)
    qed
    then show ?thesis
      using lv lq eq at [OF q(4)] by (auto simp: waiting_ok_def slot_ok_def)
  qed
  have "\<exists>x'. user_runs kt p t x' ?s'"
  proof -
    let ?x' = "case proc_state (proc_at ?s' p) of Running z \<Rightarrow> z | _ \<Rightarrow> 0"
    have p0: "p \<noteq> 0" "1 < p" "p \<le> 64" using r by (auto simp: user_runs_def)
    have a1: "proc_at ?s' 1 = proc_at s 1" using at [of 1] q by simp
    have ap: "slot_ok ?s' p" "current_thread (proc_at ?s' p) = t" "proc_state (proc_at ?s' p) = Running ?x'"
      "\<not> bit ?x' (unat t)" "\<forall>i. bit ?x' i \<longrightarrow> i < 31"
    proof -
      have sp: "slot_ok s p" "current_thread (proc_at s p) = t" "proc_state (proc_at s p) = Running x"
        "\<not> bit x (unat t)" "\<forall>i. bit x i \<longrightarrow> i < 31"
        using r by (simp_all add: user_runs_def)
      have bit_inj: "unat t = unat u \<longleftrightarrow> t = u" by (simp add: word_unat_eq_iff)
      show "slot_ok ?s' p" "current_thread (proc_at ?s' p) = t"
        using sp lv [of p] at [OF p0(1)] by (auto simp: slot_ok_def)
      show "proc_state (proc_at ?s' p) = Running ?x'" "\<not> bit ?x' (unat t)" "\<forall>i. bit ?x' i \<longrightarrow> i < 31"
        using sp st_cases at [OF p0(1)] q(3) um bit_inj
        by (cases "p = q"; auto simp: bit_add_thread)+
    qed
    have "user_runs kt p t ?x' ?s'"
      unfolding user_runs_def
      using r ap others a1 lv [of 1]
      by (simp add: user_runs_def change_simps in_space_def current_tid_def impl_def inner_key_def)
    then show ?thesis by blast
  qed
  with run ow that show thesis by blast
qed

lemma wakes_run:
  assumes "user_runs kt p t x s"
  shows "\<exists>x' s'. kfor ws wake_blocked s = (Done (Ok ()), s') \<and> user_runs kt p t x' s' \<and> only_woken s s'"
  using assms
proof (induction ws arbitrary: x s)
  case Nil
  then show ?case using only_woken_refl by auto
next
  case (Cons w ws)
  obtain x1 s1 where 1: "wake_blocked w s = (Done (Ok ()), s1)" "user_runs kt p t x1 s1" "only_woken s s1"
    using wake_run [OF Cons.prems] .
  obtain x2 s2 where "kfor ws wake_blocked s1 = (Done (Ok ()), s2)" "user_runs kt p t x2 s2" "only_woken s1 s2"
    using Cons.IH [OF 1(2)] by blast
  then show ?case using 1 only_woken_trans by (auto simp: kbind_Ok)
qed

section \<open>The end of a quantum\<close>

text \<open>Going back to the kernel thread leaves the process in state \<open>l\<close> with its cursor on \<open>t\<close>.\<close>

lemma back_to_kernel:
  assumes r: "user_runs kt p t x s" and l: "left_state t cr (Running x) = Some l" "l \<noteq> Free"
    and lok: "case l of Sleeping \<Rightarrow> True | Ready y \<Rightarrow> wf_mask y | _ \<Rightarrow> False"
    and nt: "nt = 0 \<or> nt = kt"
  obtains s' where
    "activate_process_thread t 1 nt cr PA_None (with_caller None s) = (Done (Ok kt), s')"
    "kernel_runs kt s'" "live s' p" "proc_state (proc_at s' p) = l" "current_thread (proc_at s' p) = t"
    "ORIGINAL_PID s' = p" "ORIGINAL_TID s' = t"
    "\<And>q. 1 < q \<Longrightarrow> q \<noteq> p \<Longrightarrow> proc_at s' q = proc_at s q"
proof -
  let ?s1 = "with_caller None s"
  let ?s' = "switched p t l 1 kt (thread_bit kt) ?s1"
  have kt: "0 < unat kt" "unat kt < 31" "kt \<noteq> 0" and p: "1 < p" "p \<le> 64" "p \<noteq> 0" "p \<noteq> 1"
    using r by (auto simp: user_runs_def)
  have lv: "live ?s1 p" "live ?s1 1" using r by (simp_all add: user_runs_def slot_ok_def)
  have run: "activate_process_thread t 1 nt cr PA_None ?s1 = (Done (Ok kt), ?s')"
  proof (rule switch_run)
    show "if nt = 0 then find_next_thread (thread_bit kt) (current_thread (proc_at ?s1 1)) = Ok kt else kt = nt"
      using nt kt r find_next_single [of kt kt] by (auto simp: change_simps user_runs_def)
    show "bit (thread_bit kt) (unat kt)" using kt by (simp add: bit_thread_bit)
  qed (use lv p kt r l in \<open>simp_all add: change_simps user_runs_def in_space_def\<close>)
  note v = switched_view [OF lv p(4) l(2), where pt = t and t = kt and y = "thread_bit kt"]
  have at: "proc_at ?s' q = proc_at s q" if "1 < q" "q \<noteq> p" for q
  proof -
    have "q \<noteq> 1" "q \<noteq> 0" using that by auto
    with v(3) [of q] that show ?thesis by (simp add: change_simps)
  qed
  have ap: "proc_at ?s' p = (proc_at s p)\<lparr>current_thread := t, proc_state := l\<rparr>"
    using v(3) [OF p(3)] by (simp add: change_simps)
  have a1: "proc_state (proc_at ?s' 1) = Running 0"
  proof -
    have "thread_bit kt AND NOT (thread_bit kt) = 0" by simp
    then show ?thesis using v(3) [of 1] p by (simp add: change_simps)
  qed
  have lp: "live ?s' p" "live ?s' 1" using v(4) lv by simp_all
  have "waiting_ok ?s' q" if "1 < q" "q \<le> 64" for q
  proof (cases "q = p")
    case True
    have "slot_ok s p" "current_thread (proc_at s p) = t" using r by (simp_all add: user_runs_def)
    then show ?thesis
      using True ap lp lok by (auto simp: waiting_ok_def slot_ok_def)
  next
    case False
    show ?thesis
    proof (rule waiting_ok_cong)
      show "waiting_ok s q" using r that False by (simp add: user_runs_def)
      show "proc_at ?s' q = proc_at s q" by (rule at [OF that(1) False])
      show "live s q \<Longrightarrow> live ?s' q" using v(4) [of q] by simp
    qed
  qed
  then have "kernel_runs kt ?s'"
    using kt v(1) lp a1 r by (simp add: kernel_runs_def change_simps user_runs_def)
  with run lp ap at r show thesis
    by (intro that [of ?s']) (simp_all add: change_simps user_runs_def)
qed

lemma current_thread_same: "current_thread p = t \<Longrightarrow> p\<lparr>current_thread := t\<rparr> = (p :: Process)"
  by (cases p) simp

lemma restore_last_run:
  assumes "live s' p" "p \<noteq> 0" "ORIGINAL_PID s' = p" "ORIGINAL_TID s' = t" "unat t < 31"
    "current_thread (proc_at s' p) = t"
    "case proc_state (proc_at s' p) of Sleeping \<Rightarrow> True | Ready y \<Rightarrow> True | _ \<Rightarrow> False"
  shows "restore_last_thread s' = (Done (Ok ()), s')"
proof -
  have same: "setp p (\<lambda>q. q\<lparr>current_thread := t\<rparr>) s' = s'"
    using assms(6) by (simp add: setp_def current_thread_same)
  have "fst (set_last_thread p t s') \<in> {Done (Ok ()), Done (Err ThreadNotAvailable)} \<and>
      snd (set_last_thread p t s') = s'"
    using assms same
    by (auto simp: set_last_thread_def kbind_Ok get_process_run set_current_thread_def set_process_run
        split: ProcessState.splits)
  then have "ignore (set_last_thread p t) s' = (Done (Ok ()), s')"
    by (cases "set_last_thread p t s'") (auto simp: ignore_def kmatch_def)
  then show ?thesis
    using assms by (simp add: restore_last_thread_def nonzero_def kbind_Ok)
qed

lemma then_restore_run:
  assumes "m s = (Done (Ok x), s')" "restore_last_thread s' = (Done (Ok ()), s')"
  shows "then_restore_last_thread m s = (Done (Ok x), s')"
  using assms by (simp add: then_restore_last_thread_def kmatch_def kbind_Ok)

lemma or_process_not_found_run:
  "m s = (Done (Ok x), s') \<Longrightarrow> or_process_not_found m s = (Done (Ok Res_ResumeProcess), s')"
  by (simp add: or_process_not_found_def kmatch_def)

lemma yield_run:
  assumes r: "user_runs kt p t x s"
  obtains s' where "do_yield p t s = (Done (Ok Res_ResumeProcess), s')" "kernel_runs kt s'"
    "current_thread (proc_at s' p) = t" "\<And>i. bit x i \<Longrightarrow> ready_in s' p i"
    "\<And>q. 1 < q \<Longrightarrow> q \<noteq> p \<Longrightarrow> proc_at s' q = proc_at s q"
proof -
  let ?l = "Ready (x OR thread_bit t)"
  have t: "unat t < 31" "p \<noteq> 0" using r by (auto simp: user_runs_def slot_ok_def)
  have tm: "unat t mod 32 = unat t" using t(1) by simp
  have l: "left_state t True (Running x) = Some ?l" by (simp add: left_state_def)
  have wf: "wf_mask (x OR thread_bit t)"
    using r t(1) tm by (auto simp: wf_mask_def user_runs_def bit_add_thread or_thread_nonzero)
  have caller: "SWITCHTO_CALLER s = Some (1, kt)" using r by (simp add: user_runs_def)
  obtain s' where s': "activate_process_thread t 1 kt True PA_None (with_caller None s) = (Done (Ok kt), s')"
    "kernel_runs kt s'" "live s' p" "proc_state (proc_at s' p) = ?l" "current_thread (proc_at s' p) = t"
    "ORIGINAL_PID s' = p" "ORIGINAL_TID s' = t"
    "\<And>q. 1 < q \<Longrightarrow> q \<noteq> p \<Longrightarrow> proc_at s' q = proc_at s q"
    using back_to_kernel [OF r l, of kt] wf by auto
  have "restore_last_thread s' = (Done (Ok ()), s')"
    using s' t by (intro restore_last_run [of _ p t]) simp_all
  moreover have "or_process_not_found (activate_process_thread t 1 kt True PA_None) (with_caller None s)
      = (Done (Ok Res_ResumeProcess), s')"
    using s'(1) by (rule or_process_not_found_run)
  ultimately have "then_restore_last_thread (or_process_not_found
      (activate_process_thread t 1 kt True PA_None)) (with_caller None s) = (Done (Ok Res_ResumeProcess), s')"
    by (intro then_restore_run)
  then have "do_yield p t s = (Done (Ok Res_ResumeProcess), s')"
    using caller by (simp add: do_yield_def take_switchto_caller_def kbind_Ok with_caller_def)
  with s' show thesis
    by (intro that [of s']) (auto simp: ready_in_def bit_add_thread)
qed

lemma wait_run:
  assumes r: "user_runs kt p t x s"
  obtains s' where "sys_WaitEvent p t s = (Done (Ok Res_ResumeProcess), s')" "kernel_runs kt s'"
    "current_thread (proc_at s' p) = t" "\<And>i. bit x i \<Longrightarrow> ready_in s' p i"
    "\<And>q. 1 < q \<Longrightarrow> q \<noteq> p \<Longrightarrow> proc_at s' q = proc_at s q"
proof -
  obtain l where ld: "l = (if x = 0 then Sleeping else Ready x)" by blast
  have t: "unat t < 31" "p \<noteq> 0" using r by (auto simp: user_runs_def slot_ok_def)
  have l: "left_state t False (Running x) = Some l" by (simp add: left_state_def ld)
  have lok: "l \<noteq> Free" "case l of Sleeping \<Rightarrow> True | Ready y \<Rightarrow> wf_mask y | _ \<Rightarrow> False"
    using r by (simp_all add: ld wf_mask_def user_runs_def)
  have lp: "live s p" "ppid (proc_at s p) = 1" using r by (simp_all add: user_runs_def slot_ok_def)
  obtain s' where s': "activate_process_thread t 1 0 False PA_None (with_caller None s) = (Done (Ok kt), s')"
    "kernel_runs kt s'" "live s' p" "proc_state (proc_at s' p) = l" "current_thread (proc_at s' p) = t"
    "ORIGINAL_PID s' = p" "ORIGINAL_TID s' = t"
    "\<And>q. 1 < q \<Longrightarrow> q \<noteq> p \<Longrightarrow> proc_at s' q = proc_at s q"
    using back_to_kernel [OF r l lok, of 0] by auto
  have "restore_last_thread s' = (Done (Ok ()), s')"
    using s' t by (intro restore_last_run [of _ p t]) (simp_all add: ld)
  moreover have "or_process_not_found (activate_process_thread t 1 0 False PA_None) (with_caller None s)
      = (Done (Ok Res_ResumeProcess), s')"
    using s'(1) by (rule or_process_not_found_run)
  ultimately have "then_restore_last_thread (or_process_not_found
      (activate_process_thread t 1 0 False PA_None)) (with_caller None s) = (Done (Ok Res_ResumeProcess), s')"
    by (intro then_restore_run)
  then have "sys_WaitEvent p t s = (Done (Ok Res_ResumeProcess), s')"
    using lp get_process_run [OF lp(1)]
    by (simp add: sys_WaitEvent_def park_in_parent_def reset_switchto_caller_def expect_def kmatch_def
        kbind_Ok with_caller_def)
  with s' show thesis
    by (intro that [of s']) (auto simp: ready_in_def ld)
qed

section \<open>Fairness\<close>

lemma find_map_nth: "find P (map f xs) = map_option f (find (\<lambda>i. P (f i)) xs)"
  by (induction xs) auto

lemma rotation_cyclic:
  assumes "c < length xs"
  shows "drop (Suc c) xs @ take (Suc c) xs = map ((!) xs) (cyclic_after (length xs) c)"
proof -
  have "drop (Suc c) xs = map ((!) xs) [Suc c..<length xs]"
    by (rule nth_equalityI) auto
  moreover have "take (Suc c) xs = map ((!) xs) [0..<Suc c]"
    using assms by (intro nth_equalityI) (auto simp del: upt_Suc)
  ultimately show ?thesis
    by (simp add: cyclic_after_def del: upt_Suc)
qed

text \<open>The index before the one the search starts at.\<close>

definition cursor :: "PID option \<Rightarrow> nat" where
  "cursor last_pid = (case last_pid of Some v \<Rightarrow> unat v - 1 | None \<Rightarrow> 0)"

definition wf_last :: "PID option \<Rightarrow> bool" where
  "wf_last last_pid = (case last_pid of Some v \<Rightarrow> 1 \<le> v \<and> v \<le> 64 | None \<Rightarrow> True)"

lemma pid_gt_nonzero: "1 < q \<Longrightarrow> q \<noteq> (0 :: PID)"
  by auto

lemma pid_idx_bounds: "1 < q \<Longrightarrow> q \<le> 64 \<Longrightarrow> 0 < pid_idx q \<and> pid_idx q < 64"
  using pid_idx_eq [OF pid_gt_nonzero, of q] by (auto simp: word_less_nat_alt word_le_nat_alt)

lemma pid_of_idx:
  assumes "0 < k" "k < 64"
  shows "pid_idx (of_nat (Suc k)) = k" "1 < (of_nat (Suc k) :: PID)" "(of_nat (Suc k) :: PID) \<le> 64"
proof -
  have u: "unat (of_nat (Suc k) :: PID) = Suc k"
    using assms by (simp only: unat_of_nat) simp
  then show "1 < (of_nat (Suc k) :: PID)" "(of_nat (Suc k) :: PID) \<le> 64"
    using assms by (simp_all add: word_less_nat_alt word_le_nat_alt del: of_nat_Suc)
  have "(of_nat (Suc k) :: PID) \<noteq> 0"
    using u by (metis nat.distinct(1) unat_0)
  then show "pid_idx (of_nat (Suc k)) = k"
    using u by (simp add: pid_idx_eq del: of_nat_Suc)
qed

lemma waiting_runnable:
  assumes "waiting_ok s q"
  shows "runnable_process (proc_at s q) \<longleftrightarrow> (\<exists>x. proc_state (proc_at s q) = Ready x)"
  using assms by (auto simp: waiting_ok_def runnable_process_def split: ProcessState.splits)

lemma next_pid_run:
  assumes k: "kernel_runs kt s" and l: "wf_last last_pid" and p: "1 < p" "p \<le> 64" and r: "ready_in s p t"
  obtains q x where "next_pid_to_run last_pid s = (Done (Ok (Some q)), s)" "1 < q" "q \<le> 64"
    "proc_state (proc_at s q) = Ready x"
    "q \<noteq> p \<longrightarrow> turns 64 (pid_idx q) (pid_idx p) < turns 64 (cursor last_pid) (pid_idx p)"
proof -
  let ?P = "\<lambda>i. runnable_process (processes s ! i)"
  have len: "length (processes s) = 64" using k by (simp add: kernel_runs_def)
  have c: "cursor last_pid < 64"
    and n: "(case last_pid of Some v \<Rightarrow> unat v | None \<Rightarrow> 1) = Suc (cursor last_pid)"
    using l by (auto simp: cursor_def wf_last_def word_le_nat_alt split: option.splits)
  have wp: "waiting_ok s p" using k p by (simp add: kernel_runs_def)
  have Pp: "?P (pid_idx p)"
    using r wp by (auto simp: waiting_runnable ready_in_def waiting_ok_def split: ProcessState.splits)
  have ip: "pid_idx p < 64" using pid_idx_bounds [OF p] by simp
  obtain i where i: "find ?P (cyclic_after 64 (cursor last_pid)) = Some i" "i < 64" "?P i"
    using cyclic_find_ex [of ?P, OF Pp ip c] .
  have "i \<noteq> 0"
  proof
    assume "i = 0"
    moreover have "pid_idx 1 = 0" by (simp add: pid_idx_def)
    ultimately show False using i(3) k by (simp add: runnable_process_def kernel_runs_def)
  qed
  then have i0: "0 < i" by simp
  let ?q = "of_nat (Suc i) :: PID"
  note q = pid_of_idx [OF i0 i(2)]
  have wq: "waiting_ok s ?q" using k q by (simp add: kernel_runs_def del: of_nat_Suc)
  then obtain x where x: "proc_state (proc_at s ?q) = Ready x"
    using i(3) q waiting_runnable [OF wq] by (auto simp del: of_nat_Suc)
  then have "proc_pid (processes s ! i) = ?q"
    using wq q by (auto simp: waiting_ok_def slot_ok_def live_def simp del: of_nat_Suc)
  then have "next_pid_to_run last_pid s = (Done (Ok (Some ?q)), s)"
    using i(1) rotation_cyclic [of "cursor last_pid" "processes s"] c
    by (simp add: next_pid_to_run_def n len find_map_nth del: of_nat_Suc take_Suc drop_Suc)
  moreover have "turns 64 (pid_idx ?q) (pid_idx p) < turns 64 (cursor last_pid) (pid_idx p)" if "?q \<noteq> p"
  proof -
    have "i \<noteq> pid_idx p" using that q(1) pid_idx_inj [OF pid_gt_nonzero [OF q(2)] pid_gt_nonzero [OF p(1)]] by simp
    then show ?thesis
      using cyclic_find_closer [OF i(1) Pp c ip] q by (simp del: of_nat_Suc)
  qed
  ultimately show thesis using that q x by blast
qed

text \<open>How many rounds the thread can still have to wait.\<close>

definition rounds_left :: "Kernel \<Rightarrow> PID option \<Rightarrow> PID \<Rightarrow> nat \<Rightarrow> nat" where
  "rounds_left s last_pid p t =
     64 * turns 32 (unat (current_thread (proc_at s p))) t + turns 64 (cursor last_pid) (pid_idx p)"

lemma ready_in_user:
  "user_runs kt p u x s \<Longrightarrow> ready_in s p i = bit x i"
  by (simp add: ready_in_def user_runs_def)

lemma quantum_run:
  assumes r: "user_runs kt q u x s"
  obtains s1 s2 res where
    "kfor (fst quant) wake_blocked s = (Done (Ok ()), s1)"
    "(case snd quant of Yields \<Rightarrow> do_yield q u | Waits \<Rightarrow> sys_WaitEvent q u) s1 = (Done (Ok res), s2)"
    "kernel_runs kt s2" "current_thread (proc_at s2 q) = u" "\<forall>i. bit x i \<longrightarrow> ready_in s2 q i"
    "\<forall>p. 1 < p \<and> p \<le> 64 \<and> p \<noteq> q \<longrightarrow> (\<forall>i. ready_in s p i \<longrightarrow> ready_in s2 p i) \<and>
       current_thread (proc_at s2 p) = current_thread (proc_at s p)"
proof -
  obtain x' s1 where w: "kfor (fst quant) wake_blocked s = (Done (Ok ()), s1)" "user_runs kt q u x' s1"
    "only_woken s s1"
    using wakes_run [OF r] by blast
  have q: "1 < q" "q \<le> 64" using r by (simp_all add: user_runs_def)
  have x': "bit x i \<Longrightarrow> bit x' i" for i
    using w(3) q ready_in_user [OF r] ready_in_user [OF w(2)] unfolding only_woken_def by blast
  obtain s2 res where e:
    "(case snd quant of Yields \<Rightarrow> do_yield q u | Waits \<Rightarrow> sys_WaitEvent q u) s1 = (Done (Ok res), s2)"
    "kernel_runs kt s2" "current_thread (proc_at s2 q) = u" "\<And>i. bit x' i \<Longrightarrow> ready_in s2 q i"
    "\<And>p. 1 < p \<Longrightarrow> p \<noteq> q \<Longrightarrow> proc_at s2 p = proc_at s1 p"
  proof (cases "snd quant")
    case Yields
    with yield_run [OF w(2)] that show thesis by (metis quantum_end.simps(3))
  next
    case Waits
    with wait_run [OF w(2)] that show thesis by (metis quantum_end.simps(4))
  qed
  show thesis
  proof (rule that [OF w(1) e(1,2,3)])
    show "\<forall>i. bit x i \<longrightarrow> ready_in s2 q i" using e(4) x' by blast
    show "\<forall>p. 1 < p \<and> p \<le> 64 \<and> p \<noteq> q \<longrightarrow> (\<forall>i. ready_in s p i \<longrightarrow> ready_in s2 p i) \<and>
       current_thread (proc_at s2 p) = current_thread (proc_at s p)"
    proof (intro allI impI)
      fix p assume p: "1 < p \<and> p \<le> 64 \<and> p \<noteq> q"
      then have "proc_at s2 p = proc_at s1 p" using e(5) by simp
      then show "(\<forall>i. ready_in s p i \<longrightarrow> ready_in s2 p i) \<and>
          current_thread (proc_at s2 p) = current_thread (proc_at s p)"
        using w(3) p by (simp add: only_woken_def ready_in_def)
    qed
  qed
qed

lemma kmain_round_run:
  assumes k: "kernel_runs kt s" and l: "wf_last last_pid" and p: "1 < p" "p \<le> 64" and r: "ready_in s p t"
  obtains q u s' where "kmain_round kt last_pid quant s = (Done (Ok (Some (q, u))), s')"
    "kernel_runs kt s'" "wf_last (Some q)"
    "(q, u) = (p, of_nat t) \<or>
       ready_in s' p t \<and> rounds_left s' (Some q) p t < rounds_left s last_pid p t"
proof -
  obtain q x where q: "next_pid_to_run last_pid s = (Done (Ok (Some q)), s)" "1 < q" "q \<le> 64"
    "proc_state (proc_at s q) = Ready x"
    "q \<noteq> p \<longrightarrow> turns 64 (pid_idx q) (pid_idx p) < turns 64 (cursor last_pid) (pid_idx p)"
    using next_pid_run [OF k l p r] .
  obtain u s1 where u: "sys_SwitchTo 1 kt q 0 s = (Done (Ok Res_ResumeProcess), s1)"
    "user_runs kt q u (x AND NOT (thread_bit u)) s1"
    "next_ready x (unat (current_thread (proc_at s q))) = Some (unat u)" "bit x (unat u)" "unat u < 31"
    "\<forall>r. 1 < r \<and> r \<noteq> q \<longrightarrow> proc_at s1 r = proc_at s r"
    using sys_SwitchTo_run [OF k q(2-4)] .
  obtain s2 s3 res where e: "kfor (fst quant) wake_blocked s1 = (Done (Ok ()), s2)"
    "(case snd quant of Yields \<Rightarrow> do_yield q u | Waits \<Rightarrow> sys_WaitEvent q u) s2 = (Done (Ok res), s3)"
    "kernel_runs kt s3" "current_thread (proc_at s3 q) = u"
    "\<forall>i. bit (x AND NOT (thread_bit u)) i \<longrightarrow> ready_in s3 q i"
    "\<forall>p. 1 < p \<and> p \<le> 64 \<and> p \<noteq> q \<longrightarrow> (\<forall>i. ready_in s1 p i \<longrightarrow> ready_in s3 p i) \<and>
       current_thread (proc_at s3 p) = current_thread (proc_at s1 p)"
    using quantum_run [OF u(2)] .
  have "current_tid s1 = u" using u(2) by (simp add: user_runs_def)
  then have run: "kmain_round kt last_pid quant s = (Done (Ok (Some (q, u))), s3)"
    by (simp add: kmain_round_def kbind_Ok q(1) u(1) e(1,2))
  have um: "unat u mod 32 = unat u" using u(5) by simp
  have cq: "cursor (Some q) = pid_idx q" using q(2) by (simp add: cursor_def pid_idx_eq pid_gt_nonzero)
  have "(q, u) = (p, of_nat t) \<or>
      ready_in s3 p t \<and> rounds_left s3 (Some q) p t < rounds_left s last_pid p t"
  proof (cases "q = p")
    case False
    have "ready_in s1 p t" using r u(6) p False by (simp add: ready_in_def)
    moreover have "current_thread (proc_at s3 p) = current_thread (proc_at s p)"
      using e(6) p u(6) False by simp
    ultimately show ?thesis
      using e(6) p q(5) False by (simp add: rounds_left_def cq)
  next
    case True
    show ?thesis
    proof (cases "unat u = t")
      case True
      then have "u = of_nat t" by auto
      with \<open>q = p\<close> show ?thesis by simp
    next
      case ne: False
      have bt: "bit x t" using r True q(4) by (simp add: ready_in_def)
      then have t32: "t < 32" using bit_imp_le_length by fastforce
      have "waiting_ok s q" using k q by (simp add: kernel_runs_def)
      then have c: "unat (current_thread (proc_at s q)) < 32"
        using q(4) by (auto simp: waiting_ok_def slot_ok_def)
      have "turns 32 (unat u) t < turns 32 (unat (current_thread (proc_at s q))) t"
        using cyclic_find_closer [OF u(3) [unfolded next_ready_def] bt c t32 ne] .
      moreover have "turns 64 (cursor (Some q)) (pid_idx p) < 64" by (simp add: turns_less)
      ultimately have "rounds_left s3 (Some q) p t < rounds_left s last_pid p t"
        using e(4) True by (simp add: rounds_left_def)
      moreover have "ready_in s3 p t"
        using e(5) bt ne um True by (auto simp: bit_del_thread)
      ultimately show ?thesis by simp
    qed
  qed
  moreover have "wf_last (Some q)" using q(2,3) by (simp add: wf_last_def)
  ultimately show thesis using that [OF run e(3)] by simp
qed

lemma trace_reaches:
  assumes "kernel_runs kt s" "wf_last last_pid" "1 < p" "p \<le> 64" "ready_in s p t"
    "rounds_left s last_pid p t < length quants"
  shows "Some (p, of_nat t) \<in> set (kmain_trace kt last_pid quants s)"
  using assms
proof (induction quants arbitrary: s last_pid)
  case Nil
  then show ?case by simp
next
  case (Cons quant quants)
  obtain q u s' where r: "kmain_round kt last_pid quant s = (Done (Ok (Some (q, u))), s')"
    "kernel_runs kt s'" "wf_last (Some q)"
    "(q, u) = (p, of_nat t) \<or>
       ready_in s' p t \<and> rounds_left s' (Some q) p t < rounds_left s last_pid p t"
    using kmain_round_run [OF Cons.prems(1-5)] .
  from r(4) show ?case
  proof
    assume "(q, u) = (p, of_nat t)"
    with r(1) show ?thesis by simp
  next
    assume a: "ready_in s' p t \<and> rounds_left s' (Some q) p t < rounds_left s last_pid p t"
    then have "Some (p, of_nat t) \<in> set (kmain_trace kt (Some q) quants s')"
      using Cons.prems(6) by (intro Cons.IH [OF r(2,3) Cons.prems(3,4)]) simp_all
    with r(1) show ?thesis by simp
  qed
qed


lemma demo_kernel_runs: "kernel_runs 2 demo_kernel"
proof -
  have "waiting_ok demo_kernel q" if "1 < q" "q \<le> 64" for q
  proof -
    have q: "q \<noteq> 0" "q \<noteq> 1" "unat q \<le> 64" using that by (auto simp: word_le_nat_alt)
    have m: "wf_mask 4" "wf_mask 0xC"
      by (rule wf_maskI; simp add: bit_iff_odd)+
    show ?thesis
      using q m demo_live demo_proc_at [OF q(1,3)]
      by (auto simp: waiting_ok_def slot_ok_def demo_process_def free_process_def)
  qed
  then show ?thesis
    using demo_live demo_in_space demo_proc_at [of 1]
    by (simp add: kernel_runs_def demo_kernel_simps demo_processes_def demo_process_def)
qed


end
