(* ===== verification/Swapper.thy ===== *)
theory Swapper
  imports Handlers
begin

text \<open>
  The kernel side of the swapper (kernel/src/swap.rs, with \<open>evict_page_inner\<close>,
  \<open>map_page_to_swapper\<close> and \<open>virt_to_phys_pid\<close> of kernel/src/arch/riscv/mem.rs). The swapper is a user process,
  number 2. A call into it ends with the kernel resuming the swapper's handler; it comes back through
  \<open>exit_blocking_call\<close>, when the handler returns to \<open>RETURN_FROM_SWAPPER\<close>.
\<close>

definition SWAPPER_PID :: PID where "SWAPPER_PID = 2"
definition SWAP_RPT_VADDR :: usize where "SWAP_RPT_VADDR = 0xE1001000"

definition set_swap :: "(Swap \<Rightarrow> Swap) \<Rightarrow> unit kr" where
  "set_swap f = modify (\<lambda>s. s\<lparr>SWAP := f (SWAP s)\<rparr>)"

section \<open>Pages between a process and the swapper\<close>

definition activate_swapper_space :: "unit kr" where
  "activate_swapper_space =
     kbind (expect (get_process SWAPPER_PID)) (\<lambda>p. activate (proc_mapping p))"

text \<open>The result of \<open>map_page_inner\<close> is dropped.\<close>

definition map_payload :: "usize \<Rightarrow> usize kr" where
  "map_payload paddr =
     kbind (expect (find_virtual_address 0 PAGE_SIZE MT_Messages)) (\<lambda>payload_virt.
     kthen (ignore (map_page_inner SWAPPER_PID paddr payload_virt (MemoryFlags_or FLAG_R FLAG_W) True))
           (ret payload_virt))"

definition map_page_to_swapper :: "usize \<Rightarrow> usize kr" where
  "map_page_to_swapper paddr = kthen activate_swapper_space (map_payload paddr)"

definition swapped_pte :: "usize \<Rightarrow> usize" where
  "swapped_pte pte = ((pte AND NOT MMU_VALID) AND 0x3ff) OR MMU_P"

definition evict_page_inner :: "PID \<Rightarrow> usize \<Rightarrow> usize kr" where
  "evict_page_inner target_pid vaddr =
     kbind (expect (get_process target_pid)) (\<lambda>target.
     kthen (activate (proc_mapping target))
    (kmatch (entry_of vaddr) (\<lambda>r. case r of
         Inl e \<Rightarrow> kthen activate_swapper_space (fail e)
       | Inr entry \<Rightarrow>
           kbind (read_entry entry) (\<lambda>target_pte.
           kthen (touch (pte_phys target_pte))
             (if target_pte AND MMU_VALID = 0 \<or> target_pte AND MMU_P \<noteq> 0
              then kthen activate_swapper_space (fail BadAddress)
              else if target_pte AND MMU_USER = 0
              then kthen activate_swapper_space (fail AccessDenied)
              else if target_pte AND MMU_S \<noteq> 0
              then kthen activate_swapper_space (fail ShareViolation)
              else kthen (write_entry entry (swapped_pte target_pte))
                  (kthen activate_swapper_space
                         (map_payload (pte_phys target_pte))))))))"

text \<open>The address space of the caller is active again when it returns, whatever the result.\<close>

definition virt_to_phys_pid :: "PID \<Rightarrow> usize \<Rightarrow> usize kr" where
  "virt_to_phys_pid pid virt =
     kbind (gets current_pid) (\<lambda>cur.
     kmatch
       (kmatch (get_process pid) (\<lambda>r. case r of
           Inl _ \<Rightarrow> fail InvalidPID
         | Inr target \<Rightarrow> kthen (activate (proc_mapping target)) (\<lambda>s. lift (virt_to_phys virt s) s)))
       (\<lambda>r. kbind (expect (get_process cur)) (\<lambda>p.
            kthen (activate (proc_mapping p))
              (case r of Inl e \<Rightarrow> fail e | Inr phys \<Rightarrow> ret phys))))"

section \<open>The interrupt mask during a call\<close>

definition swap_stop_irq :: "unit kr" where
  "swap_stop_irq =
     kthen (\<lambda>s. set_swap (\<lambda>w. w\<lparr>oom_irq_backing := Some (SIM s)\<rparr>) s) (modify (\<lambda>s. s\<lparr>SIM := 0\<rparr>))"

definition swap_restore_irq :: "unit kr" where
  "swap_restore_irq =
     kbind (gets (\<lambda>s. oom_irq_backing (SWAP s))) (\<lambda>backing.
     kthen (set_swap (\<lambda>w. w\<lparr>oom_irq_backing := None\<rparr>))
    (kbind (lift (unwrap backing)) (\<lambda>sim. modify (\<lambda>s. s\<lparr>SIM := sim\<rparr>))))"

definition clearmem_stop_irq :: "unit kr" where
  "clearmem_stop_irq =
     kthen (\<lambda>s. set_swap (\<lambda>w. w\<lparr>clearmem_irq_backing := Some (SIM s)\<rparr>) s) (modify (\<lambda>s. s\<lparr>SIM := 0\<rparr>))"

definition clearmem_restore_irq :: "unit kr" where
  "clearmem_restore_irq =
     kbind (gets (\<lambda>s. clearmem_irq_backing (SWAP s))) (\<lambda>backing.
     kthen (set_swap (\<lambda>w. w\<lparr>clearmem_irq_backing := None\<rparr>))
       (case backing of Some sim \<Rightarrow> modify (\<lambda>s. s\<lparr>SIM := sim\<rparr>) | None \<Rightarrow> ret ()))"

section \<open>Entering the swapper\<close>

definition swap_call_args :: "BlockingSwapOp \<Rightarrow> usize \<Rightarrow> usize list \<Rightarrow> usize list" where
  "swap_call_args op state args =
     (case op of
        ReadFromSwap pid _ vaddr_in_pid vaddr_in_swap _ \<Rightarrow>
          args[0 := state, 1 := 1, 2 := ucast pid, 3 := vaddr_in_pid, 4 := vaddr_in_swap]
      | WriteToFlash _ _ _ vaddr_in_swap flash_offset \<Rightarrow>
          args[0 := state, 1 := 4, 2 := vaddr_in_swap, 3 := flash_offset]
      | BulkErase _ _ _ offset len \<Rightarrow> args[0 := state, 1 := 5, 2 := offset, 3 := len]
      | HardOomSyscall _ _ \<Rightarrow> args[0 := state, 1 := 3])"

text \<open>The kernel panics when an operation is under way already, nested or not.\<close>

definition blocking_activate_swapper :: "BlockingSwapOp \<Rightarrow> unit kr" where
  "blocking_activate_swapper op =
     kthen (set_swap (\<lambda>w. w\<lparr>swapper_args := swap_call_args op (swapper_state w) (swapper_args w)\<rparr>))
    (kbind (gets SWAP) (\<lambda>w.
       if prev_op w \<noteq> None then panic
       else kthen (set_swap (\<lambda>w. w\<lparr>prev_op := Some op\<rparr>))
           (kbind (gets HANDLING_IRQ) (\<lambda>handling_irq.
            kthen (expect (make_callback_to SWAPPER_PID (swap_pc w)
                     (if handling_irq then CB_SwapInIrq (swapper_args w) else CB_Swap (swapper_args w))))
           (kthen ArchProcess_current (ret ()))))))"

section \<open>The calls\<close>

text \<open>
  A call that enters the swapper does not return to its caller; the kernel resumes the
  thread that is now current, as it does for the result \<open>ResumeProcess\<close>.
\<close>

definition entered_swapper :: "unit kr \<Rightarrow> Result kr" where
  "entered_swapper m = kthen m (ret Res_ResumeProcess)"

definition total_bytes :: "Kernel \<Rightarrow> (Error, usize) outcome" where
  "total_bytes s =
     foldl (\<lambda>total p. if process_free p then total
              else case (total, ram_used_by (proc_pid p) s) of
                     (Ok t, Ok b) \<Rightarrow> Ok (t + b) | _ \<Rightarrow> Panic)
       (Ok 0) (processes s)"

text \<open>The first caller becomes the swapper; \<open>used_pages\<close> is counted anew in any case.\<close>

definition register_handler :: "usize \<Rightarrow> usize \<Rightarrow> Result kr" where
  "register_handler handler state =
     kbind (\<lambda>s. lift (total_bytes s) s) (\<lambda>bytes.
     kthen (modify (\<lambda>s. s\<lparr>used_pages := bytes div PAGE_SIZE\<rparr>))
    (kbind (gets SWAP) (\<lambda>w.
       if swap_pc w = 0 \<and> swapper_state w = 0
       then kthen (set_swap (\<lambda>w. w\<lparr>swap_pc := handler, swapper_state := state\<rparr>))
                  (ret (Res_Scalar5 0 0 0 0 0))
       else fail AccessDenied)))"

definition init_rpt :: "usize \<Rightarrow> usize \<Rightarrow> unit kr" where
  "init_rpt base pages =
     kbind (expect (\<lambda>s. lift (virt_to_phys base s) s)) (\<lambda>paddr.
     set_swap (\<lambda>w. w\<lparr>mem_alloc_tracker_paddr := paddr, mem_alloc_tracker_pages := pages\<rparr>))"

definition get_free_mem :: "Result kr" where
  "get_free_mem =
     kthen (\<lambda>s. lift (total_bytes s) s)
    (gets (\<lambda>s. Res_Scalar5 (ram_size s div PAGE_SIZE - used_pages s) (ram_size s div PAGE_SIZE) 0 0 0))"

text \<open>Mapping the allocation table into the swapper: whether a page had to be mapped, and whether one
  was mapped already.\<close>

primrec map_rpt :: "usize list \<Rightarrow> bool \<Rightarrow> bool \<Rightarrow> (bool \<times> bool) kr" where
  "map_rpt [] mapped_pages already_mapped = ret (mapped_pages, already_mapped)"
| "map_rpt (page # pages) mapped_pages already_mapped =
     (let virt = SWAP_RPT_VADDR + page * PAGE_SIZE in
      kbind (expect (entry_of virt)) (\<lambda>e.
      kbind (read_entry e) (\<lambda>entry.
        if entry AND MMU_VALID = 0
        then kbind (gets (\<lambda>s. mem_alloc_tracker_paddr (SWAP s))) (\<lambda>paddr.
             kthen (ignore (map_page_inner SWAPPER_PID (paddr + page * PAGE_SIZE) virt FLAG_R True))
                   (map_rpt pages True already_mapped))
        else map_rpt pages mapped_pages True)))"

definition rpt_pages :: "Swap \<Rightarrow> usize list" where
  "rpt_pages w = map of_nat [0..<unat (mem_alloc_tracker_pages w)]"

definition hard_oom_syscall :: "Result kr" where
  "hard_oom_syscall =
     kbind (gets current_pid) (\<lambda>original_pid.
     kbind (gets current_tid) (\<lambda>original_tid.
     kthen activate_swapper_space
    (kbind (\<lambda>s. map_rpt (rpt_pages (SWAP s)) False False s) (\<lambda>(mapped_pages, already_mapped).
     kthen (if mapped_pages \<and> already_mapped then panic
            else if mapped_pages then set_swap (\<lambda>w. w\<lparr>unmap_rpt_after_hard_oom := True\<rparr>)
            else ret ())
           (entered_swapper (blocking_activate_swapper (HardOomSyscall original_tid original_pid)))))))"

definition retrieve_page_syscall :: "usize \<Rightarrow> usize \<Rightarrow> Result kr" where
  "retrieve_page_syscall target_vaddr_in_pid paddr =
     kbind (gets current_pid) (\<lambda>target_pid.
     kbind (gets current_tid) (\<lambda>target_tid.
     kbind (expect (map_page_to_swapper paddr)) (\<lambda>block_vaddr_in_swap.
     entered_swapper (blocking_activate_swapper
       (ReadFromSwap target_pid target_tid target_vaddr_in_pid block_vaddr_in_swap paddr)))))"

definition write_page_syscall :: "PID \<Rightarrow> usize \<Rightarrow> usize \<Rightarrow> Result kr" where
  "write_page_syscall src_pid flash_offset page_vaddr_in_swapper =
     kbind (gets current_pid) (\<lambda>target_pid.
     kbind (gets current_tid) (\<lambda>target_tid.
     kthen swap_stop_irq
       (entered_swapper (blocking_activate_swapper
          (WriteToFlash target_pid target_tid src_pid page_vaddr_in_swapper flash_offset)))))"

definition block_erase_syscall :: "PID \<Rightarrow> usize \<Rightarrow> usize \<Rightarrow> Result kr" where
  "block_erase_syscall src_pid offset len =
     kbind (gets current_pid) (\<lambda>target_pid.
     kbind (gets current_tid) (\<lambda>target_tid.
     kthen swap_stop_irq
       (entered_swapper (blocking_activate_swapper
          (BulkErase target_pid target_tid src_pid offset len)))))"

section \<open>Coming back from the swapper\<close>

text \<open>A page of flash that was cached is evicted from its process and freed; one that was not
  mapped is passed over.\<close>

definition free_flash_page :: "PID \<Rightarrow> usize \<Rightarrow> unit kr" where
  "free_flash_page src_pid flash_vaddr =
     kmatch (evict_page_inner src_pid flash_vaddr) (\<lambda>r. case r of
         Inr swap_vaddr \<Rightarrow>
           kbind (expect (\<lambda>s. lift (virt_to_phys swap_vaddr s) s)) (\<lambda>paddr.
           kthen (expect (unmap_page_inner swap_vaddr))
                 (expect (release_page paddr src_pid)))
       | Inl e \<Rightarrow> if e = BadAddress then ret () else panic)"

text \<open>The sectors of the flash have the size of a page.\<close>

definition finish_swap_op :: "BlockingSwapOp \<Rightarrow> (PID \<times> TID) kr" where
  "finish_swap_op op =
     (case op of
        ReadFromSwap pid tid _ vaddr_in_swap _ \<Rightarrow>
          kthen (expect (unmap_page_inner vaddr_in_swap)) (ret (pid, tid))
      | BulkErase pid tid src_pid offset len \<Rightarrow>
          kthen (kfor (page_range offset (offset + len)) (\<lambda>page. free_flash_page src_pid (MMAP_VIRT_BASE + page)))
         (kthen swap_restore_irq (ret (pid, tid)))
      | WriteToFlash pid tid src_pid _ flash_offset \<Rightarrow>
          kthen (free_flash_page src_pid (MMAP_VIRT_BASE + flash_offset))
         (kthen swap_restore_irq (ret (pid, tid)))
      | HardOomSyscall tid pid \<Rightarrow>
          kthen (kcheck (\<lambda>s. current_pid s = SWAPPER_PID))
         (kthen (\<lambda>s. if unmap_rpt_after_hard_oom (SWAP s)
                     then kfor (rpt_pages (SWAP s))
                            (\<lambda>page. ignore (unmap_page_inner (SWAP_RPT_VADDR + page * PAGE_SIZE))) s
                     else ret () s)
                (ret (pid, tid))))"

definition exit_blocking_call :: "Result kr" where
  "exit_blocking_call =
     kbind (gets (\<lambda>s. prev_op (SWAP s))) (\<lambda>op.
     kthen (set_swap (\<lambda>w. w\<lparr>prev_op := None\<rparr>))
       (case op of
          None \<Rightarrow> fail UseBeforeInit
        | Some op \<Rightarrow>
            kbind (finish_swap_op op) (\<lambda>(pid, tid).
            kthen finish_swap
           (kbind (gets HANDLING_IRQ) (\<lambda>handling_irq.
            kthen (if handling_irq then ret () else expect (swap_resume_to_userspace pid tid))
           (kbind (expect (get_process pid)) (\<lambda>p.
            kthen (activate (proc_mapping p))
           (kthen (expect (Process_activate p))
           (kthen (expect (enter_thread tid))
           (kthen (set_current_thread pid tid)
           (kthen (set_supervisor True)
           (kthen (set_swap (\<lambda>w. case nested_op w of
                       Some op \<Rightarrow> w\<lparr>nested_op := None, prev_op := Some op\<rparr> | None \<Rightarrow> w))
                  (ret (Res_Scalar5 0 0 0 0 0))))))))))))))"

section \<open>The system call of the swapper\<close>

datatype SwapAbi =
    SA_Invalid | ClearMemoryNow | GetFreePages | SA_RetrievePage | SA_HardOom | StealPage
  | ReleaseMemory | WritePage | BlockErase | SA_DebugServers

definition SwapAbi_from :: "usize \<Rightarrow> SwapAbi" where
  "SwapAbi_from val =
     (if val = 1 then ClearMemoryNow
      else if val = 2 then GetFreePages
      else if val = 3 then SA_RetrievePage
      else if val = 4 then SA_HardOom
      else if val = 5 then StealPage
      else if val = 6 then ReleaseMemory
      else if val = 7 then WritePage
      else if val = 8 then BlockErase
      else if val = 9 then SA_DebugServers
      else SA_Invalid)"

definition only_swapper :: "PID \<Rightarrow> 'a kr \<Rightarrow> 'a kr" where
  "only_swapper pid m = (if pid \<noteq> SWAPPER_PID then fail AccessDenied else m)"

definition only_supervisor :: "'a kr \<Rightarrow> 'a kr" where
  "only_supervisor m s = (if spp_supervisor s then m s else fail AccessDenied s)"

definition release_swapped :: "usize \<Rightarrow> PID option \<Rightarrow> Result kr" where
  "release_swapped vaddr_to_release original_pid =
     kbind (expect (\<lambda>s. lift (virt_to_phys vaddr_to_release s) s)) (\<lambda>paddr s.
       if is_main_memory paddr s \<or> is_peripheral_ram paddr
       then kthen (expect (unmap_page_inner vaddr_to_release))
           (kbind (lift (unwrap original_pid)) (\<lambda>pid.
            kthen (expect (release_page paddr pid)) (ret Res_Ok))) s
       else fail InvalidArgument s)"

definition sys_SwapOp :: "PID \<Rightarrow> usize \<Rightarrow> usize \<Rightarrow> usize \<Rightarrow> usize \<Rightarrow> Result kr" where
  "sys_SwapOp pid op x1 x2 x3 =
     (case SwapAbi_from op of
        ClearMemoryNow \<Rightarrow> only_swapper pid (kthen clearmem_stop_irq hard_oom_syscall)
      | GetFreePages \<Rightarrow> only_swapper pid get_free_mem
      | StealPage \<Rightarrow>
          only_swapper pid (kbind (lift (unwrap (nonzero (ucast x1)))) (\<lambda>target_pid.
            kmatch (evict_page_inner target_pid x2) (\<lambda>r. case r of
                Inr ptr \<Rightarrow> ret (Res_Scalar5 ptr 0 0 0 0)
              | Inl _ \<Rightarrow> fail BadAddress)))
      | ReleaseMemory \<Rightarrow> only_swapper pid (release_swapped x1 (nonzero (ucast x2)))
      | SA_HardOom \<Rightarrow> only_supervisor hard_oom_syscall
      | SA_RetrievePage \<Rightarrow> only_supervisor (retrieve_page_syscall x1 x2)
      | WritePage \<Rightarrow>
          only_swapper pid (kbind (lift (unwrap (nonzero (ucast x1)))) (\<lambda>src_pid.
            write_page_syscall src_pid (x2 AND 0x0FFFFFFF) x3))
      | BlockErase \<Rightarrow>
          only_swapper pid (kbind (lift (unwrap (nonzero (ucast x1)))) (\<lambda>src_pid.
            block_erase_syscall src_pid (x2 AND 0x0FFFFFFF) x3))
      | SA_DebugServers \<Rightarrow> ret Res_Ok
      | SA_Invalid \<Rightarrow> fail UnhandledSyscall)"

section \<open>A call from inside the kernel\<close>

text \<open>
  \<open>swap_reentrant_syscall\<close> makes the system call from within the kernel: what it does
  before the call, and after the call has come back. In between it copies the kernel's
  stack away and back.
\<close>

definition before_reentrant_call :: "unit kr" where
  "before_reentrant_call =
     kthen swap_stop_irq
    (kbind (gets current_pid) (\<lambda>pid.
     kbind arch_current_pid (\<lambda>hardware_pid.
     kthen (if pid \<noteq> hardware_pid
            then kthen (set_swap (\<lambda>w. w\<lparr>oom_stashed_pid := Some hardware_pid\<rparr>))
                (kbind (expect (get_process pid)) (\<lambda>p. activate (proc_mapping p)))
            else ret ())
    (kthen ArchProcess_current
    (kbind current_thread_get (\<lambda>t. set_swap (\<lambda>w. w\<lparr>oom_thread_backing := Some t\<rparr>)))))))"

definition after_reentrant_call :: "unit kr" where
  "after_reentrant_call =
     kthen ArchProcess_current
    (kbind (gets (\<lambda>s. oom_thread_backing (SWAP s))) (\<lambda>backing.
     kthen (set_swap (\<lambda>w. w\<lparr>oom_thread_backing := None\<rparr>))
    (kbind (lift (unwrap backing)) (\<lambda>t.
     kthen (current_thread_mut (\<lambda>_. t))
    (kbind (gets (\<lambda>s. oom_stashed_pid (SWAP s))) (\<lambda>stashed.
     kthen (set_swap (\<lambda>w. w\<lparr>oom_stashed_pid := None\<rparr>))
    (kthen (case stashed of
              Some pid \<Rightarrow> kbind (expect (get_process pid)) (\<lambda>p. activate (proc_mapping p))
            | None \<Rightarrow> ret ())
           swap_restore_irq)))))))"

end
