(* ===== verification/Process_Creation.thy ===== *)
theory Process_Creation
  imports Handlers
begin

text \<open>
  The creation of a process: its address space (\<open>allocate\<close> of kernel/src/arch/riscv/mem.rs), its
  initial thread and server (\<open>create\<close> of kernel/src/arch/riscv/process.rs) and its slot in the process table
  (\<open>create_process\<close> of kernel/src/services.rs).
\<close>

section \<open>A new address space\<close>

definition THREAD_CONTEXT_AREA :: usize where "THREAD_CONTEXT_AREA = 0xff801000"
definition PAGE_TABLE_ROOT_OFFSET :: usize where "PAGE_TABLE_ROOT_OFFSET = 0xff800000"

text \<open>\<open>ptr.add(i).write_volatile(x)\<close> for a page that is mapped at \<open>va\<close>.\<close>

definition poke :: "usize \<Rightarrow> nat \<Rightarrow> usize \<Rightarrow> ('z Mem_scheme, unit) km" where
  "poke va i x = modify (\<lambda>s. write_word (drop_bit 10 (l0_entry s (vpn1 va) (vpn0 va))) i x s)"

definition kernel_pte :: "usize \<Rightarrow> usize" where
  "kernel_pte phys = push_bit 10 (drop_bit 12 phys) OR MMU_VALID OR MMU_R OR MMU_W OR MMU_D OR MMU_A"

definition subtable_pte :: "usize \<Rightarrow> usize" where
  "subtable_pte phys = push_bit 10 (drop_bit 12 phys) OR MMU_VALID"

text \<open>A zeroed page at a temporary address of the current process, with its physical address.\<close>

definition temp_page :: "PID \<Rightarrow> ('z Mem_scheme, usize \<times> usize) km" where
  "temp_page pid =
     kbind (map_zeroed_page pid False) (\<lambda>virt.
     kbind (\<lambda>s. lift (virt_to_phys virt s) s) (\<lambda>phys.
     ret (virt, phys)))"

text \<open>The four pages of a new address space are the root table, the table of the tables,
  the table of the process's own pages and the page of thread contexts.\<close>

definition fill_tables :: "usize \<Rightarrow> usize \<Rightarrow> usize \<Rightarrow> usize \<Rightarrow> usize \<Rightarrow> usize \<Rightarrow> usize \<Rightarrow> ('z Mem_scheme, unit) km" where
  "fill_tables root_virt root_phys pages_virt pages_phys process_virt process_phys context_phys =
     kbind (gets (\<lambda>s. l1_entry s 1023)) (\<lambda>krn.
     kthen (poke root_virt 1023 krn)
    (kthen (poke root_virt (vpn1 PAGE_TABLE_ROOT_OFFSET) (subtable_pte process_phys))
    (kthen (poke root_virt (vpn1 PAGE_TABLE_OFFSET) (subtable_pte pages_phys))
    (kthen (poke process_virt (vpn0 PAGE_TABLE_ROOT_OFFSET) (kernel_pte root_phys))
    (kthen (poke process_virt (vpn0 THREAD_CONTEXT_AREA) (kernel_pte context_phys))
    (kthen (poke pages_virt (vpn0 (PAGE_TABLE_OFFSET + 4096 * 1022)) (kernel_pte process_phys))
           (poke pages_virt (vpn0 (PAGE_TABLE_OFFSET + 4096 * 1021)) (kernel_pte pages_phys))))))))"

text \<open>The value of \<open>satp\<close> for the new address space.\<close>

definition mapping_allocate :: "usize \<Rightarrow> PID \<Rightarrow> ('z Mem_scheme, usize) km" where
  "mapping_allocate mapping pid =
     (if mapping \<noteq> 0 then fail MemoryInUse
      else kbind (gets current_pid) (\<lambda>cur.
           kbind (map_zeroed_page cur False) (\<lambda>root_virt.
           kbind (expect (\<lambda>s. lift (virt_to_phys root_virt s) s)) (\<lambda>root_phys.
           kbind (temp_page cur) (\<lambda>(pages_virt, pages_phys).
           kbind (temp_page cur) (\<lambda>(process_virt, process_phys).
           kbind (temp_page cur) (\<lambda>(context_virt, context_phys).
           kthen (fill_tables root_virt root_phys pages_virt pages_phys process_virt process_phys context_phys)
          (kthen (kfor [root_phys, pages_phys, process_phys, context_phys] (\<lambda>phys. move_page_raw phys pid))
          (kthen (kfor [root_virt, pages_virt, process_virt, context_virt]
                    (\<lambda>virt. kthen (unmap_page_inner virt) (ret ())))
                 (ret (0x80000000 OR push_bit 22 (ucast pid) OR drop_bit 12 root_phys)))))))))))"

section \<open>The initial thread and server\<close>

definition ArchProcess_create :: "PID \<Rightarrow> ProcessInit \<Rightarrow> ProcessStartup kr" where
  "ArchProcess_create pid init =
     kbind (gets current_pid) (\<lambda>cur.
     kbind (get_process pid) (\<lambda>p.
     kthen (activate (proc_mapping p))
    (kbind create_server_id (\<lambda>server_id. case server_id of SID w0 w1 w2 w3 \<Rightarrow>
     kthen (expect (setup_process pid
              \<lparr>ti_call = pi_start init, ti_stack = pi_stack init, ti_arg1 = w0, ti_arg2 = w1,
               ti_arg3 = w2, ti_arg4 = w3\<rparr>))
    (kthen (create_server_with_address pid server_id False)
    (kbind (get_process cur) (\<lambda>parent.
     kthen (activate (proc_mapping parent))
    (kbind (connect_process_to_server cur server_id) (\<lambda>cid.
     kthen (send_memory (addr (pi_text init)) pid (pi_text_destination init) (rsize (pi_text init)))
           (ret \<lparr>ps_pid = pid, ps_connection = cid\<rparr>))))))))))"

section \<open>The slot in the process table\<close>

text \<open>The slots with index \<open>SWAPPER_PID\<close>, which is 2, and 3 are passed over.\<close>

definition free_slot :: "Process list \<Rightarrow> nat option" where
  "free_slot ps =
     find (\<lambda>idx. proc_state (ps ! idx) = Free \<and> idx \<noteq> 2 \<and> idx \<noteq> 3) [0..<length ps]"

definition set_slot :: "nat \<Rightarrow> (Process \<Rightarrow> Process) \<Rightarrow> unit kr" where
  "set_slot idx f = modify (\<lambda>s. s\<lparr>processes := (processes s)[idx := f (processes s ! idx)]\<rparr>)"

definition create_process :: "ProcessInit \<Rightarrow> ProcessStartup kr" where
  "create_process init_process =
     kbind (gets (\<lambda>s. free_slot (processes s))) (\<lambda>slot. case slot of
         None \<Rightarrow> fail ProcessNotFound
       | Some idx \<Rightarrow>
           kbind (lift (pid_from_usize (of_nat (idx + 1)))) (\<lambda>new_pid.
           kthen (set_slot idx (\<lambda>p. p\<lparr>proc_pid := new_pid, ppid := 1, proc_state := Allocated\<rparr>))
          (kbind (gets (\<lambda>s. proc_mapping (processes s ! idx))) (\<lambda>mapping.
           kbind (kmatch (mapping_allocate mapping new_pid) (\<lambda>r. case r of
                    Inl _ \<Rightarrow> fail InternalError | Inr m \<Rightarrow> ret m)) (\<lambda>new_mapping.
           kthen (set_slot idx (\<lambda>p. p\<lparr>proc_mapping := new_mapping\<rparr>))
          (kbind (expect (ArchProcess_create new_pid init_process)) (\<lambda>startup.
           kthen (set_slot idx (\<lambda>p. p\<lparr>proc_state := Ready (thread_bit INITIAL_TID)\<rparr>))
                 (ret startup))))))))"

definition sys_CreateProcess :: "ProcessInit \<Rightarrow> Result kr" where
  "sys_CreateProcess init_process =
     kbind (create_process init_process) (\<lambda>startup. ret (Res_NewProcess startup))"

end
