(* ===== verification/Traps.thy ===== *)
theory Traps
  imports Swapper Process_Creation
begin

text \<open>
  The entry points of the kernel: the dispatch of a system call (\<open>handle\<close> and \<open>handle_inner\<close> of
  kernel/src/syscall.rs), the decoding of a trap (kernel/src/arch/riscv/exception.rs) and the trap handler
  (kernel/src/arch/riscv/irq.rs).
\<close>

section \<open>System calls\<close>

definition sys_VirtToPhys :: "usize \<Rightarrow> Result kr" where
  "sys_VirtToPhys vaddr =
     (if vaddr < USER_AREA_END
      then kmatch (\<lambda>s. lift (virt_to_phys vaddr s) s) (\<lambda>r. case r of
               Inr pa \<Rightarrow> ret (Res_Scalar1 pa) | Inl _ \<Rightarrow> fail BadAddress)
      else fail BadAddress)"

definition sys_VirtToPhysPid :: "PID \<Rightarrow> usize \<Rightarrow> Result kr" where
  "sys_VirtToPhysPid pid vaddr =
     (if vaddr < USER_AREA_END
      then kmatch (virt_to_phys_pid pid vaddr) (\<lambda>r. case r of
               Inr pa \<Rightarrow> ret (Res_Scalar1 pa) | Inl _ \<Rightarrow> fail BadAddress)
      else fail BadAddress)"

text \<open>
  There is no routine for \<open>RawTrng\<close>, which reads the noise source, and for the operations of
  \<open>PlatformSpecific\<close> that print debug reports into a page of the caller.
\<close>

definition debug_platform_call :: "usize \<Rightarrow> bool" where
  "debug_platform_call op = (1 \<le> op \<and> op \<le> 5)"

definition handle_inner :: "PID \<Rightarrow> TID \<Rightarrow> bool \<Rightarrow> SysCall \<Rightarrow> Result kr option" where
  "handle_inner pid tid in_irq call =
     (case call of
        MapMemory phys virt sz req_flags \<Rightarrow> Some (sys_MapMemory pid phys virt sz req_flags)
      | UnmapMemory rng \<Rightarrow> Some (sys_UnmapMemory rng)
      | IncreaseHeap delta flags \<Rightarrow> Some (sys_IncreaseHeap delta flags)
      | DecreaseHeap delta \<Rightarrow> Some (sys_DecreaseHeap delta)
      | SwitchTo new_pid new_tid \<Rightarrow> Some (sys_SwitchTo pid tid new_pid new_tid)
      | ClaimInterrupt no callback arg \<Rightarrow> Some (sys_ClaimInterrupt pid no callback arg)
      | FreeInterrupt no \<Rightarrow> Some (sys_FreeInterrupt pid no)
      | Yield \<Rightarrow> Some (do_yield pid tid)
      | ReturnToParent _ _ \<Rightarrow> Some sys_ReturnToParent
      | ReceiveMessage sd \<Rightarrow> Some (receive_message pid tid sd True)
      | TryReceiveMessage sd \<Rightarrow> Some (receive_message pid tid sd False)
      | WaitEvent \<Rightarrow> Some (sys_WaitEvent pid tid)
      | CreateThread thread_init \<Rightarrow> Some (sys_CreateThread pid tid thread_init)
      | CreateProcess process_init \<Rightarrow> Some (sys_CreateProcess process_init)
      | CreateServerWithAddress name \<Rightarrow> Some (sys_CreateServerWithAddress pid name)
      | CreateServer \<Rightarrow> Some (sys_CreateServer pid)
      | CreateServerId \<Rightarrow> Some sys_CreateServerId
      | TryConnect sd \<Rightarrow> Some (sys_TryConnect sd)
      | ReturnMemory sender buf off valid \<Rightarrow> Some (sys_return_memory pid tid in_irq sender buf off valid)
      | ReturnScalar1 sender x1 \<Rightarrow> Some (return_result pid tid in_irq sender (Res_Scalar1 x1))
      | ReturnScalar2 sender x1 x2 \<Rightarrow> Some (return_result pid tid in_irq sender (Res_Scalar2 x1 x2))
      | ReturnScalar5 sender x1 x2 x3 x4 x5 \<Rightarrow>
          Some (return_result pid tid in_irq sender (Res_Scalar5 x1 x2 x3 x4 x5))
      | ReplyAndReceiveNext sender x0 x1 x2 x3 x4 scalar_type \<Rightarrow>
          Some (reply_and_receive_next pid tid in_irq sender x0 x1 x2 x3 x4 scalar_type)
      | TrySendMessage cid message \<Rightarrow> Some (send_message pid tid cid message)
      | TerminateProcess _ \<Rightarrow> Some (sys_TerminateProcess pid tid)
      | Shutdown \<Rightarrow> Some sys_Shutdown
      | GetProcessId \<Rightarrow> Some (ret (Res_ProcessID pid))
      | GetThreadId \<Rightarrow> Some (ret (Res_ThreadID tid))
      | Connect sd \<Rightarrow> Some (sys_Connect pid tid sd)
      | ConnectForProcess target sd \<Rightarrow> Some (sys_ConnectForProcess tid target sd)
      | SendMessage cid message \<Rightarrow> Some (sys_SendMessage pid tid cid message)
      | Disconnect cid \<Rightarrow> Some (sys_Disconnect cid)
      | DestroyServer sd \<Rightarrow> Some (sys_DestroyServer pid sd)
      | JoinThread other_tid \<Rightarrow> Some (sys_JoinThread pid tid other_tid)
      | UpdateMemoryFlags rng flags target \<Rightarrow> Some (sys_UpdateMemoryFlags rng flags target)
      | AdjustProcessLimit index current new \<Rightarrow> Some (sys_AdjustProcessLimit index current new)
      | VirtToPhys vaddr \<Rightarrow> Some (sys_VirtToPhys vaddr)
      | VirtToPhysPid target vaddr \<Rightarrow> Some (sys_VirtToPhysPid target vaddr)
      | RegisterSwapper _ _ _ _ handler state \<Rightarrow> Some (register_handler handler state)
      | SwapOp op x1 x2 x3 _ _ _ \<Rightarrow> Some (sys_SwapOp pid op x1 x2 x3)
      | RawTrng _ _ _ _ _ _ _ \<Rightarrow> None
      | PlatformSpecific op _ _ _ _ _ _ \<Rightarrow>
          if debug_platform_call op then None else Some (fail UnhandledSyscall)
      | _ \<Rightarrow> Some (fail UnhandledSyscall))"

definition handle :: "PID \<Rightarrow> TID \<Rightarrow> bool \<Rightarrow> SysCall \<Rightarrow> Result kr option" where
  "handle pid tid in_irq call =
     (if in_irq \<and> \<not> can_call_from_interrupt call then Some (fail InvalidSyscall)
      else handle_inner pid tid in_irq call)"

section \<open>Decoding a trap\<close>

datatype RiscvException =
    NoException
  | UserSoftwareInterrupt usize
  | SupervisorSoftwareInterrupt usize
  | MachineSoftwareInterrupt usize
  | UserTimerInterrupt usize
  | SupervisorTimerInterrupt usize
  | MachineTimerInterrupt usize
  | UserExternalInterrupt usize
  | SupervisorExternalInterrupt usize
  | MachineExternalInterrupt usize
  | ReservedInterrupt usize usize
  | InstructionAddressMisaligned usize usize
  | InstructionAccessFault usize usize
  | IllegalInstruction usize usize
  | Breakpoint usize
  | LoadAddressMisaligned usize usize
  | LoadAccessFault usize usize
  | StoreAddressMisaligned usize usize
  | StoreAccessFault usize usize
  | CallFromUMode usize usize
  | CallFromSMode usize usize
  | CallFromMMode usize
  | InstructionPageFault usize usize
  | LoadPageFault usize usize
  | StorePageFault usize usize
  | ReservedFault usize usize usize

definition from_regs :: "usize \<Rightarrow> usize \<Rightarrow> usize \<Rightarrow> RiscvException" where
  "from_regs cause epc tval =
     (if epc = 0 \<and> tval = 0 \<and> cause = 0 then NoException
      else if cause = 0x80000000 then UserSoftwareInterrupt epc
      else if cause = 0x80000001 then SupervisorSoftwareInterrupt epc
      else if cause = 0x80000003 then MachineSoftwareInterrupt epc
      else if cause = 0x80000004 then UserTimerInterrupt epc
      else if cause = 0x80000005 then SupervisorTimerInterrupt epc
      else if cause = 0x80000007 then MachineTimerInterrupt epc
      else if cause = 0x80000008 then UserExternalInterrupt epc
      else if cause = 0x80000009 then SupervisorExternalInterrupt epc
      else if cause = 0x8000000b then MachineExternalInterrupt epc
      else if cause = 0 then InstructionAddressMisaligned epc tval
      else if cause = 1 then InstructionAccessFault epc tval
      else if cause = 2 then IllegalInstruction epc tval
      else if cause = 3 then Breakpoint epc
      else if cause = 4 then LoadAddressMisaligned epc tval
      else if cause = 5 then LoadAccessFault epc tval
      else if cause = 6 then StoreAddressMisaligned epc tval
      else if cause = 7 then StoreAccessFault epc tval
      else if cause = 8 then CallFromUMode epc tval
      else if cause = 9 then CallFromSMode epc tval
      else if cause = 11 then CallFromMMode epc
      else if cause = 12 then InstructionPageFault epc tval
      else if cause = 13 then LoadPageFault epc tval
      else if cause = 15 then StorePageFault epc tval
      else if cause = 10 \<or> cause = 14 \<or> 16 \<le> cause \<and> cause \<le> 0x7fffffff then ReservedFault cause epc tval
      else ReservedInterrupt (cause AND 0x7fffffff) epc)"

definition generate_exception_args :: "RiscvException \<Rightarrow> usize list option" where
  "generate_exception_args ex =
     (case ex of
        InstructionAddressMisaligned epc ad \<Rightarrow> Some [0, epc, ad]
      | InstructionAccessFault epc ad \<Rightarrow> Some [1, epc, ad]
      | IllegalInstruction epc instruction \<Rightarrow> Some [2, epc, instruction]
      | LoadAddressMisaligned epc ad \<Rightarrow> Some [3, epc, ad]
      | LoadAccessFault epc ad \<Rightarrow> Some [4, epc, ad]
      | StoreAddressMisaligned epc ad \<Rightarrow> Some [5, epc, ad]
      | StoreAccessFault epc ad \<Rightarrow> Some [6, epc, ad]
      | InstructionPageFault epc ad \<Rightarrow> Some [7, epc, ad]
      | LoadPageFault epc ad \<Rightarrow> Some [8, epc, ad]
      | StorePageFault epc ad \<Rightarrow> Some [9, epc, ad]
      | _ \<Rightarrow> None)"

section \<open>Leaving the trap handler\<close>

text \<open>The handler resumes the saved context of the current thread, returns the result of a
  system call to it, or stays in a loop for ever after a failure of the kernel. \<open>Outside\<close>: the call is
  one of those that have no routine here.\<close>

datatype trap_exit = Resume | Return_result Result | Halt | Outside SysCall

definition resume_current :: "trap_exit kr" where
  "resume_current =
     kthen ArchProcess_current
    (kbind arch_current_pid (\<lambda>hw.
     kthen (set_supervisor (hw = 1)) (ret Resume)))"

definition finish_isr :: "bool kr" where
  "finish_isr s =
     (if \<not> HANDLING_IRQ s then ret False s
      else kthen (modify (\<lambda>s. s\<lparr>HANDLING_IRQ := False\<rparr>))
          (kbind (gets PREVIOUS_PAIR) (\<lambda>pair.
           kthen (modify (\<lambda>s. s\<lparr>PREVIOUS_PAIR := None\<rparr>))
          (kbind (lift (unwrap pair)) (\<lambda>(previous_pid, previous_context).
           kthen (expect (finish_callback_and_resume previous_pid previous_context))
          (kthen enable_all_irqs
                 (ret True)))))) s)"

section \<open>The arms of the trap handler\<close>

text \<open>The saved program counter is moved past the \<open>ecall\<close>.\<close>

definition trap_syscall :: "PID \<Rightarrow> args8 \<Rightarrow> trap_exit kr" where
  "trap_syscall pid args =
     kthen ArchProcess_current
    (kthen (current_thread_mut (\<lambda>t. t\<lparr>sepc := sepc t + 4\<rparr>))
    (kbind (gets current_tid) (\<lambda>tid.
     case decode_args args of
       Ok call \<Rightarrow>
         kbind (gets (\<lambda>s. PREVIOUS_PAIR s \<noteq> None)) (\<lambda>in_irq.
           case handle pid tid in_irq call of
             None \<Rightarrow> ret (Outside call)
           | Some m \<Rightarrow>
               kbind (kmatch m (\<lambda>r. case r of Inl e \<Rightarrow> ret (Res_Error e) | Inr x \<Rightarrow> ret x)) (\<lambda>response.
                 if response = Res_ResumeProcess then resume_current
                 else kthen ArchProcess_current (ret (Return_result response))))
     | Err _ \<Rightarrow> ret (Return_result (Res_Error UnhandledSyscall))
     | Panic \<Rightarrow> panic)))"

definition trap_interrupt :: "PID \<Rightarrow> usize \<Rightarrow> trap_exit kr" where
  "trap_interrupt pid sip =
     kbind (gets (\<lambda>s. sip AND SIM s)) (\<lambda>irqs_pending.
     kthen (modify (\<lambda>s. if PREVIOUS_PAIR s = None then s\<lparr>PREVIOUS_PAIR := Some (pid, current_tid s)\<rparr> else s))
    (kthen (modify (\<lambda>s. s\<lparr>HANDLING_IRQ := True\<rparr>))
    (kthen (expect (irq_handle irqs_pending))
           resume_current)))"

text \<open>The address an exception handler returns to; the result of the handler is a signed
  distance to move the program counter by.\<close>

definition trap_exception_return :: "PID \<Rightarrow> usize \<Rightarrow> trap_exit kr \<Rightarrow> trap_exit kr" where
  "trap_exception_return pid x0 unhandled =
     kmatch (finish_exception_handler_and_resume pid) (\<lambda>r. case r of
         Inl _ \<Rightarrow> unhandled
       | Inr _ \<Rightarrow>
           kthen ArchProcess_current
          (kthen (current_thread_mut (\<lambda>t. t\<lparr>sepc := sepc t + x0\<rparr>))
          (kthen (set_supervisor (pid = 1)) (ret Resume))))"

definition trap_exit_thread :: "PID \<Rightarrow> trap_exit kr" where
  "trap_exit_thread pid =
     kthen ArchProcess_current
    (kbind (gets current_tid) (\<lambda>tid.
     kbind (expect (destroy_thread pid tid)) (\<lambda>resched.
     kthen (if resched then reset_switchto_caller else ret ())
    (kthen finish_isr resume_current))))"

definition trap_swapper_return :: "trap_exit kr \<Rightarrow> trap_exit kr" where
  "trap_swapper_return unhandled =
     kbind (gets current_pid) (\<lambda>cur.
       if cur \<noteq> SWAPPER_PID then unhandled
       else kbind (kmatch exit_blocking_call (\<lambda>r. case r of Inl e \<Rightarrow> ret (Res_Error e) | Inr x \<Rightarrow> ret x)) (\<lambda>response.
            kthen ArchProcess_current
           (kthen clearmem_restore_irq
                  (ret (Return_result response)))))"

text \<open>A page fault that no page on demand resolves, and every other exception: the exception
  handler of the process runs, if there is one, or the process is terminated.\<close>

definition trap_unhandled :: "PID \<Rightarrow> RiscvException \<Rightarrow> trap_exit kr" where
  "trap_unhandled pid ex =
     kbind (case generate_exception_args ex of
              None \<Rightarrow> ret None
            | Some args \<Rightarrow> kbind (begin_exception_handler pid) (\<lambda>handler.
                ret (map_option (\<lambda>h. (h, args)) handler))) (\<lambda>handler.
       case handler of
         Some (h, args) \<Rightarrow>
           kthen ArchProcess_current
          (kbind arch_current_pid (\<lambda>hw.
           kthen (set_supervisor (hw = 1))
          (kthen (thread_mut EXCEPTION_TID (invoked (eh_pc h) (eh_sp h) RETURN_FROM_EXCEPTION_HANDLER args))
                 (ret Resume))))
       | None \<Rightarrow>
           (\<lambda>s. if spp_supervisor s then ret Halt s
                else kthen finish_isr
                    (kthen (expect (terminate_process pid))
                    (kthen reset_switchto_caller resume_current)) s))"

definition trap_page_fault :: "PID \<Rightarrow> RiscvException \<Rightarrow> usize \<Rightarrow> trap_exit kr" where
  "trap_page_fault pid ex ad =
     kmatch (ensure_page_exists_inner ad) (\<lambda>r. case r of
         Inr _ \<Rightarrow> resume_current
       | Inl _ \<Rightarrow> trap_unhandled pid ex)"

section \<open>The trap handler\<close>

text \<open>\<open>sip\<close> is the register of pending interrupts. A thread comes back from a handler by
  executing one of the addresses that are never mapped: the first component of an instruction page
  fault is the program counter.\<close>

definition trap_handler :: "args8 \<Rightarrow> usize \<Rightarrow> usize \<Rightarrow> usize \<Rightarrow> usize \<Rightarrow> trap_exit kr" where
  "trap_handler args sip cause epc tval s =
     (if spp_supervisor s \<and> cause = 0xf then panic s
      else kbind arch_current_pid (\<lambda>pid.
        let ex = from_regs cause epc tval in
        case ex of
          CallFromSMode _ _ \<Rightarrow> trap_syscall pid args
        | CallFromUMode _ _ \<Rightarrow> trap_syscall pid args
        | UserExternalInterrupt _ \<Rightarrow> trap_interrupt pid sip
        | SupervisorExternalInterrupt _ \<Rightarrow> trap_interrupt pid sip
        | StorePageFault _ ad \<Rightarrow> trap_page_fault pid ex ad
        | LoadPageFault _ ad \<Rightarrow> trap_page_fault pid ex ad
        | InstructionPageFault pc ad \<Rightarrow>
            if pc = RETURN_FROM_EXCEPTION_HANDLER
            then trap_exception_return pid (fst args) (trap_unhandled pid ex)
            else if pc = EXIT_THREAD then trap_exit_thread pid
            else if pc = RETURN_FROM_ISR then kthen finish_isr resume_current
            else if pc = RETURN_FROM_SWAPPER then trap_swapper_return (trap_unhandled pid ex)
            else trap_page_fault pid ex ad
        | _ \<Rightarrow> trap_unhandled pid ex) s)"

end
