(* ===== verification/Interrupt_Delivery.thy ===== *)
theory Interrupt_Delivery
  imports Traps Demo_Kernel
begin

text \<open>
  Interrupts: the mask register enables exactly the interrupts that a process has claimed,
  and an interrupt runs the handler that claimed it and then resumes the thread it
  interrupted.
\<close>

section \<open>The mask and the table of handlers\<close>

text \<open>The interrupts that are enabled, whether interrupts are on or off at the moment.\<close>

definition irq_mask :: "Kernel \<Rightarrow> usize" where
  "irq_mask s = (if IRQ_ENABLED s then SIM s else SIM_BACKING s)"

definition irq_table_ok :: "Kernel \<Rightarrow> bool" where
  "irq_table_ok s =
     (length (IRQ_HANDLERS s) = 32 \<and>
      (\<forall>i < 32. bit (irq_mask s) i \<longleftrightarrow> IRQ_HANDLERS s ! i \<noteq> None))"

lemma irq_table_set:
  assumes "irq_table_ok s" "unat irq < 32" "IRQ_HANDLERS s' = (IRQ_HANDLERS s)[unat irq := h]"
    and "irq_mask s' = (if h = None then irq_mask s AND NOT (thread_bit irq) else irq_mask s OR thread_bit irq)"
  shows "irq_table_ok s'"
proof -
  have "bit (irq_mask s') i \<longleftrightarrow> IRQ_HANDLERS s' ! i \<noteq> None" if "i < 32" for i
    using assms that
    by (cases h) (auto simp: irq_table_ok_def nth_list_update bit_add_thread bit_del_thread)
  then show ?thesis using assms by (simp add: irq_table_ok_def)
qed

lemma irq_mask_handlers [simp]: "irq_mask (s\<lparr>IRQ_HANDLERS := h\<rparr>) = irq_mask s"
  by (simp add: irq_mask_def)

lemma enable_irq_run:
  obtains s' where "enable_irq irq s = (Done (Ok ()), s')" "IRQ_HANDLERS s' = IRQ_HANDLERS s"
    "irq_mask s' = irq_mask s OR thread_bit irq"
  by (rule that [of "snd (enable_irq irq s)"]) (simp_all add: enable_irq_def irq_mask_def)

lemma disable_irq_run:
  obtains s' where "disable_irq irq s = (Done (Ok ()), s')" "IRQ_HANDLERS s' = IRQ_HANDLERS s"
    "irq_mask s' = irq_mask s AND NOT (thread_bit irq)"
  by (rule that [of "snd (disable_irq irq s)"]) (simp_all add: disable_irq_def irq_mask_def)

text \<open>A process claims an interrupt, frees it or ends.\<close>

datatype irq_call =
    Claim usize PID usize "usize option"
  | Free_irq usize PID
  | Release_all PID

definition irq_call :: "irq_call \<Rightarrow> unit kr" where
  "irq_call c =
     (case c of
        Claim irq pid f arg \<Rightarrow> interrupt_claim irq pid f arg
      | Free_irq irq pid \<Rightarrow> interrupt_free irq pid
      | Release_all pid \<Rightarrow> release_interrupts_for_pid pid)"

lemma claim_keeps_table:
  assumes "irq_table_ok s"
  shows "irq_table_ok (snd (interrupt_claim irq pid f arg s))"
proof (cases "unat irq < 32 \<and> IRQ_HANDLERS s ! unat irq = None")
  case True
  let ?s = "s\<lparr>IRQ_HANDLERS := (IRQ_HANDLERS s)[unat irq := Some (pid, f, arg)]\<rparr>"
  obtain s' where r: "enable_irq irq ?s = (Done (Ok ()), s')" "IRQ_HANDLERS s' = IRQ_HANDLERS ?s"
    "irq_mask s' = irq_mask ?s OR thread_bit irq" using enable_irq_run .
  have "irq_table_ok s'"
    using True r
    by (intro irq_table_set [OF assms, of irq, where h = "Some (pid, f, arg)"]) simp_all
  then show ?thesis
    using True r(1) assms by (simp add: interrupt_claim_def irq_table_ok_def kbind_Ok)
next
  case False
  then show ?thesis using assms by (auto simp: interrupt_claim_def irq_table_ok_def)
qed

lemma drop_handler_keeps_table:
  assumes "irq_table_ok s" "unat irq < 32"
  shows "irq_table_ok (snd (kthen (disable_irq irq)
    (modify (\<lambda>s. s\<lparr>IRQ_HANDLERS := (IRQ_HANDLERS s)[unat irq := None]\<rparr>)) s))"
proof -
  obtain s' where r: "disable_irq irq s = (Done (Ok ()), s')" "IRQ_HANDLERS s' = IRQ_HANDLERS s"
    "irq_mask s' = irq_mask s AND NOT (thread_bit irq)" using disable_irq_run .
  have "irq_table_ok (s'\<lparr>IRQ_HANDLERS := (IRQ_HANDLERS s')[unat irq := None]\<rparr>)"
    using r by (intro irq_table_set [OF assms, where h = None]) simp_all
  then show ?thesis by (simp add: kbind_Ok r(1))
qed

lemma free_keeps_table:
  assumes "irq_table_ok s"
  shows "irq_table_ok (snd (interrupt_free irq pid s))"
proof (cases "unat irq < 32")
  case True
  then show ?thesis
    using assms drop_handler_keeps_table [OF assms True]
    by (simp add: interrupt_free_def irq_table_ok_def)
next
  case False
  then show ?thesis using assms by (simp add: interrupt_free_def irq_table_ok_def)
qed

lemma release_keeps_table:
  assumes "irq_table_ok s" "irq < 32"
  shows "irq_table_ok (snd (release_interrupt pid irq s))"
proof -
  have "unat (of_nat irq :: usize) = irq"
    using assms(2) by (simp add: unat_of_nat)
  then show ?thesis
    using assms drop_handler_keeps_table [OF assms(1), of "of_nat irq"]
    by (auto simp: release_interrupt_def split: option.split)
qed

lemma release_all_keeps_table:
  assumes "irq_table_ok s" "\<forall>i \<in> set is. i < 32"
  shows "irq_table_ok (snd (kfor is (release_interrupt pid) s))"
  using assms
proof (induction "is" arbitrary: s)
  case (Cons i "is")
  then have "irq_table_ok (snd (release_interrupt pid i s))" by (intro release_keeps_table) auto
  then show ?case
    using Cons by (cases "release_interrupt pid i s") (auto simp: kbind_def split: run.split outcome.split)
qed simp

lemma irq_call_keeps_table:
  assumes "irq_table_ok s"
  shows "irq_table_ok (snd (irq_call c s))"
  using assms
proof (cases c)
  case (Release_all pid)
  have "length (IRQ_HANDLERS s) = 32" using assms by (simp add: irq_table_ok_def)
  then show ?thesis
    using release_all_keeps_table [OF assms, of "[0..<32]" pid] Release_all
    by (simp add: irq_call_def release_interrupts_for_pid_def)
qed (simp_all add: irq_call_def claim_keeps_table free_keeps_table)

lemma enable_disable_ok:
  "fst (enable_irq irq s) = Done (Ok ())" "fst (disable_irq irq s) = Done (Ok ())"
  by (simp_all add: enable_irq_def disable_irq_def)

lemma then_ok: "fst (m s) = Done (Ok x) \<Longrightarrow> fst (kthen m (modify g) s) = Done (Ok ())"
  by (cases "m s") (simp add: kbind_def)

lemma release_ok: "\<exists>s'. kfor is (release_interrupt pid) s = (Done (Ok ()), s')"
proof (induction "is" arbitrary: s)
  case (Cons i "is")
  have "fst (release_interrupt pid i s) = Done (Ok ())"
    by (auto simp: release_interrupt_def then_ok enable_disable_ok split: option.split)
  then obtain s1 where "release_interrupt pid i s = (Done (Ok ()), s1)"
    by (cases "release_interrupt pid i s") simp
  with Cons.IH [of s1] show ?case by (simp add: kbind_Ok)
qed simp

lemma irq_call_panics:
  assumes "irq_table_ok s"
  shows "fst (irq_call c s) = Done Panic \<longleftrightarrow> (\<exists>pid. c = Free_irq 32 pid)"
proof -
  have len: "length (IRQ_HANDLERS s) = 32" using assms by (simp add: irq_table_ok_def)
  show ?thesis
  proof (cases c)
    case (Claim irq pid f arg)
    then show ?thesis
      by (simp add: irq_call_def interrupt_claim_def kbind_def)
         (simp add: enable_irq_def)
  next
    case (Free_irq irq pid)
    have "unat irq = 32 \<longleftrightarrow> irq = 32" by (auto simp: word_unat_eq_iff)
    then show ?thesis
      using len Free_irq by (simp add: irq_call_def interrupt_free_def then_ok enable_disable_ok)
  next
    case (Release_all pid)
    then show ?thesis
      using release_ok [of "[0..<32]" pid s] len
      by (auto simp: irq_call_def release_interrupts_for_pid_def)
  qed
qed

section \<open>Entering a handler\<close>

definition paused :: "PID \<Rightarrow> TID \<Rightarrow> usize \<Rightarrow> Kernel \<Rightarrow> Kernel" where
  "paused a t x s = setp a (\<lambda>p. p\<lparr>current_thread := t, proc_state := Ready (x OR thread_bit t)\<rparr>) s"

lemma pause_current_run:
  assumes "live s a" "current_pid s = a" "proc_state (proc_at s a) = Running x"
    "current_thread (proc_at s a) = t" "t \<noteq> 0"
  shows "pause_current s = (Done (Ok ()), paused a t x s)"
  using assms
  by (simp add: pause_current_def expect_def kmatch_def kbind_Ok get_process_run set_current_thread_def
      set_process_run setp_setp paused_def Let_def)

definition called :: "PID \<Rightarrow> usize \<Rightarrow> Kernel \<Rightarrow> Kernel" where
  "called h y s = goto h (setp h (\<lambda>p. p\<lparr>proc_state := Running y,
     previous_thread := (if current_thread p \<noteq> IRQ_TID then current_thread p else previous_thread p),
     current_thread := IRQ_TID\<rparr>) s)"

text \<open>The frame of the handler is built in thread 0; the stack is that of the thread the process
  was last in.\<close>

definition handler_stack :: "PID \<Rightarrow> Kernel \<Rightarrow> usize" where
  "handler_stack h s =
     (if h = 1 then EXCEPTION_STACK_TOP else stack_pointer (threads (impl s) ! unat (current_tid s)))"

definition framed :: "PID \<Rightarrow> usize \<Rightarrow> usize list \<Rightarrow> Kernel \<Rightarrow> Kernel" where
  "framed h f args s = s\<lparr>spp_supervisor := (h = 1),
     process_impl := (process_impl s)(ucast h := (impl s)\<lparr>hardware_thread := 1,
       threads := (threads (impl s))[0 := invoked f (handler_stack h s) RETURN_FROM_ISR args
         (threads (impl s) ! 0)]\<rparr>)\<rparr>"

definition has_stack :: "Kernel \<Rightarrow> PID \<Rightarrow> bool" where
  "has_stack s h = (h = 1 \<or> unat (hardware_thread (process_impl s (ucast h)) - 1) < 31)"

lemma callback_frame_run:
  assumes "in_space s h" "live s h" "has_stack s h"
  shows "callback_frame h f (CB_Interrupt i arg) s = (Done (Ok ()), framed h f [i, arg] s)"
proof -
  have len: "length (threads (impl s)) = 31" and im: "impl s = process_impl s (ucast h)"
    using assms by (simp_all add: impl_in_space live_def)
  have k: "inner_key s = ucast h" using assms(1) by (simp add: inner_key_asid in_space_def)
  have sp: "(if h = 1 then ret EXCEPTION_STACK_TOP
      else case CB_Interrupt i arg of
             CB_Interrupt _ _ \<Rightarrow> kbind current_thread_get (\<lambda>t. ret (stack_pointer t))
           | _ \<Rightarrow> ret SWAP_STACK_TOP_VADDR) s = (Done (Ok (handler_stack h s)), s)"
    using assms(3) len im
    by (auto simp: has_stack_def handler_stack_def current_thread_get_def current_tid_def kcheck_def
        kassert_def kbind_def)
  have tid: "set_tid IRQ_TID s = (Done (Ok ()), on_thread 0 s)"
    using set_tid_run [of 0 s] len by (simp add: IRQ_TID_def)
  let ?s = "(on_thread 0 s)\<lparr>spp_supervisor := (h = 1)\<rparr>"
  have imp: "impl ?s = (impl s)\<lparr>hardware_thread := 1\<rparr>"
    by (simp add: impl_def on_thread_def inner_key_def)
  have cur: "current_thread_mut (invoked f sp RETURN_FROM_ISR [i, arg]) ?s =
     (Done (Ok ()), ?s\<lparr>process_impl := (process_impl ?s)(ucast h := (impl ?s)\<lparr>
        threads := (threads (impl ?s))[0 := invoked f sp RETURN_FROM_ISR [i, arg] (threads (impl ?s) ! 0)]\<rparr>)\<rparr>)" for sp
    using len k imp
    by (simp add: current_thread_mut_def kcheck_def kassert_def kbind_def current_tid_def set_impl_def
        inner_key_def on_thread_def)
  show ?thesis
    by (simp add: callback_frame_def kbind_Ok ArchProcess_current_run [OF assms(1)] sp tid expect_def kmatch_def
        set_supervisor_def cur split del: if_split)
       (simp add: imp framed_def, simp add: on_thread_def k)
qed

lemma called_view:
  assumes "live s h"
  shows "in_space (called h y s) h" "live s q \<Longrightarrow> live (called h y s) q"
    "process_impl (called h y s) = process_impl s"
proof -
  let ?f = "\<lambda>p. p\<lparr>proc_state := Running y,
     previous_thread := (if current_thread p \<noteq> IRQ_TID then current_thread p else previous_thread p),
     current_thread := IRQ_TID\<rparr>"
  have l: "live (setp h ?f s) q" if "live s q" for q
    using assms that by (intro live_setp) simp_all
  show "in_space (called h y s) h"
    unfolding called_def by (intro in_space_goto l assms)
  show "live (called h y s) q" if "live s q"
    using l [OF that] by (simp add: called_def)
  show "process_impl (called h y s) = process_impl s"
    by (simp add: called_def change_simps)
qed

lemma make_callback_run:
  assumes a: "live s a" "current_pid s = a" "proc_state (proc_at s a) = Running x"
      "current_thread (proc_at s a) = t" "t \<noteq> 0"
    and h: "live s h" "has_stack s h" "callback_threads (proc_state (proc_at (paused a t x s) h)) = Some y"
  shows "make_callback_to h f (CB_Interrupt i arg) s =
    (Done (Ok ()), framed h f [i, arg] (called h y (paused a t x s)))"
proof -
  let ?s0 = "paused a t x s"
  let ?f = "\<lambda>p. p\<lparr>proc_state := Running y,
     previous_thread := (if current_thread p \<noteq> IRQ_TID then current_thread p else previous_thread p),
     current_thread := IRQ_TID\<rparr>"
  let ?s1 = "setp h ?f ?s0"
  have l0: "live ?s0 h"
    unfolding paused_def using a(1) h(1) by (intro live_setp) simp_all
  have h0: "h \<noteq> 0" using h(1) by (simp add: live_def)
  have l1: "live (?s1\<lparr>satp := proc_mapping (proc_at ?s0 h)\<rparr>) h"
  proof -
    have "live ?s1 h" using l0 by (intro live_setp) simp_all
    then show ?thesis by (simp add: live_def)
  qed
  have pa: "Process_activate (proc_at ?s0 h) (?s1\<lparr>satp := proc_mapping (proc_at ?s0 h)\<rparr>)
      = (Done (Ok ()), called h y ?s0)"
  proof -
    have "Process_activate (proc_at ?s0 h)
        = Process_activate (proc_at (?s1\<lparr>satp := proc_mapping (proc_at ?s0 h)\<rparr>) h)"
      using proc_at_setp [OF l0 h0, of ?f] by (intro Process_activate_cong) simp_all
    then show ?thesis
      using Process_activate_run [OF l1] by (simp add: goto_satp called_def)
  qed
  have fr: "callback_frame h f (CB_Interrupt i arg) (called h y ?s0)
      = (Done (Ok ()), framed h f [i, arg] (called h y ?s0))"
    using called_view [OF l0] l0 h(2)
    by (intro callback_frame_run) (simp_all add: has_stack_def paused_def change_simps)
  show ?thesis
    by (simp add: make_callback_to_def kbind_Ok pause_current_run [OF a] get_process_run [OF l0] h(3)
        set_process_run activate_def pa fr)
qed

section \<open>Dispatching an interrupt\<close>

definition handling :: "PID \<Rightarrow> TID \<Rightarrow> Kernel \<Rightarrow> Kernel" where
  "handling a t s = s\<lparr>PREVIOUS_PAIR := Some (a, t), HANDLING_IRQ := True\<rparr>"

definition masked :: "Kernel \<Rightarrow> Kernel" where
  "masked s = s\<lparr>SIM_BACKING := SIM s, IRQ_ENABLED := False, SIM := 0\<rparr>"

lemma handle_pending_run:
  assumes "\<forall>j < i. \<not> bit pending j" "bit pending i" "i < 32"
    "IRQ_HANDLERS s ! i = Some (h, f, arg)" "k \<le> i"
    "make_callback_to h f (CB_Interrupt (of_nat i) (or_null arg)) (masked s) = (Done (Ok ()), s')"
  shows "handle_pending pending [k..<32] s = (Done (Ok Res_ResumeProcess), s')"
  using assms(5)
proof (induction "i - k" arbitrary: k)
  have b: "pending AND thread_bit (of_nat j) \<noteq> 0 \<longleftrightarrow> bit pending j" if "j < 32" for j
    using that by (simp add: and_thread_bit unat_of_nat)
  case 0
  then have "k = i" by simp
  moreover have "[i..<32] = i # [Suc i..<32]" using assms(3) by (simp add: upt_conv_Cons)
  moreover have "disable_all_irqs s = (Done (Ok ()), masked s)"
    by (simp add: disable_all_irqs_def masked_def)
  ultimately show ?case
    using b [OF assms(3)] assms(2,4,6) by (simp add: kbind_Ok)
next
  case (Suc n)
  have "pending AND thread_bit (of_nat k) = 0"
    using Suc.hyps(2) assms(1,3) by (simp add: and_thread_bit unat_of_nat)
  moreover have "[k..<32] = k # [Suc k..<32]"
    using Suc.hyps(2) assms(3) by (simp add: upt_conv_Cons)
  ultimately show ?case
    using Suc.hyps(1) [of "Suc k"] Suc.hyps(2) Suc.prems by simp
qed

section \<open>An interrupt and its return\<close>

definition in_handler :: "PID \<Rightarrow> usize \<Rightarrow> nat \<Rightarrow> usize option \<Rightarrow> Kernel \<Rightarrow> bool" where
  "in_handler h f i arg s =
     (in_space s h \<and> current_tid s = IRQ_TID \<and> SIM s = 0 \<and>
      (let th = threads (impl s) ! 0 in
       sepc th = f \<and> registers th ! 0 = RETURN_FROM_ISR \<and> a0 th = of_nat i \<and> a1 th = or_null arg))"

text \<open>What the handler leaves alone: the tables of the scheduler and of the interrupts and the
  thread contexts of the interrupted process other than its own. It may change
  memory, servers and its own context.\<close>

definition handler_ran :: "PID \<Rightarrow> Kernel \<Rightarrow> Kernel \<Rightarrow> bool" where
  "handler_ran a s s' =
     (processes s' = processes s \<and> PROCESS_TABLE s' = PROCESS_TABLE s \<and> satp s' = satp s \<and>
      current_pid s' = current_pid s \<and> PREVIOUS_PAIR s' = PREVIOUS_PAIR s \<and>
      HANDLING_IRQ s' = HANDLING_IRQ s \<and> SIM_BACKING s' = SIM_BACKING s \<and>
      IRQ_ENABLED s' = IRQ_ENABLED s \<and> IRQ_HANDLERS s' = IRQ_HANDLERS s \<and>
      (\<forall>k. length (threads (process_impl s' k)) = length (threads (process_impl s k))) \<and>
      (\<forall>i \<noteq> 0. threads (process_impl s' (ucast a)) ! i = threads (process_impl s (ucast a)) ! i))"

definition resumed :: "PID \<Rightarrow> TID \<Rightarrow> Kernel \<Rightarrow> Kernel \<Rightarrow> bool" where
  "resumed a t s s' =
     (in_space s' a \<and> current_tid s' = t \<and> current_thread (proc_at s' a) = t \<and>
      (\<forall>q. live s q \<longrightarrow> proc_state (proc_at s' q) = proc_state (proc_at s q)) \<and>
      threads (process_impl s' (ucast a)) ! unat t = threads (process_impl s (ucast a)) ! unat t \<and>
      SIM s' = SIM s \<and> IRQ_ENABLED s' \<and> IRQ_HANDLERS s' = IRQ_HANDLERS s \<and>
      PREVIOUS_PAIR s' = None \<and> \<not> HANDLING_IRQ s')"

definition waits_for_interrupt :: "Kernel \<Rightarrow> PID \<Rightarrow> bool" where
  "waits_for_interrupt s h =
     (case proc_state (proc_at s h) of Ready y \<Rightarrow> y \<noteq> 0 | Sleeping \<Rightarrow> True | _ \<Rightarrow> False)"

text \<open>The processes that claimed an interrupt are there, and wait unless they run.\<close>

definition handlers_ok :: "PID \<Rightarrow> Kernel \<Rightarrow> bool" where
  "handlers_ok a s =
     (\<forall>i h f arg. i < 32 \<longrightarrow> IRQ_HANDLERS s ! i = Some (h, f, arg) \<longrightarrow>
        live s h \<and> has_stack s h \<and> length (registers (threads (process_impl s (ucast h)) ! 0)) = 31 \<and>
        (h = a \<or> waits_for_interrupt s h))"

lemma arch_current_pid_run:
  assumes "in_space s q" "q \<noteq> 0"
  shows "arch_current_pid s = (Done (Ok q), s)"
  using assms by (simp add: arch_current_pid_def in_space_def get_pid_asid unwrap_def)

lemma resume_current_run:
  assumes "in_space s q" "q \<noteq> 0"
  shows "resume_current s = (Done (Ok Resume), s\<lparr>spp_supervisor := (q = 1)\<rparr>)"
  using arch_current_pid_run [OF assms]
  by (simp add: resume_current_def kbind_Ok ArchProcess_current_run [OF assms(1)] set_supervisor_def)

text \<open>The state in which the handler starts.\<close>

definition interrupted :: "PID \<Rightarrow> TID \<Rightarrow> usize \<Rightarrow> PID \<Rightarrow> usize \<Rightarrow> usize list \<Rightarrow> usize \<Rightarrow> Kernel \<Rightarrow> Kernel" where
  "interrupted a t x h f args y s = framed h f args (called h y (paused a t x (masked (handling a t s))))"

lemma trap_interrupt_run:
  assumes tab: "length (IRQ_HANDLERS s) = 32" "PREVIOUS_PAIR s = None"
    and pend: "\<forall>j < i. \<not> bit (sip AND SIM s) j" "bit (sip AND SIM s) i" "i < 32"
    and hd: "IRQ_HANDLERS s ! i = Some (h, f, arg)"
    and a: "live s a" "in_space s a" "proc_state (proc_at s a) = Running x"
      "current_thread (proc_at s a) = t" "t \<noteq> 0" "current_tid s = t"
    and h: "live s h" "has_stack s h" "callback_threads (proc_state (proc_at (paused a t x s) h)) = Some y"
  shows "trap_handler args sip 0x80000009 epc tval s =
    (Done (Ok Resume), interrupted a t x h f [of_nat i, or_null arg] y s)"
proof -
  let ?m = "masked (handling a t s)"
  let ?s1 = "interrupted a t x h f [of_nat i, or_null arg] y s"
  have same: "live ?m q = live s q" "proc_at ?m q = proc_at s q" "has_stack ?m q = has_stack s q"
    "proc_at (paused a t x ?m) q = proc_at (paused a t x s) q" for q
    by (simp_all add: live_def masked_def handling_def has_stack_def paused_def setp_def)
  have cb: "make_callback_to h f (CB_Interrupt (of_nat i) (or_null arg)) ?m = (Done (Ok ()), ?s1)"
    unfolding interrupted_def
    using a h by (intro make_callback_run) (simp_all add: same, simp_all add: masked_def handling_def in_space_def)
  have "handle_pending (sip AND SIM s) [0..<32] (handling a t s) = (Done (Ok Res_ResumeProcess), ?s1)"
    using cb hd pend by (intro handle_pending_run) (simp_all add: handling_def)
  then have ih: "irq_handle (sip AND SIM s) (handling a t s) = (Done (Ok Res_ResumeProcess), ?s1)"
    using tab by (simp add: irq_handle_def handling_def)
  have lp: "live (paused a t x ?m) h"
    unfolding paused_def using a(1) h(1) by (intro live_setp) (simp_all add: same)
  have sp: "in_space ?s1 h"
    using called_view(1) [OF lp, of y] by (simp add: interrupted_def framed_def in_space_def)
  have h0: "h \<noteq> 0" and a0: "a \<noteq> 0" using h(1) a(1) by (simp_all add: live_def)
  have "resume_current ?s1 = (Done (Ok Resume), ?s1)"
    using resume_current_run [OF sp h0] by (simp add: interrupted_def framed_def)
  moreover have "handling a t s = s\<lparr>PREVIOUS_PAIR := Some (a, t), HANDLING_IRQ := True\<rparr>"
    by (simp add: handling_def)
  ultimately show ?thesis
    using arch_current_pid_run [OF a(2) a0] a(6) tab(2) ih
    by (simp add: trap_handler_def from_regs_def trap_interrupt_def kbind_Ok expect_def kmatch_def)
qed

definition stopped :: "PID \<Rightarrow> usize \<Rightarrow> Kernel \<Rightarrow> Kernel" where
  "stopped h z s = setp h (\<lambda>p. p\<lparr>proc_state := (if z = 0 then Sleeping else Ready z)\<rparr>) s"

definition back_in :: "PID \<Rightarrow> TID \<Rightarrow> usize \<Rightarrow> Kernel \<Rightarrow> Kernel" where
  "back_in a t w s = setp a (\<lambda>p. p\<lparr>current_thread := t\<rparr>)
     (on_thread t (goto a (setp a (\<lambda>p. p\<lparr>proc_state := Running (w AND NOT (thread_bit t))\<rparr>) s)))"

lemma back_in_view:
  assumes "live s a"
  shows "q \<noteq> 0 \<Longrightarrow> proc_at (back_in a t w s) q =
      (if q = a then (proc_at s a)\<lparr>proc_state := Running (w AND NOT (thread_bit t)), current_thread := t\<rparr>
       else proc_at s q)"
    "in_space (back_in a t w s) a" "current_tid (back_in a t w s) = t"
proof -
  let ?f = "\<lambda>p. p\<lparr>proc_state := Running (w AND NOT (thread_bit t))\<rparr>"
  have l: "live (setp a ?f s) a" using assms by (intro live_setp) simp_all
  then have l2: "live (on_thread t (goto a (setp a ?f s))) a" by simp
  have nz: "a \<noteq> 0" using assms by (simp add: live_def)
  show "proc_at (back_in a t w s) q =
      (if q = a then (proc_at s a)\<lparr>proc_state := Running (w AND NOT (thread_bit t)), current_thread := t\<rparr>
       else proc_at s q)" if "q \<noteq> 0"
    using proc_at_setp [OF l2 that, of "\<lambda>p. p\<lparr>current_thread := t\<rparr>"] proc_at_setp [OF assms that, of ?f]
      proc_at_setp [OF assms nz, of ?f]
    by (simp add: back_in_def change_simps)
  show "in_space (back_in a t w s) a"
    using in_space_goto [OF l] by (simp add: back_in_def in_space_def change_simps)
  show "current_tid (back_in a t w s) = t"
    by (simp add: back_in_def current_tid_def impl_setp on_thread_simps)
qed

lemma finish_callback_run:
  assumes "live s h" "live s a" "current_pid s = h" "proc_state (proc_at s h) = Running z"
    "proc_state (proc_at (stopped h z s) a) = Ready w" "bit w (unat t)" "unat t < 31"
  shows "finish_callback_and_resume a t s = (Done (Ok ()), back_in a t w (stopped h z s))"
proof -
  let ?s1 = "stopped h z s"
  let ?s2 = "setp a (\<lambda>p. p\<lparr>proc_state := Running (w AND NOT (thread_bit t))\<rparr>) ?s1"
  have fs: "finish_swap s = (Done (Ok ()), ?s1)"
    using assms(1,3,4) by (simp add: finish_swap_def expect_def kmatch_def kbind_Ok get_process_run
        set_process_run stopped_def)
  have l1: "live ?s1 a" unfolding stopped_def using assms(1,2) by (intro live_setp) simp_all
  have "w AND thread_bit t \<noteq> 0" using assms(6,7) by (simp add: and_thread_bit)
  then have sr: "swap_resume_to_userspace a t ?s1 = (Done (Ok ()), ?s2)"
    using assms(5) by (simp add: swap_resume_to_userspace_def kbind_Ok get_process_run [OF l1] set_process_run)
  have l2: "live ?s2 a" using l1 by (intro live_setp) simp_all
  have l3: "live (?s2\<lparr>satp := proc_mapping (proc_at ?s2 a)\<rparr>) a"
    using l2 by (simp add: live_def)
  have pa: "Process_activate (proc_at ?s2 a) (?s2\<lparr>satp := proc_mapping (proc_at ?s2 a)\<rparr>)
      = (Done (Ok ()), goto a ?s2)"
    using Process_activate_run [OF l3] by (simp add: goto_satp)
  have et: "enter_thread t (goto a ?s2) = (Done (Ok ()), on_thread t (goto a ?s2))"
    using assms(7) l2 by (intro enter_thread_run [OF in_space_goto [OF l2]]) simp_all
  show ?thesis
    by (simp add: finish_callback_and_resume_def kbind_Ok fs sr get_process_run [OF l2] activate_def pa et
        set_current_thread_def set_process_run back_in_def)
qed

lemma trap_isr_return_run:
  assumes "HANDLING_IRQ s" "PREVIOUS_PAIR s = Some (a, t)" "in_space s h"
    and f: "live s h" "live s a" "proc_state (proc_at s h) = Running z"
    "proc_state (proc_at (stopped h z s) a) = Ready w" "bit w (unat t)" "unat t < 31"
  defines "s' \<equiv> back_in a t w (stopped h z (s\<lparr>HANDLING_IRQ := False, PREVIOUS_PAIR := None\<rparr>))"
  shows "trap_handler args sip 12 RETURN_FROM_ISR tval s =
    (Done (Ok Resume), s'\<lparr>IRQ_ENABLED := True, SIM := SIM_BACKING s, spp_supervisor := (a = 1)\<rparr>)"
proof -
  let ?s0 = "s\<lparr>HANDLING_IRQ := False, PREVIOUS_PAIR := None\<rparr>"
  let ?s1 = "s'\<lparr>IRQ_ENABLED := True, SIM := SIM_BACKING s'\<rparr>"
  have same: "live ?s0 q = live s q" "proc_at ?s0 q = proc_at s q"
    "proc_at (stopped h z ?s0) q = proc_at (stopped h z s) q" for q
    by (simp_all add: live_def stopped_def setp_def)
  have fc: "finish_callback_and_resume a t ?s0 = (Done (Ok ()), s')"
    unfolding s'_def using f assms(3) by (intro finish_callback_run) (simp_all add: same in_space_def)
  have fi: "finish_isr s = (Done (Ok True), ?s1)"
    using assms(1,2) fc by (simp add: finish_isr_def kbind_Ok unwrap_def expect_def kmatch_def enable_all_irqs_def)
  have nz: "h \<noteq> 0" "a \<noteq> 0" using f(1,2) by (simp_all add: live_def)
  have l1: "live (stopped h z ?s0) a"
    unfolding stopped_def using f(1,2) by (intro live_setp) (simp_all add: same)
  let ?f = "\<lambda>p. p\<lparr>proc_state := Running (w AND NOT (thread_bit t))\<rparr>"
  have "live (setp a ?f (stopped h z ?s0)) a" using l1 by (intro live_setp) simp_all
  then have "in_space (goto a (setp a ?f (stopped h z ?s0))) a" by (rule in_space_goto)
  then have "in_space ?s1 a" by (simp add: s'_def back_in_def in_space_def change_simps)
  from resume_current_run [OF this nz(2)]
  have rc: "resume_current ?s1 = (Done (Ok Resume), ?s1\<lparr>spp_supervisor := (a = 1)\<rparr>)" .
  have "SIM_BACKING s' = SIM_BACKING s"
    by (simp add: s'_def back_in_def stopped_def change_simps)
  then show ?thesis
    using arch_current_pid_run [OF assms(3) nz(1)] fi rc
    by (simp add: trap_handler_def from_regs_def kbind_Ok RETURN_FROM_ISR_def RETURN_FROM_EXCEPTION_HANDLER_def
        EXIT_THREAD_def)
qed

section \<open>The states along the way\<close>

lemma interrupted_simps:
  "SIM (interrupted a t x h f args y s) = 0" "SIM_BACKING (interrupted a t x h f args y s) = SIM s"
  "HANDLING_IRQ (interrupted a t x h f args y s)" "PREVIOUS_PAIR (interrupted a t x h f args y s) = Some (a, t)"
  "IRQ_HANDLERS (interrupted a t x h f args y s) = IRQ_HANDLERS s"
  by (simp_all add: interrupted_def framed_def called_def paused_def masked_def handling_def change_simps)

lemma interrupted_view:
  assumes "live s a" "live s h" "q \<noteq> 0"
  shows "proc_at (interrupted a t x h f args y s) q =
     (let p = proc_at (paused a t x s) q in
      if q = h then p\<lparr>proc_state := Running y,
        previous_thread := (if current_thread p \<noteq> IRQ_TID then current_thread p else previous_thread p),
        current_thread := IRQ_TID\<rparr>
      else p)"
proof -
  let ?m = "masked (handling a t s)"
  have p: "proc_at (paused a t x ?m) r = proc_at (paused a t x s) r" for r
    by (simp add: paused_def setp_def masked_def handling_def)
  have "live ?m a" "live ?m h" using assms by (simp_all add: live_def masked_def handling_def)
  then have l: "live (paused a t x ?m) h"
    unfolding paused_def by (intro live_setp) simp_all
  show ?thesis
    using proc_at_setp [OF l assms(3)] p
    by (simp add: interrupted_def framed_def called_def goto_simps Let_def)
qed

lemma paused_view:
  assumes "live s a" "q \<noteq> 0"
  shows "proc_at (paused a t x s) q =
     (if q = a then (proc_at s a)\<lparr>current_thread := t, proc_state := Ready (x OR thread_bit t)\<rparr> else proc_at s q)"
  using proc_at_setp [OF assms] by (simp add: paused_def)

lemma interrupted_live:
  assumes "live s a" "live s h" "live s q"
  shows "live (interrupted a t x h f args y s) q"
proof -
  let ?m = "masked (handling a t s)"
  have m: "live ?m r" if "live s r" for r using that by (simp add: live_def masked_def handling_def)
  have p: "live (paused a t x ?m) r" if "live s r" for r
    unfolding paused_def using m [OF that] m [OF assms(1)] by (intro live_setp) simp_all
  let ?c = "called h y (paused a t x ?m)"
  have c: "live ?c q" "in_space ?c h" using called_view [OF p [OF assms(2)]] p [OF assms(3)] by simp_all
  then have "impl ?c = process_impl ?c (ucast h)" by (simp add: impl_in_space)
  with c(1) show ?thesis
    by (auto simp: interrupted_def framed_def live_def)
qed

lemma interrupted_threads:
  fixes t :: TID and x f v w y :: usize
  assumes "live s a" "live s h"
  defines "s' \<equiv> interrupted a t x h f [v, w] y s"
  shows "in_space s' h" "hardware_thread (impl s') = 1"
    "i \<noteq> 0 \<Longrightarrow> threads (process_impl s' (ucast a)) ! i = threads (process_impl s (ucast a)) ! i"
    "length (registers (threads (process_impl s (ucast h)) ! 0)) = 31 \<Longrightarrow>
       sepc (threads (impl s') ! 0) = f \<and> registers (threads (impl s') ! 0) ! 0 = RETURN_FROM_ISR \<and>
       a0 (threads (impl s') ! 0) = v \<and> a1 (threads (impl s') ! 0) = w"
proof -
  let ?m = "masked (handling a t s)"
  have "live ?m a" "live ?m h" using assms by (simp_all add: live_def masked_def handling_def)
  then have "live (paused a t x ?m) h" unfolding paused_def by (intro live_setp) simp_all
  note v = called_view [OF this]
  let ?c = "called h y (paused a t x ?m)"
  have im2: "process_impl ?c = process_impl s"
    using v(3) by (simp add: paused_def masked_def handling_def change_simps)
  then have im: "impl ?c = process_impl s (ucast h)" "process_impl ?c = process_impl s"
    using impl_in_space [OF v(1)] by simp_all
  show sp: "in_space s' h" using v(1) by (simp add: s'_def interrupted_def framed_def in_space_def)
  have im': "impl s' = (process_impl s (ucast h))\<lparr>hardware_thread := 1,
      threads := (threads (process_impl s (ucast h)))[0 := invoked f (handler_stack h ?c) RETURN_FROM_ISR [v, w]
        (threads (process_impl s (ucast h)) ! 0)]\<rparr>"
    using im by (simp add: impl_in_space [OF sp], simp add: s'_def interrupted_def framed_def)
  then show "hardware_thread (impl s') = 1" by simp
  show "threads (process_impl s' (ucast a)) ! i = threads (process_impl s (ucast a)) ! i" if "i \<noteq> 0"
    using that im by (simp add: s'_def interrupted_def framed_def nth_list_update)
  have len: "length (threads (process_impl s (ucast h))) = 31" using assms(2) by (simp add: live_def)
  show "sepc (threads (impl s') ! 0) = f \<and> registers (threads (impl s') ! 0) ! 0 = RETURN_FROM_ISR \<and>
       a0 (threads (impl s') ! 0) = v \<and> a1 (threads (impl s') ! 0) = w"
    if "length (registers (threads (process_impl s (ucast h)) ! 0)) = 31"
    using that len im' by (simp add: invoked_def write_registers_def a0_def a1_def upt_conv_Cons)
qed

lemma handler_ran_view:
  assumes "handler_ran a s s'"
  shows "proc_at s' q = proc_at s q" "live s q \<Longrightarrow> live s' q" "in_space s h \<Longrightarrow> in_space s' h"
  using assms by (auto simp: handler_ran_def live_def in_space_def)

text \<open>The threads that will be ready in the process that handles the interrupt.\<close>

definition callback_mask :: "PID \<Rightarrow> TID \<Rightarrow> usize \<Rightarrow> PID \<Rightarrow> Kernel \<Rightarrow> usize" where
  "callback_mask a t x h s =
     (if h = a then x OR thread_bit t else case proc_state (proc_at s h) of Ready y \<Rightarrow> y | _ \<Rightarrow> 0)"

lemma callback_mask_run:
  assumes "live s a" "live s h" "h = a \<or> waits_for_interrupt s h"
  shows "callback_threads (proc_state (proc_at (paused a t x s) h)) = Some (callback_mask a t x h s)"
    "h \<noteq> a \<Longrightarrow> (if callback_mask a t x h s = 0 then Sleeping else Ready (callback_mask a t x h s))
       = proc_state (proc_at s h)"
  using assms paused_view [OF assms(1), of h t x]
  by (auto simp: callback_mask_def callback_threads_def waits_for_interrupt_def live_def
      split: ProcessState.splits)

lemma return_run:
  assumes a: "live s a" "proc_state (proc_at s a) = Running x" "\<not> bit x (unat t)" "unat t < 31"
    and h: "live s h" "h = a \<or> waits_for_interrupt s h"
    and ran: "handler_ran a (interrupted a t x h f [v, w] (callback_mask a t x h s) s) s1"
  shows "\<exists>s2. trap_handler args sip 12 RETURN_FROM_ISR tval s1 = (Done (Ok Resume), s2) \<and>
    in_space s2 a \<and> current_tid s2 = t \<and> current_thread (proc_at s2 a) = t \<and>
    (\<forall>q. live s q \<longrightarrow> proc_state (proc_at s2 q) = proc_state (proc_at s q)) \<and>
    threads (process_impl s2 (ucast a)) = threads (process_impl s1 (ucast a)) \<and>
    SIM s2 = SIM s \<and> IRQ_ENABLED s2 \<and> IRQ_HANDLERS s2 = IRQ_HANDLERS s \<and>
    PREVIOUS_PAIR s2 = None \<and> \<not> HANDLING_IRQ s2"
proof -
  let ?y = "callback_mask a t x h s"
  let ?i = "interrupted a t x h f [v, w] ?y s"
  let ?s0 = "s1\<lparr>HANDLING_IRQ := False, PREVIOUS_PAIR := None\<rparr>"
  let ?w = "x OR thread_bit t"
  have nz: "a \<noteq> 0" "h \<noteq> 0" using a h by (simp_all add: live_def)
  note rv = handler_ran_view [OF ran]
  have pi: "proc_at s1 q = proc_at ?i q" for q by (rule rv(1))
  have l1: "live s1 q" if "live s q" for q
    using interrupted_live [OF a(1) h(1) that] rv(2) by blast
  have l0: "live ?s0 q" if "live s q" for q
    using l1 [OF that] by (simp add: live_def)
  have p1: "proc_state (proc_at s1 q) = (if q = h then Running ?y else if q = a then Ready ?w else proc_state (proc_at s q))"
    if "live s q" for q
    using that interrupted_view [OF a(1) h(1), of q] paused_view [OF a(1), of q t x]
    by (auto simp: pi Let_def live_def)
  have yw: "?y \<noteq> 0" if "h = a" using that by (simp add: callback_mask_def or_thread_nonzero)
  have st: "proc_at (stopped h ?y s1) q = (if q = h then (proc_at s1 h)\<lparr>proc_state := (if ?y = 0 then Sleeping else Ready ?y)\<rparr> else proc_at s1 q)"
    if "q \<noteq> 0" for q
    using proc_at_setp [OF l1 [OF h(1)] that] by (simp add: stopped_def)
  have fl: "HANDLING_IRQ s1" "PREVIOUS_PAIR s1 = Some (a, t)" "SIM_BACKING s1 = SIM s"
    "IRQ_HANDLERS s1 = IRQ_HANDLERS s" "in_space s1 h"
    using ran interrupted_simps rv(3) [OF interrupted_threads(1) [OF a(1) h(1)]]
    by (simp_all add: handler_ran_def)
  have sa: "proc_state (proc_at (stopped h ?y s1) a) = Ready ?w"
    using st [OF nz(1)] p1 [OF a(1)] yw by (auto simp: callback_mask_def)
  have bw: "bit ?w (unat t)" using a(4) by (simp add: bit_add_thread)
  let ?s2 = "(back_in a t ?w (stopped h ?y ?s0))\<lparr>IRQ_ENABLED := True, SIM := SIM_BACKING s1,
    spp_supervisor := (a = 1)\<rparr>"
  have r: "trap_handler args sip 12 RETURN_FROM_ISR tval s1 = (Done (Ok Resume), ?s2)"
    using p1 [OF h(1)] by (intro trap_isr_return_run fl l1 h(1) a(1,4) sa bw) simp
  have la: "live (stopped h ?y ?s0) a"
    unfolding stopped_def using l0 [OF h(1)] l0 [OF a(1)] by (intro live_setp) simp_all
  have st0: "proc_at (stopped h ?y ?s0) q = proc_at (stopped h ?y s1) q" for q
    by (simp add: stopped_def setp_def)
  note bv = back_in_view [OF la]
  have states: "proc_state (proc_at ?s2 q) = proc_state (proc_at s q)" if "live s q" for q
  proof -
    have "q \<noteq> 0" using that by (simp add: live_def)
    then show ?thesis
      using bv(1) [of q t ?w] st [of q] st0 p1 [OF that] a(2) callback_mask_run(2) [OF a(1) h, of t x]
        or_and_not_thread [OF a(3)] a(4)
      by (cases "q = a"; cases "q = h"; simp)
  qed
  have th: "threads (process_impl ?s2 (ucast a)) = threads (process_impl s1 (ucast a))"
    by (simp add: back_in_def stopped_def change_simps)
  show ?thesis
    using r states th bv(1) [OF nz(1), of t ?w] bv(2,3) [of t ?w] fl(3,4)
    by (intro exI [of _ ?s2]) (simp add: in_space_def current_tid_def impl_def inner_key_def back_in_def stopped_def change_simps)
qed

section \<open>The properties\<close>

text \<open>
  C8. An interrupt that is pending and enabled always finds its handler. The kernel
  masks the interrupts and starts the handler that claimed the lowest such interrupt, in its process, in thread 0, with the
  number of the interrupt and the registered argument, and with a return address that
  traps. Whatever the handler does to memory, to servers and to its own context, when it
  returns to that address the thread that was interrupted runs again with its context and
  its interrupt mask, and every process is in the state it was in.
\<close>

theorem interrupt_round_trip:
  assumes "irq_table_ok s" "IRQ_ENABLED s" "PREVIOUS_PAIR s = None" "thread_runs a t s" "handlers_ok a s"
    and "bit (sip AND SIM s) i" "\<forall>j < i. \<not> bit (sip AND SIM s) j"
  shows "\<exists>h f arg s1. IRQ_HANDLERS s ! i = Some (h, f, arg) \<and>
    trap_handler args sip 0x80000009 epc tval s = (Done (Ok Resume), s1) \<and> in_handler h f i arg s1 \<and>
    (\<forall>s1' args' sip' tval'. handler_ran a s1 s1' \<longrightarrow>
       (\<exists>s2. trap_handler args' sip' 12 RETURN_FROM_ISR tval' s1' = (Done (Ok Resume), s2) \<and> resumed a t s s2))"
proof -
  have i: "i < 32" using bit_imp_le_length [OF assms(6)] by simp
  have "bit (irq_mask s) i" using assms(2,6) by (simp add: irq_mask_def bit_and_iff)
  then obtain h f arg where hd: "IRQ_HANDLERS s ! i = Some (h, f, arg)"
    using assms(1) i by (auto simp: irq_table_ok_def)
  have h: "live s h" "has_stack s h" "length (registers (threads (process_impl s (ucast h)) ! 0)) = 31"
    "h = a \<or> waits_for_interrupt s h"
    using assms(5) hd i unfolding handlers_ok_def by blast+
  obtain x where a: "live s a" "in_space s a" "proc_state (proc_at s a) = Running x" "\<not> bit x (unat t)"
    "current_thread (proc_at s a) = t" "current_tid s = t" "0 < unat t" "unat t < 31"
    using assms(4) by (auto simp: thread_runs_def split: ProcessState.splits)
  have t0: "t \<noteq> 0" using a(7) by auto
  let ?y = "callback_mask a t x h s"
  let ?s1 = "interrupted a t x h f [of_nat i, or_null arg] ?y s"
  have tab: "length (IRQ_HANDLERS s) = 32" using assms(1) by (simp add: irq_table_ok_def)
  have enter: "trap_handler args sip 0x80000009 epc tval s = (Done (Ok Resume), ?s1)"
    by (rule trap_interrupt_run [OF tab assms(3,7,6) i hd a(1,2,3,5) t0 a(6) h(1,2)
          callback_mask_run(1) [OF a(1) h(1,4)]])
  have ih: "in_handler h f i arg ?s1"
    using interrupted_threads(1,2) [OF a(1) h(1)] interrupted_threads(4) [OF a(1) h(1,3)]
    by (simp add: in_handler_def interrupted_simps current_tid_def IRQ_TID_def Let_def)
  have returns: "\<exists>s2. trap_handler args' sip' 12 RETURN_FROM_ISR tval' s1' = (Done (Ok Resume), s2) \<and> resumed a t s s2"
    if ran: "handler_ran a ?s1 s1'" for s1' args' sip' tval'
  proof -
    have "unat t \<noteq> 0" using a(7) by simp
    then have "threads (process_impl s1' (ucast a)) ! unat t = threads (process_impl s (ucast a)) ! unat t"
      using ran interrupted_threads(3) [OF a(1) h(1)] by (simp add: handler_ran_def)
    with return_run [OF a(1,3,4,8) h(1,4) ran, of args' sip' tval'] show ?thesis
      unfolding resumed_def by metis
  qed
  show ?thesis using hd enter ih returns by blast
qed

definition demo_irq :: Kernel where
  "demo_irq = demo_kernel\<lparr>IRQ_HANDLERS := (replicate 32 None)[5 := Some (3, 0x20000, Some 0x44)], SIM := 0x20\<rparr>"

lemma demo_irq_fields:
  "IRQ_HANDLERS demo_irq = (replicate 32 None)[5 := Some (3, 0x20000, Some 0x44)]" "SIM demo_irq = 0x20"
  "IRQ_ENABLED demo_irq" "PREVIOUS_PAIR demo_irq = None"
  by (simp_all add: demo_irq_def demo_kernel_simps)

lemma demo_irq_pending: "bit (SIM demo_irq) i \<longleftrightarrow> i = 5" "bit (0x60 AND SIM demo_irq) i \<longleftrightarrow> i = 5"
  using bit_exp_iff [where 'a = "32 word", of 5 i] by (auto simp: demo_irq_fields(2))

lemma demo_irq_handler: "i < 32 \<Longrightarrow> IRQ_HANDLERS demo_irq ! i = (if i = 5 then Some (3, 0x20000, Some 0x44) else None)"
  by (simp add: demo_irq_fields nth_list_update)

lemma demo_irq_table: "irq_table_ok demo_irq"
proof -
  have "length (IRQ_HANDLERS demo_irq) = 32" by (simp add: demo_irq_fields)
  then show ?thesis
    by (simp add: irq_table_ok_def irq_mask_def demo_irq_handler demo_irq_fields(3) demo_irq_pending)
qed

lemma demo_irq_view:
  "live demo_irq q = live demo_kernel q" "proc_at demo_irq q = proc_at demo_kernel q"
  "in_space demo_irq q = in_space demo_kernel q" "process_impl demo_irq k = demo_impl"
  by (simp_all add: demo_irq_def live_def in_space_def demo_kernel_simps)

lemma demo_irq_runs: "thread_runs 1 2 demo_irq"
  using demo_live demo_in_space
  by (simp add: thread_runs_def demo_irq_view demo_proc_at demo_process_def free_process_def current_tid_def impl_def
      demo_impl_def)

lemma demo_irq_handlers: "handlers_ok 1 demo_irq"
proof -
  have "live demo_irq 3" using demo_live by (simp add: demo_irq_view)
  moreover have "has_stack demo_irq 3" by (simp add: has_stack_def demo_irq_view demo_impl_def)
  moreover have "length (registers (threads (process_impl demo_irq 3) ! 0)) = 31"
    by (simp add: demo_irq_view demo_impl_def default_thread_def)
  moreover have "waits_for_interrupt demo_irq 3"
    by (simp add: waits_for_interrupt_def demo_irq_view demo_proc_at demo_process_def free_process_def)
  ultimately show ?thesis
    unfolding handlers_ok_def by (simp add: demo_irq_handler)
qed

theorem interrupt_round_trip_witness:
  "\<exists>h f arg s1. IRQ_HANDLERS demo_irq ! 5 = Some (h, f, arg) \<and>
    trap_handler (0, 0, 0, 0, 0, 0, 0, 0) 0x60 0x80000009 0x10000 0 demo_irq = (Done (Ok Resume), s1) \<and>
    in_handler h f 5 arg s1 \<and>
    (\<exists>s2. trap_handler (0, 0, 0, 0, 0, 0, 0, 0) 0 12 RETURN_FROM_ISR 0 s1 = (Done (Ok Resume), s2) \<and>
       resumed 1 2 demo_irq s2)"
proof -
  have p: "bit (0x60 AND SIM demo_irq) 5" "\<forall>j < 5. \<not> bit (0x60 AND SIM demo_irq) j"
    unfolding demo_irq_pending by simp_all
  note e = demo_irq_fields(3,4)
  have "handler_ran 1 s s" for s by (simp add: handler_ran_def)
  with interrupt_round_trip [OF demo_irq_table e demo_irq_runs demo_irq_handlers p,
      of "(0, 0, 0, 0, 0, 0, 0, 0)" "0x10000" 0]
  show ?thesis by blast
qed

text \<open>
  C25. However processes claim and free interrupts and end, the interrupts that are
  enabled are exactly those that have a handler; and the kernel panics in such a call in one case only, when a process
  frees interrupt 32, one past the end of the table.
\<close>

theorem irq_calls_keep_table:
  assumes "irq_table_ok s"
  shows "irq_table_ok (foldl (\<lambda>s c. snd (irq_call c s)) s cs) \<and>
    (fst (irq_call c (foldl (\<lambda>s c. snd (irq_call c s)) s cs)) = Done Panic \<longleftrightarrow> (\<exists>pid. c = Free_irq 32 pid))"
proof -
  let ?s = "foldl (\<lambda>s c. snd (irq_call c s)) s cs"
  have ok: "irq_table_ok ?s"
    using assms by (induction cs arbitrary: s) (simp_all add: irq_call_keeps_table)
  moreover have "fst (irq_call c ?s) = Done Panic \<longleftrightarrow> (\<exists>pid. c = Free_irq 32 pid)"
    by (rule irq_call_panics [OF ok])
  ultimately show ?thesis by blast
qed

theorem irq_calls_keep_table_witness:
  "irq_table_ok demo_irq \<and>
   irq_table_ok (foldl (\<lambda>s c. snd (irq_call c s)) demo_irq [Claim 7 4 0x30000 None, Free_irq 5 3]) \<and>
   fst (irq_call (Free_irq 32 4)
     (foldl (\<lambda>s c. snd (irq_call c s)) demo_irq [Claim 7 4 0x30000 None, Free_irq 5 3])) = Done Panic"
  using irq_calls_keep_table [OF demo_irq_table, of "[Claim 7 4 0x30000 None, Free_irq 5 3]" "Free_irq 32 4"]
    demo_irq_table by blast

end
