(* ===== verification/Message_Calls.thy ===== *)
theory Message_Calls
  imports Sched_Runs Demo_Kernel Server_Queue
begin

text \<open>
  A blocking call from one process to a server of another, end to end: the message switches
  to the thread of the server that waits for it, and the answer switches back to the caller.
\<close>

section \<open>Servers in the kernel's table\<close>

definition with_server :: "usize \<Rightarrow> Server \<Rightarrow> Kernel \<Rightarrow> Kernel" where
  "with_server sidx srv s = s\<lparr>servers := (servers s)[unat sidx := Some srv]\<rparr>"

lemma with_server_simps [change_simps]:
  "processes (with_server i r s) = processes s" "PROCESS_TABLE (with_server i r s) = PROCESS_TABLE s"
  "process_impl (with_server i r s) = process_impl s" "current_pid (with_server i r s) = current_pid s"
  "satp (with_server i r s) = satp s" "ORIGINAL_PID (with_server i r s) = ORIGINAL_PID s"
  "ORIGINAL_TID (with_server i r s) = ORIGINAL_TID s"
  by (simp_all add: with_server_def)

lemma with_server_view [simp]:
  "live (with_server i r s) q = live s q" "in_space (with_server i r s) q = in_space s q"
  "current_tid (with_server i r s) = current_tid s"
  by (simp_all add: with_server_def live_def in_space_def current_tid_def impl_def inner_key_def)

lemma server_from_with_server:
  "server_from_sidx i s \<noteq> None \<Longrightarrow> server_from_sidx i (with_server i r s) = Some r"
  by (simp add: server_from_sidx_def with_server_def split: if_splits)

lemma with_server_same: "server_from_sidx i s = Some r \<Longrightarrow> with_server i r s = s"
  by (simp add: server_from_sidx_def with_server_def list_update_same_conv split: if_splits)

lemma on_server_run:
  "server_from_sidx i s = Some r \<Longrightarrow> f r = Ok (x, r') \<Longrightarrow> on_server i f s = (Done (Ok x), with_server i r' s)"
  by (simp add: on_server_def with_server_def)

lemma server_from_changes [simp]:
  "server_from_sidx i (setp q f s) = server_from_sidx i s" "server_from_sidx i (goto q s) = server_from_sidx i s"
  "server_from_sidx i (on_thread t s) = server_from_sidx i s"
  by (simp_all add: server_from_sidx_def change_simps)

lemma current_tid_setp [simp]: "current_tid (setp q f s) = current_tid s"
  by (simp add: current_tid_def impl_setp)

lemma in_space_changes [simp]:
  "in_space (setp q f s) r = in_space s r" "in_space (on_thread t s) r = in_space s r"
  by (simp_all add: in_space_def change_simps)

lemma current_tid_on_thread [simp]: "current_tid (on_thread t s) = t"
  by (simp add: current_tid_def change_simps)

section \<open>The call\<close>

text \<open>Thread \<open>u\<close> of process \<open>b\<close> is blocked.\<close>

definition blocked_in :: "Kernel \<Rightarrow> PID \<Rightarrow> TID \<Rightarrow> bool" where
  "blocked_in s b u =
     (case proc_state (proc_at s b) of Sleeping \<Rightarrow> True | Ready y \<Rightarrow> \<not> bit y (unat u) | _ \<Rightarrow> False)"

definition ready_mask :: "ProcessState \<Rightarrow> usize" where
  "ready_mask st = (case st of Ready y \<Rightarrow> y | _ \<Rightarrow> 0)"

lemma woken_blocked:
  assumes "blocked_in s b u" "unat u < 32"
  shows "woken u (proc_state (proc_at s b)) = Some (Ready (ready_mask (proc_state (proc_at s b)) OR thread_bit u))"
  using assms
  by (auto simp: blocked_in_def woken_def ready_mask_def and_thread_bit split: ProcessState.splits)

text \<open>The process that made the call, and the state it is left in.\<close>

definition waiting_state :: "usize \<Rightarrow> ProcessState" where
  "waiting_state x = (if x = 0 then Sleeping else Ready x)"

lemma left_state_waiting: "left_state t False (Running x) = Some (waiting_state x)"
  by (simp add: left_state_def waiting_state_def)

text \<open>The state when the server has got the message: it was taken from \<open>srv\<close>, which had a
  thread \<open>u\<close> waiting and now has \<open>srv2\<close> with the token of the call.\<close>

definition delivered ::
  "PID \<Rightarrow> TID \<Rightarrow> usize \<Rightarrow> PID \<Rightarrow> TID \<Rightarrow> usize \<Rightarrow> usize \<Rightarrow> Server \<Rightarrow> Kernel \<Rightarrow> Kernel" where
  "delivered a t x b u y sidx srv2 s =
     on_thread u (setp a (\<lambda>q. q\<lparr>current_thread := t, proc_state := waiting_state x\<rparr>)
       (with_server sidx srv2 (entered b u (y OR thread_bit u)
          (setp b (\<lambda>q. q\<lparr>proc_state := Ready (y OR thread_bit u)\<rparr>) s))))"

lemma runnable_ready_run:
  assumes "live s b" "proc_state (proc_at s b) = Ready y" "bit y (unat u)" "unat u < 32"
  shows "runnable b (Some u) s = (Done (Ok True), s)"
  using assms by (simp add: runnable_def kbind_Ok get_process_run and_thread_bit)

lemma deliver_run:
  assumes a: "live s a" "in_space s a" "proc_state (proc_at s a) = Running x"
    and b: "live s b" "a \<noteq> b" "blocked_in s b u" "0 < unat u" "unat u < 31"
    and srv: "server_from_sidx sidx s = Some srv1"
      "queue_response a t (BlockingScalar m) None srv1 = Ok (qi, srv2)"
  shows "deliver_directly a t sidx b u (BlockingScalar m) None s =
    (Done (Ok (Res_MessageEnvelope (envelope sidx (of_nat qi) a (BlockingScalar m)))),
     delivered a t x b u (ready_mask (proc_state (proc_at s b))) sidx srv2 s)"
proof -
  let ?y = "ready_mask (proc_state (proc_at s b)) OR thread_bit u"
  let ?r = "setp b (\<lambda>q. q\<lparr>proc_state := Ready ?y\<rparr>) s"
  let ?e = "entered b u ?y ?r"
  have nz: "a \<noteq> 0" "b \<noteq> 0" "u \<noteq> 0" using a(1) b(1,4) by (auto simp: live_def)
  have bit: "bit ?y (unat u)" using b(5) by (simp add: bit_add_thread)
  have rt: "ready_thread b u s = (Done (Ok ()), ?r)"
    using woken_blocked [OF b(3)] b(5) by (intro ready_thread_run b(1)) simp
  have l: "live ?r q" if "live s q" for q using b(1) that by (intro live_setp) simp_all
  have pb: "proc_state (proc_at ?r b) = Ready ?y" "proc_at ?r a = proc_at s a"
    using proc_at_setp [OF b(1) nz(2)] proc_at_setp [OF b(1) nz(1)] b(2) by simp_all
  have rn: "runnable b (Some u) ?r = (Done (Ok True), ?r)"
    using pb bit b(5) by (intro runnable_ready_run l b(1)) simp_all
  have le: "live ?e q" if "live s q" for q using entered_live [OF l [OF that] l [OF b(1)]] .
  have se: "in_space ?e b"
    unfolding entered_def by (intro in_space_goto live_setp l b(1)) simp_all
  have pe: "proc_at ?e a = proc_at s a"
    using proc_at_setp [OF l [OF b(1)] nz(1)] pb(2) b(2) by (simp add: entered_def change_simps)
  have "on_server sidx (queue_response a t (BlockingScalar m) None) ?e = (Done (Ok qi), with_server sidx srv2 ?e)"
    using srv by (intro on_server_run [of _ _ srv1]) (simp_all add: entered_def)
  then have post: "post_activate (RememberServerMessage sidx a t (BlockingScalar m) None) u ?e
      = (Done (Ok (Some (of_nat qi))), with_server sidx srv2 ?e)"
    by (simp add: post_activate_def kbind_Ok)
  have cur: "current_pid ?r = a" using a(2) by (simp add: in_space_def change_simps)
  have left: "left_state t False (proc_state (proc_at ?r a)) = Some (waiting_state x)"
    using a(3) pb(2) left_state_waiting by simp
  have "activate_process_thread t b u False (RememberServerMessage sidx a t (BlockingScalar m) None) ?r =
      (Done (Ok (case Some (of_nat qi) of Some i \<Rightarrow> i | None \<Rightarrow> u)),
       on_thread u (setp a (\<lambda>q. q\<lparr>current_thread := t, proc_state := waiting_state x\<rparr>) (with_server sidx srv2 ?e)))"
    using pb pe se le [OF a(1)] le [OF b(1)] nz(3) bit b(5)
    by (intro activate_process_thread_run [OF l [OF a(1)] l [OF b(1)] b(2) cur pb(1) _ _ _ post _ _ _ _ left])
       (simp_all add: change_simps)
  then show ?thesis
    by (simp add: deliver_directly_def returning_thread_def kmatch_def rt kbind_Ok expect_def rn
        delivered_def)
qed

lemma delivered_view:
  fixes t u :: TID and x y :: usize and answering :: Server
  assumes "live s a" "live s b" "a \<noteq> b" "server_from_sidx sidx s \<noteq> None"
  defines "s' \<equiv> delivered a t x b u y sidx answering s"
  shows "in_space s' b" "current_tid s' = u" "server_from_sidx sidx s' = Some answering"
    "live s q \<Longrightarrow> live s' q"
    "q \<noteq> 0 \<Longrightarrow> proc_at s' q =
       (if q = a then (proc_at s a)\<lparr>current_thread := t, proc_state := waiting_state x\<rparr>
        else if q = b then (proc_at s b)\<lparr>current_thread := u, proc_state := Running ((y OR thread_bit u) AND NOT (thread_bit u))\<rparr>
        else proc_at s q)"
    "ORIGINAL_PID s' = ORIGINAL_PID s" "ORIGINAL_TID s' = ORIGINAL_TID s"
    "threads (process_impl s' k) = threads (process_impl s k)"
proof -
  let ?f = "\<lambda>q. q\<lparr>proc_state := Ready (y OR thread_bit u)\<rparr>"
  let ?g = "\<lambda>q. q\<lparr>current_thread := u, proc_state := Running ((y OR thread_bit u) AND NOT (thread_bit u))\<rparr>"
  let ?h = "\<lambda>q. q\<lparr>current_thread := t, proc_state := waiting_state x\<rparr>"
  let ?r = "setp b ?f s"
  let ?e = "with_server sidx answering (entered b u (y OR thread_bit u) ?r)"
  have nz: "a \<noteq> 0" "b \<noteq> 0" using assms by (auto simp: live_def)
  have l: "live ?r q" if "live s q" for q using assms(2) that by (intro live_setp) simp_all
  have le: "live ?e q" if "live s q" for q using entered_live [OF l [OF that] l [OF assms(2)]] by simp
  have "in_space (entered b u (y OR thread_bit u) ?r) b"
    unfolding entered_def by (intro in_space_goto live_setp l assms(2)) simp_all
  then show "in_space s' b" by (simp add: s'_def delivered_def)
  show "current_tid s' = u" by (simp add: s'_def delivered_def)
  show "server_from_sidx sidx s' = Some answering"
    using assms(4) by (simp add: s'_def delivered_def entered_def server_from_with_server)
  show "live s' q" if "live s q"
    unfolding s'_def delivered_def live_on_thread using le [OF assms(1)] le [OF that]
    by (intro live_setp) (simp_all add: waiting_state_def)
  have pe: "proc_at ?e r = (if r = b then ?g (proc_at s b) else proc_at s r)" if "r \<noteq> 0" for r
    using proc_at_setp [OF assms(2) that, of ?f] proc_at_setp [OF l [OF assms(2)] that, of ?g]
      proc_at_setp [OF assms(2) nz(2), of ?f]
    by (simp add: entered_def change_simps)
  show "proc_at s' q = (if q = a then ?h (proc_at s a) else if q = b then ?g (proc_at s b) else proc_at s q)"
    if "q \<noteq> 0"
    using proc_at_setp [OF le [OF assms(1)] that, of ?h] pe [OF that] pe [OF nz(1)] assms(3)
    by (simp add: s'_def delivered_def change_simps)
  show "ORIGINAL_PID s' = ORIGINAL_PID s" "ORIGINAL_TID s' = ORIGINAL_TID s"
    "threads (process_impl s' k) = threads (process_impl s k)"
    by (simp_all add: s'_def delivered_def entered_def change_simps)
qed

section \<open>The answer\<close>

definition answered :: "PID \<Rightarrow> TID \<Rightarrow> Result \<Rightarrow> Kernel \<Rightarrow> Kernel" where
  "answered b u r s = s\<lparr>process_impl := (process_impl s)(ucast b := (process_impl s (ucast b))\<lparr>threads :=
     (threads (process_impl s (ucast b)))[unat u := (let th = threads (process_impl s (ucast b)) ! unat u in
        th\<lparr>registers := write_registers 9 (args_list (Result_to_args r)) (registers th)\<rparr>)]\<rparr>)\<rparr>"

lemma set_own_result_run:
  assumes "in_space s b" "live s b" "unat u < 31"
  shows "set_thread_result b u r s = (Done (Ok ()), answered b u r s)"
proof -
  have "inner_key s = ucast b" using assms(1) by (simp add: inner_key_asid in_space_def)
  moreover have "u \<noteq> 255" using assms(3) by auto
  moreover have "length (threads (process_impl s (ucast b))) = 31" using assms(2) by (simp add: live_def)
  ultimately show ?thesis
    using assms ArchProcess_current_run [OF assms(1)]
    by (simp add: set_thread_result_def kbind_Ok in_space_def arch_set_thread_result_def thread_mut_def fixup_irq_def
        IRQ_TID_SENTINAL_def kcheck_def kassert_def set_impl_def impl_def answered_def Let_def)
qed

lemma answered_view [simp]:
  "live (answered b u r s) q = live s q" "proc_at (answered b u r s) q = proc_at s q"
  "in_space (answered b u r s) q = in_space s q"
  "server_from_sidx i (answered b u r s) = server_from_sidx i s"
  by (auto simp: answered_def live_def in_space_def server_from_sidx_def)

lemma woken_waiting:
  assumes "\<not> bit x (unat t)" "unat t < 32"
  shows "woken t (waiting_state x) = Some (Ready (x OR thread_bit t))"
  using assms by (simp add: woken_def waiting_state_def and_thread_bit)

definition switched_back :: "PID \<Rightarrow> TID \<Rightarrow> usize \<Rightarrow> PID \<Rightarrow> TID \<Rightarrow> usize \<Rightarrow> Kernel \<Rightarrow> Kernel" where
  "switched_back a t x b u z s =
     setp a (\<lambda>p. p\<lparr>current_thread := t, proc_state := Running ((x OR thread_bit t) AND NOT (thread_bit t))\<rparr>)
       (on_thread t (goto a (answered b u Res_Ok
          (setp b (\<lambda>p. p\<lparr>proc_state := Ready (z OR thread_bit u)\<rparr>)
          (setp b (\<lambda>p. p\<lparr>proc_state := waiting_state z\<rparr>)
          (setp a (\<lambda>p. p\<lparr>proc_state := Ready (x OR thread_bit t)\<rparr>) s))))))"

lemma answer_run:
  assumes a: "live s a" "proc_state (proc_at s a) = waiting_state x" "\<not> bit x (unat t)" "unat t < 31"
    and b: "live s b" "a \<noteq> b" "in_space s b" "proc_state (proc_at s b) = Running z" "\<not> bit z (unat u)" "unat u < 31"
    and quantum: "\<not> (ORIGINAL_PID s = b \<and> ORIGINAL_TID s = t)"
  shows "kthen (ready_thread a t) (answer_client b u False a t r Res_Ok) s =
    (Done (Ok r), switched_back a t x b u z s)"
proof -
  let ?s1 = "setp a (\<lambda>p. p\<lparr>proc_state := Ready (x OR thread_bit t)\<rparr>) s"
  let ?s2 = "setp b (\<lambda>p. p\<lparr>proc_state := waiting_state z\<rparr>) ?s1"
  let ?s3 = "setp b (\<lambda>p. p\<lparr>proc_state := Ready (z OR thread_bit u)\<rparr>) ?s2"
  let ?s4 = "answered b u Res_Ok ?s3"
  have nz: "a \<noteq> 0" "b \<noteq> 0" using a(1) b(1) by (simp_all add: live_def)
  have r1: "ready_thread a t s = (Done (Ok ()), ?s1)"
    using woken_waiting [OF a(3)] a(2,4) by (intro ready_thread_run a(1)) simp
  have l1: "live ?s1 q" if "live s q" for q using a(1) that by (intro live_setp) simp_all
  have p1: "proc_at ?s1 a = (proc_at s a)\<lparr>proc_state := Ready (x OR thread_bit t)\<rparr>" "proc_at ?s1 b = proc_at s b"
    using proc_at_setp [OF a(1) nz(1)] proc_at_setp [OF a(1) nz(2)] b(2) by simp_all
  have bt: "bit (x OR thread_bit t) (unat t)" using a(4) by (simp add: bit_add_thread)
  have rn: "runnable a (Some t) ?s1 = (Done (Ok True), ?s1)"
    using p1(1) bt a(4) by (intro runnable_ready_run l1 a(1)) simp_all
  have st: "stay_in_server b False a t ?s1 = (Done (Ok False), ?s1)"
    using quantum rn by (simp add: stay_in_server_def kbind_Ok change_simps)
  have r2: "unschedule_thread b u ?s1 = (Done (Ok ()), ?s2)"
    unfolding waiting_state_def using b p1(2) by (intro unschedule_run l1 b(1)) simp_all
  have l2: "live ?s2 q" if "live s q" for q
    by (rule live_setp [OF l1 [OF b(1)] l1 [OF that]]) (simp_all add: waiting_state_def)
  have p2: "proc_at ?s2 a = proc_at ?s1 a" "proc_state (proc_at ?s2 b) = waiting_state z"
    using proc_at_setp [OF l1 [OF b(1)] nz(1)] proc_at_setp [OF l1 [OF b(1)] nz(2)] b(2) by simp_all
  have r3: "ready_thread b u ?s2 = (Done (Ok ()), ?s3)"
    using woken_waiting [OF b(5)] b(6) p2(2) by (intro ready_thread_run l2 b(1)) simp
  have l3: "live ?s3 q" if "live s q" for q
    by (rule live_setp [OF l2 [OF b(1)] l2 [OF that]]) simp_all
  have p3: "proc_at ?s3 a = proc_at ?s1 a"
    using proc_at_setp [OF l2 [OF b(1)] nz(1)] p2(1) b(2) by simp
  have r4: "set_thread_result b u Res_Ok ?s3 = (Done (Ok ()), ?s4)"
    using b(3,6) by (intro set_own_result_run l3 b(1)) simp_all
  have r5: "switch_to_thread a (Some t) ?s4 = (Done (Ok ()), switched_back a t x b u z s)"
    unfolding switched_back_def
    using a(4) bt p3 p1(1) l3 [OF a(1)] by (intro switch_to_ready_run) simp_all
  have "kbind (stay_in_server b False a t) f ?s1 = f False ?s1" for f :: "bool \<Rightarrow> Result kr"
    using st by (rule kbind_Ok)
  then show ?thesis
    by (simp add: kbind_Ok r1 answer_client_def r2 r3 r4 r5)
qed

lemma switched_back_view:
  assumes a: "live s a" "\<not> bit x (unat t)" "unat t < 31" and b: "live s b" "a \<noteq> b"
  shows "in_space (switched_back a t x b u z s) a" "current_tid (switched_back a t x b u z s) = t"
    "server_from_sidx i (switched_back a t x b u z s) = server_from_sidx i s"
    "live s q \<Longrightarrow> live (switched_back a t x b u z s) q"
    "q \<noteq> 0 \<Longrightarrow> proc_at (switched_back a t x b u z s) q =
       (if q = a then (proc_at s a)\<lparr>current_thread := t, proc_state := Running x\<rparr>
        else if q = b then (proc_at s b)\<lparr>proc_state := Ready (z OR thread_bit u)\<rparr>
        else proc_at s q)"
proof -
  let ?s1 = "setp a (\<lambda>p. p\<lparr>proc_state := Ready (x OR thread_bit t)\<rparr>) s"
  let ?s2 = "setp b (\<lambda>p. p\<lparr>proc_state := waiting_state z\<rparr>) ?s1"
  let ?s3 = "setp b (\<lambda>p. p\<lparr>proc_state := Ready (z OR thread_bit u)\<rparr>) ?s2"
  let ?s4 = "on_thread t (goto a (answered b u Res_Ok ?s3))"
  have nz: "a \<noteq> 0" "b \<noteq> 0" using a(1) b(1) by (simp_all add: live_def)
  have l1: "live ?s1 q" if "live s q" for q using a(1) that by (intro live_setp) simp_all
  have l2: "live ?s2 q" if "live s q" for q
    by (rule live_setp [OF l1 [OF b(1)] l1 [OF that]]) (simp_all add: waiting_state_def)
  have l3: "live ?s3 q" if "live s q" for q
    by (rule live_setp [OF l2 [OF b(1)] l2 [OF that]]) simp_all
  have l4: "live ?s4 q" if "live s q" for q using l3 [OF that] by simp
  have p4: "proc_at ?s4 q =
       (if q = a then (proc_at s a)\<lparr>proc_state := Ready (x OR thread_bit t)\<rparr>
        else if q = b then (proc_at s b)\<lparr>proc_state := Ready (z OR thread_bit u)\<rparr>
        else proc_at s q)" if "q \<noteq> 0" for q
    using proc_at_setp [OF a(1) that] proc_at_setp [OF l1 [OF b(1)] that] proc_at_setp [OF l2 [OF b(1)] that]
      proc_at_setp [OF a(1) nz(2)] proc_at_setp [OF l1 [OF b(1)] nz(2)] b(2)
    by (auto simp: change_simps)
  show "in_space (switched_back a t x b u z s) a"
    using in_space_goto [of "answered b u Res_Ok ?s3" a] l3 [OF a(1)] by (simp add: switched_back_def)
  show "current_tid (switched_back a t x b u z s) = t"
    "server_from_sidx i (switched_back a t x b u z s) = server_from_sidx i s"
    by (simp_all add: switched_back_def)
  show "live (switched_back a t x b u z s) q" if "live s q"
    unfolding switched_back_def using l4 [OF a(1)] l4 [OF that] by (intro live_setp) simp_all
  show "proc_at (switched_back a t x b u z s) q =
       (if q = a then (proc_at s a)\<lparr>current_thread := t, proc_state := Running x\<rparr>
        else if q = b then (proc_at s b)\<lparr>proc_state := Ready (z OR thread_bit u)\<rparr>
        else proc_at s q)" if "q \<noteq> 0"
    unfolding switched_back_def
    using proc_at_setp [OF l4 [OF a(1)] that] p4 [OF that] p4 [OF nz(1)] or_and_not_thread [OF a(2)] a(3)
    by simp
qed

section \<open>The round trip\<close>

text \<open>The thread computes: it changes memory, and no table of the kernel.\<close>

definition user_ran :: "Kernel \<Rightarrow> Kernel \<Rightarrow> bool" where
  "user_ran s s' =
     (processes s' = processes s \<and> PROCESS_TABLE s' = PROCESS_TABLE s \<and> process_impl s' = process_impl s \<and>
      servers s' = servers s \<and> satp s' = satp s \<and> current_pid s' = current_pid s \<and>
      ORIGINAL_PID s' = ORIGINAL_PID s \<and> ORIGINAL_TID s' = ORIGINAL_TID s)"

lemma user_ran_view:
  assumes "user_ran s s'"
  shows "proc_at s' q = proc_at s q" "live s' q = live s q" "in_space s' q = in_space s q"
    "server_from_sidx i s' = server_from_sidx i s" "ORIGINAL_PID s' = ORIGINAL_PID s" "ORIGINAL_TID s' = ORIGINAL_TID s"
  using assms by (auto simp: user_ran_def live_def in_space_def server_from_sidx_def)

lemma wf_queue_ready_threads [simp]:
  "wf_queue (srv\<lparr>ready_threads := r\<rparr>) = wf_queue srv" "contents (srv\<lparr>ready_threads := r\<rparr>) = contents srv"
  by (simp_all add: wf_queue_def contents_def pend_count_def in_window_def)

lemma redeem_run:
  assumes "server_from_sidx sidx s = Some srv" "wf_queue srv" "qi < length (queue srv)" "qi < 65536"
    "queue srv ! qi = response_entry a t (BlockingScalar m) None" "unat t < 256"
  obtains srv' where "redeem sidx (of_nat qi) None s = (Done (Ok (WM_ScalarMessage a t)), with_server sidx srv' s)"
    "wf_queue srv'" "contents srv' = contents srv"
proof -
  let ?m = "queue srv ! qi"
  have m: "?m = Q_WaitingReturnScalar (ucast a) (ucast t) 0 0" using assms(5) by (simp add: response_entry_def)
  have t: "ucast (ucast t :: u8) = t"
    using assms(6) take_bit_usize_self [of t 8] by (simp add: word_unat_eq_iff unsigned_ucast_eq)
  have "fst (take_waiting_message qi None srv) = Ok (WM_ScalarMessage a t)"
    using assms(3) m t
    by (simp add: take_waiting_cases [OF assms(2)] is_in_server_def reply_buffer_ok_def token_reply_def)
  then obtain srv' where r: "take_waiting_message qi None srv = (Ok (WM_ScalarMessage a t), srv')"
    by (cases "take_waiting_message qi None srv") simp
  have "unat (of_nat qi :: usize) = qi" using assms(4) by (simp add: unat_of_nat)
  then have "redeem sidx (of_nat qi) None s = (Done (Ok (WM_ScalarMessage a t)), with_server sidx srv' s)"
    using assms(1) r by (simp add: redeem_def with_server_def)
  with take_waiting_spec [OF assms(2), of qi None] r show thesis by (intro that [of srv']) simp_all
qed

lemma blocked_mask: "blocked_in s b u \<Longrightarrow> \<not> bit (ready_mask (proc_state (proc_at s b))) (unat u)"
  by (auto simp: blocked_in_def ready_mask_def split: ProcessState.splits)

lemma envelope_sender:
  assumes "unat sidx < 256" "qi < 65536" "a \<noteq> 0"
  shows "SenderID_from_sender (env_sender (envelope sidx (of_nat qi) a m)) =
      \<lparr>snd_sidx = sidx, snd_idx = of_nat qi, snd_pid = Some a\<rparr>"
    "MessageSender_pid (env_sender (envelope sidx (of_nat qi) a m)) = Some a"
proof -
  have "unat (of_nat qi :: usize) = qi" using assms(2) by (simp add: unat_of_nat)
  then show "SenderID_from_sender (env_sender (envelope sidx (of_nat qi) a m)) =
      \<lparr>snd_sidx = sidx, snd_idx = of_nat qi, snd_pid = Some a\<rparr>"
    using SenderID_round_trip [of "\<lparr>snd_sidx = sidx, snd_idx = of_nat qi, snd_pid = Some a\<rparr>"] assms
    by (simp add: SenderID_from_sender_def envelope_def SenderID_to_sender_def wf_nz_def)
  show "MessageSender_pid (env_sender (envelope sidx (of_nat qi) a m)) = Some a"
    using assms(3) by (simp add: envelope_def sender_pid_packed wf_nz_def)
qed

lemma queue_response_server:
  "queue_response a t m client srv = Ok (qi, srv') \<Longrightarrow> srv_pid srv' = srv_pid srv"
  by (auto simp: queue_response_def advance_head_def bind_Ok_iff split: if_splits)

lemma scalar_send_run:
  assumes a: "live s a" "in_space s a" "proc_state (proc_at s a) = Running x"
    and server: "sidx_from_cid cid s = (Done (Ok (Some sidx)), s)" "server_from_sidx sidx s = Some srv"
      "wf_queue srv" "live s (srv_pid srv)" "srv_pid srv \<noteq> a" "has_queue_capacity srv"
    and waiting: "ready_threads srv \<noteq> 0"
      "\<forall>j. bit (ready_threads srv) j \<longrightarrow> 0 < j \<and> j < 31 \<and> blocked_in s (srv_pid srv) (of_nat j)"
  obtains u qi srv1 srv2 where
    "bit (ready_threads srv) (unat u)" "0 < unat u" "unat u < 31" "blocked_in s (srv_pid srv) u"
    "send_message a t cid (BlockingScalar m) s =
       (Done (Ok (Res_MessageEnvelope (envelope sidx (of_nat qi) a (BlockingScalar m)))),
        delivered a t x (srv_pid srv) u (ready_mask (proc_state (proc_at s (srv_pid srv)))) sidx srv2
          (with_server sidx srv1 s))"
    "qi < length (queue srv2)" "queue srv2 ! qi = response_entry a t (BlockingScalar m) None"
    "wf_queue srv2" "contents srv2 = contents srv" "srv_pid srv2 = srv_pid srv" "qi < 65536"
proof -
  let ?b = "srv_pid srv"
  have nz: "a \<noteq> 0" "?b \<noteq> 0" using a(1) server(4) by (auto simp: live_def)
  obtain j where j: "j < 32" "bit (ready_threads srv) j"
    and take: "take_available_thread srv =
      Ok (Some (of_nat j), srv\<lparr>ready_threads := ready_threads srv AND NOT (push_bit j 1)\<rparr>)"
    using take_available_thread_spec [OF waiting(1)] by blast
  define u :: TID where "u = of_nat j"
  define srv1 where "srv1 = srv\<lparr>ready_threads := ready_threads srv AND NOT (push_bit j 1)\<rparr>"
  let ?s0 = "with_server sidx srv1 s"
  have u: "unat u = j" using j(1) by (simp add: u_def unat_of_nat)
  have uj: "0 < unat u" "unat u < 31" "blocked_in s ?b u"
    using waiting(2) j(2) u by (simp_all add: u_def)
  have sf0: "server_from_sidx sidx ?s0 = Some srv1" using server(2) by (simp add: server_from_with_server)
  have wf1: "wf_queue srv1" "contents srv1 = contents srv" using server(3) by (simp_all add: srv1_def)
  have cap: "has_queue_capacity_scalar srv1" "\<exists>i < length (queue srv1). queue srv1 ! i = Q_Empty"
    using server(6)
    by (auto simp: has_queue_capacity_def has_queue_capacity_scalar_def list_ex_Empty srv1_def split: if_splits)
  have "is_ok (queue_response a t (BlockingScalar m) None srv1)"
    using has_queue_capacity_response [OF wf_queueD(1) [OF wf1(1)]] cap(2) by blast
  then obtain qi srv2 where qr: "queue_response a t (BlockingScalar m) None srv1 = Ok (qi, srv2)"
    by (auto simp: is_ok_iff)
  have "sendable a (BlockingScalar m) None" using nz by (simp add: sendable_def wf_message_def)
  note q2 = queue_response_Ok [OF wf1(1) this qr]
  have "deliver_directly a t sidx ?b u (BlockingScalar m) None ?s0 =
      (Done (Ok (Res_MessageEnvelope (envelope sidx (of_nat qi) a (BlockingScalar m)))),
       delivered a t x ?b u (ready_mask (proc_state (proc_at s ?b))) sidx srv2 ?s0)"
    using deliver_run [OF _ _ _ _ _ _ uj(1,2) sf0 qr, of x ?b] a server(4,5) uj(3)
    by (simp add: with_server_def blocked_in_def live_def in_space_def)
  moreover have "on_server sidx take_available_thread s = (Done (Ok (Some u)), ?s0)"
    using take server(2) by (intro on_server_run) (simp_all add: u_def srv1_def)
  moreover have "can_deliver sidx ?b (BlockingScalar m) (Some u) ?s0 = (Done (Ok True), ?s0)"
  proof -
    have "on_server sidx (\<lambda>srv. Ok (has_queue_capacity_scalar srv, srv)) ?s0 = (Done (Ok True), ?s0)"
      using on_server_run [OF sf0, of "\<lambda>srv. Ok (has_queue_capacity_scalar srv, srv)"] cap(1)
        with_server_same [OF sf0] by simp
    then show ?thesis by (simp add: can_deliver_def message_buffer_def kbind_def)
  qed
  ultimately have "send_message a t cid (BlockingScalar m) s =
       (Done (Ok (Res_MessageEnvelope (envelope sidx (of_nat qi) a (BlockingScalar m)))),
        delivered a t x ?b u (ready_mask (proc_state (proc_at s ?b))) sidx srv2 ?s0)"
    using server(1,2)
    by (simp add: send_message_def kbind_def ok_or_def unwrap_def transfer_message_def message_buffer_def Let_def)
  then show thesis
    using that [of u qi srv2 srv1] uj u j(2) q2 wf1 wf_queueD(3) [OF wf1(1)] queue_response_server [OF qr]
    by (simp add: srv1_def)
qed

lemma scalar_return_run:
  assumes a: "live s a" "proc_state (proc_at s a) = waiting_state x" "\<not> bit x (unat t)" "unat t < 31"
    and b: "live s b" "a \<noteq> b" "in_space s b" "proc_state (proc_at s b) = Running z" "\<not> bit z (unat u)" "unat u < 31"
    and quantum: "\<not> (ORIGINAL_PID s = b \<and> ORIGINAL_TID s = t)"
    and server: "server_from_sidx sidx s = Some srv" "srv_pid srv = b" "wf_queue srv" "unat sidx < 256"
    and token: "qi < length (queue srv)" "qi < 65536" "queue srv ! qi = response_entry a t (BlockingScalar m) None"
  obtains srv' where
    "return_result b u False (env_sender (envelope sidx (of_nat qi) a (BlockingScalar m))) r s =
       (Done (Ok r), switched_back a t x b u z (with_server sidx srv' s))"
    "wf_queue srv'" "contents srv' = contents srv"
proof -
  have nz: "a \<noteq> 0" using a(1) by (simp add: live_def)
  have t: "unat t < 256" using a(4) by simp
  obtain srv' where rd: "redeem sidx (of_nat qi) None s = (Done (Ok (WM_ScalarMessage a t)), with_server sidx srv' s)"
    and wf: "wf_queue srv'" "contents srv' = contents srv"
    using redeem_run [OF server(1,3) token(1,2,3) t] .
  let ?s = "with_server sidx srv' s"
  have "kthen (ready_thread a t) (answer_client b u False a t r Res_Ok) ?s =
      (Done (Ok r), switched_back a t x b u z ?s)"
    using a b quantum by (intro answer_run) (simp_all add: change_simps)
  moreover have "own_server sidx b s = (Done (Ok srv), s)"
    using server by (simp add: own_server_def kbind_def ok_or_def)
  ultimately have "return_result b u False (env_sender (envelope sidx (of_nat qi) a (BlockingScalar m))) r s =
       (Done (Ok r), switched_back a t x b u z ?s)"
    using rd by (simp add: return_result_def envelope_sender [OF server(4) token(2) nz] Let_def kbind_Ok)
  then show thesis using wf that by blast
qed

text \<open>
  C9. A blocking scalar message from a thread to a server of another process, one of
  whose threads waits for messages, makes exactly that thread run at once, with the message
  and the caller's process number in its envelope, and blocks the caller. When the server
  returns any result for that envelope, the caller runs again and its system call has that result; every other
  process is as it was before the call, the server's thread is ready and its queue holds the
  messages it held.
\<close>

theorem scalar_call_round_trip:
  assumes caller: "thread_runs a t s"
    and server: "sidx_from_cid cid s = (Done (Ok (Some sidx)), s)" "server_from_sidx sidx s = Some srv"
      "wf_queue srv" "unat sidx < 256" "live s (srv_pid srv)" "srv_pid srv \<noteq> a"
    and room: "has_queue_capacity srv"
    and waiting: "ready_threads srv \<noteq> 0"
      "\<forall>j. bit (ready_threads srv) j \<longrightarrow> 0 < j \<and> j < 31 \<and> blocked_in s (srv_pid srv) (of_nat j)"
    and quantum: "\<not> (ORIGINAL_PID s = srv_pid srv \<and> ORIGINAL_TID s = t)"
  shows "\<exists>u env s1. bit (ready_threads srv) (unat u) \<and>
    send_message a t cid (BlockingScalar m) s = (Done (Ok (Res_MessageEnvelope env)), s1) \<and>
    env_body env = BlockingScalar m \<and> MessageSender_pid (env_sender env) = Some a \<and>
    thread_runs (srv_pid srv) u s1 \<and> blocked_in s1 a t \<and>
    (\<forall>s1' r. user_ran s1 s1' \<longrightarrow>
       (\<exists>s2 srv2. return_result (srv_pid srv) u False (env_sender env) r s1' = (Done (Ok r), s2) \<and>
          thread_runs a t s2 \<and> (\<forall>q. live s q \<and> q \<noteq> srv_pid srv \<longrightarrow> proc_at s2 q = proc_at s q) \<and>
          bit (ready_mask (proc_state (proc_at s2 (srv_pid srv)))) (unat u) \<and>
          server_from_sidx sidx s2 = Some srv2 \<and> wf_queue srv2 \<and> contents srv2 = contents srv))"
proof -
  let ?b = "srv_pid srv"
  let ?y = "ready_mask (proc_state (proc_at s ?b))"
  obtain x where a: "live s a" "in_space s a" "proc_state (proc_at s a) = Running x" "\<not> bit x (unat t)"
    "current_thread (proc_at s a) = t" "0 < unat t" "unat t < 31"
    using caller by (auto simp: thread_runs_def split: ProcessState.splits)
  have nz: "a \<noteq> 0" "?b \<noteq> 0" using a(1) server(5) by (auto simp: live_def)
  obtain u qi srv1 srv2 where u: "bit (ready_threads srv) (unat u)" "0 < unat u" "unat u < 31" "blocked_in s ?b u"
    and send: "send_message a t cid (BlockingScalar m) s =
       (Done (Ok (Res_MessageEnvelope (envelope sidx (of_nat qi) a (BlockingScalar m)))),
        delivered a t x ?b u ?y sidx srv2 (with_server sidx srv1 s))"
    and q2: "qi < length (queue srv2)" "queue srv2 ! qi = response_entry a t (BlockingScalar m) None"
    "wf_queue srv2" "contents srv2 = contents srv" "srv_pid srv2 = ?b" "qi < 65536"
    using scalar_send_run [OF a(1-3) server(1-3,5,6) room waiting] .
  let ?env = "envelope sidx (of_nat qi) a (BlockingScalar m)"
  let ?s0 = "with_server sidx srv1 s"
  let ?s1 = "delivered a t x ?b u ?y sidx srv2 ?s0"
  have ab: "a \<noteq> ?b" using server(6) by blast
  have sf: "server_from_sidx sidx ?s0 \<noteq> None" using server(2) by (simp add: server_from_with_server)
  have l0: "live ?s0 a" "live ?s0 ?b" using a(1) server(5) by simp_all
  note v = delivered_view [OF l0 ab sf, where t = t and x = x and u = u and y = ?y and answering = srv2]
  have yu: "\<not> bit ?y (unat u)" using blocked_mask [OF u(4)] .
  have z: "(?y OR thread_bit u) AND NOT (thread_bit u) = ?y" using or_and_not_thread [OF yu] u(3) by simp
  have p1: "proc_at ?s1 a = (proc_at s a)\<lparr>current_thread := t, proc_state := waiting_state x\<rparr>"
    "proc_at ?s1 ?b = (proc_at s ?b)\<lparr>current_thread := u, proc_state := Running ?y\<rparr>"
    using v(5) [OF nz(1)] v(5) [OF nz(2)] ab z by (simp_all add: change_simps)
  have runs: "thread_runs ?b u ?s1"
    using v(1,2) v(4) [OF l0(2)] p1(2) u(2,3) yu by (simp add: thread_runs_def)
  have blk: "blocked_in ?s1 a t" using p1(1) a(4) by (simp add: blocked_in_def waiting_state_def)
  have returns: "\<exists>s2 srv3. return_result ?b u False (env_sender ?env) r s1' = (Done (Ok r), s2) \<and>
          thread_runs a t s2 \<and> (\<forall>q. live s q \<and> q \<noteq> ?b \<longrightarrow> proc_at s2 q = proc_at s q) \<and>
          bit (ready_mask (proc_state (proc_at s2 ?b))) (unat u) \<and>
          server_from_sidx sidx s2 = Some srv3 \<and> wf_queue srv3 \<and> contents srv3 = contents srv"
    if ran: "user_ran ?s1 s1'" for s1' r
  proof -
    note w = user_ran_view [OF ran]
    have l1: "live s1' a" "live s1' ?b" using w(2) v(4) l0 by simp_all
    obtain srv3 where ret: "return_result ?b u False (env_sender ?env) r s1' =
        (Done (Ok r), switched_back a t x ?b u ?y (with_server sidx srv3 s1'))"
      and q3: "wf_queue srv3" "contents srv3 = contents srv2"
      using scalar_return_run [OF l1(1) _ a(4,7) l1(2) ab _ _ yu u(3) _ _ q2(5,3) server(4) q2(1,6,2)]
        p1 v(1,3,6,7) quantum w by (auto simp: change_simps)
    let ?s2 = "switched_back a t x ?b u ?y (with_server sidx srv3 s1')"
    have l3: "live (with_server sidx srv3 s1') a" "live (with_server sidx srv3 s1') ?b" using l1 by simp_all
    note sv = switched_back_view [OF l3(1) a(4,7) l3(2) ab, where u = u and z = ?y]
    have pa: "proc_at ?s2 q = proc_at s q" if "live s q" "q \<noteq> ?b" for q
      using that sv(5) [of q] v(5) [of q] w(1) a(3,5) p1(1) by (auto simp: change_simps live_def)
    have "thread_runs a t ?s2"
      using sv(1,2) sv(4) [OF l3(1)] pa [OF a(1) ab] a by (simp add: thread_runs_def)
    moreover have "bit (ready_mask (proc_state (proc_at ?s2 ?b))) (unat u)"
      using sv(5) [OF nz(2)] ab u(3) by (simp add: ready_mask_def bit_add_thread)
    moreover have "server_from_sidx sidx ?s2 = Some srv3"
      using sv(3) w(4) v(3) by (simp add: server_from_with_server)
    ultimately show ?thesis
      using ret pa q3 q2(4) by (intro exI [of _ ?s2] exI [of _ srv3]) simp
  qed
  show ?thesis
    using u(1) send runs blk returns envelope_sender(2) [OF server(4) q2(6) nz(1)]
    by (intro exI [of _ u] exI [of _ ?env] exI [of _ ?s1]) (simp add: envelope_def)
qed

text \<open>Process 3 has a server on which its thread 3 waits; the kernel process is connected to it.\<close>

definition demo_call :: Kernel where
  "demo_call = demo_kernel\<lparr>
     servers := (replicate 128 None)[0 := Some (demo_server\<lparr>srv_pid := 3, ready_threads := 8\<rparr>)],
     process_inner := (process_inner demo_kernel)(1 := demo_inner\<lparr>
       connection_map := (replicate 32 None)[0 := Some 2], inner_pid := 1\<rparr>)\<rparr>"

lemma demo_call_view:
  "live demo_call q = live demo_kernel q" "proc_at demo_call q = proc_at demo_kernel q"
  "in_space demo_call q = in_space demo_kernel q" "current_tid demo_call = 2"
  by (simp_all add: demo_call_def live_def in_space_def current_tid_def impl_def demo_kernel_simps demo_impl_def)

lemma demo_call_server:
  "server_from_sidx 0 demo_call = Some (demo_server\<lparr>srv_pid := 3, ready_threads := 8\<rparr>)"
  by (simp add: demo_call_def server_from_sidx_def)

lemma demo_call_connected: "sidx_from_cid 2 demo_call = (Done (Ok (Some 0)), demo_call)"
proof -
  have "inner demo_call = demo_inner\<lparr>connection_map := (replicate 32 None)[0 := Some 2], inner_pid := 1\<rparr>"
    by (simp add: inner_def inner_key_def demo_call_def demo_kernel_simps)
  moreover have "current_pid demo_call = 1" "length (servers demo_call) = 128"
    by (simp_all add: demo_call_def demo_kernel_simps)
  ultimately show ?thesis
    by (simp add: sidx_from_cid_def kcheck_def kassert_def kbind_def)
qed

lemma demo_call_runs: "thread_runs 1 2 demo_call"
  using demo_live demo_in_space
  by (simp add: thread_runs_def demo_call_view demo_proc_at demo_process_def free_process_def)

theorem scalar_call_round_trip_witness:
  "\<exists>u env s1. send_message 1 2 2 (BlockingScalar (demo_scalar 7)) demo_call = (Done (Ok (Res_MessageEnvelope env)), s1) \<and>
    env_body env = BlockingScalar (demo_scalar 7) \<and> MessageSender_pid (env_sender env) = Some 1 \<and> thread_runs 3 u s1 \<and>
    (\<exists>s2. return_result 3 u False (env_sender env) (Res_Scalar1 42) s1 = (Done (Ok (Res_Scalar1 42)), s2) \<and>
       thread_runs 1 2 s2)"
proof -
  let ?srv = "demo_server\<lparr>srv_pid := 3, ready_threads := 8\<rparr>"
  have "wf_queue (demo_server\<lparr>srv_pid := 3\<rparr>)"
    using wf_queue_no_pending [of "demo_server\<lparr>srv_pid := 3\<rparr>"]
    by (simp add: demo_server_def pend_gen_def wf_slot_def)
  then have wf: "wf_queue ?srv" by simp
  have room: "has_queue_capacity ?srv"
    by (simp add: has_queue_capacity_def demo_server_def)
  have l: "live demo_call (srv_pid ?srv)" using demo_live by (simp add: demo_call_view)
  have bits: "bit (8 :: usize) j \<longrightarrow> j = 3" for j
    using bit_exp_iff [where 'a = "32 word", of 3 j] by auto
  have "\<not> bit (4 :: usize) 3" by simp
  then have "blocked_in demo_call 3 (of_nat 3)"
    by (simp add: blocked_in_def demo_call_view demo_proc_at demo_process_def free_process_def)
  then have "\<forall>j. bit (8 :: usize) j \<longrightarrow> 0 < j \<and> j < 31 \<and> blocked_in demo_call 3 (of_nat j)"
    using bits by force
  moreover have "ready_threads ?srv = 8" "srv_pid ?srv = 3" by simp_all
  ultimately have w: "\<forall>j. bit (ready_threads ?srv) j \<longrightarrow> 0 < j \<and> j < 31 \<and> blocked_in demo_call (srv_pid ?srv) (of_nat j)"
    by (simp only:)
  have q: "\<not> (ORIGINAL_PID demo_call = srv_pid ?srv \<and> ORIGINAL_TID demo_call = 2)"
    by (simp add: demo_call_def demo_kernel_def Mem.extend_def Kernel.fields_def)
  have "user_ran s s" for s by (simp add: user_ran_def)
  with scalar_call_round_trip [OF demo_call_runs demo_call_connected demo_call_server wf _ l _ room _ w q,
      of "demo_scalar 7"]
  show ?thesis by (simp add: demo_server_def) blast
qed

end
