(* ===== verification/Uvc.thy ===== *)
theory Uvc
  imports Messages
begin

text \<open>
  The webcam function of the USB service: the modes it offers (services/usb-bao1x/src/api.rs), the USB
  video class with its stream state machine and control requests
  (services/usb-bao1x/src/uvc.rs), and what they use of the USB stack: the SETUP packet of
  imports/usb-device, and the transfer descriptors of
  libs/bao1x-hal/src/usb/driver.rs. Sizes and offsets of buffers are natural numbers: they stay below
  \<open>2 ^ 20\<close>. Counters are 32-bit words, and bytes are 8-bit words.
\<close>

section \<open>Bytes\<close>

text \<open>\<open>to_le_bytes\<close>, and \<open>d[i..j].copy_from_slice(xs)\<close>.\<close>

definition le_bytes :: "nat \<Rightarrow> 'a::len word \<Rightarrow> u8 list" where
  "le_bytes n w = map (\<lambda>i. ucast (drop_bit (8 * i) w)) [0..<n]"

definition put :: "nat \<Rightarrow> 'a list \<Rightarrow> 'a list \<Rightarrow> 'a list" where
  "put i xs d = take i d @ xs @ drop (i + length xs) d"

lemma length_le_bytes [simp]: "length (le_bytes n w) = n"
  by (simp add: le_bytes_def)

lemma length_put [simp]: "i + length xs \<le> length d \<Longrightarrow> length (put i xs d) = length d"
  by (simp add: put_def)

section \<open>The modes\<close>

record UvcMode =
  width :: nat
  height :: nat
  ratio :: nat
  line_pad :: nat
  interval :: u32
  payload_rows :: nat
  slot_rows :: nat

definition frame_bytes :: "UvcMode \<Rightarrow> nat" where "frame_bytes m = width m * height m * 2"
definition payload_data :: "UvcMode \<Rightarrow> nat" where "payload_data m = payload_rows m * width m * 2"
definition line_px :: "UvcMode \<Rightarrow> nat" where "line_px m = width m + line_pad m"
definition transfers :: "UvcMode \<Rightarrow> nat" where
  "transfers m = (height m + slot_rows m - 1) div slot_rows m"

definition UVC_MODES :: "UvcMode list" where
  "UVC_MODES =
     [\<lparr>width = 768, height = 576, ratio = 2, line_pad = 10, interval = 833333, payload_rows = 3, slot_rows = 24\<rparr>,
      \<lparr>width = 384, height = 288, ratio = 4, line_pad = 8, interval = 833333, payload_rows = 6, slot_rows = 48\<rparr>,
      \<lparr>width = 160, height = 120, ratio = 4, line_pad = 24, interval = 333333, payload_rows = 15, slot_rows = 60\<rparr>]"

definition UVC_MAX_PAYLOAD_DATA :: nat where "UVC_MAX_PAYLOAD_DATA = 4800"
definition UVC_CHUNK_PAYLOADS :: nat where "UVC_CHUNK_PAYLOADS = 8"
definition UVC_CHUNK_MAX_BYTES :: nat where "UVC_CHUNK_MAX_BYTES = UVC_CHUNK_PAYLOADS * UVC_MAX_PAYLOAD_DATA"
definition UVC_CHUNK_FIRST :: usize where "UVC_CHUNK_FIRST = 1"
definition UVC_CHUNK_LAST :: usize where "UVC_CHUNK_LAST = 2"
definition UVC_RESULT_SENT :: usize where "UVC_RESULT_SENT = 1"
definition UVC_RESULT_NOT_STREAMING :: usize where "UVC_RESULT_NOT_STREAMING = 2"
definition UVC_RESULT_BAD_FRAME :: usize where "UVC_RESULT_BAD_FRAME = 3"

definition UVC_EP_NUM :: nat where "UVC_EP_NUM = 4"
definition UVC_MPS :: nat where "UVC_MPS = 512"
definition PAYLOAD_HDR :: nat where "PAYLOAD_HDR = 2"
definition PAYLOAD_STRIDE :: nat where
  "PAYLOAD_STRIDE = (PAYLOAD_HDR + UVC_MAX_PAYLOAD_DATA + 3) div 4 * 4"
definition STAGING_BYTES :: nat where "STAGING_BYTES = UVC_CHUNK_PAYLOADS * PAYLOAD_STRIDE"

lemmas uvc_sizes = UVC_MAX_PAYLOAD_DATA_def UVC_CHUNK_PAYLOADS_def UVC_CHUNK_MAX_BYTES_def UVC_MPS_def
  PAYLOAD_HDR_def PAYLOAD_STRIDE_def STAGING_BYTES_def

section \<open>Staging a chunk\<close>

definition HDR_EOH :: u8 where "HDR_EOH = 0x80"
definition HDR_EOF :: u8 where "HDR_EOF = 0x02"
definition HDR_FID :: u8 where "HDR_FID = 0x01"

definition payload_header :: "u8 \<Rightarrow> bool \<Rightarrow> u8 list" where
  "payload_header fid ends =
     [of_nat PAYLOAD_HDR, HDR_EOH OR (fid AND HDR_FID) OR (if ends then HDR_EOF else 0)]"

text \<open>One pass of the loop writes one slot; a slot that does not fit the buffer is a panic. The
  second component of the state is \<open>last_len\<close>.\<close>

definition stage_slot ::
  "u8 list \<Rightarrow> nat \<Rightarrow> u8 \<Rightarrow> bool \<Rightarrow> nat \<Rightarrow> nat \<Rightarrow> u8 list \<times> nat \<Rightarrow> ('e, u8 list \<times> nat) outcome" where
  "stage_slot data per fid eof n i st =
     (let start = i * per;
          stop = min (start + per) (length data);
          at = i * PAYLOAD_STRIDE;
          last = (i = n - 1) in
      if at + PAYLOAD_HDR + (stop - start) > length (fst st) then Panic
      else Ok (put at (payload_header fid (last \<and> eof) @ take (stop - start) (drop start data)) (fst st),
               if last then PAYLOAD_HDR + (stop - start) else snd st))"

primrec stage_slots ::
  "u8 list \<Rightarrow> nat \<Rightarrow> u8 \<Rightarrow> bool \<Rightarrow> nat \<Rightarrow> nat list \<Rightarrow> u8 list \<times> nat \<Rightarrow> ('e, u8 list \<times> nat) outcome" where
  "stage_slots data per fid eof n [] st = Ok st"
| "stage_slots data per fid eof n (i # is) st =
     bind_outcome (stage_slot data per fid eof n i st) (stage_slots data per fid eof n is)"

definition clamp :: "nat \<Rightarrow> nat \<Rightarrow> nat \<Rightarrow> nat" where
  "clamp lo hi x = (if x < lo then lo else if x > hi then hi else x)"

text \<open>The new contents of the buffer, and the number of payloads, their length and the length of the last one.\<close>

definition stage_chunk ::
  "u8 list \<Rightarrow> u8 list \<Rightarrow> nat \<Rightarrow> u8 \<Rightarrow> bool \<Rightarrow> ('e, u8 list \<times> nat \<times> nat \<times> nat) outcome" where
  "stage_chunk staging data payload_bytes fid eof =
     (let per = clamp 1 UVC_MAX_PAYLOAD_DATA payload_bytes;
          n = clamp 1 UVC_CHUNK_PAYLOADS ((length data + per - 1) div per) in
      bind_outcome (stage_slots data per fid eof n [0..<n] (staging, PAYLOAD_HDR))
        (\<lambda>(staging', last_len). Ok (staging', n, PAYLOAD_HDR + per, last_len)))"

section \<open>The transfer ring\<close>

text \<open>
  A transfer block of the bulk endpoint: the part of the buffer it covers, whether the transfer
  continues in the next block, whether its completion raises an event, and whether a zero-length
  packet follows a last packet of full size. The ring is the list of the blocks the
  controller has not finished; \<open>enq_ready\<close>: the endpoint has a ring.
\<close>

record Trb =
  t_addr :: nat
  t_len :: nat
  t_chain :: bool
  t_ioc :: bool
  t_azp :: bool

definition MAX_TRB_XFER_LEN :: nat where "MAX_TRB_XFER_LEN = 1024"
definition CRG_XFER_NO_INTR :: u8 where "CRG_XFER_NO_INTR = 1"
definition CRG_XFER_SET_CHAIN :: u8 where "CRG_XFER_SET_CHAIN = 4"
definition CRG_XFER_AZP :: u8 where "CRG_XFER_AZP = 16"

definition trb_count :: "nat \<Rightarrow> nat" where
  "trb_count len =
     (if len = 0 then 1
      else len div MAX_TRB_XFER_LEN + (if len mod MAX_TRB_XFER_LEN \<noteq> 0 then 1 else 0))"

definition transfer_trb :: "nat \<Rightarrow> nat \<Rightarrow> u8 \<Rightarrow> nat \<Rightarrow> Trb" where
  "transfer_trb address len flag i =
     (let num = trb_count len in
      \<lparr>t_addr = address + MAX_TRB_XFER_LEN * i,
       t_len = (if num = 1 then len
                else if i \<noteq> num - 1 then MAX_TRB_XFER_LEN
                else if len mod MAX_TRB_XFER_LEN \<noteq> 0 then len mod MAX_TRB_XFER_LEN else MAX_TRB_XFER_LEN),
       t_chain = ((num > 1 \<and> i \<noteq> num - 1) \<or> flag AND CRG_XFER_SET_CHAIN \<noteq> 0),
       t_ioc = ((num = 1 \<or> i = num - 1) \<and> flag AND CRG_XFER_NO_INTR = 0),
       t_azp = (flag AND CRG_XFER_AZP \<noteq> 0)\<rparr>)"

definition transfer_trbs :: "nat \<Rightarrow> nat \<Rightarrow> u8 \<Rightarrow> Trb list" where
  "transfer_trbs address len flag = map (transfer_trb address len flag) [0..<trb_count len]"

text \<open>The part of the driver's state the class uses: whether somebody holds its lock, the buffer of
  endpoint 0, the last SETUP packet of a class request with data, and the completion record of the video endpoint.\<close>

record Corigine =
  hw_locked :: bool
  ep0_buf :: "u8 list option"
  last_class_out_setup :: "u8 list option"
  app_ptr :: "nat option"
  enq_ready :: bool
  ring :: "Trb list"

definition bulk_xfer :: "nat \<Rightarrow> nat \<Rightarrow> u8 \<Rightarrow> Corigine \<Rightarrow> Corigine" where
  "bulk_xfer address len flag h =
     (if enq_ready h then h\<lparr>ring := ring h @ transfer_trbs address len flag\<rparr> else h)"

section \<open>Debug counters\<close>

record DebugCounters =
  main_ticks :: u32
  last_opcode :: u32
  listen_mode :: u32
  kicks :: u32
  completions :: u32
  commits :: u32
  phase :: u32
  opcodes :: "u32 list"
  opcode_pos :: u32
  still_ms :: u32
  watchdog_beats :: u32
  drop_frame_done :: u32
  drop_stream_change :: u32
  drop_serial_rx :: u32
  drop_observer :: u32
  drop_inject :: u32
  drop_keys :: u32
  refused_frames :: u32
  bad_chunks :: u32
  double_locks :: u32
  stream_changes :: u32
  flood_lines :: u32

definition record_opcode :: "u32 \<Rightarrow> DebugCounters \<Rightarrow> DebugCounters" where
  "record_opcode i d =
     d\<lparr>opcode_pos := opcode_pos d + 1,
       opcodes := (opcodes d)[unat (opcode_pos d) mod length (opcodes d) := i],
       last_opcode := i\<rparr>"

definition u16_of :: "u32 \<Rightarrow> u16" where "u16_of w = (if w > 0xffff then 0xffff else ucast w)"

definition extended_report :: "DebugCounters \<Rightarrow> u32 \<Rightarrow> u8 list" where
  "extended_report d dump_generation =
     le_bytes 4 (phase d) @ le_bytes 4 (still_ms d) @ le_bytes 4 (watchdog_beats d) @
     concat (map (\<lambda>i. le_bytes 2 (ucast (opcodes d ! ((unat (opcode_pos d) + i) mod length (opcodes d))) :: u16))
               [0..<length (opcodes d)]) @
     concat (map (\<lambda>w. le_bytes 2 (u16_of w))
       [drop_frame_done d, drop_stream_change d, drop_serial_rx d, drop_observer d, drop_inject d,
        refused_frames d, bad_chunks d, double_locks d]) @
     le_bytes 4 (drop_keys d) @ le_bytes 4 (stream_changes d) @ le_bytes 4 dump_generation"

text \<open>The kernel tables captured for the host; \<open>generation\<close> is 0 while a capture is written.\<close>

record DebugDump =
  generation :: u32
  captures :: u32
  requested :: bool
  tables :: "u8 list"

definition PAGE :: nat where "PAGE = 4096"
definition DUMP_TABLES :: nat where "DUMP_TABLES = 2"
definition DUMP_REPLY :: nat where "DUMP_REPLY = 60"

definition new_dump :: DebugDump where
  "new_dump = \<lparr>generation = 0, captures = 0, requested = False, tables = replicate (DUMP_TABLES * PAGE) 0\<rparr>"

text \<open>A capture: \<open>taken\<close> are the two pages the kernel filled, \<open>None\<close> where the call failed.\<close>

definition capture :: "u8 list option \<Rightarrow> u8 list option \<Rightarrow> DebugDump \<Rightarrow> DebugDump" where
  "capture page0 page1 d =
     (let table = (\<lambda>p. case p of Some bytes \<Rightarrow> bytes | None \<Rightarrow> replicate PAGE 0) in
      d\<lparr>captures := captures d + 1,
        tables := put PAGE (table page1) (put 0 (table page0) (tables d)),
        generation := captures d + 1\<rparr>)"

text \<open>One reply; no capture runs while it is made.\<close>

definition dump_read :: "DebugDump \<Rightarrow> nat \<Rightarrow> nat \<Rightarrow> u8 list" where
  "dump_read d table offset =
     le_bytes 4 (generation d) @
     (if generation d \<noteq> 0 \<and> table < DUMP_TABLES \<and> offset < PAGE
      then take (min (PAGE - offset) (DUMP_REPLY - 4)) (drop (table * PAGE + offset) (tables d))
      else [])"

section \<open>The class\<close>

record Chunk =
  payloads :: nat
  payload_len :: nat
  last_len :: nat
  eof :: bool

text \<open>
  \<open>mailbox\<close> holds the notifications sent to the service's own server, which refuses them
  while its queue is full (\<open>mailbox_full\<close>). Interface numbers and the endpoint address are those the
  allocator gave out.
\<close>

record UvcClass =
  vc_if :: u8
  vs_if :: u8
  ep_in :: u8
  staging_phys :: nat
  streaming :: bool
  frame_active :: bool
  frames_sent :: u32
  chunks_sent :: u32
  selected :: nat
  probe_pending :: bool
  in_flight :: bool
  discard_completion :: bool
  cursor :: nat
  chunk :: Chunk
  dbg :: DebugCounters
  dump :: DebugDump
  hw :: Corigine
  mailbox :: "ScalarMessage list"
  mailbox_full :: bool

definition count :: "(DebugCounters \<Rightarrow> DebugCounters) \<Rightarrow> UvcClass \<Rightarrow> UvcClass" where
  "count f u = u\<lparr>dbg := f (dbg u)\<rparr>"

definition zero_counters :: DebugCounters where
  "zero_counters =
     \<lparr>main_ticks = 0, last_opcode = 0, listen_mode = 0, kicks = 0, completions = 0, commits = 0, phase = 0,
      opcodes = replicate 8 0, opcode_pos = 0, still_ms = 0, watchdog_beats = 0, drop_frame_done = 0,
      drop_stream_change = 0, drop_serial_rx = 0, drop_observer = 0, drop_inject = 0, drop_keys = 0,
      refused_frames = 0, bad_chunks = 0, double_locks = 0, stream_changes = 0, flood_lines = 0\<rparr>"

definition UvcClass_new :: "u8 \<Rightarrow> u8 \<Rightarrow> u8 \<Rightarrow> Corigine \<Rightarrow> nat \<Rightarrow> UvcClass" where
  "UvcClass_new vc vs ep h phys =
     \<lparr>vc_if = vc, vs_if = vs, ep_in = ep, staging_phys = phys, streaming = False, frame_active = False,
      frames_sent = 0, chunks_sent = 0, selected = 0, probe_pending = False, in_flight = False,
      discard_completion = False, cursor = 0,
      chunk = \<lparr>payloads = 0, payload_len = 0, last_len = 0, eof = False\<rparr>,
      dbg = zero_counters, dump = new_dump, hw = h, mailbox = [], mailbox_full = False\<rparr>"

definition IrqUvcFrameDone :: usize where "IrqUvcFrameDone = 770"
definition IrqUvcStreamChange :: usize where "IrqUvcStreamChange = 771"
definition IrqDebugStall :: usize where "IrqDebugStall = 772"

definition new_scalar :: "usize \<Rightarrow> usize \<Rightarrow> usize \<Rightarrow> usize \<Rightarrow> usize \<Rightarrow> ScalarMessage" where
  "new_scalar i x1 x2 x3 x4 = \<lparr>sm_id = i, sm_arg1 = x1, sm_arg2 = x2, sm_arg3 = x3, sm_arg4 = x4\<rparr>"

definition post :: "ScalarMessage \<Rightarrow> UvcClass \<Rightarrow> UvcClass" where
  "post m u = u\<lparr>mailbox := mailbox u @ [m]\<rparr>"

definition notify_stream_state :: "usize \<Rightarrow> UvcClass \<Rightarrow> UvcClass" where
  "notify_stream_state state u =
     (if mailbox_full u then count (\<lambda>d. d\<lparr>drop_stream_change := drop_stream_change d + 1\<rparr>) u
      else post (new_scalar IrqUvcStreamChange state (of_nat (selected u)) 0 0) u)"

definition notify_chunk_done :: "UvcClass \<Rightarrow> UvcClass" where
  "notify_chunk_done u =
     (if mailbox_full u then count (\<lambda>d. d\<lparr>drop_frame_done := drop_frame_done d + 1\<rparr>) u
      else post (new_scalar IrqUvcFrameDone 0 0 0 0) u)"

definition set_chunk :: "nat \<Rightarrow> nat \<Rightarrow> nat \<Rightarrow> bool \<Rightarrow> UvcClass \<Rightarrow> UvcClass" where
  "set_chunk n len final ends u =
     u\<lparr>chunk := \<lparr>payloads = n, payload_len = len, last_len = final, eof = ends\<rparr>, cursor := 0, frame_active := True\<rparr>"

definition reset_state :: "UvcClass \<Rightarrow> UvcClass" where
  "reset_state u =
     (let u' = u\<lparr>in_flight := False, discard_completion := False, cursor := 0, frame_active := False,
                 streaming := False\<rparr> in
      if streaming u then notify_stream_state 0 u' else u')"

definition start_stream :: "UvcClass \<Rightarrow> UvcClass" where
  "start_stream u =
     notify_stream_state 1
       ((if in_flight u then u\<lparr>discard_completion := True, in_flight := False\<rparr> else u)
          \<lparr>cursor := 0, frame_active := False, streaming := True\<rparr>)"

definition stop_stream :: "UvcClass \<Rightarrow> UvcClass" where
  "stop_stream u =
     (if streaming u
      then notify_stream_state 0
             (u\<lparr>streaming := False, cursor := 0, frame_active := False,
                discard_completion := (if in_flight u then True else discard_completion u)\<rparr>)
      else u)"

definition payload_bytes :: "UvcClass \<Rightarrow> nat" where
  "payload_bytes u =
     (if cursor u + 1 = payloads (chunk u) then last_len (chunk u) else payload_len (chunk u))"

definition enqueue_payload :: "UvcClass \<Rightarrow> UvcClass" where
  "enqueue_payload u =
     (if hw_locked (hw u)
      then notify_chunk_done (u\<lparr>cursor := 0, frame_active := False\<rparr>)
      else u\<lparr>hw := bulk_xfer (staging_phys u + cursor u * PAYLOAD_STRIDE) (payload_bytes u)
                    (if payload_bytes u mod UVC_MPS = 0 then CRG_XFER_AZP else 0)
                    ((hw u)\<lparr>app_ptr := None\<rparr>),
             in_flight := True\<rparr>)"

definition kick :: "UvcClass \<Rightarrow> UvcClass" where
  "kick u =
     (if staging_phys u = 0 \<or> \<not> streaming u \<or> in_flight u \<or> \<not> frame_active u then u
      else enqueue_payload u)"

definition endpoint_in_complete :: "u8 \<Rightarrow> UvcClass \<Rightarrow> UvcClass" where
  "endpoint_in_complete address u =
     (if address \<noteq> ep_in u then u
      else let u1 = count (\<lambda>d. d\<lparr>completions := completions d + 1\<rparr>) (u\<lparr>in_flight := False\<rparr>);
               u2 = (if hw_locked (hw u1) then u1 else u1\<lparr>hw := (hw u1)\<lparr>app_ptr := None\<rparr>\<rparr>) in
           if discard_completion u2 then kick (u2\<lparr>discard_completion := False\<rparr>)
           else if \<not> frame_active u2 then u2
           else let u3 = u2\<lparr>cursor := cursor u2 + 1\<rparr> in
                if cursor u3 < payloads (chunk u3) then enqueue_payload u3
                else notify_chunk_done
                       (u3\<lparr>cursor := 0, chunks_sent := chunks_sent u3 + 1,
                           frames_sent := (if eof (chunk u3) then frames_sent u3 + 1 else frames_sent u3),
                           frame_active := False\<rparr>))"

definition debug_report :: "UvcClass \<Rightarrow> u8 list" where
  "debug_report u =
     le_bytes 4 (main_ticks (dbg u)) @ le_bytes 4 (last_opcode (dbg u)) @ le_bytes 4 (listen_mode (dbg u)) @
     le_bytes 4 (kicks (dbg u)) @ le_bytes 4 (completions (dbg u)) @ le_bytes 4 (commits (dbg u)) @
     le_bytes 4 (frames_sent u) @
     [of_bool (streaming u), of_bool (frame_active u),
      of_bool (in_flight u) OR push_bit 1 (of_bool (discard_completion u)) OR
        push_bit 2 (of_bool (staging_phys u \<noteq> 0)) OR push_bit 4 (of_nat (selected u)),
      of_nat (cursor u)]"

section \<open>Probe and commit\<close>

definition PROBE_LEN :: nat where "PROBE_LEN = 26"
definition VS_PROBE_CONTROL :: u8 where "VS_PROBE_CONTROL = 0x01"
definition VS_COMMIT_CONTROL :: u8 where "VS_COMMIT_CONTROL = 0x02"
definition SET_CUR :: u8 where "SET_CUR = 0x01"
definition GET_CUR :: u8 where "GET_CUR = 0x81"
definition GET_MIN :: u8 where "GET_MIN = 0x82"
definition GET_MAX :: u8 where "GET_MAX = 0x83"
definition GET_RES :: u8 where "GET_RES = 0x84"
definition GET_LEN :: u8 where "GET_LEN = 0x85"
definition GET_INFO :: u8 where "GET_INFO = 0x86"
definition GET_DEF :: u8 where "GET_DEF = 0x87"

definition probe_data :: "UvcClass \<Rightarrow> ('e, u8 list) outcome" where
  "probe_data u =
     (if selected u < length UVC_MODES
      then let mode = UVC_MODES ! selected u in
           Ok (put 22 (le_bytes 4 (of_nat (PAYLOAD_HDR + payload_data mode) :: u32))
              (put 18 (le_bytes 4 (of_nat (frame_bytes mode) :: u32))
              (put 4 (le_bytes 4 (interval mode))
              (put 3 [of_nat (selected u + 1)]
              (put 2 [1]
              (put 0 (le_bytes 2 (1 :: u16)) (replicate PROBE_LEN 0)))))))
      else Panic)"

text \<open>The proposal is read from the buffer of endpoint 0, unless the driver is locked or has no buffer.\<close>

definition adopt_probe_proposal :: "UvcClass \<Rightarrow> UvcClass" where
  "adopt_probe_proposal u =
     (if \<not> probe_pending u then u
      else let u' = u\<lparr>probe_pending := False\<rparr> in
           if hw_locked (hw u) then u'
           else case ep0_buf (hw u) of
                  None \<Rightarrow> u'
                | Some buf \<Rightarrow>
                    let frame = unat (buf ! 3) in
                    if buf ! 2 = 1 \<and> frame \<ge> 1 \<and> frame \<le> length UVC_MODES
                    then u'\<lparr>selected := frame - 1\<rparr> else u')"

text \<open>\<open>poll\<close> picks up the SETUP packet of a class request with data, which the driver has recorded.\<close>

definition poll :: "UvcClass \<Rightarrow> UvcClass" where
  "poll u =
     (if hw_locked (hw u) then u
      else case last_class_out_setup (hw u) of
             None \<Rightarrow> u
           | Some s \<Rightarrow>
               let u = u\<lparr>hw := (hw u)\<lparr>last_class_out_setup := None\<rparr>\<rparr> in
               if s ! 0 \<noteq> 0x21 \<or> s ! 1 \<noteq> SET_CUR \<or> s ! 4 \<noteq> vs_if u then u
               else if s ! 3 = VS_PROBE_CONTROL then u\<lparr>probe_pending := True\<rparr>
               else if s ! 3 = VS_COMMIT_CONTROL
               then start_stream (count (\<lambda>d. d\<lparr>commits := commits d + 1\<rparr>) (adopt_probe_proposal u))
               else u)"

section \<open>Control requests\<close>

datatype RequestType = Standard | Class | Vendor | RT_Reserved
datatype Recipient = Device | Interface | Endpoint | Other | RC_Reserved

record Request =
  to_host :: bool
  request_type :: RequestType
  recipient :: Recipient
  request :: u8
  rq_value :: u16
  rq_index :: u16
  rq_length :: u16

definition join16 :: "u8 \<Rightarrow> u8 \<Rightarrow> u16" where
  "join16 lo hi = ucast lo OR push_bit 8 (ucast hi)"

definition Request_parse :: "u8 list \<Rightarrow> Request option" where
  "Request_parse buf =
     (if length buf \<noteq> 8 then None
      else let rt = buf ! 0;
               ty = drop_bit 5 rt AND 3;
               rc = rt AND 31 in
           Some \<lparr>to_host = bit rt 7,
                 request_type = (if ty = 0 then Standard else if ty = 1 then Class
                                 else if ty = 2 then Vendor else RT_Reserved),
                 recipient = (if rc = 0 then Device else if rc = 1 then Interface
                              else if rc = 2 then Endpoint else if rc = 3 then Other else RC_Reserved),
                 request = buf ! 1,
                 rq_value = join16 (buf ! 2) (buf ! 3),
                 rq_index = join16 (buf ! 4) (buf ! 5),
                 rq_length = join16 (buf ! 6) (buf ! 7)\<rparr>)"

definition VENDOR_REQ_DEBUG :: u8 where "VENDOR_REQ_DEBUG = 0x51"
definition VENDOR_REQ_DUMP :: u8 where "VENDOR_REQ_DUMP = 0x52"
definition VENDOR_REQ_INJECT :: u8 where "VENDOR_REQ_INJECT = 0x53"
definition DUMP_REQUEST :: u16 where "DUMP_REQUEST = 0xffff"
definition INJECT_STALL :: u16 where "INJECT_STALL = 1"
definition INJECT_STALL_QUIET :: u16 where "INJECT_STALL_QUIET = 2"
definition INJECT_FLOOD :: u16 where "INJECT_FLOOD = 3"

text \<open>What a class does with a request: answer it with data, accept or reject it, or leave it to others.\<close>

datatype reply = Accept_with "u8 list" | Accept | Reject | Pass

definition answer :: "Request \<Rightarrow> u8 list \<Rightarrow> reply" where
  "answer req d = Accept_with (take (min (unat (rq_length req)) (length d)) d)"

definition inject :: "Request \<Rightarrow> UvcClass \<Rightarrow> bool \<times> UvcClass" where
  "inject req u =
     (if rq_value req = INJECT_STALL \<or> rq_value req = INJECT_STALL_QUIET
      then if mailbox_full u then (False, u)
           else (True, post (new_scalar IrqDebugStall (ucast (rq_index req))
                              (of_bool (rq_value req = INJECT_STALL_QUIET)) 0 0) u)
      else if rq_value req = INJECT_FLOOD
      then (True, count (\<lambda>d. d\<lparr>flood_lines := ucast (rq_index req)\<rparr>) u)
      else (False, u))"

definition vendor_request :: "Request \<Rightarrow> UvcClass \<Rightarrow> (reply \<times> UvcClass) option" where
  "vendor_request req u =
     (if request req = VENDOR_REQ_DEBUG
      then Some (answer req (if rq_value req = 1 then extended_report (dbg u) (generation (dump u))
                             else debug_report u), u)
      else if request req = VENDOR_REQ_DUMP
      then if rq_value req = DUMP_REQUEST
           then Some (answer req (le_bytes 4 (generation (dump u))), u\<lparr>dump := (dump u)\<lparr>requested := True\<rparr>\<rparr>)
           else Some (answer req (dump_read (dump u) (unat (rq_value req)) (unat (rq_index req))), u)
      else if request req = VENDOR_REQ_INJECT
      then case inject req u of (taken, u') \<Rightarrow>
             Some (answer req [of_bool taken],
                   if taken then u' else count (\<lambda>d. d\<lparr>drop_inject := drop_inject d + 1\<rparr>) u')
      else None)"

definition class_request :: "Request \<Rightarrow> UvcClass \<Rightarrow> ('e, reply \<times> UvcClass) outcome" where
  "class_request req u =
     (if request_type req \<noteq> Class \<or> recipient req \<noteq> Interface \<or> ucast (rq_index req AND 0xff) \<noteq> vs_if u
      then Ok (Pass, u)
      else let selector = ucast (drop_bit 8 (rq_value req)) :: u8 in
           if selector = VS_PROBE_CONTROL \<or> selector = VS_COMMIT_CONTROL
           then if request req \<in> {GET_CUR, GET_MIN, GET_MAX, GET_DEF}
                then let u' = (if request req = GET_CUR then adopt_probe_proposal u else u) in
                     bind_outcome (probe_data u') (\<lambda>d. Ok (answer req d, u'))
                else if request req = GET_RES then Ok (answer req (replicate PROBE_LEN 0), u)
                else if request req = GET_LEN then Ok (answer req (le_bytes 2 (of_nat PROBE_LEN :: u16)), u)
                else if request req = GET_INFO then Ok (answer req [0x03], u)
                else Ok (Reject, u)
           else Ok (Reject, u))"

definition control_in :: "Request \<Rightarrow> UvcClass \<Rightarrow> ('e, reply \<times> UvcClass) outcome" where
  "control_in req u =
     (if request_type req = Vendor \<and> recipient req = Device
      then case vendor_request req u of Some r \<Rightarrow> Ok r | None \<Rightarrow> class_request req u
      else class_request req u)"

definition CLEAR_FEATURE :: u8 where "CLEAR_FEATURE = 1"
definition FEATURE_ENDPOINT_HALT :: u16 where "FEATURE_ENDPOINT_HALT = 0"

definition control_out :: "Request \<Rightarrow> UvcClass \<Rightarrow> reply \<times> UvcClass" where
  "control_out req u =
     (case request_type req of
        Class \<Rightarrow>
          if recipient req \<noteq> Interface \<or> ucast (rq_index req AND 0xff) \<noteq> vs_if u then (Pass, u)
          else let selector = ucast (drop_bit 8 (rq_value req)) :: u8 in
               if selector = VS_PROBE_CONTROL \<and> request req = SET_CUR then (Accept, u)
               else if selector = VS_COMMIT_CONTROL \<and> request req = SET_CUR
               then (Accept, start_stream (count (\<lambda>d. d\<lparr>commits := commits d + 1\<rparr>) u))
               else (Reject, u)
      | Standard \<Rightarrow>
          (Pass, if recipient req = Endpoint \<and> request req = CLEAR_FEATURE \<and>
                    rq_value req = FEATURE_ENDPOINT_HALT \<and> ucast (rq_index req) = ep_in u
                 then stop_stream u else u)
      | _ \<Rightarrow> (Pass, u))"

end
