(* ===== verification/Uvc_Staging.thy ===== *)
theory Uvc_Staging
  imports Uvc
begin

text \<open>
  The layout of the staging buffer, against the reference that cuts a chunk into pieces and puts a
  header in front of each (\<open>stage_chunk\<close> of services/usb-bao1x/src/uvc.rs), and the transfer blocks that
  cover one slot of it (\<open>bulk_xfer\<close> of libs/bao1x-hal/src/usb/driver.rs).
\<close>

section \<open>Pieces of a list\<close>

function pieces :: "nat \<Rightarrow> 'a list \<Rightarrow> 'a list list" where
  "pieces n xs = (if n = 0 \<or> xs = [] then [] else take n xs # pieces n (drop n xs))"
  by pat_completeness auto

termination
  by (relation "measure (\<lambda>(n, xs). length xs)") auto

declare pieces.simps [simp del]

lemma pieces_Nil [simp]: "pieces n [] = []"
  by (simp add: pieces.simps)

lemma pieces_step: "0 < n \<Longrightarrow> xs \<noteq> [] \<Longrightarrow> pieces n xs = take n xs # pieces n (drop n xs)"
  by (subst pieces.simps) simp

lemma concat_pieces [simp]: "0 < n \<Longrightarrow> concat (pieces n xs) = xs"
proof (induction n xs rule: pieces.induct)
  case (1 n xs)
  then show ?case by (cases "xs = []") (simp_all add: pieces_step)
qed

lemma length_pieces: "0 < n \<Longrightarrow> length (pieces n xs) = (length xs + n - 1) div n"
proof (induction n xs rule: pieces.induct)
  case (1 n xs)
  show ?case
  proof (cases "xs = []")
    case False
    then have "(length xs + n - 1) div n = Suc ((length (drop n xs) + n - 1) div n)"
    proof (cases "length xs \<le> n")
      case True
      moreover obtain m where "length xs = Suc m" using False by (cases xs) auto
      ultimately have "(length xs + n - 1) div n = 1"
        using \<open>0 < n\<close> by (intro div_nat_eqI) simp_all
      with True \<open>0 < n\<close> show ?thesis by simp
    next
      case False
      then have "length xs + n - 1 = (length (drop n xs) + n - 1) + n" by simp
      moreover have "(k + n) div n = Suc (k div n)" for k using \<open>0 < n\<close> by (simp add: div_add_self2)
      ultimately show ?thesis by (simp only:)
    qed
    with False 1 show ?thesis by (simp add: pieces_step)
  qed (use 1 in simp)
qed

lemma nth_pieces:
  "0 < n \<Longrightarrow> i < length (pieces n xs) \<Longrightarrow> pieces n xs ! i = take n (drop (i * n) xs)"
proof (induction n xs arbitrary: i rule: pieces.induct)
  case (1 n xs)
  then have ne: "xs \<noteq> []" by auto
  then show ?case
  proof (cases i)
    case (Suc j)
    with 1(3) ne \<open>0 < n\<close> have "j < length (pieces n (drop n xs))" by (simp add: pieces_step)
    then have "pieces n (drop n xs) ! j = take n (drop (j * n) (drop n xs))" using 1(1) ne \<open>0 < n\<close> by simp
    with Suc ne \<open>0 < n\<close> show ?thesis by (simp add: pieces_step add.commute)
  qed (use ne \<open>0 < n\<close> in \<open>simp add: pieces_step\<close>)
qed

lemma pieces_start: "0 < n \<Longrightarrow> i < length (pieces n xs) \<Longrightarrow> i * n < length xs"
proof -
  assume n: "0 < n" and i: "i < length (pieces n xs)"
  then have "Suc i \<le> (length xs + n - 1) div n" by (simp add: length_pieces)
  then have "Suc i * n \<le> (length xs + n - 1) div n * n" by (rule mult_le_mono1)
  also have "\<dots> \<le> length xs + n - 1" by (rule div_times_less_eq_dividend)
  finally show ?thesis using n by simp
qed

section \<open>The payloads of a chunk\<close>

text \<open>Reference: a chunk is cut into pieces, of which the staging buffer takes eight; each piece gets a
  header, the last one the mark of the end of the frame.\<close>

definition chunk_pieces :: "nat \<Rightarrow> u8 list \<Rightarrow> u8 list list" where
  "chunk_pieces per data = take UVC_CHUNK_PAYLOADS (pieces per data)"

definition chunk_payloads :: "u8 \<Rightarrow> bool \<Rightarrow> nat \<Rightarrow> u8 list \<Rightarrow> u8 list list" where
  "chunk_payloads fid ends per data =
     (let ps = chunk_pieces per data in
      map (\<lambda>i. payload_header fid (i = length ps - 1 \<and> ends) @ ps ! i) [0..<length ps])"

lemma length_header [simp]: "length (payload_header fid e) = PAYLOAD_HDR"
  by (simp add: payload_header_def PAYLOAD_HDR_def)

lemma length_chunk_payloads [simp]:
  "length (chunk_payloads fid e per data) = length (chunk_pieces per data)"
  by (simp add: chunk_payloads_def Let_def)

lemma chunk_pieces_nth:
  assumes "0 < per" "i < length (chunk_pieces per data)"
  shows "chunk_pieces per data ! i = take per (drop (i * per) data)" "i * per < length data"
  using assms nth_pieces [of per i data] pieces_start [of per i data] by (simp_all add: chunk_pieces_def)

lemma stage_count:
  assumes "0 < per" "data \<noteq> []"
  shows "clamp 1 UVC_CHUNK_PAYLOADS ((length data + per - 1) div per) = length (chunk_pieces per data)"
proof -
  have "0 < length (pieces per data)" using assms by (simp add: pieces_step)
  then show ?thesis
    using length_pieces [OF assms(1), of data] by (auto simp: clamp_def chunk_pieces_def uvc_sizes)
qed

lemma chunk_pieces_pos: "0 < per \<Longrightarrow> data \<noteq> [] \<Longrightarrow> 0 < length (chunk_pieces per data)"
  by (simp add: chunk_pieces_def pieces_step uvc_sizes)

lemma chunk_pieces_le: "length (chunk_pieces per data) \<le> UVC_CHUNK_PAYLOADS"
  by (simp add: chunk_pieces_def)

section \<open>The staging buffer\<close>

definition slot_bytes :: "u8 list \<Rightarrow> nat \<Rightarrow> nat \<Rightarrow> u8 list" where
  "slot_bytes buf i n = take n (drop (i * PAYLOAD_STRIDE) buf)"

lemma take_drop_put_same:
  "i + length xs \<le> length d \<Longrightarrow> take (length xs) (drop i (put i xs d)) = xs"
  by (simp add: put_def)

lemma take_drop_put_before:
  assumes "j + n \<le> i" "i \<le> length d"
  shows "take n (drop j (put i xs d)) = take n (drop j d)"
proof -
  have "take n (drop j (put i xs d)) = take n (take (i - j) (drop j d))"
    using assms by (simp add: put_def drop_take)
  also have "\<dots> = take n (drop j d)" using assms by (simp add: min_absorb1)
  finally show ?thesis .
qed

lemma slot_put_other:
  assumes "j < i" "n \<le> PAYLOAD_STRIDE" "i * PAYLOAD_STRIDE \<le> length d"
  shows "slot_bytes (put (i * PAYLOAD_STRIDE) xs d) j n = slot_bytes d j n"
proof -
  have "Suc j * PAYLOAD_STRIDE \<le> i * PAYLOAD_STRIDE" using assms(1) by (intro mult_le_mono) auto
  then show ?thesis using assms by (simp add: slot_bytes_def take_drop_put_before)
qed

text \<open>What the buffer holds after the slots up to \<open>j\<close> have been written.\<close>

definition staged :: "u8 list list \<Rightarrow> nat \<Rightarrow> u8 list \<Rightarrow> bool" where
  "staged ps j buf = (\<forall>i<j. slot_bytes buf i (length (ps ! i)) = ps ! i)"

lemma payload_fits:
  assumes "0 < per" "per \<le> UVC_MAX_PAYLOAD_DATA" "i < length (chunk_pieces per data)"
  shows "length (chunk_payloads fid e per data ! i) \<le> PAYLOAD_STRIDE"
    and "STAGING_BYTES \<le> n \<Longrightarrow> i * PAYLOAD_STRIDE + length (chunk_payloads fid e per data ! i) \<le> n"
proof -
  show l: "length (chunk_payloads fid e per data ! i) \<le> PAYLOAD_STRIDE"
    using assms chunk_pieces_nth(1) [OF assms(1,3)] by (simp add: chunk_payloads_def Let_def uvc_sizes)
  have "Suc i * PAYLOAD_STRIDE \<le> STAGING_BYTES"
    using assms(3) chunk_pieces_le [of per data] unfolding STAGING_BYTES_def by (intro mult_le_mono) auto
  with l show "STAGING_BYTES \<le> n \<Longrightarrow> i * PAYLOAD_STRIDE + length (chunk_payloads fid e per data ! i) \<le> n"
    by simp
qed

lemma stage_slot_ok:
  assumes per: "0 < per" "per \<le> UVC_MAX_PAYLOAD_DATA" and i: "i < length (chunk_pieces per data)"
    and buf: "STAGING_BYTES \<le> length buf"
  shows "stage_slot data per fid e (length (chunk_pieces per data)) i (buf, l) =
    Ok (put (i * PAYLOAD_STRIDE) (chunk_payloads fid e per data ! i) buf,
        if i = length (chunk_pieces per data) - 1 then length (chunk_payloads fid e per data ! i) else l)"
proof -
  let ?n = "min (i * per + per) (length data) - i * per" and ?p = "chunk_payloads fid e per data ! i"
  let ?h = "payload_header fid (i = length (chunk_pieces per data) - 1 \<and> e)"
  note nth = chunk_pieces_nth [OF per(1) i]
  have p: "?p = ?h @ take per (drop (i * per) data)"
    using i nth(1) by (simp add: chunk_payloads_def Let_def)
  have t: "take ?n (drop (i * per) data) = take per (drop (i * per) data)"
    using nth(2) by (auto simp: min_def)
  have l: "length ?p = PAYLOAD_HDR + ?n" unfolding p using nth(2) by (auto simp: min_def)
  have "i * PAYLOAD_STRIDE + PAYLOAD_HDR + ?n \<le> length buf"
    using payload_fits(2) [OF per i buf, where fid = fid and e = e] l by simp
  then show ?thesis unfolding stage_slot_def Let_def fst_conv snd_conv t l using p by simp
qed

lemma stage_slots_append:
  "(stage_slots data per fid e n (is @ js) st :: ('e, _) outcome) =
     bind_outcome (stage_slots data per fid e n is st) (stage_slots data per fid e n js)"
proof (induction "is" arbitrary: st)
  case (Cons i "is")
  then show ?case by (cases "stage_slot data per fid e n i st :: ('e, _) outcome") simp_all
qed simp

lemma staged_Suc:
  assumes per: "0 < per" "per \<le> UVC_MAX_PAYLOAD_DATA" and j: "j < length (chunk_pieces per data)"
    and buf: "STAGING_BYTES \<le> length buf" and st: "staged (chunk_payloads fid e per data) j buf"
  shows "staged (chunk_payloads fid e per data) (Suc j)
    (put (j * PAYLOAD_STRIDE) (chunk_payloads fid e per data ! j) buf)"
  unfolding staged_def
proof (intro allI impI)
  let ?ps = "chunk_payloads fid e per data"
  fix i assume "i < Suc j"
  note fits = payload_fits(2) [OF per j buf, where fid = fid and e = e]
  show "slot_bytes (put (j * PAYLOAD_STRIDE) (?ps ! j) buf) i (length (?ps ! i)) = ?ps ! i"
  proof (cases "i = j")
    case True
    then show ?thesis unfolding slot_bytes_def using take_drop_put_same [OF fits] by blast
  next
    case False
    with \<open>i < Suc j\<close> have "i < j" by simp
    moreover have "length (?ps ! i) \<le> PAYLOAD_STRIDE"
      using \<open>i < j\<close> j by (intro payload_fits(1) [OF per]) simp
    ultimately have "slot_bytes (put (j * PAYLOAD_STRIDE) (?ps ! j) buf) i (length (?ps ! i)) =
        slot_bytes buf i (length (?ps ! i))"
      using fits by (intro slot_put_other) linarith+
    with \<open>i < j\<close> st show ?thesis by (simp only: staged_def)
  qed
qed

lemma stage_slots_ok:
  assumes per: "0 < per" "per \<le> UVC_MAX_PAYLOAD_DATA" and buf: "STAGING_BYTES \<le> length buf"
    and j: "j \<le> length (chunk_pieces per data)"
  shows "\<exists>buf'. (stage_slots data per fid e (length (chunk_pieces per data)) [0..<j] (buf, l) :: ('e, _) outcome) =
      Ok (buf', if 0 < j \<and> j = length (chunk_pieces per data) then length (chunk_payloads fid e per data ! (j - 1)) else l) \<and>
    length buf' = length buf \<and> staged (chunk_payloads fid e per data) j buf'"
  using j
proof (induction j)
  case 0
  then show ?case by (simp add: staged_def)
next
  case (Suc j)
  let ?N = "length (chunk_pieces per data)" and ?ps = "chunk_payloads fid e per data"
  have jN: "j < ?N" using Suc.prems by simp
  obtain buf' where buf': "(stage_slots data per fid e ?N [0..<j] (buf, l) :: ('e, _) outcome) = Ok (buf', l)"
      "length buf' = length buf" "staged ?ps j buf'"
    using Suc jN by auto
  have big: "STAGING_BYTES \<le> length buf'" using buf buf'(2) by simp
  let ?buf = "put (j * PAYLOAD_STRIDE) (?ps ! j) buf'"
  have "(stage_slots data per fid e ?N [0..<Suc j] (buf, l) :: ('e, _) outcome) =
      Ok (?buf, if j = ?N - 1 then length (?ps ! j) else l)"
    unfolding upt_Suc_append [OF le0] stage_slots_append buf'(1)
    by (simp only: bind_outcome.simps stage_slots.simps stage_slot_ok [OF per jN big])
  moreover have "length ?buf = length buf"
    using payload_fits(2) [OF per jN big, where fid = fid and e = e] buf'(2) by simp
  moreover have "(if j = ?N - 1 then length (?ps ! j) else l) =
      (if 0 < Suc j \<and> Suc j = ?N then length (?ps ! (Suc j - 1)) else l)"
    using jN by (cases "Suc j = ?N") auto
  ultimately show ?case
    using staged_Suc [OF per jN big buf'(3)] by (intro exI [of _ ?buf]) (simp only: simp_thms)
qed

lemma stage_chunk_ok:
  assumes "0 < per" "per \<le> UVC_MAX_PAYLOAD_DATA" "data \<noteq> []" "STAGING_BYTES \<le> length buf"
  obtains buf' where "(stage_chunk buf data per fid e :: ('e, _) outcome) =
      Ok (buf', length (chunk_pieces per data), PAYLOAD_HDR + per,
          length (chunk_payloads fid e per data ! (length (chunk_pieces per data) - 1)))"
    "length buf' = length buf" "staged (chunk_payloads fid e per data) (length (chunk_pieces per data)) buf'"
proof -
  have c: "clamp 1 UVC_MAX_PAYLOAD_DATA per = per" using assms by (simp add: clamp_def)
  let ?N = "length (chunk_pieces per data)" and ?ps = "chunk_payloads fid e per data"
  obtain buf' where buf': "(stage_slots data per fid e ?N [0..<?N] (buf, PAYLOAD_HDR) :: ('e, _) outcome) =
      Ok (buf', length (?ps ! (?N - 1)))" "length buf' = length buf" "staged ?ps ?N buf'"
    using stage_slots_ok [OF assms(1,2,4), of ?N data fid e PAYLOAD_HDR] chunk_pieces_pos [OF assms(1,3)] by auto
  have "(stage_chunk buf data per fid e :: ('e, _) outcome) =
      Ok (buf', ?N, PAYLOAD_HDR + per, length (?ps ! (?N - 1)))"
    unfolding stage_chunk_def Let_def c stage_count [OF assms(1,3)] buf'(1) by simp
  with that buf'(2,3) show thesis by blast
qed

text \<open>All payloads but the last one are full.\<close>

lemma length_payload:
  assumes "0 < per" "i < length (chunk_pieces per data)"
  shows "length (chunk_payloads fid e per data ! i) =
    (if i + 1 = length (chunk_pieces per data)
     then length (chunk_payloads fid e per data ! (length (chunk_pieces per data) - 1)) else PAYLOAD_HDR + per)"
proof (cases "i + 1 = length (chunk_pieces per data)")
  case False
  with assms have "Suc i < length (chunk_pieces per data)" by simp
  then have "Suc i * per < length data" using chunk_pieces_nth(2) [OF assms(1)] by blast
  then have "length (chunk_pieces per data ! i) = per"
    using chunk_pieces_nth(1) [OF assms] by simp
  with False assms show ?thesis by (simp add: chunk_payloads_def Let_def)
next
  case True
  then have "i = length (chunk_pieces per data) - 1" by simp
  with True show ?thesis by simp
qed

section \<open>The blocks of a transfer\<close>

fun first_transfer :: "Trb list \<Rightarrow> Trb list \<times> Trb list" where
  "first_transfer [] = ([], [])"
| "first_transfer (t # ts) =
     (if t_chain t then case first_transfer ts of (xs, ys) \<Rightarrow> (t # xs, ys) else ([t], ts))"

definition trb_bytes :: "nat \<Rightarrow> u8 list \<Rightarrow> Trb \<Rightarrow> u8 list" where
  "trb_bytes base buf t = take (t_len t) (drop (t_addr t - base) buf)"

lemma trb_count_split:
  assumes "0 < len"
  obtains q r where "len = 1024 * q + r" "r < 1024" "trb_count len = (if r = 0 then q else q + 1)"
    "len mod 1024 = r"
  using assms by (intro that [of "len div 1024" "len mod 1024"]) (simp_all add: trb_count_def MAX_TRB_XFER_LEN_def)

lemma trb_count_bounds:
  assumes "0 < len"
  shows "0 < trb_count len" "len \<le> MAX_TRB_XFER_LEN * trb_count len"
proof -
  obtain q r where "len = 1024 * q + r" "r < 1024" "trb_count len = (if r = 0 then q else q + 1)"
    using trb_count_split [OF assms] by blast
  then show "0 < trb_count len" "len \<le> MAX_TRB_XFER_LEN * trb_count len"
    using assms by (auto simp: MAX_TRB_XFER_LEN_def)
qed

lemma trb_len:
  assumes "0 < len" "i < trb_count len"
  shows "t_len (transfer_trb address len flag i) = min MAX_TRB_XFER_LEN (len - MAX_TRB_XFER_LEN * i)"
proof -
  obtain q r where len: "len = 1024 * q + r" "r < 1024" and count: "trb_count len = (if r = 0 then q else q + 1)"
    and r: "len mod 1024 = r"
    using trb_count_split [OF assms(1)] by blast
  have t: "t_len (transfer_trb address len flag i) =
      (if trb_count len = 1 then len else if i \<noteq> trb_count len - 1 then 1024 else if r \<noteq> 0 then r else 1024)"
    by (simp add: transfer_trb_def Let_def MAX_TRB_XFER_LEN_def r)
  show ?thesis
  proof (cases "Suc i = trb_count len")
    case False
    with assms(2) count have "1024 * Suc i \<le> len" using len by (auto split: if_splits)
    moreover have "i \<noteq> trb_count len - 1" "trb_count len \<noteq> 1" using False assms(2) by linarith+
    ultimately show ?thesis using t by (simp add: MAX_TRB_XFER_LEN_def)
  next
    case True
    then show ?thesis
      using len count t by (cases "r = 0"; cases "q = 0"; cases "q = 1") (auto simp: MAX_TRB_XFER_LEN_def)
  qed
qed

lemma trb_chain:
  "i < trb_count len \<Longrightarrow> flag AND CRG_XFER_SET_CHAIN = 0 \<Longrightarrow>
   t_chain (transfer_trb address len flag i) \<longleftrightarrow> Suc i < trb_count len"
  by (auto simp: transfer_trb_def Let_def)

lemma first_transfer_trbs:
  assumes "flag AND CRG_XFER_SET_CHAIN = 0" "j < trb_count len"
  shows "first_transfer (map (transfer_trb address len flag) [j..<trb_count len] @ rest) =
    (map (transfer_trb address len flag) [j..<trb_count len], rest)"
  using assms(2)
proof (induction "trb_count len - j" arbitrary: j)
  case (Suc k)
  note chain = trb_chain [OF Suc.prems assms(1), of address]
  have upt: "[j..<trb_count len] = j # [Suc j..<trb_count len]" using Suc.prems by (rule upt_conv_Cons)
  show ?case
  proof (cases "Suc j < trb_count len")
    case True
    then have "first_transfer (map (transfer_trb address len flag) [Suc j..<trb_count len] @ rest) =
        (map (transfer_trb address len flag) [Suc j..<trb_count len], rest)"
      using Suc.hyps by (intro Suc.hyps(1)) simp_all
    with True chain show ?thesis by (simp add: upt)
  next
    case False
    with chain show ?thesis by (simp add: upt)
  qed
qed simp

lemma concat_blocks:
  "concat (map (\<lambda>i. take n (drop (n * i) xs)) [0..<k]) = take (n * k) xs"
proof (induction k)
  case (Suc k)
  have "take (n * k) xs @ take n (drop (n * k) xs) = take (n * k + n) xs" by (simp add: take_add)
  with Suc show ?case by (simp add: add.commute)
qed simp

lemma transfer_bytes:
  assumes "0 < len" "base \<le> address"
  shows "concat (map (trb_bytes base buf) (transfer_trbs address len flag)) = take len (drop (address - base) buf)"
proof -
  let ?ys = "take len (drop (address - base) buf)"
  have "trb_bytes base buf (transfer_trb address len flag i) = take MAX_TRB_XFER_LEN (drop (MAX_TRB_XFER_LEN * i) ?ys)"
    if "i < trb_count len" for i
  proof -
    have "t_addr (transfer_trb address len flag i) - base = MAX_TRB_XFER_LEN * i + (address - base)"
      using assms(2) by (simp add: transfer_trb_def Let_def)
    then show ?thesis
      unfolding trb_bytes_def trb_len [OF assms(1) that]
      by (simp add: drop_take take_take min.commute add.commute)
  qed
  then have "concat (map (trb_bytes base buf) (transfer_trbs address len flag)) =
      concat (map (\<lambda>i. take MAX_TRB_XFER_LEN (drop (MAX_TRB_XFER_LEN * i) ?ys)) [0..<trb_count len])"
    unfolding transfer_trbs_def map_map by (intro arg_cong [of _ _ concat] map_cong) simp_all
  also have "\<dots> = take (MAX_TRB_XFER_LEN * trb_count len) ?ys" by (rule concat_blocks)
  also have "\<dots> = ?ys" using trb_count_bounds(2) [OF assms(1)] by (simp add: take_take min_absorb2)
  finally show ?thesis .
qed

lemma transfer_ends_short:
  assumes "0 < len" "flag = (if len mod UVC_MPS = 0 then CRG_XFER_AZP else 0)"
  shows "len mod UVC_MPS \<noteq> 0 \<or> (\<forall>t \<in> set (transfer_trbs address len flag). t_azp t)"
  using assms by (simp add: transfer_trbs_def transfer_trb_def Let_def CRG_XFER_AZP_def)

end
