(* ===== verification/Event_Spec.thy ===== *)
theory Event_Spec
  imports Prelude
begin

text \<open>
  Components that are driven by events from outside: messages, interrupts, the host, the sensor. \<open>event_machine\<close> is the
  contract of a run over a sequence of events, and \<open>safe_machine\<close> adds an invariant that every permitted event keeps without
  a panic. Both are interpreted on the USB service and on the capture.
\<close>

locale event_machine =
  fixes step :: "'ev \<Rightarrow> 's \<Rightarrow> ('e, 's) outcome"
    and run :: "'ev list \<Rightarrow> 's \<Rightarrow> ('e, 's) outcome"
  assumes run_Nil: "run [] s = Ok s"
    and run_Cons: "run (ev # evs) s = bind_outcome (step ev s) (run evs)"
begin

lemma run_append: "run (evs @ evs') s = bind_outcome (run evs s) (run evs')"
proof (induction evs arbitrary: s)
  case (Cons ev evs)
  show ?case by (cases "step ev s") (simp_all add: run_Cons Cons)
qed (simp add: run_Nil)

lemma run_join: "run evs s = Ok s1 \<Longrightarrow> run evs' s1 = Ok s' \<Longrightarrow> run (evs @ evs') s = Ok s'"
  by (simp add: run_append)

end

locale safe_machine = event_machine step run
  for step :: "'ev \<Rightarrow> 's \<Rightarrow> ('e, 's) outcome" and run :: "'ev list \<Rightarrow> 's \<Rightarrow> ('e, 's) outcome" +
  fixes permitted :: "'ev \<Rightarrow> bool"
    and safe :: "'s \<Rightarrow> bool"
  assumes step_safe: "safe s \<Longrightarrow> permitted ev \<Longrightarrow> \<exists>s'. step ev s = Ok s' \<and> safe s'"
begin

lemma run_safe: "safe s \<Longrightarrow> \<forall>ev \<in> set evs. permitted ev \<Longrightarrow> \<exists>s'. run evs s = Ok s' \<and> safe s'"
proof (induction evs arbitrary: s)
  case (Cons ev evs)
  obtain s1 where "step ev s = Ok s1" "safe s1" using step_safe [OF Cons.prems(1), of ev] Cons.prems(2) by auto
  with Cons.IH [of s1] Cons.prems(2) show ?case by (simp add: run_Cons)
qed (simp add: run_Nil)

end

end
