(* ===== verification/Uvc_Service.thy ===== *)
theory Uvc_Service
  imports Uvc_Staging Event_Spec
begin

text \<open>
  The main loop of the USB service as far as it serves the webcam
  (services/usb-bao1x/src/main.rs), the software interrupt that starts the streamer
  (services/usb-bao1x/src/hw.rs) and the client call \<open>uvc_send_chunk\<close>
  (services/usb-bao1x/src/lib.rs), together with the bulk endpoint as the host sees it.
\<close>

section \<open>A chunk on its way\<close>

text \<open>
  A lent chunk: the message as the client sent it, which stays with the client, the message in the hands
  of the service, whose \<open>valid\<close> field carries the answer back, and the bytes of the lent pages.
\<close>

record Lend =
  l_sent :: Message
  l_body :: Message
  l_data :: "u8 list"

definition lend_chunk :: "Message \<Rightarrow> u8 list \<Rightarrow> Lend" where
  "lend_chunk m d = \<lparr>l_sent = m, l_body = m, l_data = d\<rparr>"

fun with_valid :: "usize option \<Rightarrow> Message \<Rightarrow> Message" where
  "with_valid v (MutableBorrow m) = MutableBorrow (m\<lparr>mm_valid := v\<rparr>)"
| "with_valid v (Move m) = Move (m\<lparr>mm_valid := v\<rparr>)"
| "with_valid v m = m"

definition set_valid :: "usize \<Rightarrow> Lend \<Rightarrow> Lend" where
  "set_valid v l = l\<lparr>l_body := with_valid (nonzero v) (l_body l)\<rparr>"

text \<open>The client's call: the flags and the payload size share the \<open>offset\<close> field.\<close>

definition UvcSendFrame :: usize where "UvcSendFrame = 1100"
definition RegisterUvcObserver :: usize where "RegisterUvcObserver = 1101"
definition UvcStatus :: usize where "UvcStatus = 1102"

definition uvc_send_chunk :: "MemoryRange \<Rightarrow> usize \<Rightarrow> usize \<Rightarrow> bool \<Rightarrow> bool \<Rightarrow> Message" where
  "uvc_send_chunk buf len per first final =
     MutableBorrow \<lparr>mm_id = UvcSendFrame, mm_buf = buf,
       mm_offset = nonzero ((if first then UVC_CHUNK_FIRST else 0) OR (if final then UVC_CHUNK_LAST else 0) OR
                            push_bit 2 per),
       mm_valid = nonzero len\<rparr>"

datatype UvcFrameResult = Sent | NotStreaming | BadFrame | Unsupported

definition frame_result :: "usize option \<Rightarrow> UvcFrameResult" where
  "frame_result v =
     (if v = Some UVC_RESULT_SENT then Sent
      else if v = Some UVC_RESULT_NOT_STREAMING then NotStreaming
      else if v = Some UVC_RESULT_BAD_FRAME then BadFrame
      else Unsupported)"

section \<open>The service\<close>

text \<open>
  The variables of the main loop. \<open>staging\<close> is the buffer the controller reads, if there is one;
  \<open>kick_requested\<close> is a pending software interrupt with the request \<open>UvcKick\<close>; \<open>answered\<close> lists the
  messages that have gone back to their senders, oldest first, and \<open>observed\<close> the notifications to
  the observer, whose queue may be full.
\<close>

record UsbService =
  uvc :: UvcClass
  staging :: "u8 list option"
  uvc_pending :: "Lend option"
  uvc_fid :: u8
  uvc_observer :: "(usize \<times> usize) option"
  observer_full :: bool
  observed :: "ScalarMessage list"
  kick_requested :: bool
  double_lock :: bool
  answered :: "Lend list"

definition on_uvc :: "(UvcClass \<Rightarrow> UvcClass) \<Rightarrow> UsbService \<Rightarrow> UsbService" where
  "on_uvc f v = v\<lparr>uvc := f (uvc v)\<rparr>"

lemma on_uvc_sel [simp]:
  "uvc (on_uvc g v) = g (uvc v)" "staging (on_uvc g v) = staging v" "uvc_pending (on_uvc g v) = uvc_pending v"
  "uvc_fid (on_uvc g v) = uvc_fid v" "kick_requested (on_uvc g v) = kick_requested v" "answered (on_uvc g v) = answered v"
  by (simp_all add: on_uvc_def)

definition sw_irq_kick :: "UsbService \<Rightarrow> UsbService" where
  "sw_irq_kick v = v\<lparr>kick_requested := True\<rparr>"

definition answer_lend :: "Lend \<Rightarrow> UsbService \<Rightarrow> UsbService" where
  "answer_lend l v = v\<lparr>answered := answered v @ [l]\<rparr>"

text \<open>The length, the flags and the payload size a lend carries.\<close>

definition lend_len :: "MemoryMessage \<Rightarrow> nat" where
  "lend_len m = unat (nz_or_zero (mm_valid m))"
definition lend_first :: "MemoryMessage \<Rightarrow> bool" where
  "lend_first m = (nz_or_zero (mm_offset m) AND UVC_CHUNK_FIRST \<noteq> 0)"
definition lend_last :: "MemoryMessage \<Rightarrow> bool" where
  "lend_last m = (nz_or_zero (mm_offset m) AND UVC_CHUNK_LAST \<noteq> 0)"
definition lend_per :: "MemoryMessage \<Rightarrow> nat" where
  "lend_per m = unat (drop_bit 2 (nz_or_zero (mm_offset m)))"

definition bad_chunk :: "MemoryMessage \<Rightarrow> u8 list \<Rightarrow> bool" where
  "bad_chunk m d =
     (lend_len m = 0 \<or> lend_len m > length d \<or> lend_len m > UVC_CHUNK_MAX_BYTES \<or>
      lend_per m = 0 \<or> lend_per m > UVC_MAX_PAYLOAD_DATA)"

text \<open>
  \<open>uvc_stage_chunk\<close> followed by what both callers do with its result: describe the chunk to the
  class and raise the software interrupt. The answer is in the lend.
\<close>

definition uvc_stage_chunk :: "Lend \<Rightarrow> u8 list \<Rightarrow> UsbService \<Rightarrow> ('e, Lend \<times> UsbService) outcome" where
  "uvc_stage_chunk l buf v =
     (case memory_message_mut (l_body l) of
        None \<Rightarrow> Ok (l, v)
      | Some m \<Rightarrow>
          if bad_chunk m (l_data l)
          then Ok (set_valid UVC_RESULT_BAD_FRAME l, on_uvc (count (\<lambda>d. d\<lparr>bad_chunks := bad_chunks d + 1\<rparr>)) v)
          else let fid = (if lend_first m then uvc_fid v XOR 1 else uvc_fid v) in
               bind_outcome (stage_chunk buf (take (lend_len m) (l_data l)) (lend_per m) fid (lend_last m))
                 (\<lambda>(buf', n, len, final).
                    Ok (set_valid UVC_RESULT_SENT l,
                        sw_irq_kick (on_uvc (set_chunk n len final (lend_last m))
                          (v\<lparr>uvc_fid := fid, staging := Some buf'\<rparr>)))))"

definition uvc_resume_pending :: "UsbService \<Rightarrow> ('e, UsbService) outcome" where
  "uvc_resume_pending v =
     (case uvc_pending v of
        None \<Rightarrow> Ok v
      | Some l \<Rightarrow>
          if streaming (uvc v) \<and> frame_active (uvc v) then Ok v
          else let v = v\<lparr>uvc_pending := None\<rparr> in
               case staging v of
                 Some buf \<Rightarrow>
                   if streaming (uvc v)
                   then bind_outcome (uvc_stage_chunk l buf v) (\<lambda>(l', v'). Ok (answer_lend l' v'))
                   else Ok (answer_lend (set_valid UVC_RESULT_NOT_STREAMING l) v)
               | None \<Rightarrow> Ok (answer_lend (set_valid UVC_RESULT_NOT_STREAMING l) v))"

definition handle_send_frame :: "Lend \<Rightarrow> UsbService \<Rightarrow> ('e, UsbService) outcome" where
  "handle_send_frame l v =
     (case staging v of
        None \<Rightarrow> Ok (answer_lend (set_valid UVC_RESULT_NOT_STREAMING l) v)
      | Some buf \<Rightarrow>
          if \<not> streaming (uvc v) then Ok (answer_lend (set_valid UVC_RESULT_NOT_STREAMING l) v)
          else if frame_active (uvc v)
          then if uvc_pending v \<noteq> None
               then Ok (answer_lend (set_valid UVC_RESULT_NOT_STREAMING l)
                      (on_uvc (count (\<lambda>d. d\<lparr>refused_frames := refused_frames d + 1\<rparr>)) v))
               else Ok (v\<lparr>uvc_pending := Some l\<rparr>)
          else bind_outcome (uvc_stage_chunk l buf v) (\<lambda>(l', v'). Ok (answer_lend l' v')))"

text \<open>A notification to the observer, \<open>try_send_message\<close>.\<close>

definition tell_observer :: "usize \<Rightarrow> usize \<Rightarrow> UsbService \<Rightarrow> UsbService" where
  "tell_observer state mode v =
     (case uvc_observer v of
        None \<Rightarrow> v
      | Some (cid, op) \<Rightarrow>
          if observer_full v then on_uvc (count (\<lambda>d. d\<lparr>drop_observer := drop_observer d + 1\<rparr>)) v
          else v\<lparr>observed := observed v @ [new_scalar op state 0 mode 0]\<rparr>)"

text \<open>
  The messages of the webcam; \<open>Register\<close> carries the connection to the observer when it could be made, and
  \<open>Status\<close> the blocking scalar that is answered with the state. \<open>Bus_reset\<close> leaves the rings of the
  controller empty. Every other message, \<open>Other_message\<close>, is served by parts of the loop that do not
  touch the webcam.
\<close>

datatype usb_message =
    Send_frame Message "u8 list"
  | Frame_done
  | Stream_change usize usize
  | Register "(usize \<times> usize) option"
  | Bus_reset
  | Status ScalarMessage
  | Other_message usize

definition UsbBusReset :: usize where "UsbBusReset = 1103"

fun message_id :: "usb_message \<Rightarrow> usize" where
  "message_id (Send_frame m _) = Message_id m"
| "message_id Frame_done = IrqUvcFrameDone"
| "message_id (Stream_change _ _) = IrqUvcStreamChange"
| "message_id (Register _) = RegisterUvcObserver"
| "message_id Bus_reset = UsbBusReset"
| "message_id (Status _) = UvcStatus"
| "message_id (Other_message i) = i"

definition status_answer :: "UsbService \<Rightarrow> ScalarMessage \<Rightarrow> ScalarMessage" where
  "status_answer v m =
     m\<lparr>sm_arg1 := (if streaming (uvc v) then 1 else 0), sm_arg2 := frames_sent (uvc v)\<rparr>"

fun dispatch :: "usb_message \<Rightarrow> UsbService \<Rightarrow> ('e, UsbService) outcome" where
  "dispatch (Send_frame m d) v = handle_send_frame (lend_chunk m d) v"
| "dispatch Frame_done v = Ok v"
| "dispatch (Stream_change state mode) v =
     Ok (tell_observer state mode (on_uvc (count (\<lambda>d. d\<lparr>stream_changes := stream_changes d + 1\<rparr>)) v))"
| "dispatch (Register conn) v =
     Ok (case conn of Some c \<Rightarrow> v\<lparr>uvc_observer := Some c\<rparr> | None \<Rightarrow> v)"
| "dispatch Bus_reset v =
     bind_outcome (uvc_resume_pending (on_uvc reset_state v))
       (\<lambda>v. Ok (on_uvc (\<lambda>u. u\<lparr>hw := (hw u)\<lparr>ring := []\<rparr>\<rparr>) (tell_observer 0 0 v)))"
| "dispatch (Status m) v = Ok v"
| "dispatch (Other_message i) v = Ok v"

definition PHASE_IDLE :: u32 where "PHASE_IDLE = 0"
definition PHASE_HANDLING :: u32 where "PHASE_HANDLING = 1"

text \<open>One turn of the main loop, from the reception of a message to the next.\<close>

definition note_message :: "usb_message \<Rightarrow> UsbService \<Rightarrow> UsbService" where
  "note_message m =
     on_uvc (count (\<lambda>d. record_opcode (message_id m) (d\<lparr>phase := PHASE_HANDLING, main_ticks := main_ticks d + 1\<rparr>)))"

definition note_double_lock :: "UsbService \<Rightarrow> UsbService" where
  "note_double_lock v =
     (if double_lock v
      then on_uvc (count (\<lambda>d. d\<lparr>double_locks := double_locks d + 1\<rparr>)) (v\<lparr>double_lock := False\<rparr>) else v)"

definition main_turn :: "usb_message \<Rightarrow> UsbService \<Rightarrow> ('e, UsbService) outcome" where
  "main_turn m v =
     bind_outcome (uvc_resume_pending (note_message m v)) (\<lambda>v.
     bind_outcome (dispatch m (note_double_lock v)) (\<lambda>v.
     Ok (on_uvc (count (\<lambda>d. d\<lparr>phase := PHASE_IDLE\<rparr>)) v)))"

text \<open>The software interrupt.\<close>

definition soft_irq :: "UsbService \<Rightarrow> UsbService" where
  "soft_irq v =
     (if kick_requested v
      then on_uvc (\<lambda>u. kick (count (\<lambda>d. d\<lparr>kicks := kicks d + 1\<rparr>) u)) (v\<lparr>kick_requested := False\<rparr>)
      else v)"

section \<open>The host\<close>

text \<open>
  The host reads a transfer from the endpoint: the controller takes the blocks up to the end of the
  transfer from the ring, sends the bytes of the staging buffer they cover, and reports the completion.
\<close>

record Link =
  svc :: UsbService
  received :: "u8 list list"

definition host_reads :: "Link \<Rightarrow> Link" where
  "host_reads k =
     (let v = svc k; u = uvc v in
      case (staging v, first_transfer (ring (hw u))) of
        (Some buf, t # ts, rest) \<Rightarrow>
          k\<lparr>svc := on_uvc (\<lambda>u. endpoint_in_complete (ep_in u) (u\<lparr>hw := (hw u)\<lparr>ring := rest\<rparr>\<rparr>)) v,
            received := received k @ [concat (map (trb_bytes (staging_phys u) buf) (t # ts))]\<rparr>
      | _ \<Rightarrow> k)"

text \<open>
  What can happen, in any order: a turn of the main loop, the software interrupt, a transfer to the
  host, the SETUP packet of a class request with data, the data of such a request, other
  control requests, and a reset of the bus.
\<close>

datatype usb_event =
    Msg usb_message
  | Soft_irq
  | Host_reads
  | Setup "u8 list"
  | Data_out "u8 list"
  | Control_in Request
  | Control_out Request
  | Reset_irq

fun run_event :: "usb_event \<Rightarrow> Link \<Rightarrow> ('e, Link) outcome" where
  "run_event (Msg m) k = bind_outcome (main_turn m (svc k)) (\<lambda>v. Ok (k\<lparr>svc := v\<rparr>))"
| "run_event Soft_irq k = Ok (k\<lparr>svc := soft_irq (svc k)\<rparr>)"
| "run_event Host_reads k = Ok (host_reads k)"
| "run_event (Setup s) k =
     Ok (k\<lparr>svc := on_uvc (\<lambda>u. poll (u\<lparr>hw := (hw u)\<lparr>last_class_out_setup := Some s\<rparr>\<rparr>)) (svc k)\<rparr>)"
| "run_event (Data_out bytes) k =
     Ok (k\<lparr>svc := on_uvc (\<lambda>u. u\<lparr>hw := (hw u)\<lparr>ep0_buf := Some bytes\<rparr>\<rparr>) (svc k)\<rparr>)"
| "run_event (Control_in req) k =
     bind_outcome (control_in req (uvc (svc k))) (\<lambda>(r, u). Ok (k\<lparr>svc := on_uvc (\<lambda>_. u) (svc k)\<rparr>))"
| "run_event (Control_out req) k = Ok (k\<lparr>svc := on_uvc (\<lambda>u. snd (control_out req u)) (svc k)\<rparr>)"
| "run_event Reset_irq k =
     Ok (k\<lparr>svc := on_uvc (\<lambda>u. (reset_state u)\<lparr>hw := (hw u)\<lparr>ring := []\<rparr>\<rparr>) (svc k)\<rparr>)"

primrec run_events :: "usb_event list \<Rightarrow> Link \<Rightarrow> ('e, Link) outcome" where
  "run_events [] k = Ok k"
| "run_events (e # es) k = bind_outcome (run_event e k) (run_events es)"

interpretation usb_events: event_machine "run_event :: _ \<Rightarrow> _ \<Rightarrow> ('e, _) outcome" run_events
  by unfold_locales simp_all

end
