(* ===== verification/Uvc_Stream.thy ===== *)
theory Uvc_Stream
  imports Uvc_Service
begin

text \<open>
  The video stream end to end inside the USB service: over every interleaving of the main loop, the
  software interrupt, control requests and the host's reads, the payloads reach the host complete and in
  order, and the host puts the frames together again.
\<close>

section \<open>What should be on the wire\<close>

text \<open>A chunk that was sent: whether it starts and ends a frame, the size of its payloads, its bytes.\<close>

type_synonym sent_chunk = "bool \<times> bool \<times> nat \<times> u8 list"

definition was_sent :: "Lend \<Rightarrow> bool" where
  "was_sent l =
     (case memory_message_mut (l_body l) of Some m \<Rightarrow> frame_result (mm_valid m) = Sent | None \<Rightarrow> False)"

definition chunk_of :: "Lend \<Rightarrow> sent_chunk" where
  "chunk_of l =
     (case memory_message_mut (l_sent l) of
        Some m \<Rightarrow> (lend_first m, lend_last m, lend_per m, take (lend_len m) (l_data l))
      | None \<Rightarrow> (False, False, 0, []))"

text \<open>The chunks whose lenders have been told that they were sent, oldest first.\<close>

definition sent_chunks :: "UsbService \<Rightarrow> sent_chunk list" where
  "sent_chunks v = map chunk_of (filter was_sent (answered v))"

definition next_fid :: "bool \<Rightarrow> u8 \<Rightarrow> u8" where
  "next_fid first f = (if first then f XOR 1 else f)"

fun fid_after :: "u8 \<Rightarrow> sent_chunk list \<Rightarrow> u8" where
  "fid_after f [] = f"
| "fid_after f ((first, ends, per, d) # cs) = fid_after (next_fid first f) cs"

fun wire :: "u8 \<Rightarrow> sent_chunk list \<Rightarrow> u8 list list" where
  "wire f [] = []"
| "wire f ((first, ends, per, d) # cs) =
     chunk_payloads (next_fid first f) ends per d @ wire (next_fid first f) cs"

lemma fid_after_append [simp]: "fid_after f (cs @ ds) = fid_after (fid_after f cs) ds"
  by (induction f cs rule: fid_after.induct) simp_all

lemma wire_append [simp]: "wire f (cs @ ds) = wire f cs @ wire (fid_after f cs) ds"
  by (induction f cs rule: wire.induct) simp_all

section \<open>The invariant of a running stream\<close>

definition payload_flag :: "nat \<Rightarrow> u8" where
  "payload_flag len = (if len mod UVC_MPS = 0 then CRG_XFER_AZP else 0)"

definition stream_sound :: "UsbService \<Rightarrow> bool" where
  "stream_sound v =
     (let u = uvc v in
      streaming u \<and> \<not> discard_completion u \<and> \<not> hw_locked (hw u) \<and> enq_ready (hw u) \<and>
      staging_phys u \<noteq> 0 \<and> selected u < length UVC_MODES \<and>
      (\<exists>buf. staging v = Some buf \<and> STAGING_BYTES \<le> length buf) \<and>
      (\<forall>l. uvc_pending v = Some l \<longrightarrow> l_sent l = l_body l))"

text \<open>The staging buffer holds the payloads \<open>ps\<close>, as the class believes.\<close>

definition holds_chunk :: "u8 list list \<Rightarrow> UsbService \<Rightarrow> bool" where
  "holds_chunk ps v =
     (let c = chunk (uvc v) in
      (\<exists>buf. staging v = Some buf \<and> staged ps (length ps) buf) \<and> payloads c = length ps \<and>
      length ps \<le> UVC_CHUNK_PAYLOADS \<and>
      (\<forall>i<length ps. 0 < length (ps ! i) \<and>
         length (ps ! i) = (if i + 1 = length ps then last_len c else payload_len c)))"

text \<open>What has been received, followed by what is still to go out of the staging buffer, is what
  should be on the wire. The transfer in the ring, if any, is that of the payload at the cursor.\<close>

definition in_order :: "u8 \<Rightarrow> u8 list list \<Rightarrow> UsbService \<Rightarrow> bool" where
  "in_order f rec v =
     (let u = uvc v in
      stream_sound v \<and> uvc_fid v = fid_after f (sent_chunks v) \<and>
      (if frame_active u
       then \<exists>ps. holds_chunk ps v \<and> cursor u < length ps \<and>
              wire f (sent_chunks v) = rec @ drop (cursor u) ps \<and>
              (if in_flight u
               then ring (hw u) = transfer_trbs (staging_phys u + cursor u * PAYLOAD_STRIDE)
                      (length (ps ! cursor u)) (payload_flag (length (ps ! cursor u)))
               else ring (hw u) = [] \<and> kick_requested v)
       else \<not> in_flight u \<and> ring (hw u) = [] \<and> wire f (sent_chunks v) = rec))"

lemma other_vars [simp]:
  "sent_chunks (v\<lparr>uvc_pending := p\<rparr>) = sent_chunks v" "holds_chunk ps (v\<lparr>uvc_pending := p\<rparr>) = holds_chunk ps v"
  "sent_chunks (v\<lparr>kick_requested := b\<rparr>) = sent_chunks v" "holds_chunk ps (v\<lparr>kick_requested := b\<rparr>) = holds_chunk ps v"
  "stream_sound (v\<lparr>kick_requested := b\<rparr>) = stream_sound v"
  "sent_chunks (on_uvc g v) = sent_chunks v"
  by (simp_all add: sent_chunks_def holds_chunk_def stream_sound_def on_uvc_def)

lemma holds_chunk_cong:
  "staging v = staging w \<Longrightarrow> chunk (uvc v) = chunk (uvc w) \<Longrightarrow> holds_chunk ps v = holds_chunk ps w"
  by (simp add: holds_chunk_def)

lemmas stream_defs = in_order_def stream_sound_def holds_chunk_def sent_chunks_def Let_def

lemma in_order_count [simp]: "in_order f rec (on_uvc (count g) v) = in_order f rec v"
  by (simp add: stream_defs on_uvc_def count_def)

lemma in_order_post: "in_order f rec (on_uvc (\<lambda>u. post m (g u)) v) = in_order f rec (on_uvc g v)"
  by (simp add: stream_defs on_uvc_def post_def)

lemma in_order_notify:
  "in_order f rec (on_uvc (\<lambda>u. notify_chunk_done (g u)) v) = in_order f rec (on_uvc g v)"
  by (simp add: stream_defs on_uvc_def post_def notify_chunk_done_def count_def)

lemma in_order_observer:
  "in_order f rec (v\<lparr>uvc_observer := ob\<rparr>) = in_order f rec v"
  "in_order f rec (v\<lparr>observed := os\<rparr>) = in_order f rec v"
  "in_order f rec (v\<lparr>double_lock := b\<rparr>) = in_order f rec v"
  by (simp_all add: stream_defs)

lemma in_order_answer:
  "\<not> was_sent l \<Longrightarrow> in_order f rec (answer_lend l v) = in_order f rec v"
  by (simp add: stream_defs answer_lend_def)

section \<open>Staging a chunk\<close>

lemma with_valid_mut [simp]:
  "memory_message_mut (with_valid v m) = map_option (\<lambda>m. m\<lparr>mm_valid := v\<rparr>) (memory_message_mut m)"
  by (cases m) simp_all

lemma was_sent_set_valid:
  "memory_message_mut (l_body l) = Some m \<Longrightarrow> was_sent (set_valid v l) \<longleftrightarrow> v = UVC_RESULT_SENT"
  by (auto simp: was_sent_def set_valid_def frame_result_def UVC_RESULT_SENT_def UVC_RESULT_NOT_STREAMING_def
      UVC_RESULT_BAD_FRAME_def nonzero_def)

lemma not_was_sent_set_valid:
  "v \<noteq> UVC_RESULT_SENT \<Longrightarrow> \<not> was_sent (set_valid v l)"
  by (cases "memory_message_mut (l_body l)")
    (simp_all add: was_sent_set_valid, simp add: was_sent_def set_valid_def)

lemma payload_pos:
  "i < length (chunk_pieces per d) \<Longrightarrow> 0 < length (chunk_payloads fid e per d ! i)"
  by (simp add: chunk_payloads_def Let_def payload_header_def)

lemma stage_in_order:
  assumes io: "in_order f rec v" and idle: "\<not> frame_active (uvc v)" and st: "staging v = Some buf"
    and l: "l_sent l = l_body l"
  shows "\<exists>l' v'. (uvc_stage_chunk l buf v :: ('e, _) outcome) = Ok (l', v') \<and>
    in_order f rec (answer_lend l' v') \<and> uvc_pending v' = uvc_pending v"
proof (cases "memory_message_mut (l_body l)")
  case None
  then have "\<not> was_sent l" by (simp add: was_sent_def)
  with None io show ?thesis by (simp add: uvc_stage_chunk_def in_order_answer)
next
  case (Some m)
  show ?thesis
  proof (cases "bad_chunk m (l_data l)")
    case True
    have "\<not> was_sent (set_valid UVC_RESULT_BAD_FRAME l)"
      by (intro not_was_sent_set_valid) (simp add: UVC_RESULT_BAD_FRAME_def UVC_RESULT_SENT_def)
    with True Some io show ?thesis
      by (simp add: uvc_stage_chunk_def in_order_answer)
  next
    case False
    let ?fid = "next_fid (lend_first m) (uvc_fid v)" and ?d = "take (lend_len m) (l_data l)"
    let ?per = "lend_per m" and ?e = "lend_last m"
    let ?ps = "chunk_payloads ?fid ?e ?per ?d" and ?N = "length (chunk_pieces ?per ?d)"
    have per: "0 < ?per" "?per \<le> UVC_MAX_PAYLOAD_DATA" and d: "?d \<noteq> []"
      using False by (auto simp: bad_chunk_def)
    have big: "STAGING_BYTES \<le> length buf" using io st by (simp add: stream_defs)
    obtain buf' where buf': "(stage_chunk buf ?d ?per ?fid ?e :: ('e, _) outcome) =
        Ok (buf', ?N, PAYLOAD_HDR + ?per, length (?ps ! (?N - 1)))"
      "length buf' = length buf" "staged ?ps ?N buf'"
      using stage_chunk_ok [OF per d big] by blast
    let ?v = "sw_irq_kick (on_uvc (set_chunk ?N (PAYLOAD_HDR + ?per) (length (?ps ! (?N - 1))) ?e)
      (v\<lparr>uvc_fid := ?fid, staging := Some buf'\<rparr>))"
    let ?l = "set_valid UVC_RESULT_SENT l"
    have run: "(uvc_stage_chunk l buf v :: ('e, _) outcome) = Ok (?l, ?v)"
      using Some False buf'(1) by (simp add: uvc_stage_chunk_def Let_def next_fid_def [symmetric])
    have "was_sent ?l" using was_sent_set_valid [OF Some] by simp
    moreover have "chunk_of ?l = (lend_first m, ?e, ?per, ?d)"
      using Some l by (simp add: chunk_of_def set_valid_def)
    ultimately have sent: "sent_chunks (answer_lend ?l ?v) = sent_chunks v @ [(lend_first m, ?e, ?per, ?d)]"
      by (simp add: sent_chunks_def answer_lend_def sw_irq_kick_def on_uvc_def)
    have v: "uvc_fid v = fid_after f (sent_chunks v)" "wire f (sent_chunks v) = rec" "\<not> in_flight (uvc v)"
      "ring (hw (uvc v)) = []"
      using io idle by (simp_all add: in_order_def Let_def)
    let ?w = "answer_lend ?l ?v"
    have view: "staging ?w = Some buf'" "uvc_fid ?w = ?fid" "frame_active (uvc ?w)" "cursor (uvc ?w) = 0"
      "in_flight (uvc ?w) = in_flight (uvc v)" "ring (hw (uvc ?w)) = ring (hw (uvc v))" "kick_requested ?w"
      "chunk (uvc ?w) = \<lparr>payloads = ?N, payload_len = PAYLOAD_HDR + ?per, last_len = length (?ps ! (?N - 1)), eof = ?e\<rparr>"
      by (simp_all add: answer_lend_def sw_irq_kick_def on_uvc_def set_chunk_def)
    have "holds_chunk ?ps ?w"
      unfolding holds_chunk_def Let_def view
    proof (intro conjI allI impI)
      show "\<exists>buf. Some buf' = Some buf \<and> staged ?ps (length ?ps) buf" using buf'(3) by simp
      show "length ?ps \<le> UVC_CHUNK_PAYLOADS" using chunk_pieces_le [of ?per ?d] by simp
    next
      fix i assume "i < length ?ps"
      then have i: "i < ?N" by simp
      show "0 < length (?ps ! i)" using i by (rule payload_pos)
      show "length (?ps ! i) = (if i + 1 = length ?ps
          then last_len \<lparr>payloads = ?N, payload_len = PAYLOAD_HDR + ?per, last_len = length (?ps ! (?N - 1)), eof = ?e\<rparr>
          else payload_len \<lparr>payloads = ?N, payload_len = PAYLOAD_HDR + ?per, last_len = length (?ps ! (?N - 1)), eof = ?e\<rparr>)"
        unfolding Chunk.select_convs length_chunk_payloads by (rule length_payload [OF per(1) i])
    qed simp
    moreover have "stream_sound ?w"
      using io big buf'(2) by (simp add: stream_defs answer_lend_def sw_irq_kick_def on_uvc_def set_chunk_def)
    moreover have "cursor (uvc ?w) < length ?ps" using chunk_pieces_pos [OF per(1) d] view(4) by simp
    moreover have "wire f (sent_chunks ?w) = rec @ drop (cursor (uvc ?w)) ?ps"
      unfolding sent wire_append view v(2) by (simp add: v(1))
    moreover have "uvc_fid ?w = fid_after f (sent_chunks ?w)"
      unfolding sent view fid_after_append by (simp add: v(1))
    ultimately have "in_order f rec ?w"
      unfolding in_order_def Let_def using view(3,5,6,7) v(3,4) by auto
    moreover have "uvc_pending ?v = uvc_pending v" by (simp add: sw_irq_kick_def on_uvc_def)
    ultimately show ?thesis using run by blast
  qed
qed

section \<open>The main loop\<close>

lemma not_streaming_code: "\<not> was_sent (set_valid UVC_RESULT_NOT_STREAMING l)"
  by (intro not_was_sent_set_valid) (simp add: UVC_RESULT_NOT_STREAMING_def UVC_RESULT_SENT_def)

lemma in_order_facts:
  assumes "in_order f rec v"
  shows "streaming (uvc v)" "\<not> hw_locked (hw (uvc v))" "staging_phys (uvc v) \<noteq> 0" "\<not> discard_completion (uvc v)"
    "selected (uvc v) < length UVC_MODES" "\<exists>buf. staging v = Some buf"
    "\<And>l. uvc_pending v = Some l \<Longrightarrow> l_sent l = l_body l"
  using assms by (auto simp: stream_defs)

lemma in_order_pending:
  "in_order f rec v \<Longrightarrow> (\<forall>l. p = Some l \<longrightarrow> l_sent l = l_body l) \<Longrightarrow> in_order f rec (v\<lparr>uvc_pending := p\<rparr>)"
  by (simp add: in_order_def stream_sound_def Let_def cong: if_cong split del: if_split)

lemma resume_in_order:
  assumes "in_order f rec v"
  shows "\<exists>v'. (uvc_resume_pending v :: ('e, _) outcome) = Ok v' \<and> in_order f rec v'"
proof (cases "uvc_pending v")
  case (Some l)
  obtain buf where buf: "staging v = Some buf" using in_order_facts(6) [OF assms] by blast
  show ?thesis
  proof (cases "frame_active (uvc v)")
    case True
    with Some assms in_order_facts(1) [OF assms] show ?thesis by (simp add: uvc_resume_pending_def)
  next
    case False
    let ?v = "v\<lparr>uvc_pending := None\<rparr>"
    have "in_order f rec ?v" using assms by (rule in_order_pending) simp
    then obtain l' v' where "(uvc_stage_chunk l buf ?v :: ('e, _) outcome) = Ok (l', v')"
        "in_order f rec (answer_lend l' v')"
      using stage_in_order [of f rec ?v buf l] False buf in_order_facts(7) [OF assms Some] by auto
    then show ?thesis
      using Some False buf in_order_facts(1) [OF assms] by (simp add: uvc_resume_pending_def Let_def)
  qed
qed (use assms in \<open>simp add: uvc_resume_pending_def\<close>)

lemma send_frame_in_order:
  assumes io: "in_order f rec v" and l: "l_sent l = l_body l"
  shows "\<exists>v'. (handle_send_frame l v :: ('e, _) outcome) = Ok v' \<and> in_order f rec v'"
proof -
  obtain buf where buf: "staging v = Some buf" using in_order_facts(6) [OF io] by blast
  note str = in_order_facts(1) [OF io]
  show ?thesis
  proof (cases "frame_active (uvc v)")
    case True
    then show ?thesis
      using buf str io l in_order_pending [OF io, of "Some l"]
      by (simp add: handle_send_frame_def in_order_answer not_streaming_code)
  next
    case False
    then obtain l' v' where "(uvc_stage_chunk l buf v :: ('e, _) outcome) = Ok (l', v')"
        "in_order f rec (answer_lend l' v')"
      using stage_in_order [OF io False buf l] by blast
    with False buf str show ?thesis by (simp add: handle_send_frame_def)
  qed
qed

lemma dispatch_in_order:
  assumes "in_order f rec v" "m \<noteq> Bus_reset"
  shows "\<exists>v'. (dispatch m v :: ('e, _) outcome) = Ok v' \<and> in_order f rec v'"
proof (cases m)
  case (Send_frame msg d)
  then show ?thesis using send_frame_in_order [OF assms(1), of "lend_chunk msg d"] by (simp add: lend_chunk_def)
qed (use assms in \<open>auto simp: tell_observer_def in_order_observer split: option.split\<close>)

lemma turn_in_order:
  assumes "in_order f rec v" "m \<noteq> Bus_reset"
  shows "\<exists>v'. (main_turn m v :: ('e, _) outcome) = Ok v' \<and> in_order f rec v'"
proof -
  obtain v1 where v1: "(uvc_resume_pending (note_message m v) :: ('e, _) outcome) = Ok v1" "in_order f rec v1"
    using resume_in_order [of f rec "note_message m v"] assms(1) by (auto simp: note_message_def)
  have "in_order f rec (note_double_lock v1)"
    using v1(2) by (simp add: note_double_lock_def in_order_observer)
  then obtain v2 where "(dispatch m (note_double_lock v1) :: ('e, _) outcome) = Ok v2" "in_order f rec v2"
    using dispatch_in_order [OF _ assms(2)] by blast
  with v1(1) show ?thesis by (simp add: main_turn_def)
qed

section \<open>The interrupt and the host\<close>

lemma payload_bytes_at:
  "holds_chunk ps v \<Longrightarrow> cursor (uvc v) < length ps \<Longrightarrow> payload_bytes (uvc v) = length (ps ! cursor (uvc v))"
  by (simp add: payload_bytes_def holds_chunk_def Let_def)

lemma enqueue_in_order:
  assumes "stream_sound v" "uvc_fid v = fid_after f (sent_chunks v)" "frame_active (uvc v)"
    and ps: "holds_chunk ps v" "cursor (uvc v) < length ps"
    and "wire f (sent_chunks v) = rec @ drop (cursor (uvc v)) ps" "ring (hw (uvc v)) = []"
  shows "in_order f rec (on_uvc enqueue_payload v)"
proof -
  have "\<not> hw_locked (hw (uvc v))" "enq_ready (hw (uvc v))" using assms(1) by (simp_all add: stream_sound_def Let_def)
  then have enq: "enqueue_payload (uvc v) = (uvc v)\<lparr>hw := (hw (uvc v))\<lparr>app_ptr := None,
      ring := transfer_trbs (staging_phys (uvc v) + cursor (uvc v) * PAYLOAD_STRIDE)
        (length (ps ! cursor (uvc v))) (payload_flag (length (ps ! cursor (uvc v))))\<rparr>, in_flight := True\<rparr>"
    using payload_bytes_at [OF ps] assms(7) by (simp add: enqueue_payload_def bulk_xfer_def payload_flag_def)
  have "sent_chunks (on_uvc enqueue_payload v) = sent_chunks v" by (simp add: sent_chunks_def on_uvc_def)
  moreover have "holds_chunk ps (on_uvc enqueue_payload v)"
    using ps(1) holds_chunk_cong [of "on_uvc enqueue_payload v" v ps] by (simp add: on_uvc_def enq)
  moreover have "stream_sound (on_uvc enqueue_payload v)"
    using assms(1) by (simp add: stream_sound_def on_uvc_def enq Let_def)
  ultimately show ?thesis
    using assms(2,3,6) ps(2) by (simp add: in_order_def Let_def) (simp add: on_uvc_def enq, blast)
qed

lemma soft_irq_in_order:
  assumes "in_order f rec v"
  shows "in_order f rec (soft_irq v)"
proof (cases "kick_requested v")
  case True
  let ?v = "on_uvc (count (\<lambda>d. d\<lparr>kicks := kicks d + 1\<rparr>)) (v\<lparr>kick_requested := False\<rparr>)"
  have soft: "soft_irq v = on_uvc kick ?v" using True by (simp add: soft_irq_def on_uvc_def)
  have u: "streaming (uvc ?v)" "staging_phys (uvc ?v) \<noteq> 0"
    using in_order_facts [OF assms] by (simp_all add: on_uvc_def count_def)
  show ?thesis
  proof (cases "frame_active (uvc v) \<and> \<not> in_flight (uvc v)")
    case False
    then have "on_uvc kick ?v = ?v" by (auto simp: kick_def on_uvc_def count_def)
    moreover have "in_order f rec (v\<lparr>kick_requested := False\<rparr>)"
      using False assms by (auto simp: in_order_def Let_def)
    ultimately show ?thesis using soft by simp
  next
    case True
    then have "on_uvc kick ?v = on_uvc enqueue_payload ?v"
      using u by (simp add: kick_def on_uvc_def count_def)
    moreover obtain ps where ps: "holds_chunk ps v" "cursor (uvc v) < length ps"
        "wire f (sent_chunks v) = rec @ drop (cursor (uvc v)) ps" "ring (hw (uvc v)) = []"
      using assms True by (auto simp: in_order_def Let_def)
    have "in_order f rec (on_uvc enqueue_payload ?v)"
    proof (rule enqueue_in_order [where ps = ps])
      show "holds_chunk ps ?v" using ps(1) holds_chunk_cong [of ?v v ps] by (simp add: on_uvc_def count_def)
      show "stream_sound ?v" using assms by (simp add: in_order_def stream_sound_def on_uvc_def count_def Let_def)
      show "uvc_fid ?v = fid_after f (sent_chunks ?v)"
        using assms by (simp add: in_order_def Let_def)
    qed (use True ps in \<open>simp_all add: count_def\<close>)
    ultimately show ?thesis using soft by simp
  qed
qed (use assms in \<open>simp add: soft_irq_def\<close>)

lemma no_chain: "payload_flag n AND CRG_XFER_SET_CHAIN = 0"
  by (simp add: payload_flag_def CRG_XFER_AZP_def CRG_XFER_SET_CHAIN_def)

lemma first_transfer_payload:
  "0 < len \<Longrightarrow> first_transfer (transfer_trbs address len (payload_flag n)) = (transfer_trbs address len (payload_flag n), [])"
  using first_transfer_trbs [OF no_chain trb_count_bounds(1), of len address n "[]"]
  by (simp add: transfer_trbs_def)

lemma trbs_not_Nil: "0 < len \<Longrightarrow> transfer_trbs address len flag \<noteq> []"
  using trb_count_bounds(1) by (simp add: transfer_trbs_def)

text \<open>The host reads the payload at the cursor, whole.\<close>

lemma host_reads_payload:
  assumes k: "frame_active (uvc (svc k))" "in_flight (uvc (svc k))"
    and ps: "holds_chunk ps (svc k)" "cursor (uvc (svc k)) < length ps"
    and ring: "ring (hw (uvc (svc k))) = transfer_trbs (staging_phys (uvc (svc k)) + cursor (uvc (svc k)) * PAYLOAD_STRIDE)
      (length (ps ! cursor (uvc (svc k)))) (payload_flag (length (ps ! cursor (uvc (svc k)))))"
  shows "host_reads k = k\<lparr>
    svc := on_uvc (\<lambda>u. endpoint_in_complete (ep_in u) (u\<lparr>hw := (hw u)\<lparr>ring := []\<rparr>\<rparr>)) (svc k),
    received := received k @ [ps ! cursor (uvc (svc k))]\<rparr>"
proof -
  let ?v = "svc k" and ?c = "cursor (uvc (svc k))"
  let ?len = "length (ps ! ?c)" and ?base = "staging_phys (uvc (svc k))"
  let ?ts = "transfer_trbs (?base + ?c * PAYLOAD_STRIDE) ?len (payload_flag ?len)"
  obtain buf where buf: "staging ?v = Some buf" "staged ps (length ps) buf" and pos: "0 < ?len"
    using ps by (auto simp: holds_chunk_def Let_def)
  have first: "first_transfer (ring (hw (uvc ?v))) = (?ts, [])"
    unfolding ring by (rule first_transfer_payload [OF pos])
  have bytes: "concat (map (trb_bytes ?base buf) ?ts) = ps ! ?c"
    using transfer_bytes [OF pos, of ?base "?base + ?c * PAYLOAD_STRIDE" buf "payload_flag ?len"] buf(2) ps(2)
    by (simp add: staged_def slot_bytes_def)
  obtain t ts where ts: "?ts = t # ts" using trbs_not_Nil [OF pos] by (cases ?ts) auto
  show ?thesis
    unfolding host_reads_def Let_def first buf(1) using bytes by (simp add: ts)
qed

lemma complete_next:
  assumes "\<not> discard_completion u" "frame_active u" "\<not> hw_locked (hw u)"
  defines "w \<equiv> (count (\<lambda>d. d\<lparr>completions := completions d + 1\<rparr>) (u\<lparr>in_flight := False\<rparr>))
    \<lparr>hw := (hw u)\<lparr>app_ptr := None\<rparr>, cursor := cursor u + 1\<rparr>"
  shows "endpoint_in_complete (ep_in u) u =
    (if cursor u + 1 < payloads (chunk u) then enqueue_payload w
     else notify_chunk_done (w\<lparr>cursor := 0, chunks_sent := chunks_sent u + 1,
       frames_sent := (if eof (chunk u) then frames_sent u + 1 else frames_sent u), frame_active := False\<rparr>))"
  using assms(1-3) by (simp add: endpoint_in_complete_def Let_def count_def w_def)

lemma host_reads_in_order:
  assumes "in_order f (received k) (svc k)"
  shows "in_order f (received (host_reads k)) (svc (host_reads k))"
proof (cases "frame_active (uvc (svc k)) \<and> in_flight (uvc (svc k))")
  case False
  then have "ring (hw (uvc (svc k))) = []" using assms by (auto simp: in_order_def Let_def split: if_splits)
  then have "host_reads k = k" by (simp add: host_reads_def Let_def split: option.split)
  with assms show ?thesis by simp
next
  case True
  let ?v = "svc k" and ?u = "uvc (svc k)"
  obtain ps where ps: "holds_chunk ps ?v" "cursor ?u < length ps"
      "wire f (sent_chunks ?v) = received k @ drop (cursor ?u) ps"
      "ring (hw ?u) = transfer_trbs (staging_phys ?u + cursor ?u * PAYLOAD_STRIDE)
         (length (ps ! cursor ?u)) (payload_flag (length (ps ! cursor ?u)))"
    using assms True by (auto simp: in_order_def Let_def)
  let ?rec = "received k @ [ps ! cursor ?u]"
  let ?c = "\<lambda>u. u\<lparr>hw := (hw u)\<lparr>ring := []\<rparr>\<rparr>"
  let ?w = "\<lambda>u. (count (\<lambda>d. d\<lparr>completions := completions d + 1\<rparr>) ((?c u)\<lparr>in_flight := False\<rparr>))
    \<lparr>hw := (hw (?c u))\<lparr>app_ptr := None\<rparr>, cursor := cursor u + 1\<rparr>"
  note u = in_order_facts [OF assms]
  have k: "host_reads k = k\<lparr>svc := on_uvc (\<lambda>u. endpoint_in_complete (ep_in u) (?c u)) ?v, received := ?rec\<rparr>"
    using True ps by (intro host_reads_payload) simp_all
  have rest: "received k @ drop (cursor ?u) ps = ?rec @ drop (Suc (cursor ?u)) ps"
    using ps(2) Cons_nth_drop_Suc [of "cursor ?u" ps] by simp
  have len: "payloads (chunk ?u) = length ps" using ps(1) by (simp add: holds_chunk_def Let_def)
  have fin: "endpoint_in_complete (ep_in ?u) (?c ?u) =
      (if cursor ?u + 1 < length ps then enqueue_payload (?w ?u)
       else notify_chunk_done ((?w ?u)\<lparr>cursor := 0, chunks_sent := chunks_sent ?u + 1,
         frames_sent := (if eof (chunk ?u) then frames_sent ?u + 1 else frames_sent ?u), frame_active := False\<rparr>))"
    using complete_next [of "?c ?u"] True u(2,4) len by simp
  have sound: "stream_sound ?v" "uvc_fid ?v = fid_after f (sent_chunks ?v)"
    using assms by (simp_all add: in_order_def Let_def)
  show ?thesis
  proof (cases "cursor ?u + 1 < length ps")
    case next_slot: True
    have "in_order f ?rec (on_uvc enqueue_payload (on_uvc ?w ?v))"
    proof (rule enqueue_in_order [where ps = ps])
      show "holds_chunk ps (on_uvc ?w ?v)"
        using ps(1) holds_chunk_cong [of "on_uvc ?w ?v" ?v ps] by (simp add: on_uvc_def count_def)
      show "stream_sound (on_uvc ?w ?v)" using sound(1) by (simp add: stream_sound_def count_def Let_def)
    qed (use True next_slot ps(3) rest sound(2) in \<open>simp_all add: count_def\<close>)
    with next_slot show ?thesis unfolding k by (simp add: on_uvc_def fin)
  next
    case last_slot: False
    then have "drop (Suc (cursor ?u)) ps = []" by simp
    with ps(3) rest have "wire f (sent_chunks ?v) = ?rec" by simp
    moreover have "stream_sound (on_uvc (\<lambda>u. (?w u)\<lparr>cursor := 0, chunks_sent := chunks_sent u + 1,
         frames_sent := (if eof (chunk u) then frames_sent u + 1 else frames_sent u), frame_active := False\<rparr>) ?v)"
      using sound(1) by (simp add: stream_sound_def count_def Let_def)
    ultimately have "in_order f ?rec (on_uvc (\<lambda>u. (?w u)\<lparr>cursor := 0, chunks_sent := chunks_sent u + 1,
         frames_sent := (if eof (chunk u) then frames_sent u + 1 else frames_sent u), frame_active := False\<rparr>) ?v)"
      using sound(2) by (simp add: in_order_def Let_def) (simp add: count_def)
    then have "in_order f ?rec (on_uvc (\<lambda>u. notify_chunk_done ((?w u)\<lparr>cursor := 0, chunks_sent := chunks_sent u + 1,
         frames_sent := (if eof (chunk u) then frames_sent u + 1 else frames_sent u), frame_active := False\<rparr>)) ?v)"
      by (simp only: in_order_notify)
    with last_slot show ?thesis unfolding k by (simp add: on_uvc_def fin)
  qed
qed

section \<open>Control requests\<close>

text \<open>Requests that do not start or stop the stream leave everything the stream depends on alone.\<close>

definition same_stream :: "UvcClass \<Rightarrow> UvcClass \<Rightarrow> bool" where
  "same_stream u w =
     (streaming w = streaming u \<and> frame_active w = frame_active u \<and> in_flight w = in_flight u \<and>
      discard_completion w = discard_completion u \<and> cursor w = cursor u \<and> chunk w = chunk u \<and>
      staging_phys w = staging_phys u \<and> ring (hw w) = ring (hw u) \<and> hw_locked (hw w) = hw_locked (hw u) \<and>
      enq_ready (hw w) = enq_ready (hw u) \<and> (selected u < length UVC_MODES \<longrightarrow> selected w < length UVC_MODES))"

lemma in_order_same:
  assumes "in_order f rec v" "same_stream (uvc v) w"
  shows "in_order f rec (on_uvc (\<lambda>_. w) v)"
proof -
  have "holds_chunk ps (on_uvc (\<lambda>_. w) v) = holds_chunk ps v" for ps
    using assms(2) by (intro holds_chunk_cong) (simp_all add: same_stream_def)
  moreover have "stream_sound (on_uvc (\<lambda>_. w) v)"
    using assms by (simp add: in_order_def stream_sound_def same_stream_def Let_def)
  ultimately show ?thesis
    using assms by (simp add: in_order_def same_stream_def Let_def cong: if_cong)
qed

lemma same_adopt: "same_stream u (adopt_probe_proposal u)"
  by (simp add: same_stream_def adopt_probe_proposal_def Let_def split: option.split) arith

lemma control_in_same:
  assumes "selected u < length UVC_MODES"
  shows "\<exists>r w. (control_in req u :: ('e, _) outcome) = Ok (r, w) \<and> same_stream u w"
proof -
  have self: "same_stream u u" by (simp add: same_stream_def)
  have probe: "\<exists>d. (probe_data w :: ('e, _) outcome) = Ok d" if "same_stream u w" for w
    using that assms by (simp add: probe_data_def same_stream_def Let_def)
  have "\<exists>r w. (class_request req u :: ('e, _) outcome) = Ok (r, w) \<and> same_stream u w"
  proof (cases "request req \<in> {GET_CUR, GET_MIN, GET_MAX, GET_DEF}")
    case True
    let ?w = "if request req = GET_CUR then adopt_probe_proposal u else u"
    have "same_stream u ?w" using self same_adopt by simp
    moreover obtain d where "(probe_data ?w :: ('e, _) outcome) = Ok d" using probe [OF calculation] by blast
    ultimately show ?thesis using True self unfolding class_request_def Let_def by auto
  next
    case False
    with self show ?thesis unfolding class_request_def Let_def by auto
  qed
  moreover have "same_stream u w" if "vendor_request req u = Some (r, w)" for r w
    using that
    by (auto simp: vendor_request_def inject_def same_stream_def count_def post_def split: if_splits prod.splits)
  ultimately show ?thesis unfolding control_in_def by (auto split: option.split)
qed

lemma same_poll:
  "s ! 3 \<noteq> VS_COMMIT_CONTROL \<Longrightarrow>
   same_stream u (poll (u\<lparr>hw := (hw u)\<lparr>last_class_out_setup := Some s\<rparr>\<rparr>))"
  by (simp add: same_stream_def poll_def Let_def)

section \<open>Order and completeness\<close>

text \<open>Everything but the host's requests to start or stop the stream and resets of the bus.\<close>

fun steady :: "usb_event \<Rightarrow> bool" where
  "steady (Msg m) = (m \<noteq> Bus_reset)"
| "steady (Setup s) = (s ! 3 \<noteq> VS_COMMIT_CONTROL)"
| "steady (Control_out req) = False"
| "steady Reset_irq = False"
| "steady _ = True"

lemma event_in_order:
  assumes "in_order f (received k) (svc k)" "steady e"
  shows "\<exists>k'. (run_event e k :: ('e, _) outcome) = Ok k' \<and> in_order f (received k') (svc k')"
proof (cases e)
  case (Msg m)
  then show ?thesis using turn_in_order [OF assms(1), of m] assms(2) by auto
next
  case (Control_in req)
  obtain r w where "(control_in req (uvc (svc k)) :: ('e, _) outcome) = Ok (r, w)" "same_stream (uvc (svc k)) w"
    using control_in_same [OF in_order_facts(5) [OF assms(1)]] by blast
  with Control_in in_order_same [OF assms(1)] show ?thesis by simp
next
  case (Setup s)
  then have "in_order f (received k) (on_uvc (\<lambda>_. poll ((uvc (svc k))\<lparr>hw := (hw (uvc (svc k)))
      \<lparr>last_class_out_setup := Some s\<rparr>\<rparr>)) (svc k))"
    using assms same_poll by (intro in_order_same) simp_all
  with Setup show ?thesis by (simp add: on_uvc_def)
next
  case (Data_out bytes)
  then have "in_order f (received k) (on_uvc (\<lambda>_. (uvc (svc k))\<lparr>hw := (hw (uvc (svc k)))\<lparr>ep0_buf := Some bytes\<rparr>\<rparr>) (svc k))"
    using assms by (intro in_order_same) (simp_all add: same_stream_def)
  with Data_out show ?thesis by (simp add: on_uvc_def)
qed (use assms soft_irq_in_order host_reads_in_order in simp_all)

interpretation steady_stream:
  safe_machine "run_event :: _ \<Rightarrow> _ \<Rightarrow> ('e, _) outcome" run_events steady "\<lambda>k. in_order f (received k) (svc k)" for f
  by unfold_locales (rule event_in_order)

lemma events_in_order:
  assumes "in_order f (received k) (svc k)" "\<forall>e \<in> set es. steady e"
  shows "\<exists>k'. (run_events es k :: ('e, _) outcome) = Ok k' \<and> in_order f (received k') (svc k')"
  by (rule steady_stream.run_safe [OF assms])

definition idle_stream :: "Link \<Rightarrow> bool" where
  "idle_stream k =
     (let u = uvc (svc k) in
      stream_sound (svc k) \<and> \<not> frame_active u \<and> \<not> in_flight u \<and> ring (hw u) = [] \<and>
      answered (svc k) = [] \<and> received k = [])"

lemma idle_in_order: "idle_stream k \<Longrightarrow> in_order (uvc_fid (svc k)) (received k) (svc k)"
  by (simp add: idle_stream_def in_order_def sent_chunks_def Let_def)

end
