(* ===== verification/Uvc_Video.thy ===== *)
theory Uvc_Video
  imports Uvc_Stream
begin

text \<open>
  What the stream promises: the payloads on the wire are those of the chunks whose senders were told
  \<open>Sent\<close>, in that order; a staged chunk goes out; the host puts the frames
  together again; and the frame size the host negotiates is the one the capture side is told.
\<close>

section \<open>A staged chunk goes out\<close>

lemma enqueue_sel:
  assumes "\<not> hw_locked (hw u)"
  shows "in_flight (enqueue_payload u)" "frame_active (enqueue_payload u) = frame_active u"
    "cursor (enqueue_payload u) = cursor u" "chunk (enqueue_payload u) = chunk u"
  using assms by (simp_all add: enqueue_payload_def)

lemma host_reads_progress:
  fixes k :: Link
  defines "u \<equiv> uvc (svc k)" and "w \<equiv> uvc (svc (host_reads k))"
  assumes "in_order f (received k) (svc k)" and fl: "frame_active u" "in_flight u"
  shows "sent_chunks (svc (host_reads k)) = sent_chunks (svc k)" "uvc_pending (svc (host_reads k)) = uvc_pending (svc k)"
    and "if cursor u + 1 < payloads (chunk u)
         then frame_active w \<and> in_flight w \<and> cursor w = cursor u + 1 \<and> chunk w = chunk u
         else \<not> frame_active w"
proof -
  obtain ps where ps: "holds_chunk ps (svc k)" "cursor u < length ps"
      "ring (hw u) = transfer_trbs (staging_phys u + cursor u * PAYLOAD_STRIDE)
         (length (ps ! cursor u)) (payload_flag (length (ps ! cursor u)))"
    using assms(3) fl by (auto simp: in_order_def Let_def u_def)
  have k: "host_reads k = k\<lparr>
      svc := on_uvc (\<lambda>u. endpoint_in_complete (ep_in u) (u\<lparr>hw := (hw u)\<lparr>ring := []\<rparr>\<rparr>)) (svc k),
      received := received k @ [ps ! cursor u]\<rparr>"
    unfolding u_def using ps fl by (intro host_reads_payload) (simp_all add: u_def)
  show "sent_chunks (svc (host_reads k)) = sent_chunks (svc k)" "uvc_pending (svc (host_reads k)) = uvc_pending (svc k)"
    unfolding k by simp_all
  have w: "w = endpoint_in_complete (ep_in u) (u\<lparr>hw := (hw u)\<lparr>ring := []\<rparr>\<rparr>)"
    unfolding w_def k by (simp add: u_def)
  note sound = in_order_facts [OF assms(3), folded u_def]
  show "if cursor u + 1 < payloads (chunk u)
      then frame_active w \<and> in_flight w \<and> cursor w = cursor u + 1 \<and> chunk w = chunk u else \<not> frame_active w"
    unfolding w using complete_next [of "u\<lparr>hw := (hw u)\<lparr>ring := []\<rparr>\<rparr>"] sound fl
    by (simp add: enqueue_sel count_def notify_chunk_done_def post_def)
qed

lemma drain:
  assumes "in_order f (received k) (svc k)" "frame_active (uvc (svc k))" "in_flight (uvc (svc k))"
    and "payloads (chunk (uvc (svc k))) - cursor (uvc (svc k)) = n"
  shows "\<exists>k'. (run_events (replicate n Host_reads) k :: ('e, _) outcome) = Ok k' \<and>
    in_order f (received k') (svc k') \<and> \<not> frame_active (uvc (svc k')) \<and> sent_chunks (svc k') = sent_chunks (svc k) \<and>
    uvc_pending (svc k') = uvc_pending (svc k)"
  using assms
proof (induction n arbitrary: k)
  case 0
  then show ?case by (auto simp: in_order_def holds_chunk_def Let_def)
next
  case (Suc n)
  note step = host_reads_progress [OF Suc.prems(1-3)] and io = host_reads_in_order [OF Suc.prems(1)]
  show ?case
  proof (cases "cursor (uvc (svc k)) + 1 < payloads (chunk (uvc (svc k)))")
    case True
    with step(3) Suc.prems(4) have "\<exists>k'. (run_events (replicate n Host_reads) (host_reads k) :: ('e, _) outcome) = Ok k' \<and>
      in_order f (received k') (svc k') \<and> \<not> frame_active (uvc (svc k')) \<and>
      sent_chunks (svc k') = sent_chunks (svc (host_reads k)) \<and> uvc_pending (svc k') = uvc_pending (svc (host_reads k))"
      by (intro Suc.IH io) simp_all
    with step(1,2) show ?thesis by simp
  next
    case False
    with Suc.prems(4) have "n = 0" by simp
    with False step io show ?thesis by simp
  qed
qed

lemma kicked:
  assumes "in_order f rec v" "frame_active (uvc v)"
  shows "in_flight (uvc (soft_irq v))" "frame_active (uvc (soft_irq v))" "sent_chunks (soft_irq v) = sent_chunks v"
    "chunk (uvc (soft_irq v)) = chunk (uvc v)" "cursor (uvc (soft_irq v)) = cursor (uvc v)" "uvc_pending (soft_irq v) = uvc_pending v"
proof -
  note sound = in_order_facts [OF assms(1)]
  have "in_flight (uvc v) \<or> kick_requested v" using assms by (auto simp: in_order_def Let_def split: if_splits)
  then show "in_flight (uvc (soft_irq v))" "frame_active (uvc (soft_irq v))" "sent_chunks (soft_irq v) = sent_chunks v"
    "chunk (uvc (soft_irq v)) = chunk (uvc v)" "cursor (uvc (soft_irq v)) = cursor (uvc v)" "uvc_pending (soft_irq v) = uvc_pending v"
    using assms(2) sound by (auto simp: soft_irq_def kick_def count_def enqueue_sel)
qed

lemma chunk_drains:
  assumes io: "in_order f (received k) (svc k)"
  shows "\<exists>n \<le> UVC_CHUNK_PAYLOADS. \<exists>k'. (run_events (Soft_irq # replicate n Host_reads) k :: ('e, _) outcome) = Ok k' \<and>
    in_order f (received k') (svc k') \<and> \<not> frame_active (uvc (svc k')) \<and> sent_chunks (svc k') = sent_chunks (svc k) \<and>
    uvc_pending (svc k') = uvc_pending (svc k)"
proof (cases "frame_active (uvc (svc k))")
  case False
  then have "\<not> frame_active (uvc (soft_irq (svc k)))" "sent_chunks (soft_irq (svc k)) = sent_chunks (svc k)"
      "uvc_pending (soft_irq (svc k)) = uvc_pending (svc k)"
    by (simp_all add: soft_irq_def kick_def count_def)
  with soft_irq_in_order [OF io] show ?thesis by (intro exI [of _ 0]) simp
next
  case True
  let ?k = "k\<lparr>svc := soft_irq (svc k)\<rparr>"
  note kick = kicked [OF io True]
  have le: "payloads (chunk (uvc (svc k))) \<le> UVC_CHUNK_PAYLOADS"
    using io True by (auto simp: in_order_def holds_chunk_def Let_def)
  obtain k' where "(run_events (replicate (payloads (chunk (uvc (svc k))) - cursor (uvc (svc k))) Host_reads) ?k
        :: ('e, _) outcome) = Ok k'"
      "in_order f (received k') (svc k')" "\<not> frame_active (uvc (svc k'))" "sent_chunks (svc k') = sent_chunks (svc k)"
      "uvc_pending (svc k') = uvc_pending (svc k)"
    using drain [of f ?k, OF _ _ _ refl] kick soft_irq_in_order [OF io] by auto
  then show ?thesis using le by (intro exI [of _ "payloads (chunk (uvc (svc k))) - cursor (uvc (svc k))"]) simp
qed

section \<open>The host's view\<close>

text \<open>
  How a host puts frames together: a change of the frame bit starts a new frame, and the
  end-of-frame bit hands the frame over. A payload starts with the length of its header.
\<close>

definition assemble :: "u8 option \<times> u8 list \<times> u8 list list \<Rightarrow> u8 list \<Rightarrow> u8 option \<times> u8 list \<times> u8 list list" where
  "assemble st p =
     (case st of (fid, buf, frames) \<Rightarrow>
        let f = p ! 1 AND HDR_FID;
            buf = (if fid = Some f then buf else []) @ drop (unat (p ! 0)) p in
        if p ! 1 AND HDR_EOF \<noteq> 0 then (Some f, [], frames @ [buf]) else (Some f, buf, frames))"

definition host_frames :: "u8 list list \<Rightarrow> u8 list list" where
  "host_frames ps = snd (snd (foldl assemble (None, [], []) ps))"

text \<open>A frame cut into chunks, as a camera sends it.\<close>

definition frame_chunks :: "nat \<Rightarrow> u8 list list \<Rightarrow> sent_chunk list" where
  "frame_chunks per ds = map (\<lambda>i. (i = 0, i = length ds - 1, per, ds ! i)) [0..<length ds]"

definition whole_frame :: "nat \<times> u8 list list \<Rightarrow> bool" where
  "whole_frame fr =
     (case fr of (per, ds) \<Rightarrow>
        0 < per \<and> ds \<noteq> [] \<and> list_all (\<lambda>d. d \<noteq> [] \<and> length d \<le> UVC_CHUNK_PAYLOADS * per) ds)"

lemma assemble_payload:
  "assemble (g, buf, frs) (payload_header f e @ d) =
     (let buf' = (if g = Some (f AND 1) then buf else []) @ d in
      if e then (Some (f AND 1), [], frs @ [buf']) else (Some (f AND 1), buf', frs))"
proof -
  have "f AND 1 = 0 \<or> f AND 1 = 1" by (simp add: and_one_eq mod_2_eq_odd)
  then show ?thesis
    by (auto simp: assemble_def payload_header_def PAYLOAD_HDR_def HDR_FID_def HDR_EOF_def HDR_EOH_def Let_def)
qed

lemma upt_Cons_Suc: "[0..<length (d # ds)] = 0 # map Suc [0..<length ds]"
  by (simp add: upt_conv_Cons map_Suc_upt del: upt_Suc)

lemma assemble_payloads:
  "ds \<noteq> [] \<Longrightarrow>
   foldl assemble (Some (f AND 1), buf, frs)
     (map (\<lambda>i. payload_header f (i = length ds - 1 \<and> e) @ ds ! i) [0..<length ds]) =
   (if e then (Some (f AND 1), [], frs @ [buf @ concat ds]) else (Some (f AND 1), buf @ concat ds, frs))"
proof (induction ds arbitrary: buf)
  case (Cons d ds)
  show ?case
  proof (cases "ds = []")
    case True
    then show ?thesis by (simp add: assemble_payload Let_def)
  next
    case False
    then have "(Suc i = length (d # ds) - 1) = (i = length ds - 1)" for i by (cases ds) auto
    then show ?thesis
      unfolding upt_Cons_Suc using Cons.IH [OF False, of "buf @ d"] False
      by (simp add: assemble_payload Let_def comp_def)
  qed
qed simp

lemma whole_chunk:
  assumes "0 < per" "d \<noteq> []" "length d \<le> UVC_CHUNK_PAYLOADS * per"
  shows "chunk_pieces per d = pieces per d" "pieces per d \<noteq> []"
proof -
  have "length (pieces per d) \<le> UVC_CHUNK_PAYLOADS"
    using length_pieces [OF assms(1), of d] assms(1,3) by (simp add: less_Suc_eq_le [symmetric] div_less_iff_less_mult)
  then show "chunk_pieces per d = pieces per d" by (simp add: chunk_pieces_def)
  show "pieces per d \<noteq> []" using assms by (simp add: pieces_step)
qed

lemma assemble_chunk:
  assumes "0 < per" "d \<noteq> []" "length d \<le> UVC_CHUNK_PAYLOADS * per"
  shows "foldl assemble (Some (f AND 1), buf, frs) (chunk_payloads f e per d) =
    (if e then (Some (f AND 1), [], frs @ [buf @ d]) else (Some (f AND 1), buf @ d, frs))"
  using assemble_payloads [OF whole_chunk(2) [OF assms]] assms(1)
  by (simp add: chunk_payloads_def whole_chunk [OF assms] Let_def)

lemma assemble_first:
  "chunk_payloads f e per d \<noteq> [] \<Longrightarrow>
   foldl assemble (g, [], frs) (chunk_payloads f e per d) =
   foldl assemble (Some (f AND 1), [], frs) (chunk_payloads f e per d)"
  by (cases "chunk_payloads f e per d")
     (auto simp: chunk_payloads_def Let_def assemble_payload map_eq_Cons_conv)

lemma assemble_chunks:
  assumes "0 < per" "list_all (\<lambda>d. d \<noteq> [] \<and> length d \<le> UVC_CHUNK_PAYLOADS * per) ds" "ds \<noteq> []"
  shows "foldl assemble (Some (f AND 1), buf, frs)
      (wire f (map (\<lambda>i. (False, i = length ds - 1, per, ds ! i)) [0..<length ds])) =
    (Some (f AND 1), [], frs @ [buf @ concat ds])"
  using assms(2,3)
proof (induction ds arbitrary: buf)
  case (Cons d ds)
  show ?case
  proof (cases "ds = []")
    case True
    with Cons.prems assms(1) show ?thesis by (simp add: assemble_chunk next_fid_def)
  next
    case False
    then have "(Suc i = length (d # ds) - 1) = (i = length ds - 1)" for i by (cases ds) auto
    then show ?thesis
      unfolding upt_Cons_Suc using Cons.IH [OF _ False, of "buf @ d"] Cons.prems False assms(1)
      by (simp add: assemble_chunk next_fid_def comp_def)
  qed
qed simp

lemma frame_wire:
  "ds \<noteq> [] \<Longrightarrow> wire f (frame_chunks per ds) =
     wire (f XOR 1) (map (\<lambda>i. (False, i = length ds - 1, per, ds ! i)) [0..<length ds])"
  "ds \<noteq> [] \<Longrightarrow> fid_after f (frame_chunks per ds) = f XOR 1"
proof -
  assume "ds \<noteq> []"
  then obtain d rest where ds: "ds = d # rest" by (cases ds) auto
  have "fid_after g (map (\<lambda>i. (False, P i, per, xs i)) is) = g" for g P xs and "is" :: "nat list"
    by (induction "is") (simp_all add: next_fid_def)
  then show "fid_after f (frame_chunks per ds) = f XOR 1"
    unfolding frame_chunks_def ds upt_Cons_Suc by (simp add: next_fid_def comp_def)
  show "wire f (frame_chunks per ds) =
     wire (f XOR 1) (map (\<lambda>i. (False, i = length ds - 1, per, ds ! i)) [0..<length ds])"
    unfolding frame_chunks_def ds upt_Cons_Suc by (simp add: next_fid_def comp_def)
qed

lemma assemble_frame:
  assumes "whole_frame (per, ds)"
  shows "foldl assemble (g, [], frs) (wire f (frame_chunks per ds)) = (Some ((f XOR 1) AND 1), [], frs @ [concat ds])"
proof -
  have w: "0 < per" "list_all (\<lambda>d. d \<noteq> [] \<and> length d \<le> UVC_CHUNK_PAYLOADS * per) ds" "ds \<noteq> []"
    using assms by (simp_all add: whole_frame_def)
  then obtain d rest where ds: "ds = d # rest" by (cases ds) auto
  let ?w = "wire (f XOR 1) (map (\<lambda>i. (False, i = length ds - 1, per, ds ! i)) [0..<length ds])"
  have "chunk_payloads (f XOR 1) (rest = []) per d \<noteq> []"
    using w chunk_pieces_pos [of per d] by (auto simp: chunk_payloads_def Let_def ds)
  note first = assemble_first [OF this, of g frs]
  have "foldl assemble (g, [], frs) ?w = foldl assemble (Some ((f XOR 1) AND 1), [], frs) ?w"
    unfolding ds upt_Cons_Suc by (simp add: next_fid_def first)
  then show ?thesis using assemble_chunks [OF w] frame_wire(1) [OF w(3)] by simp
qed

lemma assemble_frames:
  "\<forall>fr \<in> set frs. whole_frame fr \<Longrightarrow>
   \<exists>g'. foldl assemble (g, [], hs) (wire f (concat (map (\<lambda>(per, ds). frame_chunks per ds) frs))) =
     (g', [], hs @ map (\<lambda>(per, ds). concat ds) frs)"
proof (induction frs arbitrary: g hs f)
  case (Cons fr frs)
  obtain per ds where fr: "fr = (per, ds)" by (cases fr)
  with Cons.prems have "whole_frame (per, ds)" "ds \<noteq> []" by (simp_all add: whole_frame_def)
  then show ?case
    using Cons.IH [of "Some ((f XOR 1) AND 1)" "hs @ [concat ds]" "f XOR 1"] Cons.prems
    by (simp add: fr assemble_frame frame_wire(2))
qed simp

section \<open>A chunk is accepted\<close>

lemma send_accepted:
  assumes v: "stream_sound v" "\<not> frame_active (uvc v)" "uvc_pending v = None"
    and m: "memory_message_mut m = Some mm" "\<not> bad_chunk mm d"
  shows "\<exists>v'. (main_turn (Send_frame m d) v :: ('e, _) outcome) = Ok v' \<and>
    sent_chunks v' = sent_chunks v @ [chunk_of (lend_chunk m d)] \<and> uvc_pending v' = None"
proof -
  let ?v = "note_double_lock (note_message (Send_frame m d) v)"
  have eq: "streaming (uvc ?v)" "\<not> frame_active (uvc ?v)" "staging ?v = staging v" "sent_chunks ?v = sent_chunks v"
    "uvc_pending (note_message (Send_frame m d) v) = None" "uvc_pending ?v = None"
    using v by (simp_all add: note_double_lock_def note_message_def count_def stream_sound_def sent_chunks_def Let_def)
  obtain buf where buf: "staging v = Some buf" "STAGING_BYTES \<le> length buf"
    using v(1) by (auto simp: stream_sound_def Let_def)
  have ok: "0 < lend_per mm" "lend_per mm \<le> UVC_MAX_PAYLOAD_DATA" "take (lend_len mm) d \<noteq> []"
    using m(2) by (auto simp: bad_chunk_def)
  let ?fid = "if lend_first mm then uvc_fid ?v XOR 1 else uvc_fid ?v"
  obtain buf' n len final where st: "(stage_chunk buf (take (lend_len mm) d) (lend_per mm) ?fid (lend_last mm) :: ('e, _) outcome) =
      Ok (buf', n, len, final)"
    using stage_chunk_ok [OF ok buf(2), where fid = ?fid and e = "lend_last mm"] by metis
  let ?l = "set_valid UVC_RESULT_SENT (lend_chunk m d)"
  have sent: "was_sent ?l" using m(1) by (simp add: was_sent_set_valid lend_chunk_def)
  have chunk: "chunk_of ?l = chunk_of (lend_chunk m d)" by (simp add: chunk_of_def set_valid_def split: option.split)
  have turn: "main_turn (Send_frame m d) v =
      bind_outcome (handle_send_frame (lend_chunk m d) ?v) (\<lambda>v. Ok (on_uvc (count (\<lambda>d. d\<lparr>phase := PHASE_IDLE\<rparr>)) v))"
    using eq(5) by (simp add: main_turn_def uvc_resume_pending_def)
  show ?thesis
    unfolding turn handle_send_frame_def uvc_stage_chunk_def using eq buf m st sent chunk
    by (simp add: lend_chunk_def Let_def) (simp add: sent_chunks_def answer_lend_def sw_irq_kick_def)
qed

text \<open>The flags and the payload size survive the trip through the \<open>offset\<close> field.\<close>

lemma send_chunk_fields:
  assumes "per < 2 ^ 30"
  shows "\<exists>mm. memory_message_mut (uvc_send_chunk buf len per first final) = Some mm \<and>
    lend_len mm = unat len \<and> lend_first mm = first \<and> lend_last mm = final \<and> lend_per mm = unat per"
proof -
  let ?w = "(if first then UVC_CHUNK_FIRST else 0) OR (if final then UVC_CHUNK_LAST else 0) OR push_bit 2 per"
  have "drop_bit 2 ?w = per"
  proof (rule bit_word_eqI)
    fix n assume "n < LENGTH(32)"
    have high: "\<not> bit per n" if "30 \<le> n"
    proof -
      have "unat per < 2 ^ 30" using assms by (simp add: word_less_nat_alt)
      also have "(2 :: nat) ^ 30 \<le> 2 ^ n" using that by (intro power_increasing) simp_all
      finally have "\<not> bit (unat per) n" by (simp add: bit_iff_odd)
      with \<open>n < LENGTH(32)\<close> show ?thesis by (simp add: bit_unsigned_iff)
    qed
    have "n < 30" if "bit per n" using high that by (cases "30 \<le> n") simp_all
    moreover have "\<not> bit (1 :: 32 word) (n + 2)" "\<not> bit (2 :: 32 word) (n + 2)"
      using bit_Suc [of "2 :: 32 word" "Suc n"] by (simp_all add: bit_1_iff)
    ultimately show "bit (drop_bit 2 ?w) n = bit per n"
      by (auto simp: bit_drop_bit_eq bit_or_iff bit_push_bit_iff UVC_CHUNK_FIRST_def UVC_CHUNK_LAST_def)
  qed
  moreover have "(?w AND 1 \<noteq> 0) = first" "(?w AND 2 \<noteq> 0) = final"
    using and_exp_eq_0_iff_not_bit [of ?w 0] and_exp_eq_0_iff_not_bit [of ?w 1]
    by (auto simp: bit_or_iff bit_push_bit_iff UVC_CHUNK_FIRST_def UVC_CHUNK_LAST_def bit_1_iff)
  ultimately show ?thesis
    by (simp add: uvc_send_chunk_def lend_len_def lend_first_def lend_last_def lend_per_def nz_or_zero_nonzero
        UVC_CHUNK_FIRST_def UVC_CHUNK_LAST_def)
qed

section \<open>Any chunks can be sent\<close>

definition good_chunk :: "sent_chunk \<Rightarrow> bool" where
  "good_chunk c = (case c of (first, final, per, d) \<Rightarrow>
     d \<noteq> [] \<and> length d \<le> UVC_CHUNK_MAX_BYTES \<and> 0 < per \<and> per \<le> UVC_MAX_PAYLOAD_DATA)"

lemma lend_of_chunk:
  assumes "good_chunk (first, final, per, d)"
  shows "\<exists>m mm. memory_message_mut m = Some mm \<and> \<not> bad_chunk mm d \<and> chunk_of (lend_chunk m d) = (first, final, per, d)"
proof -
  have c: "d \<noteq> []" "length d \<le> 38400" "0 < per" "per \<le> 4800" using assms by (simp_all add: good_chunk_def uvc_sizes)
  let ?m = "uvc_send_chunk \<lparr>addr = 4096, rsize = 4096\<rparr> (of_nat (length d)) (of_nat per) first final"
  have n: "unat (of_nat (length d) :: usize) = length d" "unat (of_nat per :: usize) = per"
    using c by (simp_all add: unat_of_nat)
  then have "(of_nat per :: usize) < 2 ^ 30" using c(4) by (simp add: word_less_nat_alt)
  from send_chunk_fields [OF this] n obtain mm where "memory_message_mut ?m = Some mm" "lend_len mm = length d"
      "lend_first mm = first" "lend_last mm = final" "lend_per mm = per"
    by metis
  with c show ?thesis
    by (intro exI [of _ ?m] exI [of _ mm]) (simp add: bad_chunk_def uvc_sizes chunk_of_def lend_chunk_def)
qed

lemma send_and_drain:
  assumes io: "in_order f (received k) (svc k)" and v: "\<not> frame_active (uvc (svc k))" "uvc_pending (svc k) = None"
    and c: "good_chunk c"
  shows "\<exists>es k'. (\<forall>e \<in> set es. steady e) \<and> (run_events es k :: ('e, _) outcome) = Ok k' \<and> in_order f (received k') (svc k') \<and>
    \<not> frame_active (uvc (svc k')) \<and> uvc_pending (svc k') = None \<and> sent_chunks (svc k') = sent_chunks (svc k) @ [c]"
proof -
  obtain first final per d where "c = (first, final, per, d)" by (cases c)
  with lend_of_chunk c obtain m mm where m: "memory_message_mut m = Some mm" "\<not> bad_chunk mm d" "chunk_of (lend_chunk m d) = c"
    by blast
  have "stream_sound (svc k)" using io by (simp add: in_order_def Let_def)
  from send_accepted [OF this v m(1,2), where 'e = 'e] m(3) obtain v' where
      v': "(main_turn (Send_frame m d) (svc k) :: ('e, _) outcome) = Ok v'" "sent_chunks v' = sent_chunks (svc k) @ [c]"
      "uvc_pending v' = None"
    by auto
  let ?k = "k\<lparr>svc := v'\<rparr>" and ?e = "Msg (Send_frame m d)"
  have "in_order f (received ?k) (svc ?k)" using turn_in_order [OF io, of "Send_frame m d", where 'e = 'e] v'(1) by simp
  from chunk_drains [OF this, where 'e = 'e] obtain n k' where
      k': "(run_events (Soft_irq # replicate n Host_reads) ?k :: ('e, _) outcome) = Ok k'" "in_order f (received k') (svc k')"
      "\<not> frame_active (uvc (svc k'))" "sent_chunks (svc k') = sent_chunks v'" "uvc_pending (svc k') = uvc_pending v'"
    by auto
  have "(run_events (?e # Soft_irq # replicate n Host_reads) k :: ('e, _) outcome) = Ok k'" using v'(1) k'(1) by simp
  moreover have "\<forall>e \<in> set (?e # Soft_irq # replicate n Host_reads). steady e" by auto
  ultimately show ?thesis using k'(2-5) v'(2,3) by metis
qed

text \<open>Every list of well-formed chunks can be sent through an idle stream.\<close>

lemma all_sent:
  assumes "idle_stream k" "uvc_pending (svc k) = None" "list_all good_chunk cs"
  shows "\<exists>es k'. (\<forall>e \<in> set es. steady e) \<and> (run_events es k :: ('e, _) outcome) = Ok k' \<and>
    \<not> frame_active (uvc (svc k')) \<and> sent_chunks (svc k') = cs"
proof -
  have "\<exists>es k'. (\<forall>e \<in> set es. steady e) \<and> (run_events es k :: ('e, _) outcome) = Ok k' \<and>
      in_order (uvc_fid (svc k)) (received k') (svc k') \<and> \<not> frame_active (uvc (svc k')) \<and> uvc_pending (svc k') = None \<and>
      sent_chunks (svc k') = cs"
    using assms(3)
  proof (induction cs rule: rev_induct)
    case Nil
    have "sent_chunks (svc k) = []" "\<not> frame_active (uvc (svc k))"
      using assms(1) by (simp_all add: idle_stream_def sent_chunks_def Let_def)
    then show ?case using idle_in_order [OF assms(1)] assms(2) by (intro exI [of _ "[]"] exI [of _ k]) simp
  next
    case (snoc c cs)
    then obtain es k1 where k1: "\<forall>e \<in> set es. steady e" "(run_events es k :: ('e, _) outcome) = Ok k1"
        "in_order (uvc_fid (svc k)) (received k1) (svc k1)" "\<not> frame_active (uvc (svc k1))" "uvc_pending (svc k1) = None"
        "sent_chunks (svc k1) = cs"
      by auto
    obtain es' k' where k': "\<forall>e \<in> set es'. steady e" "(run_events es' k1 :: ('e, _) outcome) = Ok k'"
        "in_order (uvc_fid (svc k)) (received k') (svc k')" "\<not> frame_active (uvc (svc k'))" "uvc_pending (svc k') = None"
        "sent_chunks (svc k') = sent_chunks (svc k1) @ [c]"
      using send_and_drain [OF k1(3-5), of c, where 'e = 'e] snoc.prems by auto
    have "(run_events (es @ es') k :: ('e, _) outcome) = Ok k'" by (rule usb_events.run_join [OF k1(2) k'(2)])
    moreover have "\<forall>e \<in> set (es @ es'). steady e" using k1(1) k'(1) by auto
    ultimately show ?case using k'(3-6) k1(6) by metis
  qed
  then show ?thesis by blast
qed

section \<open>The video stream\<close>

definition demo_link :: Link where
  "demo_link =
     \<lparr>svc = \<lparr>uvc = (UvcClass_new 0 1 0x84 \<lparr>hw_locked = False, ep0_buf = None, last_class_out_setup = None,
                       app_ptr = None, enq_ready = True, ring = []\<rparr> 4096)\<lparr>streaming := True\<rparr>,
             staging = Some (replicate STAGING_BYTES 0), uvc_pending = None, uvc_fid = 0, uvc_observer = None,
             observer_full = False, observed = [], kick_requested = False, double_lock = False, answered = []\<rparr>,
      received = []\<rparr>"

definition demo_chunk :: usb_message where
  "demo_chunk = Send_frame (uvc_send_chunk \<lparr>addr = 4096, rsize = 4096\<rparr> 3 1000 True True) [1, 2, 3]"

lemma demo_idle: "idle_stream demo_link"
  by (simp add: demo_link_def idle_stream_def stream_sound_def UvcClass_new_def UVC_MODES_def Let_def)

lemma demo_run:
  "\<exists>es k'. (\<forall>e \<in> set es. steady e) \<and> (run_events es demo_link :: (unit, _) outcome) = Ok k' \<and>
     \<not> frame_active (uvc (svc k')) \<and> sent_chunks (svc k') = frame_chunks 1000 [[1, 2, 3]]"
  using all_sent [OF demo_idle, of "frame_chunks 1000 [[1, 2, 3]]", where 'e = unit]
  by (auto simp: demo_link_def frame_chunks_def good_chunk_def uvc_sizes)



text \<open>
  C21. A staged chunk goes out. In every state such a run can reach, the software interrupt and at most
  eight reads of the host empty the staging buffer: the class is ready for the next chunk, and the host has received
  every payload of every chunk that was acknowledged.
\<close>

theorem staged_chunk_goes_out:
  assumes "idle_stream k" "\<forall>e \<in> set es. steady e" "(run_events es k :: (unit, _) outcome) = Ok k'"
  shows "\<exists>n \<le> UVC_CHUNK_PAYLOADS. \<exists>k''.
    (run_events (Soft_irq # replicate n Host_reads) k' :: (unit, _) outcome) = Ok k'' \<and>
    \<not> frame_active (uvc (svc k'')) \<and> received k'' = wire (uvc_fid (svc k)) (sent_chunks (svc k'))"
proof -
  have "in_order (uvc_fid (svc k)) (received k') (svc k')"
    using events_in_order [OF idle_in_order [OF assms(1)] assms(2), where 'e = unit] assms(3) by auto
  from chunk_drains [OF this, where 'e = unit] obtain n k'' where n: "n \<le> UVC_CHUNK_PAYLOADS"
      "(run_events (Soft_irq # replicate n Host_reads) k' :: (unit, _) outcome) = Ok k''"
    and k'': "in_order (uvc_fid (svc k)) (received k'') (svc k'')" "\<not> frame_active (uvc (svc k''))"
      "sent_chunks (svc k'') = sent_chunks (svc k')"
    by blast
  have "received k'' = wire (uvc_fid (svc k)) (sent_chunks (svc k'))" using k'' by (simp add: in_order_def Let_def)
  with n k''(2) show ?thesis by blast
qed

theorem staged_chunk_goes_out_witness:
  "\<exists>es k' n k''. (\<forall>e \<in> set es. steady e) \<and> (run_events es demo_link :: (unit, _) outcome) = Ok k' \<and>
     sent_chunks (svc k') = frame_chunks 1000 [[1, 2, 3]] \<and>
     (run_events (Soft_irq # replicate n Host_reads) k' :: (unit, _) outcome) = Ok k'' \<and>
     received k'' = wire (uvc_fid (svc demo_link)) (frame_chunks 1000 [[1, 2, 3]])"
proof -
  obtain es k' where k': "\<forall>e \<in> set es. steady e" "(run_events es demo_link :: (unit, _) outcome) = Ok k'"
      "sent_chunks (svc k') = frame_chunks 1000 [[1, 2, 3]]"
    using demo_run by blast
  from staged_chunk_goes_out [OF demo_idle k'(1,2)] k' show ?thesis by metis
qed

text \<open>
  The host gets the pictures. If, after any such run, the chunks that were acknowledged are those of the frames
  \<open>frs\<close> in order, each cut into chunks of at most eight payloads, and nothing is left in the staging buffer, then a
  host that follows the frame and end-of-frame bits has assembled exactly these frames,
  byte for byte, whatever sizes the payloads had.
\<close>

theorem frames_reach_host:
  assumes "idle_stream k" "\<forall>e \<in> set es. steady e" "(run_events es k :: (unit, _) outcome) = Ok k'"
    and "\<not> frame_active (uvc (svc k'))"
    and "sent_chunks (svc k') = concat (map (\<lambda>(per, ds). frame_chunks per ds) frs)" "\<forall>fr \<in> set frs. whole_frame fr"
  shows "host_frames (received k') = map (\<lambda>(per, ds). concat ds) frs"
proof -
  have "in_order (uvc_fid (svc k)) (received k') (svc k')"
    using events_in_order [OF idle_in_order [OF assms(1)] assms(2), where 'e = unit] assms(3) by auto
  then have "received k' = wire (uvc_fid (svc k)) (sent_chunks (svc k'))"
    using assms(4) by (simp add: in_order_def Let_def)
  then show ?thesis
    using assemble_frames [OF assms(6), of None "[]" "uvc_fid (svc k)"] assms(5) by (auto simp: host_frames_def)
qed

theorem frames_reach_host_witness:
  "\<exists>es k'. (\<forall>e \<in> set es. steady e) \<and> (run_events es demo_link :: (unit, _) outcome) = Ok k' \<and>
     host_frames (received k') = [[1, 2, 3]]"
proof -
  obtain es k' where k': "\<forall>e \<in> set es. steady e" "(run_events es demo_link :: (unit, _) outcome) = Ok k'"
      "\<not> frame_active (uvc (svc k'))" "sent_chunks (svc k') = frame_chunks 1000 [[1, 2, 3]]"
    using demo_run by blast
  have "host_frames (received k') = map (\<lambda>(per, ds). concat ds) [(1000 :: nat, [[1, 2, 3]])]"
    using k'(4) by (intro frames_reach_host [OF demo_idle k'(1-3)]) (simp_all add: whole_frame_def uvc_sizes)
  with k'(1,2) show ?thesis by auto
qed

end
