(* ===== verification/Uvc_Control.thy ===== *)
theory Uvc_Control
  imports Uvc_Service
begin

text \<open>
  The webcam under everything a host can do, restarts and bus resets included: the service does not panic
  and the controller never reads outside the staging buffer. A chunk that waits for the buffer is answered.
\<close>

section \<open>Safety under every sequence of events\<close>

definition in_staging :: "nat \<Rightarrow> Trb \<Rightarrow> bool" where
  "in_staging base t = (base \<le> t_addr t \<and> t_addr t + t_len t \<le> base + STAGING_BYTES)"

text \<open>The selected mode exists, the described chunk fits the buffer, and so do all queued blocks.\<close>

definition class_safe :: "UvcClass \<Rightarrow> bool" where
  "class_safe u =
     (let c = chunk u in
      selected u < length UVC_MODES \<and> payloads c \<le> UVC_CHUNK_PAYLOADS \<and>
      payload_len c \<le> PAYLOAD_STRIDE \<and> last_len c \<le> PAYLOAD_STRIDE \<and>
      (frame_active u \<longrightarrow> cursor u < payloads c) \<and>
      list_all (in_staging (staging_phys u)) (ring (hw u)))"

definition service_safe :: "UsbService \<Rightarrow> bool" where
  "service_safe v =
     (class_safe (uvc v) \<and> (\<forall>buf. staging v = Some buf \<longrightarrow> STAGING_BYTES \<le> length buf))"

lemma trb_in_slot:
  assumes "c < UVC_CHUNK_PAYLOADS" "len \<le> PAYLOAD_STRIDE" "i < trb_count len"
  shows "in_staging base (transfer_trb (base + c * PAYLOAD_STRIDE) len flag i)"
proof -
  let ?t = "transfer_trb (base + c * PAYLOAD_STRIDE) len flag i"
  have "Suc c * PAYLOAD_STRIDE \<le> STAGING_BYTES"
    using assms(1) unfolding STAGING_BYTES_def by (intro mult_le_mono) simp_all
  moreover have "t_addr ?t + t_len ?t \<le> base + c * PAYLOAD_STRIDE + len"
  proof (cases "len = 0")
    case True
    with assms(3) show ?thesis by (simp add: transfer_trb_def trb_count_def Let_def)
  next
    case False
    then obtain q r where "len = 1024 * q + r" "r < 1024" "trb_count len = (if r = 0 then q else q + 1)"
      using trb_count_split [of len] by blast
    then have "1024 * i \<le> len" using assms(3) by (auto split: if_splits)
    then show ?thesis
      using False assms(3) trb_len [of len i "base + c * PAYLOAD_STRIDE" flag]
      by (simp add: transfer_trb_def Let_def MAX_TRB_XFER_LEN_def)
  qed
  ultimately show ?thesis using assms(2) by (simp add: in_staging_def transfer_trb_def Let_def)
qed

lemma safe_count [simp]: "class_safe (count f u) = class_safe u"
  by (simp add: class_safe_def count_def)

lemma safe_post [simp]: "class_safe (post m u) = class_safe u"
  by (simp add: class_safe_def post_def)

lemma safe_notify [simp]:
  "class_safe (notify_chunk_done u) = class_safe u" "class_safe (notify_stream_state n u) = class_safe u"
  by (simp_all add: notify_chunk_done_def notify_stream_state_def)

lemma safe_idle:
  "class_safe u \<Longrightarrow> class_safe (u\<lparr>cursor := c, frame_active := False\<rparr>)"
  by (simp add: class_safe_def Let_def)

lemma safe_enqueue:
  assumes "class_safe u" "cursor u < payloads (chunk u)"
  shows "class_safe (enqueue_payload u)"
proof (cases "hw_locked (hw u)")
  case True
  with assms show ?thesis by (simp add: enqueue_payload_def safe_idle)
next
  case False
  have c: "cursor u < UVC_CHUNK_PAYLOADS" "payload_bytes u \<le> PAYLOAD_STRIDE"
    using assms by (simp_all add: class_safe_def payload_bytes_def Let_def)
  have "list_all (in_staging (staging_phys u)) (transfer_trbs (staging_phys u + cursor u * PAYLOAD_STRIDE) (payload_bytes u) g)" for g
    using trb_in_slot [OF c] by (simp add: transfer_trbs_def list_all_iff)
  with False assms show ?thesis by (simp add: enqueue_payload_def class_safe_def bulk_xfer_def Let_def)
qed

lemma safe_kick: "class_safe u \<Longrightarrow> class_safe (kick u)"
  by (auto simp: kick_def intro!: safe_enqueue) (simp add: class_safe_def Let_def)

lemma safe_complete:
  assumes "class_safe u"
  shows "class_safe (endpoint_in_complete a u)"
proof -
  let ?u = "count (\<lambda>d. d\<lparr>completions := completions d + 1\<rparr>) (u\<lparr>in_flight := False\<rparr>)"
  define w where "w = (if hw_locked (hw ?u) then ?u else ?u\<lparr>hw := (hw ?u)\<lparr>app_ptr := None\<rparr>\<rparr>)"
  have w: "class_safe w" using assms by (simp add: class_safe_def count_def Let_def w_def)
  have "endpoint_in_complete a u =
      (if a \<noteq> ep_in u then u
       else if discard_completion w then kick (w\<lparr>discard_completion := False\<rparr>)
       else if \<not> frame_active w then w
       else if cursor w + 1 < payloads (chunk w) then enqueue_payload (w\<lparr>cursor := cursor w + 1\<rparr>)
       else notify_chunk_done (w\<lparr>cursor := 0, chunks_sent := chunks_sent w + 1,
         frames_sent := (if eof (chunk w) then frames_sent w + 1 else frames_sent w), frame_active := False\<rparr>))"
    unfolding endpoint_in_complete_def w_def Let_def by simp
  moreover have "class_safe (w\<lparr>discard_completion := False\<rparr>)" using w by (simp add: class_safe_def)
  moreover have "class_safe (enqueue_payload (w\<lparr>cursor := cursor w + 1\<rparr>))" if "cursor w + 1 < payloads (chunk w)"
    using that w by (intro safe_enqueue) (simp_all add: class_safe_def Let_def)
  moreover have "class_safe (w\<lparr>cursor := 0, chunks_sent := x, frames_sent := y, frame_active := False\<rparr>)" for x y
    using w by (simp add: class_safe_def Let_def)
  ultimately show ?thesis using assms w safe_kick by simp
qed

lemma safe_streams:
  assumes "class_safe u"
  shows "class_safe (reset_state u)" "class_safe (start_stream u)" "class_safe (stop_stream u)"
  using assms unfolding reset_state_def start_stream_def stop_stream_def Let_def
  by (auto split: if_split) (simp_all add: class_safe_def Let_def)

lemma safe_adopt: "class_safe u \<Longrightarrow> class_safe (adopt_probe_proposal u)"
  by (simp add: class_safe_def adopt_probe_proposal_def Let_def split: option.split) arith

lemma safe_poll: "class_safe u \<Longrightarrow> class_safe (poll (u\<lparr>hw := (hw u)\<lparr>last_class_out_setup := s\<rparr>\<rparr>))"
proof -
  assume "class_safe u"
  then have "class_safe (u\<lparr>hw := (hw u)\<lparr>last_class_out_setup := p\<rparr>, probe_pending := b\<rparr>)" for p b
    by (simp add: class_safe_def)
  moreover from this have "class_safe (u\<lparr>hw := (hw u)\<lparr>last_class_out_setup := p\<rparr>\<rparr>)" for p
    by (simp add: class_safe_def)
  ultimately show ?thesis
    by (auto simp: poll_def Let_def safe_streams safe_adopt split: option.split)
qed

lemma safe_control_out: "class_safe u \<Longrightarrow> class_safe (snd (control_out req u))"
  by (auto simp: control_out_def Let_def safe_streams split: RequestType.split)

lemma safe_control_in:
  assumes "class_safe u"
  shows "\<exists>r w. (control_in req u :: ('e, _) outcome) = Ok (r, w) \<and> class_safe w"
proof -
  have "\<exists>d. (probe_data w :: ('e, _) outcome) = Ok d" if "class_safe w" for w
    using that by (simp add: probe_data_def class_safe_def Let_def)
  moreover have "class_safe (if request req = GET_CUR then adopt_probe_proposal u else u)"
    using assms safe_adopt by simp
  ultimately obtain d where
      "(probe_data (if request req = GET_CUR then adopt_probe_proposal u else u) :: ('e, _) outcome) = Ok d"
      "class_safe (if request req = GET_CUR then adopt_probe_proposal u else u)"
    by blast
  with assms have "\<exists>r w. (class_request req u :: ('e, _) outcome) = Ok (r, w) \<and> class_safe w"
    unfolding class_request_def Let_def by auto
  moreover have "class_safe w" if "vendor_request req u = Some (r, w)" for r w
  proof -
    have "class_safe (u\<lparr>dump := x\<rparr>)" for x using assms by (simp add: class_safe_def)
    with that assms show ?thesis
      by (auto simp: vendor_request_def inject_def split: if_splits prod.splits)
  qed
  ultimately show ?thesis unfolding control_in_def by (auto split: option.split)
qed

section \<open>The service\<close>

lemma service_view:
  "service_safe (on_uvc f v) \<longleftrightarrow> class_safe (f (uvc v)) \<and> (\<forall>buf. staging v = Some buf \<longrightarrow> STAGING_BYTES \<le> length buf)"
  "service_safe (v\<lparr>uvc_pending := p\<rparr>) = service_safe v" "service_safe (v\<lparr>uvc_observer := ob\<rparr>) = service_safe v"
  "service_safe (v\<lparr>observed := obs\<rparr>) = service_safe v" "service_safe (v\<lparr>double_lock := b\<rparr>) = service_safe v"
  "service_safe (v\<lparr>kick_requested := b\<rparr>) = service_safe v" "service_safe (answer_lend l v) = service_safe v"
  "service_safe (sw_irq_kick v) = service_safe v"
  by (simp_all add: service_safe_def on_uvc_def answer_lend_def sw_irq_kick_def)

lemma safe_on_count [simp]: "service_safe (on_uvc (count f) v) = service_safe v"
  by (simp add: service_safe_def)

lemma safe_class: "service_safe v \<Longrightarrow> class_safe (uvc v)"
  "service_safe v \<Longrightarrow> staging v = Some buf \<Longrightarrow> STAGING_BYTES \<le> length buf"
  by (simp_all add: service_safe_def)

lemma safe_stage:
  assumes "service_safe v" "staging v = Some buf"
  shows "\<exists>l' v'. (uvc_stage_chunk l buf v :: ('e, _) outcome) = Ok (l', v') \<and> service_safe v' \<and>
    l_sent l' = l_sent l \<and> l_data l' = l_data l \<and> answered v' = answered v \<and> uvc_pending v' = uvc_pending v"
proof (cases "memory_message_mut (l_body l)")
  case (Some m)
  show ?thesis
  proof (cases "bad_chunk m (l_data l)")
    case True
    with Some assms show ?thesis
      by (simp add: uvc_stage_chunk_def service_view safe_class set_valid_def)
  next
    case False
    let ?per = "lend_per m" and ?d = "take (lend_len m) (l_data l)" and ?e = "lend_last m"
    let ?fid = "if lend_first m then uvc_fid v XOR 1 else uvc_fid v"
    let ?n = "length (chunk_pieces ?per ?d)"
    have ok: "0 < ?per" "?per \<le> UVC_MAX_PAYLOAD_DATA" "?d \<noteq> []" using False by (auto simp: bad_chunk_def)
    obtain buf' where buf': "(stage_chunk buf ?d ?per ?fid ?e :: ('e, _) outcome) =
        Ok (buf', ?n, PAYLOAD_HDR + ?per, length (chunk_payloads ?fid ?e ?per ?d ! (?n - 1)))" "length buf' = length buf"
      using stage_chunk_ok [OF ok safe_class(2) [OF assms], where fid = ?fid and e = ?e] by metis
    have n: "0 < ?n" "?n \<le> UVC_CHUNK_PAYLOADS" using chunk_pieces_pos [OF ok(1,3)] chunk_pieces_le by simp_all
    have "length (chunk_payloads ?fid ?e ?per ?d ! (?n - 1)) \<le> PAYLOAD_STRIDE"
      using n(1) by (intro payload_fits(1) [OF ok(1,2)]) simp
    moreover have "PAYLOAD_HDR + ?per \<le> PAYLOAD_STRIDE" using ok(2) by (simp add: uvc_sizes)
    ultimately have "class_safe (set_chunk ?n (PAYLOAD_HDR + ?per) (length (chunk_payloads ?fid ?e ?per ?d ! (?n - 1))) ?e (uvc v))"
      using n safe_class(1) [OF assms(1)] by (simp add: class_safe_def set_chunk_def Let_def)
    then have "service_safe (sw_irq_kick (on_uvc (set_chunk ?n (PAYLOAD_HDR + ?per)
        (length (chunk_payloads ?fid ?e ?per ?d ! (?n - 1))) ?e) (v\<lparr>uvc_fid := ?fid, staging := Some buf'\<rparr>)))"
      using safe_class(2) [OF assms] buf'(2) by (simp add: service_view)
    with Some False buf'(1) show ?thesis
      by (simp add: uvc_stage_chunk_def set_valid_def Let_def) (simp add: sw_irq_kick_def on_uvc_def)
  qed
qed (use assms in \<open>simp add: uvc_stage_chunk_def\<close>)

text \<open>Resuming: a waiting chunk is answered unless a chunk is still going out.\<close>

lemma safe_resume:
  assumes "service_safe v"
  shows "\<exists>v'. (uvc_resume_pending v :: ('e, _) outcome) = Ok v' \<and> service_safe v' \<and>
    (case uvc_pending v of
       None \<Rightarrow> v' = v
     | Some l \<Rightarrow>
         if streaming (uvc v) \<and> frame_active (uvc v) then v' = v
         else uvc_pending v' = None \<and>
           (\<exists>l'. answered v' = answered v @ [l'] \<and> l_sent l' = l_sent l \<and> l_data l' = l_data l))"
proof (cases "uvc_pending v")
  case (Some l)
  let ?v = "v\<lparr>uvc_pending := None\<rparr>"
  have v: "service_safe ?v" using assms by (simp add: service_view)
  show ?thesis
  proof (cases "streaming (uvc v) \<and> staging v \<noteq> None \<and> \<not> frame_active (uvc v)")
    case True
    then obtain buf where "staging ?v = Some buf" by auto
    from safe_stage [OF v this, of l, where 'e = 'e] True Some this show ?thesis
      by (auto simp: uvc_resume_pending_def Let_def service_view) (auto simp: answer_lend_def)
  next
    case False
    with Some assms v show ?thesis
      by (auto simp: uvc_resume_pending_def Let_def service_view split: option.split)
         (auto simp: answer_lend_def set_valid_def)
  qed
qed (use assms in \<open>simp add: uvc_resume_pending_def\<close>)

lemma safe_send_frame:
  assumes "service_safe v"
  shows "\<exists>v' xs. (handle_send_frame l v :: ('e, _) outcome) = Ok v' \<and> service_safe v' \<and> answered v' = answered v @ xs"
proof (cases "streaming (uvc v) \<and> staging v \<noteq> None \<and> \<not> frame_active (uvc v)")
  case True
  then obtain buf where "staging v = Some buf" by auto
  from safe_stage [OF assms this, of l, where 'e = 'e] True this show ?thesis
    by (auto simp: handle_send_frame_def service_view) (auto simp: answer_lend_def)
next
  case False
  with assms show ?thesis
    by (auto simp: handle_send_frame_def service_view safe_class split: option.split)
       (auto simp: answer_lend_def on_uvc_def)
qed

lemma safe_observer:
  "service_safe (tell_observer x y v) = service_safe v" "answered (tell_observer x y v) = answered v"
  by (auto simp: tell_observer_def service_view safe_class split: option.split)
     (simp_all add: service_safe_def on_uvc_def)

lemma safe_dispatch:
  assumes "service_safe v"
  shows "\<exists>v' xs. (dispatch m v :: ('e, _) outcome) = Ok v' \<and> service_safe v' \<and> answered v' = answered v @ xs"
proof (cases m)
  case Bus_reset
  have "service_safe (on_uvc reset_state v)"
    using assms safe_streams(1) [OF safe_class(1) [OF assms]] by (simp add: service_safe_def)
  moreover have "service_safe (on_uvc (\<lambda>u. u\<lparr>hw := (hw u)\<lparr>ring := []\<rparr>\<rparr>) w)" if "service_safe w" for w
    using that by (simp add: service_safe_def class_safe_def Let_def)
  ultimately show ?thesis
    using Bus_reset safe_resume [of "on_uvc reset_state v", where 'e = 'e]
    by (fastforce simp: safe_observer on_uvc_def split: option.splits if_splits)
next
  case (Send_frame msg d)
  then show ?thesis using safe_send_frame [OF assms] by simp
qed (use assms in \<open>simp_all add: safe_observer service_view(3) split: option.split\<close>)

lemma safe_turn:
  assumes "service_safe v"
  shows "\<exists>v' v1 xs. (main_turn m v :: ('e, _) outcome) = Ok v' \<and> service_safe v' \<and>
    (uvc_resume_pending (note_message m v) :: ('e, _) outcome) = Ok v1 \<and> answered v' = answered v1 @ xs"
proof -
  have "service_safe (note_message m v)" using assms by (simp add: note_message_def)
  then obtain v1 where v1: "(uvc_resume_pending (note_message m v) :: ('e, _) outcome) = Ok v1" "service_safe v1"
    using safe_resume [where 'e = 'e] by blast
  have "service_safe (note_double_lock v1)" "answered (note_double_lock v1) = answered v1"
    using v1(2) by (simp_all add: note_double_lock_def service_view(5))
  then obtain v2 xs where "(dispatch m (note_double_lock v1) :: ('e, _) outcome) = Ok v2" "service_safe v2"
      "answered v2 = answered v1 @ xs"
    using safe_dispatch [of "note_double_lock v1" m, where 'e = 'e] by auto
  with v1(1) show ?thesis by (simp add: main_turn_def)
qed

lemma rest_of_ring: "set (snd (first_transfer ts)) \<subseteq> set ts"
  by (induction ts rule: first_transfer.induct) (auto split: prod.splits)

lemma safe_host_reads: "service_safe (svc k) \<Longrightarrow> service_safe (svc (host_reads k))"
proof -
  assume v: "service_safe (svc k)"
  let ?u = "uvc (svc k)"
  have "class_safe (?u\<lparr>hw := (hw ?u)\<lparr>ring := snd (first_transfer (ring (hw ?u)))\<rparr>\<rparr>)"
    using safe_class(1) [OF v] rest_of_ring [of "ring (hw ?u)"] by (auto simp: class_safe_def list_all_iff Let_def)
  then have "class_safe (endpoint_in_complete (ep_in ?u) (?u\<lparr>hw := (hw ?u)\<lparr>ring := rest\<rparr>\<rparr>))"
    if "first_transfer (ring (hw ?u)) = (ts, rest)" for ts rest
    using that safe_complete by simp
  with v show ?thesis
    by (auto simp: host_reads_def Let_def service_view service_safe_def split: option.split prod.split list.split)
qed

lemma safe_event:
  assumes "service_safe (svc k)"
  shows "\<exists>k'. (run_event e k :: ('e, _) outcome) = Ok k' \<and> service_safe (svc k')"
proof (cases e)
  case (Msg m)
  then show ?thesis using safe_turn [OF assms, of m, where 'e = 'e] by auto
next
  case Soft_irq
  then show ?thesis using assms by (simp add: soft_irq_def service_safe_def safe_kick)
next
  case Host_reads
  then show ?thesis using safe_host_reads [OF assms] by simp
next
  case (Setup s)
  then show ?thesis using assms by (simp add: service_safe_def safe_poll)
next
  case (Data_out d)
  then show ?thesis using assms by (simp add: service_safe_def class_safe_def)
next
  case (Control_in req)
  obtain r w where "(control_in req (uvc (svc k)) :: ('e, _) outcome) = Ok (r, w)" "class_safe w"
    using safe_control_in [OF safe_class(1) [OF assms], of req, where 'e = 'e] by blast
  with Control_in assms show ?thesis by (simp add: service_safe_def)
next
  case (Control_out req)
  then show ?thesis using assms by (simp add: service_safe_def safe_control_out)
next
  case Reset_irq
  have "class_safe ((reset_state (uvc (svc k)))\<lparr>hw := (hw (uvc (svc k)))\<lparr>ring := []\<rparr>\<rparr>)"
    using safe_streams(1) [OF safe_class(1) [OF assms]] by (simp add: class_safe_def Let_def)
  with Reset_irq assms show ?thesis by (simp add: service_safe_def)
qed

interpretation any_events:
  safe_machine "run_event :: _ \<Rightarrow> _ \<Rightarrow> ('e, _) outcome" run_events "\<lambda>_. True" "\<lambda>k. service_safe (svc k)"
  by unfold_locales (rule safe_event)

lemma safe_events:
  "service_safe (svc k) \<Longrightarrow> \<exists>k'. (run_events es k :: ('e, _) outcome) = Ok k' \<and> service_safe (svc k')"
  by (rule any_events.run_safe) simp_all


definition new_service :: "nat \<Rightarrow> UsbService" where
  "new_service phys =
     \<lparr>uvc = UvcClass_new 0 1 0x84 \<lparr>hw_locked = False, ep0_buf = None, last_class_out_setup = None,
              app_ptr = None, enq_ready = True, ring = []\<rparr> phys,
      staging = Some (replicate STAGING_BYTES 0), uvc_pending = None, uvc_fid = 0, uvc_observer = None,
      observer_full = False, observed = [], kick_requested = False, double_lock = False, answered = []\<rparr>"

lemma new_service_safe: "service_safe (new_service phys)"
  by (simp add: new_service_def service_safe_def class_safe_def UvcClass_new_def UVC_MODES_def Let_def)


text \<open>
  C23. No camera waits forever. When a chunk waits for the staging buffer and no chunk is going out any more, be it
  that the last one was delivered or that the stream was stopped or reset, then the next turn of the main loop, whatever message
  starts it, gives the waiting chunk back to its sender before it serves the message.
\<close>

theorem deferred_chunk_answered:
  assumes "service_safe v" "uvc_pending v = Some l" "\<not> (streaming (uvc v) \<and> frame_active (uvc v))"
  shows "\<exists>v' l' xs. (main_turn m v :: (unit, _) outcome) = Ok v' \<and> answered v' = answered v @ l' # xs \<and>
    l_sent l' = l_sent l \<and> l_data l' = l_data l"
proof -
  let ?v = "note_message m v"
  have v: "service_safe ?v" "uvc_pending ?v = Some l" "answered ?v = answered v"
      "\<not> (streaming (uvc ?v) \<and> frame_active (uvc ?v))"
    using assms by (simp_all add: note_message_def) (simp add: count_def)
  obtain v' v1 xs where turn: "(main_turn m v :: (unit, _) outcome) = Ok v'"
      "(uvc_resume_pending ?v :: (unit, _) outcome) = Ok v1" "answered v' = answered v1 @ xs"
    using safe_turn [OF assms(1), of m, where 'e = unit] by blast
  then obtain l' where "answered v1 = answered v @ [l']" "l_sent l' = l_sent l" "l_data l' = l_data l"
    using safe_resume [OF v(1), where 'e = unit] v(2-4) by auto
  with turn show ?thesis by simp
qed

theorem deferred_chunk_answered_witness:
  "let m = uvc_send_chunk \<lparr>addr = 4096, rsize = 4096\<rparr> 3 1000 True True;
       v = (new_service 4096)\<lparr>uvc_pending := Some (lend_chunk m [1, 2, 3])\<rparr> in
   \<exists>v' l' xs. (main_turn Frame_done v :: (unit, _) outcome) = Ok v' \<and> answered v' = l' # xs \<and> l_sent l' = m"
proof -
  let ?m = "uvc_send_chunk \<lparr>addr = 4096, rsize = 4096\<rparr> 3 1000 True True"
  let ?v = "(new_service 4096)\<lparr>uvc_pending := Some (lend_chunk ?m [1, 2, 3])\<rparr>"
  have "service_safe ?v" using new_service_safe by (simp add: service_view)
  moreover have "uvc_pending ?v = Some (lend_chunk ?m [1, 2, 3])" "\<not> (streaming (uvc ?v) \<and> frame_active (uvc ?v))"
    by (simp_all add: new_service_def UvcClass_new_def)
  ultimately obtain v' l' xs where "(main_turn Frame_done ?v :: (unit, _) outcome) = Ok v'" "answered v' = answered ?v @ l' # xs"
      "l_sent l' = l_sent (lend_chunk ?m [1, 2, 3])"
    using deferred_chunk_answered by blast
  then show ?thesis by (simp add: new_service_def lend_chunk_def)
qed

end
