(* ===== verification/Uvc_Session.thy ===== *)
theory Uvc_Session
  imports Uvc_Stream
begin

text \<open>
  Sessions of the webcam: the negotiation that ends in a running stream with the frame size the host chose,
  and the restart of a stream while a transfer is still queued.
\<close>

section \<open>Negotiation\<close>

definition set_cur :: "u8 \<Rightarrow> u8 \<Rightarrow> u8 list" where
  "set_cur selector iface = [0x21, SET_CUR, 0, selector, iface, 0, 26, 0]"

definition get_cur :: "u8 \<Rightarrow> Request" where
  "get_cur iface =
     \<lparr>to_host = True, request_type = Class, recipient = Interface, request = GET_CUR,
      rq_value = push_bit 8 (ucast VS_PROBE_CONTROL), rq_index = ucast iface, rq_length = 26\<rparr>"

lemma nth_put_other: "j < i \<or> i + length xs \<le> j \<Longrightarrow> i + length xs \<le> length d \<Longrightarrow> put i xs d ! j = d ! j"
  by (auto simp: put_def nth_append)

lemma nth_put_one: "i < length d \<Longrightarrow> put i [x] d ! i = x"
  by (simp add: put_def nth_append)

lemma low_byte: "ucast ((ucast (x :: u8) :: u16) AND 0xff) = x"
proof -
  have m: "(0xff :: u16) = mask 8" by (simp add: mask_eq_exp_minus_1)
  show ?thesis unfolding m by (rule bit_word_eqI) (simp add: bit_simps)
qed

lemma get_cur_whole: "length d = 26 \<Longrightarrow> answer (get_cur iface) d = Accept_with d"
  by (simp add: answer_def get_cur_def)

lemma get_cur_answer:
  assumes "selected (adopt_probe_proposal u) < length UVC_MODES"
  shows "\<exists>d. (control_in (get_cur (vs_if u)) u :: ('e, _) outcome) = Ok (Accept_with d, adopt_probe_proposal u) \<and>
    length d = PROBE_LEN \<and> d ! 3 = of_nat (selected (adopt_probe_proposal u) + 1) \<and>
    take 4 (drop 18 d) = le_bytes 4 (of_nat (frame_bytes (UVC_MODES ! selected (adopt_probe_proposal u))) :: u32)"
proof -
  let ?w = "adopt_probe_proposal u"
  let ?mode = "UVC_MODES ! selected ?w"
  let ?d3 = "put 3 [of_nat (selected ?w + 1)] (put 2 [1] (put 0 (le_bytes 2 (1 :: u16)) (replicate PROBE_LEN (0 :: u8))))"
  let ?d18 = "put 18 (le_bytes 4 (of_nat (frame_bytes ?mode) :: u32)) (put 4 (le_bytes 4 (interval ?mode)) ?d3)"
  let ?d = "put 22 (le_bytes 4 (of_nat (PAYLOAD_HDR + payload_data ?mode) :: u32)) ?d18"
  have len: "length ?d3 = 26" "length ?d18 = 26" "length ?d = 26" by (simp_all add: PROBE_LEN_def)
  have "?d ! 3 = ?d18 ! 3" using len by (intro nth_put_other) simp_all
  also have "\<dots> = ?d3 ! 3" by (simp add: nth_put_other PROBE_LEN_def)
  also have "\<dots> = of_nat (selected ?w + 1)" by (intro nth_put_one) (simp add: PROBE_LEN_def)
  finally have "?d ! 3 = of_nat (selected ?w + 1)" .
  moreover have "take 4 (drop 18 ?d) = take 4 (drop 18 ?d18)"
    by (intro take_drop_put_before) (simp_all add: PROBE_LEN_def)
  moreover have "take 4 (drop 18 ?d18) = le_bytes 4 (of_nat (frame_bytes ?mode) :: u32)"
    using take_drop_put_same [of 18 "le_bytes 4 (of_nat (frame_bytes ?mode) :: u32)"] by (simp add: PROBE_LEN_def)
  moreover have "(probe_data ?w :: ('e, _) outcome) = Ok ?d" using assms by (simp add: probe_data_def Let_def)
  moreover have "(control_in (get_cur (vs_if u)) u :: ('e, _) outcome) =
      bind_outcome (probe_data ?w) (\<lambda>d. Ok (answer (get_cur (vs_if u)) d, ?w))"
    by (simp add: control_in_def class_request_def get_cur_def low_byte VS_PROBE_CONTROL_def Let_def)
  moreover have "answer (get_cur (vs_if u)) ?d = Accept_with ?d"
    using len(3) by (rule get_cur_whole)
  ultimately show ?thesis using len(3) by (auto simp: PROBE_LEN_def)
qed

text \<open>
  C26. The host gets the frame size it asked for. If the host proposes a frame index that exists with SET_CUR of the probe control, reads the
  answer back with GET_CUR and then commits, then the answer names the proposed index and the size of its frames, the stream runs with that mode, and
  the service is told so, unless its mailbox is full, whatever happened before.
\<close>

theorem negotiated_mode:
  assumes "\<not> hw_locked (hw (uvc (svc k)))" "selected (uvc (svc k)) < length UVC_MODES"
    and "b ! 2 = 1" "1 \<le> unat (b ! 3)" "unat (b ! 3) \<le> length UVC_MODES"
  defines "iface \<equiv> vs_if (uvc (svc k))" and "mode \<equiv> unat (b ! 3) - 1"
  shows "\<exists>k1 d u2 k'. (run_events [Setup (set_cur VS_PROBE_CONTROL iface), Data_out b] k :: (unit, _) outcome) = Ok k1 \<and>
    (control_in (get_cur iface) (uvc (svc k1)) :: (unit, _) outcome) = Ok (Accept_with d, u2) \<and>
    d ! 3 = b ! 3 \<and> take 4 (drop 18 d) = le_bytes 4 (of_nat (frame_bytes (UVC_MODES ! mode)) :: u32) \<and>
    (run_events [Control_in (get_cur iface), Setup (set_cur VS_COMMIT_CONTROL iface)] k1 :: (unit, _) outcome) = Ok k' \<and>
    streaming (uvc (svc k')) \<and> selected (uvc (svc k')) = mode \<and> \<not> frame_active (uvc (svc k')) \<and>
    (mailbox_full (uvc (svc k)) \<or>
     mailbox (uvc (svc k')) = mailbox (uvc (svc k)) @ [new_scalar IrqUvcStreamChange 1 (of_nat mode) 0 0])"
proof -
  let ?u = "uvc (svc k)"
  let ?u1 = "?u\<lparr>hw := (hw ?u)\<lparr>last_class_out_setup := None, ep0_buf := Some b\<rparr>, probe_pending := True\<rparr>"
  let ?u2 = "?u1\<lparr>probe_pending := False, selected := mode\<rparr>"
  let ?u3 = "?u\<lparr>probe_pending := False, selected := mode,
    hw := (hw ?u)\<lparr>ep0_buf := Some b, last_class_out_setup := None\<rparr>\<rparr>"
  have adopt: "adopt_probe_proposal ?u1 = ?u2"
    using assms(1,3-5) by (simp add: adopt_probe_proposal_def mode_def Let_def)
  have run1: "(run_events [Setup (set_cur VS_PROBE_CONTROL iface), Data_out b] k :: (unit, _) outcome) =
      Ok (k\<lparr>svc := (svc k)\<lparr>uvc := ?u1\<rparr>\<rparr>)"
    using assms(1) by (simp add: poll_def set_cur_def iface_def on_uvc_def Let_def VS_PROBE_CONTROL_def)
  have m: "mode < length UVC_MODES" using assms(4,5) by (simp add: mode_def)
  obtain d where d: "(control_in (get_cur iface) ?u1 :: (unit, _) outcome) = Ok (Accept_with d, ?u2)"
      "d ! 3 = of_nat (mode + 1)" "take 4 (drop 18 d) = le_bytes 4 (of_nat (frame_bytes (UVC_MODES ! mode)) :: u32)"
    using get_cur_answer [of ?u1, where 'e = unit, unfolded adopt] m by (auto simp: iface_def)
  have "d ! 3 = b ! 3" using d(2) assms(4) by (simp add: mode_def)
  moreover have "(run_events [Control_in (get_cur iface), Setup (set_cur VS_COMMIT_CONTROL iface)]
      (k\<lparr>svc := (svc k)\<lparr>uvc := ?u1\<rparr>\<rparr>) :: (unit, _) outcome) =
      Ok (k\<lparr>svc := (svc k)\<lparr>uvc := start_stream (count (\<lambda>d. d\<lparr>commits := commits d + 1\<rparr>) ?u3)\<rparr>\<rparr>)"
    using d(1) assms(1)
    by (simp add: poll_def set_cur_def on_uvc_def Let_def VS_PROBE_CONTROL_def VS_COMMIT_CONTROL_def iface_def
        adopt_probe_proposal_def)
  ultimately show ?thesis
    using run1 d by (simp add: start_stream_def notify_stream_state_def post_def count_def)
qed

theorem negotiated_mode_witness:
  "let u = UvcClass_new 0 1 0x84 \<lparr>hw_locked = False, ep0_buf = None, last_class_out_setup = None,
              app_ptr = None, enq_ready = True, ring = []\<rparr> 4096;
       k = \<lparr>svc = \<lparr>uvc = u, staging = None, uvc_pending = None, uvc_fid = 0, uvc_observer = None, observer_full = False,
              observed = [], kick_requested = False, double_lock = False, answered = []\<rparr>, received = []\<rparr> in
   \<exists>k1 k'. (run_events [Setup (set_cur VS_PROBE_CONTROL 1), Data_out [0, 0, 1, 3]] k :: (unit, _) outcome) = Ok k1 \<and>
     (run_events [Control_in (get_cur 1), Setup (set_cur VS_COMMIT_CONTROL 1)] k1 :: (unit, _) outcome) = Ok k' \<and>
     streaming (uvc (svc k')) \<and> selected (uvc (svc k')) = 2 \<and>
     mailbox (uvc (svc k')) = [new_scalar IrqUvcStreamChange 1 2 0 0]"
proof -
  let ?u = "UvcClass_new 0 1 0x84 \<lparr>hw_locked = False, ep0_buf = None, last_class_out_setup = None,
              app_ptr = None, enq_ready = True, ring = []\<rparr> 4096"
  let ?k = "\<lparr>svc = \<lparr>uvc = ?u, staging = None, uvc_pending = None, uvc_fid = 0, uvc_observer = None, observer_full = False,
              observed = [], kick_requested = False, double_lock = False, answered = []\<rparr>, received = []\<rparr>"
  have n: "length UVC_MODES = 3" by (simp add: UVC_MODES_def)
  show ?thesis
    unfolding Let_def using negotiated_mode [of ?k "[0, 0, 1, 3]"] n
    by (simp add: UvcClass_new_def) blast
qed

section \<open>Restart\<close>

text \<open>The transfer of payload \<open>j\<close> of a chunk of \<open>n\<close> payloads.\<close>

definition slot_transfer :: "nat \<Rightarrow> nat \<Rightarrow> nat \<Rightarrow> nat \<Rightarrow> nat \<Rightarrow> Trb list" where
  "slot_transfer base n len final j =
     (let size = (if j + 1 = n then final else len) in
      transfer_trbs (base + j * PAYLOAD_STRIDE) size (payload_flag size))"

text \<open>The controller finishes the oldest transfer of the ring.\<close>

definition finish_transfer :: "UvcClass \<Rightarrow> UvcClass" where
  "finish_transfer u =
     endpoint_in_complete (ep_in u) (u\<lparr>hw := (hw u)\<lparr>ring := snd (first_transfer (ring (hw u)))\<rparr>\<rparr>)"

lemma next_transfer:
  "0 < l \<Longrightarrow> first_transfer (transfer_trbs a l (payload_flag l) @ rest) = (transfer_trbs a l (payload_flag l), rest)"
  using first_transfer_trbs [OF no_chain trb_count_bounds(1), of l a l rest] by (simp add: transfer_trbs_def)

lemma next_slot:
  "0 < len \<Longrightarrow> 0 < final \<Longrightarrow>
   first_transfer (slot_transfer base n len final j @ rest) = (slot_transfer base n len final j, rest)"
  by (simp add: slot_transfer_def next_transfer Let_def)

lemma enqueue_slot:
  assumes "\<not> hw_locked (hw u)" "enq_ready (hw u)" "chunk u = \<lparr>payloads = n, payload_len = len, last_len = final, eof = e\<rparr>"
  shows "enqueue_payload u = u\<lparr>hw := (hw u)\<lparr>app_ptr := None,
    ring := ring (hw u) @ slot_transfer (staging_phys u) n len final (cursor u)\<rparr>, in_flight := True\<rparr>"
  using assms
  by (simp add: enqueue_payload_def bulk_xfer_def slot_transfer_def payload_bytes_def payload_flag_def Let_def)

text \<open>The ring holds one transfer more than the class believes.\<close>

definition one_behind :: "nat \<Rightarrow> nat \<Rightarrow> nat \<Rightarrow> nat \<Rightarrow> bool \<Rightarrow> nat \<Rightarrow> UvcClass \<Rightarrow> bool" where
  "one_behind base n len final e j u =
     (frame_active u \<and> in_flight u \<and> \<not> discard_completion u \<and> \<not> hw_locked (hw u) \<and> enq_ready (hw u) \<and>
      staging_phys u = base \<and> cursor u = j \<and> chunk u = \<lparr>payloads = n, payload_len = len, last_len = final, eof = e\<rparr> \<and>
      ring (hw u) = slot_transfer base n len final (j - 1) @ slot_transfer base n len final j)"

lemma behind_step:
  assumes "one_behind base n len final e j u" "0 < len" "0 < final" "j < n"
  shows "if j + 1 < n then one_behind base n len final e (j + 1) (finish_transfer u)
         else \<not> frame_active (finish_transfer u) \<and> \<not> in_flight (finish_transfer u) \<and>
              ring (hw (finish_transfer u)) = slot_transfer base n len final j"
proof -
  let ?u = "u\<lparr>hw := (hw u)\<lparr>ring := slot_transfer base n len final j\<rparr>\<rparr>"
  have f: "finish_transfer u = endpoint_in_complete (ep_in ?u) ?u"
    using assms next_slot by (simp add: finish_transfer_def one_behind_def)
  show ?thesis
    unfolding f using assms complete_next [of ?u]
    by (simp add: one_behind_def enqueue_slot count_def notify_chunk_done_def post_def)
qed

lemma behind_steps:
  assumes "one_behind base n len final e 0 u" "0 < len" "0 < final" "j < n"
  shows "one_behind base n len final e j ((finish_transfer ^^ j) u)"
  using assms(4)
proof (induction j)
  case (Suc j)
  then show ?case using behind_step [of base n len final e j "(finish_transfer ^^ j) u"] assms(2,3) by simp
qed (use assms in simp)

text \<open>
  C39. A restarted stream stays one transfer behind. Let the host restart the stream while a transfer is queued, and let the first
  chunk of the new stream be started before the host reads that transfer. Then the completion of the old transfer
  starts the first payload a second time, and when the class reports the whole chunk as sent and offers the staging buffer to the next
  chunk, the transfer of its last payload is still in the ring: its bytes are overwritten before the host reads them.
  The comment at \<open>start_stream\<close> expects no more than one payload sent twice.
\<close>

theorem restart_stays_behind:
  fixes e :: bool
  assumes "in_flight u" "\<not> hw_locked (hw u)" "enq_ready (hw u)" "staging_phys u \<noteq> 0"
    and old: "ring (hw u) = transfer_trbs a l (payload_flag l)" "0 < l"
    and n: "0 < n" "0 < len" "0 < final"
  defines "w \<equiv> (finish_transfer ^^ Suc n) (kick (set_chunk n len final e (start_stream u)))"
  shows "\<not> frame_active w \<and> \<not> in_flight w \<and>
    ring (hw w) = transfer_trbs (staging_phys u + (n - 1) * PAYLOAD_STRIDE) final (payload_flag final)"
proof -
  let ?u1 = "kick (set_chunk n len final e (start_stream u))" and ?s = "slot_transfer (staging_phys u) n len final"
  have u1: "ring (hw ?u1) = transfer_trbs a l (payload_flag l) @ ?s 0" "discard_completion ?u1" "frame_active ?u1" "streaming ?u1"
      "cursor ?u1 = 0" "chunk ?u1 = \<lparr>payloads = n, payload_len = len, last_len = final, eof = e\<rparr>" "staging_phys ?u1 = staging_phys u"
      "\<not> hw_locked (hw ?u1)" "enq_ready (hw ?u1)"
    using assms(1-5)
    by (simp_all add: kick_def set_chunk_def start_stream_def notify_stream_state_def post_def count_def enqueue_slot)
  have "one_behind (staging_phys u) n len final e 0 (finish_transfer ?u1)"
    using u1 assms(4) next_transfer [OF old(2)]
    by (simp add: finish_transfer_def endpoint_in_complete_def kick_def count_def Let_def enqueue_slot one_behind_def)
  from behind_steps [OF this n(2,3), of "n - 1"] n(1)
  have "one_behind (staging_phys u) n len final e (n - 1) ((finish_transfer ^^ (n - 1)) (finish_transfer ?u1))" by simp
  from behind_step [OF this n(2,3)] n(1)
  have "\<not> frame_active w \<and> \<not> in_flight w \<and> ring (hw w) = ?s (n - 1)"
    unfolding w_def by (cases n) (simp_all add: funpow_swap1)
  with n(1) show ?thesis by (simp add: slot_transfer_def)
qed

theorem restart_stays_behind_witness:
  "let u = (UvcClass_new 0 1 0x84 \<lparr>hw_locked = False, ep0_buf = None, last_class_out_setup = None, app_ptr = None,
              enq_ready = True, ring = transfer_trbs 4096 4802 (payload_flag 4802)\<rparr> 4096)\<lparr>in_flight := True\<rparr>;
       w = (finish_transfer ^^ 9) (kick (set_chunk 8 4802 100 True (start_stream u))) in
   \<not> frame_active w \<and> ring (hw w) = transfer_trbs (4096 + 7 * PAYLOAD_STRIDE) 100 (payload_flag 100) \<and> ring (hw w) \<noteq> []"
proof -
  let ?u = "(UvcClass_new 0 1 0x84 \<lparr>hw_locked = False, ep0_buf = None, last_class_out_setup = None, app_ptr = None,
              enq_ready = True, ring = transfer_trbs 4096 4802 (payload_flag 4802)\<rparr> 4096)\<lparr>in_flight := True\<rparr>"
  have "Suc 8 = (9 :: nat)" by simp
  with restart_stays_behind [where u = ?u and a = 4096 and l = 4802 and n = 8 and len = 4802 and final = 100 and e = True] trbs_not_Nil [of 100] show ?thesis
    unfolding Let_def by (simp add: UvcClass_new_def)
qed

end
