(* ===== verification/Capture.thy ===== *)
theory Capture
  imports Uvc_Service
begin

text \<open>
  The capture side of the webcam (services/bao-video/src/main.rs): a frame arrives from the sensor as a chain of
  DMA transfers through a ring of slots in the camera's memory (IFRAM); the handler of the camera
  interrupt copies each finished transfer out, hands it to the USB service as one chunk and queues slots again.
\<close>

section \<open>State\<close>

text \<open>
  The receive channel of the camera interface (libs/bao1x-hal/src/gc2145): the memory, the queued
  transfers as pairs of offset and length, and, as a history, the bytes of the transfers finished since the channel
  was cleared. \<open>copying\<close> is the transfer whose slot the handler is about to copy: its number and its slot.
  \<open>frame\<close> is the buffer that is lent to the USB service, and \<open>offered\<close> the chunks handed to it.
\<close>

record CamDma =
  ifram :: "u8 list"
  dma_queue :: "(nat \<times> nat) list"
  written :: "u8 list list"

record WebcamState =
  cam :: CamDma
  frame :: "u8 list"
  captured :: nat
  sent :: nat
  dropped :: nat
  session :: usize
  crop_words :: nat
  rowlen_override :: nat
  mode_index :: nat
  custom :: "UvcMode option"
  xfer_queued :: nat
  xfer_done :: nat
  slot_base :: usize
  slot_counter :: usize
  overruns :: nat
  first_session :: bool
  copying :: "(nat \<times> nat) option"
  offered :: "(bool \<times> bool \<times> nat \<times> u8 list) list"

definition UVC_RING_DEPTH :: nat where "UVC_RING_DEPTH = 3"
definition CAM_IFRAM_LEN :: nat where "CAM_IFRAM_LEN = 30 * 4096"

record RingGeometry =
  g_slot_rows :: nat
  g_height :: nat
  g_line_bytes :: nat
  g_slot_bytes :: nat
  g_depth :: nat
  g_transfers :: nat

definition cam_mode :: "WebcamState \<Rightarrow> UvcMode" where
  "cam_mode w = (case custom w of Some m \<Rightarrow> m | None \<Rightarrow> UVC_MODES ! mode_index w)"

definition webcam_line_px :: "WebcamState \<Rightarrow> UvcMode \<Rightarrow> nat" where
  "webcam_line_px w m =
     (if custom w \<noteq> None \<and> rowlen_override w \<noteq> 0 then rowlen_override w else line_px m)"

definition webcam_ring_geometry :: "nat \<Rightarrow> UvcMode \<Rightarrow> nat \<Rightarrow> RingGeometry" where
  "webcam_ring_geometry ifram_len m lpx =
     (let line_bytes = lpx * 2; slot_bytes = slot_rows m * line_bytes in
      \<lparr>g_slot_rows = slot_rows m, g_height = height m, g_line_bytes = line_bytes, g_slot_bytes = slot_bytes,
       g_depth = max 1 (min (ifram_len div slot_bytes) UVC_RING_DEPTH), g_transfers = transfers m\<rparr>)"

definition ring_of :: "WebcamState \<Rightarrow> RingGeometry" where
  "ring_of w = webcam_ring_geometry (length (ifram (cam w))) (cam_mode w) (webcam_line_px w (cam_mode w))"

section \<open>The ring\<close>

definition dma_state :: "CamDma \<Rightarrow> bool \<times> bool" where
  "dma_state c = (dma_queue c \<noteq> [], length (dma_queue c) \<ge> 2)"

definition dma_clear :: "CamDma \<Rightarrow> CamDma" where
  "dma_clear c = c\<lparr>dma_queue := [], written := []\<rparr>"

definition enqueue_rx :: "nat \<Rightarrow> nat \<Rightarrow> CamDma \<Rightarrow> ('e, CamDma) outcome" where
  "enqueue_rx offset len c =
     (if offset + len \<le> length (ifram c) then Ok (c\<lparr>dma_queue := dma_queue c @ [(offset, len)]\<rparr>) else Panic)"

definition slot_of :: "RingGeometry \<Rightarrow> usize \<Rightarrow> nat \<Rightarrow> nat" where
  "slot_of g base k = unat (base + of_nat k) mod g_depth g"

definition rows_of :: "RingGeometry \<Rightarrow> nat \<Rightarrow> nat" where
  "rows_of g k = min (g_slot_rows g) (g_height g - k * g_slot_rows g)"

definition webcam_ring_enqueue :: "RingGeometry \<Rightarrow> WebcamState \<Rightarrow> ('e, WebcamState) outcome" where
  "webcam_ring_enqueue g w =
     (let k = xfer_queued w in
      bind_outcome (enqueue_rx (slot_of g (slot_base w) k * g_slot_bytes g) (rows_of g k * g_line_bytes g) (cam w))
        (\<lambda>c. Ok (w\<lparr>cam := c, xfer_queued := k + 1\<rparr>)))"

definition webcam_ring_start_frame :: "RingGeometry \<Rightarrow> WebcamState \<Rightarrow> ('e, WebcamState) outcome" where
  "webcam_ring_start_frame g w =
     bind_outcome
       (webcam_ring_enqueue g
          (w\<lparr>cam := dma_clear (cam w), slot_base := slot_counter w,
             slot_counter := slot_counter w + of_nat (g_transfers g), xfer_queued := 0, xfer_done := 0\<rparr>))
       (\<lambda>w. if g_transfers g > 1 then webcam_ring_enqueue g w else Ok w)"

section \<open>The handler of the camera interrupt\<close>

text \<open>How many transfers are finished, from the state of the channel.\<close>

definition completed :: "WebcamState \<Rightarrow> nat" where
  "completed w =
     (let outstanding = xfer_queued w - xfer_done w; (active, shadow) = dma_state (cam w) in
      if \<not> active then outstanding else if shadow then 0 else outstanding - 1)"

text \<open>One pass of the loop up to the copy.\<close>

definition take_transfer :: "WebcamState \<Rightarrow> ('e, WebcamState) outcome" where
  "take_transfer w =
     (let g = ring_of w in
      if xfer_queued w - xfer_done w = 0 \<or> completed w = 0 then Ok w
      else if completed w \<ge> 2 \<and> xfer_queued w < g_transfers g
      then webcam_ring_start_frame g (w\<lparr>overruns := overruns w + 1, dropped := dropped w + 1\<rparr>)
      else let k = xfer_done w; slot = slot_of g (slot_base w) k; w = w\<lparr>xfer_done := k + 1\<rparr> in
           bind_outcome
             (if g_depth g \<ge> 3 \<and> xfer_queued w < g_transfers g then webcam_ring_enqueue g w else Ok w) (\<lambda>w.
           bind_outcome
             (if k + 1 = g_transfers g
              then let w = w\<lparr>captured := captured w + 1\<rparr> in
                   if g_depth g \<ge> 3 then webcam_ring_start_frame g w else Ok w
              else Ok w) (\<lambda>w.
           Ok (w\<lparr>copying := Some (k, slot)\<rparr>))))"

text \<open>The copy, line by line, in bytes: the memory is read in words of four bytes.\<close>

definition copy_line :: "nat \<Rightarrow> nat \<Rightarrow> nat \<Rightarrow> u8 list \<Rightarrow> nat \<Rightarrow> u8 list \<Rightarrow> ('e, u8 list) outcome" where
  "copy_line start src_words dst_words fb r dst =
     (let at = 4 * (start + r * src_words) in
      if at + 4 * dst_words \<le> length fb \<and> 4 * (r * dst_words) + 4 * dst_words \<le> length dst
      then Ok (put (4 * (r * dst_words)) (take (4 * dst_words) (drop at fb)) dst)
      else Panic)"

primrec copy_lines :: "nat \<Rightarrow> nat \<Rightarrow> nat \<Rightarrow> u8 list \<Rightarrow> nat list \<Rightarrow> u8 list \<Rightarrow> ('e, u8 list) outcome" where
  "copy_lines start src_words dst_words fb [] dst = Ok dst"
| "copy_lines start src_words dst_words fb (r # rs) dst =
     bind_outcome (copy_line start src_words dst_words fb r dst) (copy_lines start src_words dst_words fb rs)"

definition copy_slot :: "RingGeometry \<Rightarrow> nat \<Rightarrow> nat \<Rightarrow> WebcamState \<Rightarrow> ('e, u8 list) outcome" where
  "copy_slot g k slot w =
     (let m = cam_mode w;
          src_words = webcam_line_px w m * 2 div 4;
          dst_words = width m * 2 div 4;
          crop = min (crop_words w) (src_words - dst_words) in
      copy_lines (slot * g_slot_bytes g div 4 + crop) src_words dst_words (ifram (cam w)) [0..<rows_of g k] (frame w))"

text \<open>With fewer than three slots the queue is refilled only after the copy.\<close>

definition late_requeue :: "RingGeometry \<Rightarrow> nat \<Rightarrow> WebcamState \<Rightarrow> ('e, WebcamState) outcome" where
  "late_requeue g k w =
     (if g_depth g < 3
      then if xfer_queued w < g_transfers g then webcam_ring_enqueue g w
           else if k + 1 = g_transfers g then webcam_ring_start_frame g w else Ok w
      else Ok w)"

text \<open>\<open>result\<close> is the answer of the USB service, \<open>None\<close> if the call failed.\<close>

definition count_result :: "UvcFrameResult option \<Rightarrow> bool \<Rightarrow> WebcamState \<Rightarrow> WebcamState" where
  "count_result result final w =
     (case result of
        Some Sent \<Rightarrow> if final then w\<lparr>sent := sent w + 1\<rparr> else w
      | Some NotStreaming \<Rightarrow> if final then w\<lparr>dropped := dropped w + 1\<rparr> else w
      | _ \<Rightarrow> w\<lparr>dropped := dropped w + 1\<rparr>)"

text \<open>The first session after boot is restarted once after a few frames.\<close>

definition restart_first :: "RingGeometry \<Rightarrow> bool \<Rightarrow> WebcamState \<Rightarrow> ('e, WebcamState) outcome" where
  "restart_first g final w =
     (if final \<and> first_session w \<and> captured w \<ge> 4
      then webcam_ring_start_frame g (w\<lparr>first_session := False, session := session w + 1\<rparr>)
      else Ok w)"

text \<open>The rest of the pass.\<close>

definition finish_transfer_copy :: "UvcFrameResult option \<Rightarrow> WebcamState \<Rightarrow> ('e, WebcamState) outcome" where
  "finish_transfer_copy result w =
     (case copying w of
        None \<Rightarrow> Ok w
      | Some (k, slot) \<Rightarrow>
          let g = ring_of w; m = cam_mode w; final = (k + 1 = g_transfers g) in
          bind_outcome (copy_slot g k slot w) (\<lambda>buf.
          bind_outcome (late_requeue g k (w\<lparr>frame := buf, copying := None\<rparr>)) (\<lambda>w.
          restart_first g final
            (count_result result final
               (w\<lparr>offered := offered w @ [(k = 0, final, payload_data m, take (rows_of g k * width m * 2) (frame w))]\<rparr>)))))"

section \<open>The sensor\<close>

text \<open>The oldest queued transfer is filled with pixels.\<close>

definition dma_done :: "u8 list \<Rightarrow> CamDma \<Rightarrow> CamDma" where
  "dma_done bytes c =
     (case dma_queue c of
        (offset, len) # q \<Rightarrow>
          if length bytes = len
          then c\<lparr>ifram := put offset bytes (ifram c), dma_queue := q, written := written c @ [bytes]\<rparr>
          else c
      | [] \<Rightarrow> c)"

datatype cam_event = Dma_done "u8 list" | Take_transfer | Finish_copy "UvcFrameResult option"

fun cam_step :: "cam_event \<Rightarrow> WebcamState \<Rightarrow> ('e, WebcamState) outcome" where
  "cam_step (Dma_done bytes) w = Ok (w\<lparr>cam := dma_done bytes (cam w)\<rparr>)"
| "cam_step Take_transfer w = (if copying w = None then take_transfer w else Ok w)"
| "cam_step (Finish_copy result) w = finish_transfer_copy result w"

section \<open>Geometries from the console\<close>

datatype raw_error = Bad_width | Zero_height | Bad_ratio | Window_too_large | Row_too_short | Slot_too_large

definition SENSOR_W :: nat where "SENSOR_W = 1600"
definition SENSOR_H :: nat where "SENSOR_H = 1200"

text \<open>The checks on the unpacked arguments, then the unpacking.\<close>

definition raw_geometry :: "nat \<Rightarrow> nat \<Rightarrow> nat \<Rightarrow> nat \<Rightarrow> nat \<Rightarrow> nat \<Rightarrow> raw_error + UvcMode \<times> nat" where
  "raw_geometry w h rowlen rat pad ifram_len =
     (if w < 2 \<or> w mod 2 \<noteq> 0 \<or> w > UVC_MAX_PAYLOAD_DATA div 2 then Inl Bad_width
      else if h = 0 then Inl Zero_height
      else if rat = 0 \<or> rat > 14 \<or> (rat mod 2 \<noteq> 0 \<and> rat > 7) then Inl Bad_ratio
      else if (w + pad) * rat > SENSOR_W \<or> (h + 1) * rat > SENSOR_H then Inl Window_too_large
      else if rowlen \<noteq> 0 \<and> rowlen < w then Inl Row_too_short
      else let rows = max (UVC_MAX_PAYLOAD_DATA div (w * 2)) 1;
               slots = min (UVC_CHUNK_PAYLOADS * rows) (max h rows);
               lpx = (if rowlen \<noteq> 0 then rowlen else w + pad) in
           if slots * lpx * 2 > ifram_len then Inl Slot_too_large
           else Inr (\<lparr>width = w, height = h, ratio = rat, line_pad = pad, interval = 10000000,
                       payload_rows = rows, slot_rows = slots\<rparr>, rowlen))"

definition webcam_raw_mode :: "usize \<Rightarrow> usize \<Rightarrow> nat \<Rightarrow> raw_error + UvcMode \<times> nat" where
  "webcam_raw_mode arg3 arg4 ifram_len =
     raw_geometry (unat (drop_bit 16 arg3)) (unat (arg3 AND 0xffff))
       (unat (drop_bit 16 arg4)) (unat (drop_bit 8 arg4 AND 0xff)) (unat (arg4 AND 0xff)) ifram_len"

end
