(* ===== verification/Capture_Ring.thy ===== *)
theory Capture_Ring
  imports Capture
begin

text \<open>
  The capture ring is safe: over every interleaving of the sensor's transfers with the passes of the
  interrupt handler, no slot is written while it waits to be copied, and the chunks offered to the
  USB service are the lines the sensor delivered.
\<close>

section \<open>Geometry\<close>

definition geometry_ok :: "nat \<Rightarrow> RingGeometry \<Rightarrow> bool" where
  "geometry_ok len g =
     (0 < g_slot_rows g \<and> 0 < g_height g \<and> g_slot_bytes g = g_slot_rows g * g_line_bytes g \<and>
      0 < g_depth g \<and> g_depth g * g_slot_bytes g \<le> len \<and> 0 < g_slot_bytes g \<and> 0 < g_transfers g \<and>
      (g_depth g = 1 \<longrightarrow> g_transfers g = 1))"

definition xfer :: "RingGeometry \<Rightarrow> usize \<Rightarrow> nat \<Rightarrow> nat \<times> nat" where
  "xfer g base i = (slot_of g base i * g_slot_bytes g, rows_of g i * g_line_bytes g)"

lemma slot_bound: "geometry_ok len g \<Longrightarrow> slot_of g base i < g_depth g"
  by (simp add: slot_of_def geometry_ok_def)

lemma rows_fit: "geometry_ok len g \<Longrightarrow> rows_of g i * g_line_bytes g \<le> g_slot_bytes g"
  by (simp add: rows_of_def geometry_ok_def)

lemma slot_fits:
  assumes "geometry_ok len g" "s < g_depth g"
  shows "s * g_slot_bytes g + rows_of g i * g_line_bytes g \<le> len"
proof -
  have "Suc s * g_slot_bytes g \<le> g_depth g * g_slot_bytes g" using assms(2) by (intro mult_le_mono) simp_all
  moreover have "g_depth g * g_slot_bytes g \<le> len" using assms(1) unfolding geometry_ok_def by blast
  ultimately show ?thesis using rows_fit [OF assms(1), of i] unfolding mult_Suc by linarith
qed

lemma slot_no_wrap: "unat base + i < 2 ^ 32 \<Longrightarrow> slot_of g base i = (unat base + i) mod g_depth g"
  by (simp add: slot_of_def unat_word_ariths unat_of_nat)

lemma mod_neq_near:
  assumes "(i :: nat) < j" "j < i + d"
  shows "i mod d \<noteq> j mod d"
proof
  assume "i mod d = j mod d"
  then have "d dvd j - i" using assms(1) by (metis less_imp_le mod_eq_dvd_iff_nat)
  then show False using assms by (auto dest: dvd_imp_le)
qed

lemma slots_differ:
  assumes "unat base + j < 2 ^ 32" "i < j" "j < i + g_depth g"
  shows "slot_of g base i \<noteq> slot_of g base j"
  using assms mod_neq_near [of "unat base + i" "unat base + j" "g_depth g"]
  by (simp add: slot_no_wrap)

section \<open>Queueing\<close>

lemma enqueue_ok:
  assumes "geometry_ok (length (ifram (cam w))) g"
  shows "(webcam_ring_enqueue g w :: ('e, _) outcome) =
    Ok (w\<lparr>cam := (cam w)\<lparr>dma_queue := dma_queue (cam w) @ [xfer g (slot_base w) (xfer_queued w)]\<rparr>,
         xfer_queued := xfer_queued w + 1\<rparr>)"
  using slot_fits [OF assms slot_bound [OF assms, of "slot_base w" "xfer_queued w"], of "xfer_queued w"]
  by (simp add: webcam_ring_enqueue_def enqueue_rx_def xfer_def Let_def)

lemma start_frame_ok:
  assumes "geometry_ok (length (ifram (cam w))) g"
  shows "(webcam_ring_start_frame g w :: ('e, _) outcome) =
    Ok (w\<lparr>cam := (cam w)\<lparr>dma_queue := map (xfer g (slot_counter w)) [0..<min 2 (g_transfers g)], written := []\<rparr>,
         slot_base := slot_counter w, slot_counter := slot_counter w + of_nat (g_transfers g),
         xfer_queued := min 2 (g_transfers g), xfer_done := 0\<rparr>)"
proof -
  have T: "0 < g_transfers g" using assms by (simp add: geometry_ok_def)
  let ?w = "w\<lparr>cam := dma_clear (cam w), slot_base := slot_counter w,
      slot_counter := slot_counter w + of_nat (g_transfers g), xfer_queued := 0, xfer_done := 0\<rparr>"
  have g: "geometry_ok (length (ifram (cam ?w))) g" using assms by (simp add: dma_clear_def)
  show ?thesis
  proof (cases "g_transfers g = 1")
    case True
    then show ?thesis
      unfolding webcam_ring_start_frame_def enqueue_ok [OF g] by (simp add: dma_clear_def)
  next
    case False
    then have "min 2 (g_transfers g) = 2" using T by simp
    moreover have "[0..<2] = [0, 1 :: nat]" by (simp add: upt_rec)
    ultimately show ?thesis
      unfolding webcam_ring_start_frame_def enqueue_ok [OF g] using False T g
      by (simp add: enqueue_ok) (simp add: dma_clear_def)
  qed
qed

section \<open>The invariant of the ring\<close>

definition slot_data :: "RingGeometry \<Rightarrow> WebcamState \<Rightarrow> nat \<Rightarrow> nat \<Rightarrow> u8 list" where
  "slot_data g w s i = take (rows_of g i * g_line_bytes g) (drop (s * g_slot_bytes g) (ifram (cam w)))"

text \<open>The queue holds the last transfers queued, and the transfers finished but not yet taken are still in their slots.\<close>

definition ring_inv :: "RingGeometry \<Rightarrow> nat \<Rightarrow> WebcamState \<Rightarrow> bool" where
  "ring_inv g len w =
     (let n = length (written (cam w)) in
      length (ifram (cam w)) = len \<and>
      unat (slot_base w) + g_transfers g < 2 ^ 32 \<and> slot_counter w = slot_base w + of_nat (g_transfers g) \<and>
      xfer_queued w \<le> g_transfers g \<and> xfer_done w \<le> n \<and> n \<le> xfer_queued w \<and> xfer_queued w \<le> xfer_done w + 2 \<and>
      dma_queue (cam w) = map (xfer g (slot_base w)) [n..<xfer_queued w] \<and>
      (\<forall>i<n. length (written (cam w) ! i) = rows_of g i * g_line_bytes g) \<and>
      (\<forall>i. xfer_done w \<le> i \<and> i < n \<longrightarrow> slot_data g w (slot_of g (slot_base w) i) i = written (cam w) ! i))"

text \<open>Between two passes two transfers are outstanding, or all that are left.\<close>

definition primed :: "RingGeometry \<Rightarrow> WebcamState \<Rightarrow> bool" where
  "primed g w = (xfer_done w < g_transfers g \<and> xfer_queued w = min (g_transfers g) (xfer_done w + 2))"

definition slot_free :: "RingGeometry \<Rightarrow> nat \<Rightarrow> WebcamState \<Rightarrow> bool" where
  "slot_free g s w =
     (\<forall>i. length (written (cam w)) \<le> i \<and> i < xfer_queued w \<longrightarrow> slot_of g (slot_base w) i \<noteq> s)"

lemma put_other_slot:
  assumes "geometry_ok (length d) g" "s \<noteq> t" "s < g_depth g" "t < g_depth g" "length xs = rows_of g j * g_line_bytes g"
  shows "take (rows_of g i * g_line_bytes g) (drop (s * g_slot_bytes g) (put (t * g_slot_bytes g) xs d)) =
    take (rows_of g i * g_line_bytes g) (drop (s * g_slot_bytes g) d)"
proof -
  note r = rows_fit [OF assms(1)]
  show ?thesis
  proof (cases "s < t")
    case True
    then have "Suc s * g_slot_bytes g \<le> t * g_slot_bytes g" by (intro mult_le_mono) simp_all
    moreover have "t * g_slot_bytes g \<le> length d" using slot_fits [OF assms(1,4), of j] by simp
    ultimately show ?thesis using r [of i] by (intro take_drop_put_before) simp_all
  next
    case False
    with assms(2) have "Suc t * g_slot_bytes g \<le> s * g_slot_bytes g" by (intro mult_le_mono) simp_all
    then have le: "t * g_slot_bytes g + length xs \<le> s * g_slot_bytes g" using r [of j] assms(5) by simp
    have "t * g_slot_bytes g \<le> length d" using slot_fits [OF assms(1,4), of j] by simp
    then have "drop (s * g_slot_bytes g) (put (t * g_slot_bytes g) xs d) = drop (s * g_slot_bytes g) d"
      using le False assms(2) by (simp add: put_def)
    then show ?thesis by simp
  qed
qed

text \<open>The sensor fills a slot.\<close>

lemma dma_done_head:
  assumes "ring_inv g len w" "length (written (cam w)) < xfer_queued w"
    "length bytes = rows_of g (length (written (cam w))) * g_line_bytes g"
  shows "dma_done bytes (cam w) = (cam w)\<lparr>
    ifram := put (slot_of g (slot_base w) (length (written (cam w))) * g_slot_bytes g) bytes (ifram (cam w)),
    dma_queue := map (xfer g (slot_base w)) [Suc (length (written (cam w)))..<xfer_queued w],
    written := written (cam w) @ [bytes]\<rparr>"
proof -
  let ?n = "length (written (cam w))"
  have "dma_queue (cam w) = xfer g (slot_base w) ?n # map (xfer g (slot_base w)) [Suc ?n..<xfer_queued w]"
    using assms by (simp add: ring_inv_def Let_def upt_conv_Cons)
  then show ?thesis using assms(3) by (simp add: dma_done_def xfer_def)
qed

lemma dma_done_none:
  assumes "ring_inv g len w" "\<not> (length (written (cam w)) < xfer_queued w \<and>
    length bytes = rows_of g (length (written (cam w))) * g_line_bytes g)"
  shows "dma_done bytes (cam w) = cam w"
  using assms by (auto simp: dma_done_def ring_inv_def Let_def upt_eq_Cons_conv xfer_def split: list.split)

lemma slot_data_dma:
  assumes "geometry_ok len g" "ring_inv g len w" "s < g_depth g" "slot_free g s w"
  shows "slot_data g (w\<lparr>cam := dma_done bytes (cam w)\<rparr>) s i = slot_data g w s i"
proof (cases "length (written (cam w)) < xfer_queued w \<and>
    length bytes = rows_of g (length (written (cam w))) * g_line_bytes g")
  case True
  let ?n = "length (written (cam w))"
  have "length (ifram (cam w)) = len" using assms(2) by (simp add: ring_inv_def Let_def)
  moreover have "slot_of g (slot_base w) ?n \<noteq> s" using assms(4) True by (auto simp: slot_free_def)
  ultimately show ?thesis
    using put_other_slot [of "ifram (cam w)" g s "slot_of g (slot_base w) ?n" bytes ?n i] assms(1,3) True
      slot_bound [OF assms(1), of "slot_base w" ?n] dma_done_head [OF assms(2)]
    by (simp add: slot_data_def)
qed (simp add: dma_done_none [OF assms(2)])

lemma waiting_slot_free:
  assumes "geometry_ok len g" "ring_inv g len w" "xfer_done w \<le> i" "i < length (written (cam w))"
  shows "slot_free g (slot_of g (slot_base w) i) w"
  unfolding slot_free_def
proof (intro allI impI)
  fix j assume j: "length (written (cam w)) \<le> j \<and> j < xfer_queued w"
  have inv: "xfer_queued w \<le> xfer_done w + 2" "xfer_queued w \<le> g_transfers g" "unat (slot_base w) + g_transfers g < 2 ^ 32"
    using assms(2) by (simp_all add: ring_inv_def Let_def)
  have "j = i + 1" "1 < g_transfers g" using j assms(3,4) inv by simp_all
  moreover from this have "2 \<le> g_depth g" using assms(1) by (auto simp: geometry_ok_def)
  ultimately show "slot_of g (slot_base w) j \<noteq> slot_of g (slot_base w) i"
    using slots_differ [of "slot_base w" j i g] j inv by fastforce
qed

lemma dma_ring_inv:
  assumes g: "geometry_ok len g" and inv: "ring_inv g len w"
  shows "ring_inv g len (w\<lparr>cam := dma_done bytes (cam w)\<rparr>)"
proof (cases "length (written (cam w)) < xfer_queued w \<and>
    length bytes = rows_of g (length (written (cam w))) * g_line_bytes g")
  case True
  let ?n = "length (written (cam w))" and ?w = "w\<lparr>cam := dma_done bytes (cam w)\<rparr>"
  have len: "length (ifram (cam w)) = len" using inv by (simp add: ring_inv_def Let_def)
  let ?s = "slot_of g (slot_base w) ?n"
  have fits: "?s * g_slot_bytes g + length bytes \<le> length (ifram (cam w))"
    using slot_fits [OF g slot_bound [OF g], of "slot_base w" ?n ?n] True len by simp
  have cam: "dma_done bytes (cam w) = (cam w)\<lparr>ifram := put (?s * g_slot_bytes g) bytes (ifram (cam w)),
      dma_queue := map (xfer g (slot_base w)) [Suc ?n..<xfer_queued w], written := written (cam w) @ [bytes]\<rparr>"
    using True dma_done_head [OF inv] by simp
  have new: "slot_data g ?w ?s ?n = bytes"
    using take_drop_put_same [OF fits] True by (simp add: slot_data_def cam)
  have old: "slot_data g ?w (slot_of g (slot_base w) i) i = written (cam w) ! i" if "xfer_done w \<le> i" "i < ?n" for i
    using slot_data_dma [OF g inv slot_bound [OF g] waiting_slot_free [OF g inv that], of bytes i] inv that
    by (simp add: ring_inv_def Let_def)
  have "slot_data g ?w (slot_of g (slot_base w) i) i = (written (cam w) @ [bytes]) ! i" if "xfer_done w \<le> i" "i < Suc ?n" for i
    using that new old by (cases "i = ?n") (simp_all add: nth_append)
  with inv True fits show ?thesis
    by (simp add: ring_inv_def Let_def cam nth_append less_Suc_eq)
qed (use inv in \<open>simp add: dma_done_none [OF inv]\<close>)

lemma slot_free_dma: "slot_free g s w \<Longrightarrow> slot_free g s (w\<lparr>cam := dma_done bytes (cam w)\<rparr>)"
  by (auto simp: slot_free_def dma_done_def split: list.split)

section \<open>Passes of the handler\<close>

lemma start_frame_inv:
  assumes g: "geometry_ok len g" and len: "length (ifram (cam w)) = len"
    and room: "unat (slot_counter w) + g_transfers g < 2 ^ 32"
  shows "\<exists>w'. (webcam_ring_start_frame g w :: ('e, _) outcome) = Ok w' \<and> ring_inv g len w' \<and> primed g w' \<and>
    xfer_done w' = 0 \<and> written (cam w') = [] \<and> slot_base w' = slot_counter w \<and> ifram (cam w') = ifram (cam w) \<and>
    unat (slot_counter w') = unat (slot_counter w) + g_transfers g \<and>
    w' = w\<lparr>cam := cam w', slot_base := slot_base w', slot_counter := slot_counter w',
      xfer_queued := xfer_queued w', xfer_done := xfer_done w'\<rparr>"
proof -
  have "0 < g_transfers g" using g by (simp add: geometry_ok_def)
  moreover have "unat (slot_counter w + of_nat (g_transfers g)) = unat (slot_counter w) + g_transfers g"
    using room by (simp add: unat_word_ariths unat_of_nat)
  ultimately show ?thesis
    unfolding start_frame_ok [OF g [folded len]] using len room
    by (auto simp: ring_inv_def primed_def Let_def)
qed

text \<open>The slot just taken, against the frame that follows.\<close>

lemma next_frame_free:
  assumes "ring_inv g len w'" "3 \<le> g_depth g" "0 < g_transfers g" "written (cam w') = []" "primed g w'" "xfer_done w' = 0"
    "unat (slot_base w') = unat base + g_transfers g" "i + 1 = g_transfers g"
  shows "slot_free g (slot_of g base i) w'"
  unfolding slot_free_def
proof (intro allI impI)
  fix j assume j: "length (written (cam w')) \<le> j \<and> j < xfer_queued w'"
  have "unat (slot_base w') + g_transfers g < 2 ^ 32" using assms(1) by (simp add: ring_inv_def Let_def)
  then have "slot_of g (slot_base w') j = (unat base + g_transfers g + j) mod g_depth g"
      "slot_of g base i = (unat base + i) mod g_depth g"
    using j assms(5-8) by (simp_all add: primed_def slot_no_wrap)
  moreover have "(unat base + i) mod g_depth g \<noteq> (unat base + g_transfers g + j) mod g_depth g"
    using j assms(2,5,6,8) by (intro mod_neq_near) (auto simp: primed_def)
  ultimately show "slot_of g (slot_base w') j \<noteq> slot_of g base i" by simp
qed

lemma completed_count:
  assumes "ring_inv g len w" "primed g w"
  shows "completed w = length (written (cam w)) - xfer_done w"
proof -
  let ?n = "length (written (cam w))"
  have "xfer_done w \<le> ?n" "?n \<le> xfer_queued w" "xfer_queued w \<le> xfer_done w + 2"
      "length (dma_queue (cam w)) = xfer_queued w - ?n" "(dma_queue (cam w) = []) = (xfer_queued w \<le> ?n)"
    using assms(1) by (auto simp: ring_inv_def Let_def)
  then show ?thesis by (auto simp: completed_def dma_state_def Let_def)
qed

text \<open>What a pass leaves alone.\<close>

definition same_setup :: "WebcamState \<Rightarrow> WebcamState \<Rightarrow> bool" where
  "same_setup w w' =
     (custom w' = custom w \<and> mode_index w' = mode_index w \<and> rowlen_override w' = rowlen_override w \<and>
      crop_words w' = crop_words w \<and> length (ifram (cam w')) = length (ifram (cam w)) \<and>
      length (frame w') = length (frame w))"

lemma same_setup_mode:
  assumes "same_setup w w'"
  shows "cam_mode w' = cam_mode w" "webcam_line_px w' m = webcam_line_px w m" "ring_of w' = ring_of w"
  using assms unfolding same_setup_def cam_mode_def webcam_line_px_def ring_of_def by metis+

text \<open>The next transfer is taken: its bytes are in the slot, and nothing queued will touch it.\<close>

definition taken :: "RingGeometry \<Rightarrow> WebcamState \<Rightarrow> nat \<Rightarrow> nat \<Rightarrow> WebcamState \<Rightarrow> bool" where
  "taken g w k slot w' =
     (k < g_transfers g \<and> slot < g_depth g \<and> slot_free g slot w' \<and> slot_data g w' slot k = written (cam w) ! k \<and>
      (if 3 \<le> g_depth g then primed g w' else xfer_done w' = k + 1 \<and> xfer_queued w' = min (g_transfers g) (k + 2)))"

lemma taken_cong:
  "cam w1 = cam w2 \<Longrightarrow> xfer_done w1 = xfer_done w2 \<Longrightarrow> xfer_queued w1 = xfer_queued w2 \<Longrightarrow> slot_base w1 = slot_base w2 \<Longrightarrow>
   taken g w k slot w1 = taken g w k slot w2"
  by (simp add: taken_def slot_free_def slot_data_def primed_def)

lemma ring_inv_cong:
  "cam w1 = cam w2 \<Longrightarrow> xfer_done w1 = xfer_done w2 \<Longrightarrow> xfer_queued w1 = xfer_queued w2 \<Longrightarrow> slot_base w1 = slot_base w2 \<Longrightarrow>
   slot_counter w1 = slot_counter w2 \<Longrightarrow> ring_inv g len w1 = ring_inv g len w2"
  by (simp add: ring_inv_def slot_data_def)

definition ready_transfer :: "RingGeometry \<Rightarrow> nat \<Rightarrow> WebcamState \<Rightarrow> bool" where
  "ready_transfer g len w =
     (geometry_ok len g \<and> ring_inv g len w \<and> primed g w \<and> xfer_done w < length (written (cam w)))"

lemma ready_facts:
  assumes "ready_transfer g len w"
  shows "geometry_ok len g" "ring_inv g len w" "primed g w" "xfer_done w < length (written (cam w))"
  using assms by (simp_all add: ready_transfer_def)

lemma take_one_inv: "ready_transfer g len w \<Longrightarrow> ring_inv g len (w\<lparr>xfer_done := xfer_done w + 1\<rparr>)"
  by (simp add: ready_transfer_def ring_inv_def slot_data_def Let_def)

lemma take_one_data:
  assumes "ready_transfer g len w"
  shows "slot_data g w (slot_of g (slot_base w) (xfer_done w)) (xfer_done w) = written (cam w) ! xfer_done w"
    "slot_free g (slot_of g (slot_base w) (xfer_done w)) w" "xfer_done w < g_transfers g"
  using ready_facts [OF assms] waiting_slot_free [OF ready_facts(1,2) [OF assms] _ ready_facts(4) [OF assms]]
  by (simp_all add: ring_inv_def Let_def)

lemma take_requeue:
  assumes rd: "ready_transfer g len w" and "3 \<le> g_depth g" "xfer_queued w < g_transfers g"
  shows "\<exists>w'. (webcam_ring_enqueue g (w\<lparr>xfer_done := xfer_done w + 1\<rparr>) :: ('e, _) outcome) = Ok w' \<and> ring_inv g len w' \<and>
    taken g w (xfer_done w) (slot_of g (slot_base w) (xfer_done w)) w' \<and>
    w' = w\<lparr>cam := (cam w)\<lparr>dma_queue := dma_queue (cam w')\<rparr>, xfer_queued := xfer_queued w + 1, xfer_done := xfer_done w + 1\<rparr>"
proof -
  let ?w = "w\<lparr>xfer_done := xfer_done w + 1\<rparr>" and ?k = "xfer_done w"
  note g = ready_facts(1) [OF rd] and data = take_one_data [OF rd]
  have ring: "xfer_queued w = ?k + 2" "length (ifram (cam w)) = len" "length (written (cam w)) \<le> xfer_queued w"
      "unat (slot_base w) + g_transfers g < 2 ^ 32"
    using ready_facts(2,3) [OF rd] assms(3) by (simp_all add: primed_def ring_inv_def Let_def min_def split: if_splits)
  have "slot_of g (slot_base w) ?k \<noteq> slot_of g (slot_base w) (?k + 2)"
    using assms(2,3) ring by (intro slots_differ) simp_all
  then have free: "\<forall>i. length (written (cam w)) \<le> i \<and> i < xfer_queued w + 1 \<longrightarrow>
      slot_of g (slot_base w) i \<noteq> slot_of g (slot_base w) ?k"
    using data(2) ring(1) unfolding slot_free_def by (metis Suc_eq_plus1 less_Suc_eq)
  have enq: "(webcam_ring_enqueue g ?w :: ('e, _) outcome) = Ok (?w\<lparr>cam := (cam w)
      \<lparr>dma_queue := dma_queue (cam w) @ [xfer g (slot_base w) (xfer_queued w)]\<rparr>, xfer_queued := xfer_queued w + 1\<rparr>)"
    using enqueue_ok [of ?w g] g ring(2) by simp
  show ?thesis
    unfolding enq using take_one_inv [OF rd] data(1,3) free assms(2,3) ring
    by (simp add: ring_inv_def taken_def slot_free_def slot_data_def primed_def slot_bound [OF g] Let_def)
qed

lemma take_last:
  assumes rd: "ready_transfer g len w" and "3 \<le> g_depth g" "xfer_done w + 1 = g_transfers g" "unat (slot_counter w) + g_transfers g < 2 ^ 32"
  shows "\<exists>w'. (webcam_ring_start_frame g (w\<lparr>xfer_done := xfer_done w + 1, captured := c\<rparr>) :: ('e, _) outcome) = Ok w' \<and>
    ring_inv g len w' \<and> taken g w (xfer_done w) (slot_of g (slot_base w) (xfer_done w)) w' \<and> xfer_done w' = 0 \<and>
    unat (slot_counter w') = unat (slot_counter w) + g_transfers g \<and>
    w' = w\<lparr>cam := cam w', slot_base := slot_base w', slot_counter := slot_counter w',
      xfer_queued := xfer_queued w', xfer_done := xfer_done w', captured := c\<rparr> \<and> ifram (cam w') = ifram (cam w)"
proof -
  let ?w = "w\<lparr>xfer_done := xfer_done w + 1, captured := c\<rparr>" and ?k = "xfer_done w"
  note g = ready_facts(1) [OF rd] and data = take_one_data [OF rd]
  have ring: "length (ifram (cam ?w)) = len" "unat (slot_counter w) = unat (slot_base w) + g_transfers g"
    using ready_facts(2) [OF rd] by (simp_all add: ring_inv_def Let_def unat_word_ariths unat_of_nat)
  obtain w' where w': "(webcam_ring_start_frame g ?w :: ('e, _) outcome) = Ok w'" "ring_inv g len w'" "primed g w'"
      "xfer_done w' = 0" "written (cam w') = []" "slot_base w' = slot_counter w" "ifram (cam w') = ifram (cam w)"
      "unat (slot_counter w') = unat (slot_counter w) + g_transfers g"
      "w' = ?w\<lparr>cam := cam w', slot_base := slot_base w', slot_counter := slot_counter w',
        xfer_queued := xfer_queued w', xfer_done := xfer_done w'\<rparr>"
    using start_frame_inv [OF g ring(1), where 'e = 'e] assms(4) by auto
  have "slot_free g (slot_of g (slot_base w) ?k) w'"
    using assms(2,3) w' ring(2) by (intro next_frame_free) simp_all
  moreover have "slot_data g w' s i = slot_data g w s i" for s i using w'(7) by (simp add: slot_data_def)
  ultimately have "taken g w ?k (slot_of g (slot_base w) ?k) w'"
    using data(1,3) assms(2) w'(3) slot_bound [OF g] by (simp add: taken_def)
  moreover have "w' = w\<lparr>cam := cam w', slot_base := slot_base w', slot_counter := slot_counter w',
      xfer_queued := xfer_queued w', xfer_done := xfer_done w', captured := c\<rparr>" by (subst w'(9)) simp
  ultimately show ?thesis using w' by blast
qed

definition took :: "RingGeometry \<Rightarrow> WebcamState \<Rightarrow> nat \<Rightarrow> nat \<Rightarrow> WebcamState \<Rightarrow> bool" where
  "took g w k slot w' =
     (k = xfer_done w \<and> k < length (written (cam w)) \<and> taken g w k slot w' \<and>
      (if k + 1 < g_transfers g then xfer_done w' = k + 1 \<and> written (cam w') = written (cam w)
       else xfer_done w' = 0 \<or> xfer_done w' = g_transfers g))"

lemma took_cong:
  "cam w1 = cam w2 \<Longrightarrow> xfer_done w1 = xfer_done w2 \<Longrightarrow> xfer_queued w1 = xfer_queued w2 \<Longrightarrow> slot_base w1 = slot_base w2 \<Longrightarrow>
   took g w k slot w1 = took g w k slot w2"
  using taken_cong [of w1 w2 g w k slot] by (simp add: took_def)

lemma take_ready:
  assumes rd: "ready_transfer g len w" and room: "unat (slot_counter w) + g_transfers g < 2 ^ 32"
    and go: "\<not> (2 \<le> completed w \<and> xfer_queued w < g_transfers g)" and "ring_of w = g" "copying w = None"
  shows "\<exists>w' slot. (take_transfer w :: ('e, _) outcome) = Ok w' \<and> ring_inv g len w' \<and> same_setup w w' \<and>
    offered w' = offered w \<and> unat (slot_counter w') \<le> unat (slot_counter w) + g_transfers g \<and>
    copying w' = Some (xfer_done w, slot) \<and> took g w (xfer_done w) slot w'"
proof -
  let ?k = "xfer_done w" and ?w = "w\<lparr>xfer_done := xfer_done w + 1\<rparr>"
  let ?slot = "slot_of g (slot_base w) ?k"
  note f = ready_facts [OF rd] and data = take_one_data [OF rd]
  have q: "xfer_queued w = min (g_transfers g) (?k + 2)" using f(3) by (simp add: primed_def)
  have "xfer_queued w - ?k \<noteq> 0" "completed w \<noteq> 0"
    using f(4) completed_count [OF f(2,3)] f(2) by (auto simp: ring_inv_def Let_def)
  then have pass: "(take_transfer w :: ('e, _) outcome) = bind_outcome
      (if 3 \<le> g_depth g \<and> xfer_queued ?w < g_transfers g then webcam_ring_enqueue g ?w else Ok ?w) (\<lambda>w. bind_outcome
      (if ?k + 1 = g_transfers g
       then if 3 \<le> g_depth g then webcam_ring_start_frame g (w\<lparr>captured := captured w + 1\<rparr>) else Ok (w\<lparr>captured := captured w + 1\<rparr>)
       else Ok w) (\<lambda>w. Ok (w\<lparr>copying := Some (?k, ?slot)\<rparr>)))" (is "_ = ?pass")
    using go assms(4) by (auto simp: take_transfer_def Let_def)
  have same: "taken g w ?k ?slot (?w\<lparr>captured := c\<rparr>)" if "g_depth g < 3 \<or> ?k + 1 < g_transfers g \<and> \<not> xfer_queued w < g_transfers g" for c
    using that data q f(3) slot_bound [OF f(1)] by (auto simp: taken_def slot_free_def slot_data_def primed_def)
  have closing: "\<exists>w'' slot. (Ok (w'\<lparr>copying := Some (?k, slot')\<rparr>) :: ('e, _) outcome) = Ok w'' \<and> ring_inv g len w'' \<and> same_setup w w'' \<and>
      offered w'' = offered w \<and> unat (slot_counter w'') \<le> unat (slot_counter w) + g_transfers g \<and>
      copying w'' = Some (?k, slot) \<and> took g w ?k slot w''"
    if "ring_inv g len w'" "same_setup w w'" "offered w' = offered w" "unat (slot_counter w') \<le> unat (slot_counter w) + g_transfers g"
      "took g w ?k slot' w'" for w' slot'
    using that took_cong [of "w'\<lparr>copying := Some (?k, slot')\<rparr>" w' g w ?k slot'] ring_inv_cong [of "w'\<lparr>copying := Some (?k, slot')\<rparr>" w']
    by (simp add: same_setup_def)
  consider (requeue) "3 \<le> g_depth g" "xfer_queued w < g_transfers g"
    | (final) "3 \<le> g_depth g" "?k + 1 = g_transfers g"
    | (plain) "g_depth g < 3 \<or> ?k + 1 < g_transfers g \<and> \<not> xfer_queued w < g_transfers g"
    using data(3) by linarith
  then show ?thesis
  proof cases
    case requeue
    then have k: "?k + 1 < g_transfers g" using q by (simp split: if_splits)
    obtain w' where w': "(webcam_ring_enqueue g ?w :: ('e, _) outcome) = Ok w'" "ring_inv g len w'" "taken g w ?k ?slot w'"
        "w' = w\<lparr>cam := (cam w)\<lparr>dma_queue := dma_queue (cam w')\<rparr>, xfer_queued := xfer_queued w + 1, xfer_done := ?k + 1\<rparr>"
      using take_requeue [OF rd requeue, where 'e = 'e] by blast
    have view: "xfer_done w' = ?k + 1" "written (cam w') = written (cam w)" "same_setup w w'" "offered w' = offered w"
        "slot_counter w' = slot_counter w"
      by (subst w'(4), simp add: same_setup_def)+
    have "took g w ?k ?slot w'" using w'(3) view(1,2) f(4) k by (simp add: took_def)
    moreover have "(take_transfer w :: ('e, _) outcome) = Ok (w'\<lparr>copying := Some (?k, ?slot)\<rparr>)"
      unfolding pass using requeue k w'(1) by simp
    ultimately show ?thesis using closing [of w' ?slot] w'(2) view by simp
  next
    case final
    obtain w' where w': "(webcam_ring_start_frame g (?w\<lparr>captured := captured w + 1\<rparr>) :: ('e, _) outcome) = Ok w'"
        "ring_inv g len w'" "taken g w ?k ?slot w'" "xfer_done w' = 0" "unat (slot_counter w') = unat (slot_counter w) + g_transfers g"
        "w' = w\<lparr>cam := cam w', slot_base := slot_base w', slot_counter := slot_counter w',
           xfer_queued := xfer_queued w', xfer_done := xfer_done w', captured := captured w + 1\<rparr>" "ifram (cam w') = ifram (cam w)"
      using take_last [OF rd final room, of "captured w + 1", where 'e = 'e] by auto
    have view: "same_setup w w'" "offered w' = offered w"
      by (subst w'(6), simp add: same_setup_def w'(7))+
    have "took g w ?k ?slot w'" using w'(3,4) f(4) final(2) by (simp add: took_def)
    moreover have "\<not> xfer_queued w < g_transfers g" using q final(2) by simp
    then have "(take_transfer w :: ('e, _) outcome) = Ok (w'\<lparr>copying := Some (?k, ?slot)\<rparr>)"
      unfolding pass using final w'(1) by simp
    ultimately show ?thesis using closing [of w' ?slot] w'(2,5) view by simp
  next
    case plain
    define w' where "w' = (if ?k + 1 = g_transfers g then ?w\<lparr>captured := captured w + 1\<rparr> else ?w)"
    have view: "same_setup w w'" "offered w' = offered w" "slot_counter w' = slot_counter w" "xfer_done w' = ?k + 1"
        "cam w' = cam w" "xfer_queued w' = xfer_queued w" "slot_base w' = slot_base w"
      by (simp_all add: w'_def same_setup_def)
    have "taken g w ?k ?slot w'"
      using same [OF plain, of "captured w"] taken_cong [of w' "?w\<lparr>captured := captured w\<rparr>" g w ?k ?slot] view
      by simp
    then have "took g w ?k ?slot w'" using view(4,5) f(4) data(3) by (auto simp: took_def)
    moreover have "ring_inv g len w'"
      using take_one_inv [OF rd] ring_inv_cong [of w' ?w] view by simp
    moreover have "(take_transfer w :: ('e, _) outcome) = Ok (w'\<lparr>copying := Some (?k, ?slot)\<rparr>)"
      unfolding pass w'_def using plain q data(3) by auto
    ultimately show ?thesis using closing [of w' ?slot] view by simp
  qed
qed

text \<open>One pass up to the copy: nothing to do, a frame given up, or a transfer taken.\<close>

lemma take_pass:
  assumes g: "geometry_ok len g" and inv: "ring_inv g len w" "primed g w"
    and room: "unat (slot_counter w) + g_transfers g < 2 ^ 32" and w: "ring_of w = g" "copying w = None"
  shows "\<exists>w'. (take_transfer w :: ('e, _) outcome) = Ok w' \<and> ring_inv g len w' \<and> same_setup w w' \<and>
    offered w' = offered w \<and> unat (slot_counter w') \<le> unat (slot_counter w) + g_transfers g \<and>
    (copying w' = None \<and> primed g w' \<and> (w' = w \<or> xfer_done w' = 0) \<or>
     (\<exists>slot. copying w' = Some (xfer_done w, slot) \<and> took g w (xfer_done w) slot w'))"
proof (cases "completed w = 0")
  case True
  with inv w show ?thesis by (simp add: take_transfer_def Let_def same_setup_def)
next
  case False
  note c = completed_count [OF inv]
  have q: "xfer_queued w - xfer_done w \<noteq> 0" "length (ifram (cam w)) = len"
    using False c inv(1) by (auto simp: ring_inv_def Let_def)
  show ?thesis
  proof (cases "2 \<le> completed w \<and> xfer_queued w < g_transfers g")
    case True
    let ?w = "w\<lparr>overruns := overruns w + 1, dropped := dropped w + 1\<rparr>"
    obtain w' where w': "(webcam_ring_start_frame g ?w :: ('e, _) outcome) = Ok w'" "ring_inv g len w'" "primed g w'"
        "xfer_done w' = 0" "unat (slot_counter w') = unat (slot_counter w) + g_transfers g"
        "ifram (cam w') = ifram (cam w)"
        "w' = ?w\<lparr>cam := cam w', slot_base := slot_base w', slot_counter := slot_counter w',
          xfer_queued := xfer_queued w', xfer_done := xfer_done w'\<rparr>"
      using start_frame_inv [OF g, of ?w, where 'e = 'e] room q(2) by auto
    have "same_setup w w'" "offered w' = offered w" "copying w' = None"
      by (subst w'(7), simp add: same_setup_def w'(6) w(2))+
    moreover have "(take_transfer w :: ('e, _) outcome) = Ok w'"
      using True False q(1) w w'(1) by (simp add: take_transfer_def Let_def)
    ultimately show ?thesis using w' by simp
  next
    case go: False
    have "ready_transfer g len w" using g inv False c by (simp add: ready_transfer_def)
    from take_ready [OF this room go w, where 'e = 'e] show ?thesis by blast
  qed
qed

section \<open>The copy\<close>

definition cut_lines :: "nat \<Rightarrow> nat \<Rightarrow> nat \<Rightarrow> nat \<Rightarrow> u8 list \<Rightarrow> u8 list" where
  "cut_lines src_words dst_words crop n bytes =
     concat (map (\<lambda>r. take (4 * dst_words) (drop (4 * (crop + r * src_words)) bytes)) [0..<n])"

lemma cut_lines_Suc:
  "cut_lines src dst crop (Suc n) bytes = cut_lines src dst crop n bytes @ take (4 * dst) (drop (4 * (crop + n * src)) bytes)"
  by (simp add: cut_lines_def)

lemma length_cut_lines:
  assumes "\<And>r. r < n \<Longrightarrow> 4 * (crop + r * src) + 4 * dst \<le> length bytes"
  shows "length (cut_lines src dst crop n bytes) = 4 * (n * dst)"
  using assms
proof (induction n)
  case (Suc n)
  then have "4 * (crop + n * src) + 4 * dst \<le> length bytes" by blast
  then have "min (length bytes - 4 * (crop + n * src)) (4 * dst) = 4 * dst" by linarith
  with Suc show ?case by (simp add: cut_lines_Suc)
qed (simp add: cut_lines_def)

lemma copy_lines_append:
  "(copy_lines start src dst fb (rs @ qs) d :: ('e, _) outcome) =
     bind_outcome (copy_lines start src dst fb rs d) (copy_lines start src dst fb qs)"
proof (induction rs arbitrary: d)
  case (Cons r rs)
  then show ?case by (cases "copy_line start src dst fb r d :: ('e, _) outcome") simp_all
qed simp

lemma copy_lines_ok:
  assumes "\<And>r. r < n \<Longrightarrow> 4 * (start + r * src) + 4 * dst \<le> length fb" "4 * (n * dst) \<le> length d"
  shows "\<exists>d'. (copy_lines start src dst fb [0..<n] d :: ('e, _) outcome) = Ok d' \<and> length d' = length d \<and>
    take (4 * (n * dst)) d' = cut_lines src dst start n fb"
  using assms
proof (induction n)
  case 0
  then show ?case by (simp add: cut_lines_def)
next
  case (Suc n)
  obtain d' where d': "(copy_lines start src dst fb [0..<n] d :: ('e, _) outcome) = Ok d'" "length d' = length d"
      "take (4 * (n * dst)) d' = cut_lines src dst start n fb"
    using Suc.IH Suc.prems by fastforce
  let ?line = "take (4 * dst) (drop (4 * (start + n * src)) fb)"
  have fit: "4 * (start + n * src) + 4 * dst \<le> length fb" "4 * (n * dst) + 4 * dst \<le> length d'"
    using Suc.prems(1) [of n] Suc.prems(2) d'(2) by simp_all
  then have line: "(copy_line start src dst fb n d' :: ('e, _) outcome) = Ok (put (4 * (n * dst)) ?line d')" "length ?line = 4 * dst"
    by (simp_all add: copy_line_def Let_def)
  have "take (4 * (Suc n * dst)) (put (4 * (n * dst)) ?line d') = take (4 * (n * dst)) d' @ ?line"
    using fit line(2) by (simp add: put_def)
  with d' line fit show ?case by (simp add: copy_lines_append cut_lines_Suc)
qed

end
