(* ===== verification/Capture_Stream.thy ===== *)
theory Capture_Stream
  imports Capture_Ring Uvc_Stream
begin

text \<open>
  The capture ring from end to end: over every interleaving of the sensor with the handler, the chunks offered to the
  USB service carry the lines the sensor delivered, and the frames they make up are the pictures that were captured
  completely.
\<close>

section \<open>Copying a slot\<close>

definition setup_ok :: "WebcamState \<Rightarrow> bool" where
  "setup_ok w =
     (let m = cam_mode w; l = webcam_line_px w m in
      even (width m) \<and> 0 < width m \<and> width m \<le> l \<and> even l \<and> slot_rows m * width m * 2 \<le> length (frame w))"

text \<open>The lines of a transfer that go into the picture.\<close>

definition image_lines :: "WebcamState \<Rightarrow> nat \<Rightarrow> u8 list \<Rightarrow> u8 list" where
  "image_lines w k bytes =
     (let m = cam_mode w; src = webcam_line_px w m * 2 div 4; dst = width m * 2 div 4 in
      cut_lines src dst (min (crop_words w) (src - dst)) (rows_of (ring_of w) k) bytes)"

lemma image_lines_same: "same_setup w w' \<Longrightarrow> image_lines w' = image_lines w"
  using same_setup_mode [of w w'] by (intro ext) (simp add: image_lines_def same_setup_def)

lemma setup_same: "same_setup w w' \<Longrightarrow> setup_ok w' = setup_ok w"
  using same_setup_mode [of w w'] by (simp add: setup_ok_def same_setup_def)

lemma same_setup_trans: "same_setup w w' \<Longrightarrow> same_setup w' w'' \<Longrightarrow> same_setup w w''"
  by (simp add: same_setup_def)

lemma cut_lines_slot:
  assumes "\<And>r. r < n \<Longrightarrow> 4 * (crop + r * src) + 4 * dst \<le> len"
  shows "cut_lines src dst (base + crop) n fb = cut_lines src dst crop n (take len (drop (4 * base) fb))"
proof -
  have "take (4 * dst) (drop (4 * (base + crop + r * src)) fb) =
      take (4 * dst) (drop (4 * (crop + r * src)) (take len (drop (4 * base) fb)))" if "r < n" for r
    using assms [OF that] by (simp add: drop_take min_absorb1 algebra_simps)
  then show ?thesis unfolding cut_lines_def by (intro arg_cong [where f = concat] map_cong) auto
qed

lemma copy_slot_ok:
  assumes g: "geometry_ok (length (ifram (cam w))) g" "ring_of w = g" and w: "setup_ok w" and s: "s < g_depth g"
  shows "\<exists>buf. (copy_slot g k s w :: ('e, _) outcome) = Ok buf \<and> length buf = length (frame w) \<and>
    take (rows_of g k * width (cam_mode w) * 2) buf = image_lines w k (slot_data g w s k) \<and>
    length (image_lines w k (slot_data g w s k)) = rows_of g k * width (cam_mode w) * 2"
proof -
  let ?m = "cam_mode w"
  let ?l = "webcam_line_px w ?m"
  obtain a where l: "?l = 2 * a" using w by (auto simp: setup_ok_def Let_def)
  obtain b where b: "width ?m = 2 * b" using w by (auto simp: setup_ok_def Let_def)
  have ba: "b \<le> a" using w l b by (simp add: setup_ok_def Let_def)
  define crop where "crop = min (crop_words w) (a - b)"
  have gl: "g_line_bytes g = 4 * a" "g_slot_rows g = slot_rows ?m" "g_slot_bytes g = 4 * (slot_rows ?m * a)"
    using g(2) l by (auto simp: ring_of_def webcam_ring_geometry_def Let_def)
  have row: "4 * (crop + r * a) + 4 * b \<le> rows_of g k * g_line_bytes g" if "r < rows_of g k" for r
  proof -
    have "Suc r * a \<le> rows_of g k * a" using that by (intro mult_le_mono) simp_all
    moreover have "crop + b \<le> a" using ba by (auto simp: crop_def min_def)
    ultimately have "crop + r * a + b \<le> rows_of g k * a" unfolding mult_Suc by linarith
    then show ?thesis using gl(1) by simp
  qed
  let ?base = "s * (slot_rows ?m * a)"
  have at: "s * g_slot_bytes g div 4 = ?base" "s * g_slot_bytes g = 4 * ?base" using gl(3) by simp_all
  have src: "4 * (?base + crop + r * a) + 4 * b \<le> length (ifram (cam w))" if "r < rows_of g k" for r
    using row [OF that] slot_fits [OF g(1) s, of k] at(2) by simp
  have dst: "4 * (rows_of g k * b) \<le> length (frame w)"
  proof -
    have "rows_of g k * b \<le> slot_rows ?m * b" using gl(2) by (intro mult_le_mono) (simp_all add: rows_of_def)
    moreover have "4 * (slot_rows ?m * b) \<le> length (frame w)" using w b by (simp add: setup_ok_def Let_def)
    ultimately show ?thesis by linarith
  qed
  obtain buf where buf: "(copy_lines (?base + crop) a b (ifram (cam w)) [0..<rows_of g k] (frame w) :: ('e, _) outcome) = Ok buf"
      "length buf = length (frame w)" "take (4 * (rows_of g k * b)) buf = cut_lines a b (?base + crop) (rows_of g k) (ifram (cam w))"
    using copy_lines_ok [OF src dst, where 'e = 'e] by blast
  have "cut_lines a b (?base + crop) (rows_of g k) (ifram (cam w)) = image_lines w k (slot_data g w s k)"
    using cut_lines_slot [OF row, of "rows_of g k" ?base "ifram (cam w)"]
    by (simp add: image_lines_def l b g(2) slot_data_def at(2) crop_def Let_def)
  moreover have "rows_of g k * width ?m * 2 = 4 * (rows_of g k * b)" using b by simp
  ultimately show ?thesis
    using buf dst length_take [of "4 * (rows_of g k * b)" buf] by (simp add: copy_slot_def l b at(1) crop_def Let_def)
qed

section \<open>The rest of a pass\<close>

text \<open>The state of the ring while a slot is copied.\<close>

definition copy_state :: "RingGeometry \<Rightarrow> nat \<Rightarrow> nat \<Rightarrow> WebcamState \<Rightarrow> bool" where
  "copy_state g k s w =
     (k < g_transfers g \<and> s < g_depth g \<and> slot_free g s w \<and>
      (if 3 \<le> g_depth g then primed g w else xfer_done w = k + 1 \<and> xfer_queued w = min (g_transfers g) (k + 2)))"

lemma copy_state_cong:
  "cam w1 = cam w2 \<Longrightarrow> xfer_done w1 = xfer_done w2 \<Longrightarrow> xfer_queued w1 = xfer_queued w2 \<Longrightarrow> slot_base w1 = slot_base w2 \<Longrightarrow>
   copy_state g k s w1 = copy_state g k s w2"
  by (simp add: copy_state_def slot_free_def primed_def)

lemma late_queue:
  assumes g: "geometry_ok len g" and inv: "ring_inv g len w" and st: "copy_state g k s w" and room: "unat (slot_counter w) + g_transfers g < 2 ^ 32"
  shows "\<exists>w'. (late_requeue g k w :: ('e, _) outcome) = Ok w' \<and> ring_inv g len w' \<and> primed g w' \<and> ifram (cam w') = ifram (cam w) \<and>
    (xfer_done w' = xfer_done w \<and> written (cam w') = written (cam w) \<or> k + 1 = g_transfers g \<and> xfer_done w' = 0) \<and>
    unat (slot_counter w') \<le> unat (slot_counter w) + g_transfers g \<and>
    w' = w\<lparr>cam := cam w', slot_base := slot_base w', slot_counter := slot_counter w',
      xfer_queued := xfer_queued w', xfer_done := xfer_done w'\<rparr>"
proof -
  have len: "length (ifram (cam w)) = len" using inv by (simp add: ring_inv_def Let_def)
  consider (deep) "3 \<le> g_depth g" | (requeue) "g_depth g < 3" "xfer_queued w < g_transfers g"
    | (final) "g_depth g < 3" "\<not> xfer_queued w < g_transfers g" "k + 1 = g_transfers g"
    | (tail) "g_depth g < 3" "\<not> xfer_queued w < g_transfers g" "k + 1 < g_transfers g"
    using st by (auto simp: copy_state_def) linarith
  then show ?thesis
  proof cases
    case deep
    with inv st show ?thesis by (intro exI [of _ w]) (simp add: copy_state_def late_requeue_def)
  next
    case requeue
    then have "xfer_done w = k + 1" "xfer_queued w = k + 2" using st by (simp_all add: copy_state_def)
    with requeue inv g len show ?thesis
      by (simp add: enqueue_ok late_requeue_def) (simp add: ring_inv_def primed_def slot_data_def Let_def)
  next
    case final
    with start_frame_inv [OF g len room, where 'e = 'e] show ?thesis by (auto simp: late_requeue_def)
  next
    case tail
    with inv st show ?thesis by (intro exI [of _ w]) (simp add: copy_state_def primed_def late_requeue_def)
  qed
qed

lemma count_result_view:
  fixes w :: WebcamState
  shows "cam (count_result r e w) = cam w" "xfer_done (count_result r e w) = xfer_done w"
    "xfer_queued (count_result r e w) = xfer_queued w" "slot_base (count_result r e w) = slot_base w"
    "slot_counter (count_result r e w) = slot_counter w" "offered (count_result r e w) = offered w"
    "copying (count_result r e w) = copying w" "same_setup w (count_result r e w)"
  by (simp_all add: count_result_def same_setup_def split: option.split UvcFrameResult.split)

lemma primed_cong:
  "xfer_done w1 = xfer_done w2 \<Longrightarrow> xfer_queued w1 = xfer_queued w2 \<Longrightarrow> primed g w1 = primed g w2"
  by (simp add: primed_def)

lemma finish_pass:
  assumes g: "geometry_ok len g" and inv: "ring_inv g len w" and w: "ring_of w = g" "setup_ok w" "copying w = Some (k, s)"
    and st: "copy_state g k s w" and room: "unat (slot_counter w) + 2 * g_transfers g < 2 ^ 32"
  shows "\<exists>w'. (finish_transfer_copy result w :: ('e, _) outcome) = Ok w' \<and> ring_inv g len w' \<and> primed g w' \<and>
    copying w' = None \<and> same_setup w w' \<and> unat (slot_counter w') \<le> unat (slot_counter w) + 2 * g_transfers g \<and>
    offered w' = offered w @ [(k = 0, k + 1 = g_transfers g, payload_data (cam_mode w), image_lines w k (slot_data g w s k))] \<and>
    length (image_lines w k (slot_data g w s k)) = rows_of g k * width (cam_mode w) * 2 \<and>
    (xfer_done w' = xfer_done w \<and> written (cam w') = written (cam w) \<or> k + 1 = g_transfers g \<and> xfer_done w' = 0)"
proof -
  have len: "length (ifram (cam w)) = len" using inv by (simp add: ring_inv_def Let_def)
  obtain buf where buf: "(copy_slot g k s w :: ('e, _) outcome) = Ok buf" "length buf = length (frame w)"
      "take (rows_of g k * width (cam_mode w) * 2) buf = image_lines w k (slot_data g w s k)"
      "length (image_lines w k (slot_data g w s k)) = rows_of g k * width (cam_mode w) * 2"
    using copy_slot_ok [of w g s k, where 'e = 'e] g len w st by (auto simp: copy_state_def)
  let ?w = "w\<lparr>frame := buf, copying := None\<rparr>"
  have "ring_inv g len ?w" using inv ring_inv_cong [of ?w w] by simp
  moreover have "copy_state g k s ?w" using st copy_state_cong [of ?w w g k s] by simp
  ultimately obtain w1 where w1: "(late_requeue g k ?w :: ('e, _) outcome) = Ok w1" "ring_inv g len w1" "primed g w1" "ifram (cam w1) = ifram (cam w)"
    "xfer_done w1 = xfer_done w \<and> written (cam w1) = written (cam w) \<or> k + 1 = g_transfers g \<and> xfer_done w1 = 0"
    "unat (slot_counter w1) \<le> unat (slot_counter w) + g_transfers g"
    "w1 = ?w\<lparr>cam := cam w1, slot_base := slot_base w1, slot_counter := slot_counter w1,
      xfer_queued := xfer_queued w1, xfer_done := xfer_done w1\<rparr>"
    using late_queue [OF g, of ?w k s, where 'e = 'e] room by auto
  have v1: "same_setup w w1" "offered w1 = offered w" "frame w1 = buf" "copying w1 = None"
    by (subst w1(7), simp add: same_setup_def buf(2) w1(4))+
  define w2 where "w2 = w1\<lparr>offered := offered w1 @ [(k = 0, k + 1 = g_transfers g, payload_data (cam_mode w),
    take (rows_of g k * width (cam_mode w) * 2) (frame w1))]\<rparr>"
  define w3 where "w3 = count_result result (k + 1 = g_transfers g) w2"
  note v3 = count_result_view [where r = result and e = "k + 1 = g_transfers g" and w = w2, folded w3_def]
  have v2: "cam w2 = cam w1" "xfer_done w2 = xfer_done w1" "xfer_queued w2 = xfer_queued w1" "slot_base w2 = slot_base w1"
      "slot_counter w2 = slot_counter w1" "copying w2 = None" "same_setup w w2"
      "offered w2 = offered w @ [(k = 0, k + 1 = g_transfers g, payload_data (cam_mode w), image_lines w k (slot_data g w s k))]"
    using v1 buf(3) by (simp_all add: w2_def same_setup_def)
  have inv3: "ring_inv g len w3" "primed g w3" "same_setup w w3"
    using w1(2,3) ring_inv_cong [of w3 w1] primed_cong [of w3 w1] v2 v3 same_setup_trans by auto
  have run: "(finish_transfer_copy result w :: ('e, _) outcome) = restart_first g (k + 1 = g_transfers g) w3"
    using buf(1) w1(1) w by (simp add: finish_transfer_copy_def w3_def w2_def Let_def)
  show ?thesis
  proof (cases "k + 1 = g_transfers g \<and> first_session w3 \<and> 4 \<le> captured w3")
    case False
    then have "(finish_transfer_copy result w :: ('e, _) outcome) = Ok w3" unfolding run restart_first_def by auto
    then show ?thesis using inv3 v2 v3 w1(5,6) buf(4) by simp
  next
    case True
    let ?w3 = "w3\<lparr>first_session := False, session := session w3 + 1\<rparr>"
    have "length (ifram (cam ?w3)) = len" "unat (slot_counter ?w3) + g_transfers g < 2 ^ 32"
      using v2 v3 w1(4,6) len room by simp_all
    then obtain w' where w': "(webcam_ring_start_frame g ?w3 :: ('e, _) outcome) = Ok w'" "ring_inv g len w'" "primed g w'"
        "xfer_done w' = 0" "ifram (cam w') = ifram (cam w3)" "unat (slot_counter w') = unat (slot_counter w3) + g_transfers g"
        "w' = ?w3\<lparr>cam := cam w', slot_base := slot_base w', slot_counter := slot_counter w',
          xfer_queued := xfer_queued w', xfer_done := xfer_done w'\<rparr>"
      using start_frame_inv [OF g, of ?w3, where 'e = 'e] by auto
    have "same_setup w3 w'" "offered w' = offered w3" "copying w' = copying w3"
      by (subst w'(7), simp add: same_setup_def w'(5))+
    moreover have "(finish_transfer_copy result w :: ('e, _) outcome) = Ok w'"
      unfolding run restart_first_def using True w'(1) by simp
    ultimately show ?thesis using True w'(2-4,6) same_setup_trans [OF inv3(3)] v2 v3 w1(6) buf(4) by simp
  qed
qed

section \<open>Pictures\<close>

text \<open>How chunks make up frames: a first chunk starts a frame, a last chunk completes it.\<close>

fun join_chunk :: "u8 list \<times> u8 list list \<Rightarrow> sent_chunk \<Rightarrow> u8 list \<times> u8 list list" where
  "join_chunk (buf, frames) (first, final, per, d) =
     (let buf = (if first then [] else buf) @ d in if final then ([], frames @ [buf]) else (buf, frames))"

definition joined :: "sent_chunk list \<Rightarrow> u8 list \<times> u8 list list" where
  "joined cs = foldl join_chunk ([], []) cs"

lemma joined_snoc: "joined (cs @ [c]) = join_chunk (joined cs) c"
  by (simp add: joined_def)

text \<open>
  A run of the capture, watched: \<open>expected\<close> are the chunks that the transfers the handler took should become,
  from the bytes the sensor delivered for them, and \<open>pictures\<close> the frames of which every transfer was taken.
\<close>

record Watch =
  cap :: WebcamState
  expected :: "sent_chunk list"
  pictures :: "u8 list list"

definition part :: "WebcamState \<Rightarrow> nat \<Rightarrow> u8 list" where
  "part w i = image_lines w i (written (cam w) ! i)"

definition observe :: "WebcamState \<Rightarrow> Watch \<Rightarrow> Watch" where
  "observe w' x =
     (let w = cap x; T = g_transfers (ring_of w) in
      case (copying w, copying w') of
        (None, Some (k, slot)) \<Rightarrow>
          x\<lparr>cap := w', expected := expected x @ [(k = 0, k + 1 = T, payload_data (cam_mode w), part w k)],
            pictures := (if k + 1 = T then pictures x @ [concat (map (part w) [0..<T])] else pictures x)\<rparr>
      | _ \<Rightarrow> x\<lparr>cap := w'\<rparr>)"

definition watch_step :: "cam_event \<Rightarrow> Watch \<Rightarrow> ('e, Watch) outcome" where
  "watch_step e x = bind_outcome (cam_step e (cap x)) (\<lambda>w'. Ok (observe w' x))"

primrec watch_steps :: "cam_event list \<Rightarrow> Watch \<Rightarrow> ('e, Watch) outcome" where
  "watch_steps [] x = Ok x"
| "watch_steps (e # es) x = bind_outcome (watch_step e x) (watch_steps es)"

interpretation capture_events: event_machine "watch_step :: _ \<Rightarrow> _ \<Rightarrow> ('e, _) outcome" watch_steps
  by unfold_locales simp_all

definition ring_state :: "RingGeometry \<Rightarrow> nat \<Rightarrow> nat \<Rightarrow> WebcamState \<Rightarrow> bool" where
  "ring_state g len n w =
     (geometry_ok len g \<and> ring_inv g len w \<and> ring_of w = g \<and> setup_ok w \<and>
      unat (slot_counter w) + n * (2 * g_transfers g) < 2 ^ 32 \<and>
      (case copying w of None \<Rightarrow> primed g w | Some (k, s) \<Rightarrow> copy_state g k s w))"

definition good_chunks :: "WebcamState \<Rightarrow> bool" where
  "good_chunks w =
     list_all (\<lambda>(first, final, per, d). per = payload_data (cam_mode w) \<and> d \<noteq> [] \<and>
       length d \<le> slot_rows (cam_mode w) * width (cam_mode w) * 2) (offered w)"

lemma good_same: "same_setup w w' \<Longrightarrow> offered w' = offered w \<Longrightarrow> good_chunks w' = good_chunks w"
  using same_setup_mode(1) [of w w'] by (simp add: good_chunks_def)

definition in_step :: "RingGeometry \<Rightarrow> Watch \<Rightarrow> bool" where
  "in_step g x =
     (let w = cap x in
      pictures x = snd (joined (expected x)) \<and> good_chunks w \<and>
      (0 < xfer_done w \<and> xfer_done w < g_transfers g \<longrightarrow>
         fst (joined (expected x)) = concat (map (part w) [0..<xfer_done w])) \<and>
      (case copying w of
         None \<Rightarrow> expected x = offered w
       | Some (k, s) \<Rightarrow> expected x = offered w @
           [(k = 0, k + 1 = g_transfers g, payload_data (cam_mode w), image_lines w k (slot_data g w s k))]))"

lemma part_same:
  assumes "same_setup w w'" "\<And>i. i < n \<Longrightarrow> written (cam w') ! i = written (cam w) ! i"
  shows "concat (map (part w') [0..<n]) = concat (map (part w) [0..<n])"
  using assms image_lines_same [OF assms(1)] by (intro arg_cong [where f = concat]) (simp add: part_def)

lemma dma_step:
  assumes "ring_state g len (Suc n) (cap x)" "in_step g x"
  shows "\<exists>x'. (watch_step (Dma_done bytes) x :: ('e, _) outcome) = Ok x' \<and> ring_state g len n (cap x') \<and> in_step g x' \<and>
    same_setup (cap x) (cap x')"
proof -
  let ?w = "cap x" and ?w' = "(cap x)\<lparr>cam := dma_done bytes (cam (cap x))\<rparr>"
  have g: "geometry_ok len g" "ring_inv g len ?w" using assms(1) by (simp_all add: ring_state_def)
  have inv: "ring_inv g len ?w'" by (rule dma_ring_inv [OF g])
  then have "length (ifram (cam ?w')) = length (ifram (cam ?w))" using g(2) by (simp add: ring_inv_def Let_def)
  then have same: "same_setup ?w ?w'" by (simp add: same_setup_def)
  have "xfer_done ?w \<le> length (written (cam ?w))" using g(2) by (simp add: ring_inv_def Let_def)
  then have wr: "written (dma_done bytes (cam ?w)) ! i = written (cam ?w) ! i" if "i < xfer_done ?w" for i
    using that by (auto simp: dma_done_def nth_append split: list.split)
  have parts: "concat (map (part ?w') [0..<xfer_done ?w]) = concat (map (part ?w) [0..<xfer_done ?w])"
    using wr by (intro part_same [OF same]) simp
  have obs: "observe ?w' x = x\<lparr>cap := ?w'\<rparr>" by (simp add: observe_def Let_def split: option.split)
  have st: "copy_state g k s ?w'" "slot_data g ?w' s k = slot_data g ?w s k" if "copy_state g k s ?w" for k s
    using that slot_free_dma slot_data_dma [OF g] by (auto simp: copy_state_def primed_def split: if_splits)
  have "ring_state g len n ?w'"
    using assms(1) inv same_setup_mode [OF same] setup_same [OF same] st(1)
    by (auto simp: ring_state_def primed_def split: option.split)
  moreover have "in_step g (x\<lparr>cap := ?w'\<rparr>)"
    using assms parts image_lines_same [OF same] same_setup_mode [OF same] st(2) good_same [OF same]
    by (auto simp: in_step_def ring_state_def Let_def split: option.split)
  ultimately show ?thesis using obs same by (simp add: watch_step_def)
qed

lemma join_part:
  assumes "in_step g x" "copying (cap x) = None" "xfer_done (cap x) = k" "k < g_transfers g"
  shows "join_chunk (joined (expected x)) (k = 0, final, per, part (cap x) k) =
    (let buf = concat (map (part (cap x)) [0..<Suc k]) in
     if final then ([], pictures x @ [buf]) else (buf, pictures x))"
proof -
  obtain buf frs where j: "joined (expected x) = (buf, frs)" by (cases "joined (expected x)")
  have "frs = pictures x" "0 < k \<longrightarrow> buf = concat (map (part (cap x)) [0..<k])"
    using assms j by (simp_all add: in_step_def Let_def)
  then show ?thesis using j by (cases "k = 0") (simp_all add: Let_def)
qed

lemma take_step:
  assumes st: "ring_state g len (Suc n) (cap x)" and io: "in_step g x" and idle: "copying (cap x) = None"
  shows "\<exists>x'. (watch_step Take_transfer x :: ('e, _) outcome) = Ok x' \<and> ring_state g len n (cap x') \<and> in_step g x' \<and>
    same_setup (cap x) (cap x')"
proof -
  let ?w = "cap x" and ?T = "g_transfers g"
  have g: "geometry_ok len g" "ring_inv g len ?w" "primed g ?w" "ring_of ?w = g" "setup_ok ?w"
      "unat (slot_counter ?w) + ?T < 2 ^ 32"
    using st idle by (simp_all add: ring_state_def)
  obtain w' where w': "(take_transfer ?w :: ('e, _) outcome) = Ok w'" "ring_inv g len w'" "same_setup ?w w'"
      "offered w' = offered ?w" "unat (slot_counter w') \<le> unat (slot_counter ?w) + ?T"
      "copying w' = None \<and> primed g w' \<and> (w' = ?w \<or> xfer_done w' = 0) \<or>
       (\<exists>slot. copying w' = Some (xfer_done ?w, slot) \<and> took g ?w (xfer_done ?w) slot w')"
    using take_pass [OF g(1-3,6,4) idle, where 'e = 'e] by blast
  note same = w'(3) same_setup_mode [OF w'(3)] setup_same [OF w'(3)] image_lines_same [OF w'(3)]
  have rs: "ring_state g len n w'" if "case copying w' of None \<Rightarrow> primed g w' | Some (k, s) \<Rightarrow> copy_state g k s w'"
    using that st g w'(2,5) same by (simp add: ring_state_def)
  from w'(6) consider (none) "copying w' = None" "primed g w'" "w' = ?w \<or> xfer_done w' = 0"
    | (some) slot where "copying w' = Some (xfer_done ?w, slot)" "took g ?w (xfer_done ?w) slot w'"
    by meson
  then show ?thesis
  proof cases
    case none
    have "in_step g (x\<lparr>cap := w'\<rparr>)"
      using io none(1,3) w'(4) idle good_same [OF same(1) w'(4)] by (auto simp: in_step_def Let_def)
    moreover have "observe w' x = x\<lparr>cap := w'\<rparr>" using none(1) idle by (simp add: observe_def Let_def)
    ultimately show ?thesis using rs none(1,2) w'(1) idle same(1) by (simp add: watch_step_def)
  next
    case some
    let ?k = "xfer_done ?w"
    have tk: "taken g ?w ?k slot w'" "?k < ?T" using some(2) by (simp_all add: took_def taken_def)
    then have data: "image_lines w' ?k (slot_data g w' slot ?k) = part ?w ?k" using same by (simp add: taken_def part_def)
    have cs: "copy_state g ?k slot w'" using tk(1) by (simp add: taken_def copy_state_def)
    let ?x = "x\<lparr>cap := w', expected := expected x @ [(?k = 0, ?k + 1 = ?T, payload_data (cam_mode ?w), part ?w ?k)],
      pictures := (if ?k + 1 = ?T then pictures x @ [concat (map (part ?w) [0..<?T])] else pictures x)\<rparr>"
    have obs: "observe w' x = ?x" using some(1) idle g(4) by (simp add: observe_def Let_def)
    have join: "joined (expected ?x) =
        (let buf = concat (map (part ?w) [0..<Suc ?k]) in if ?k + 1 = ?T then ([], pictures x @ [buf]) else (buf, pictures x))"
      using join_part [OF io idle refl tk(2)] by (simp add: joined_snoc)
    have mid: "concat (map (part w') [0..<xfer_done w']) = concat (map (part ?w) [0..<Suc ?k])" "xfer_done w' = Suc ?k"
      if "?k + 1 < ?T"
      using that some(2) part_same [OF same(1), of "Suc ?k"] by (simp_all add: took_def)
    have buf: "[0..<Suc ?k] = [0..<?T]" if "?k + 1 = ?T" using that by (simp del: upt_Suc)
    have "pictures ?x = snd (joined (expected ?x))" unfolding join by (simp add: Let_def buf del: upt_Suc)
    moreover have "fst (joined (expected ?x)) = concat (map (part w') [0..<xfer_done w'])"
      if "0 < xfer_done w'" "xfer_done w' < ?T"
    proof -
      have "?k + 1 \<noteq> ?T" using that some(2) by (auto simp: took_def)
      moreover from this tk(2) have "?k + 1 < ?T" by simp
      ultimately show ?thesis unfolding join mid(1) [OF \<open>?k + 1 < ?T\<close>] by (simp add: Let_def del: upt_Suc)
    qed
    moreover have "expected ?x = offered w' @ [(?k = 0, ?k + 1 = ?T, payload_data (cam_mode w'), image_lines w' ?k (slot_data g w' slot ?k))]"
      using io idle w'(4) data same(2) by (simp add: in_step_def Let_def)
    moreover have "good_chunks w'" using io good_same [OF same(1) w'(4)] by (simp add: in_step_def Let_def)
    ultimately have "in_step g ?x" using some(1) unfolding in_step_def Let_def by simp
    with rs some(1) cs obs w'(1) idle same(1) show ?thesis by (simp add: watch_step_def)
  qed
qed

lemma rows_pos:
  assumes "ring_of w = g" "k < g_transfers g"
  shows "0 < rows_of g k" "rows_of g k \<le> slot_rows (cam_mode w)"
proof -
  have g: "g_slot_rows g = slot_rows (cam_mode w)" "g_height g = height (cam_mode w)" "g_transfers g = transfers (cam_mode w)"
    using assms(1) by (auto simp: ring_of_def webcam_ring_geometry_def Let_def)
  have pos: "0 < slot_rows (cam_mode w)" using assms(2) g(3) by (cases "slot_rows (cam_mode w)") (simp_all add: transfers_def)
  have "Suc k * slot_rows (cam_mode w) \<le> height (cam_mode w) + slot_rows (cam_mode w) - 1"
    using assms(2) g(3) pos by (simp add: transfers_def Suc_le_eq [symmetric] less_eq_div_iff_mult_less_eq del: mult_Suc)
  then have "k * slot_rows (cam_mode w) < height (cam_mode w)" using pos by simp
  with pos show "0 < rows_of g k" "rows_of g k \<le> slot_rows (cam_mode w)" by (simp_all add: rows_of_def g)
qed

lemma finish_step:
  assumes st: "ring_state g len (Suc n) (cap x)" and io: "in_step g x" and c: "copying (cap x) = Some (k, s)"
  shows "\<exists>x'. (watch_step (Finish_copy result) x :: ('e, _) outcome) = Ok x' \<and> ring_state g len n (cap x') \<and> in_step g x' \<and>
    same_setup (cap x) (cap x')"
proof -
  let ?w = "cap x" and ?T = "g_transfers g"
  have g: "geometry_ok len g" "ring_inv g len ?w" "ring_of ?w = g" "setup_ok ?w" "copy_state g k s ?w"
      "unat (slot_counter ?w) + 2 * ?T < 2 ^ 32"
    using st c by (simp_all add: ring_state_def)
  obtain w' where w': "(finish_transfer_copy result ?w :: ('e, _) outcome) = Ok w'" "ring_inv g len w'" "primed g w'"
      "copying w' = None" "same_setup ?w w'" "unat (slot_counter w') \<le> unat (slot_counter ?w) + 2 * ?T"
      "offered w' = offered ?w @ [(k = 0, k + 1 = ?T, payload_data (cam_mode ?w), image_lines ?w k (slot_data g ?w s k))]"
      "length (image_lines ?w k (slot_data g ?w s k)) = rows_of g k * width (cam_mode ?w) * 2"
      "xfer_done w' = xfer_done ?w \<and> written (cam w') = written (cam ?w) \<or> k + 1 = ?T \<and> xfer_done w' = 0"
    using finish_pass [OF g(1-4) c g(5,6), of result, where 'e = 'e] by blast
  note same = w'(5) same_setup_mode [OF w'(5)] setup_same [OF w'(5)]
  have "ring_state g len n w'" using st g w'(2-4,6) same by (simp add: ring_state_def)
  moreover have "good_chunks w'"
    using io w'(7,8) same(2) rows_pos [OF g(3), of k] g(4,5) by (auto simp: in_step_def good_chunks_def copy_state_def setup_ok_def Let_def)
  then have "in_step g (x\<lparr>cap := w'\<rparr>)"
    using io c w'(4,7,9) part_same [OF same(1), of "xfer_done ?w"] by (auto simp: in_step_def Let_def)
  moreover have "observe w' x = x\<lparr>cap := w'\<rparr>" using c by (simp add: observe_def Let_def)
  ultimately show ?thesis using w'(1) same(1) by (simp add: watch_step_def)
qed

lemma watch_run:
  assumes "ring_state g len (length es) (cap x)" "in_step g x"
  shows "\<exists>x'. (watch_steps es x :: ('e, _) outcome) = Ok x' \<and> ring_state g len 0 (cap x') \<and> in_step g x' \<and>
    same_setup (cap x) (cap x')"
  using assms
proof (induction es arbitrary: x)
  case (Cons e es)
  have idle: "\<exists>x'. (watch_step e x :: ('e, _) outcome) = Ok x' \<and> ring_state g len (length es) (cap x') \<and> in_step g x' \<and>
    same_setup (cap x) (cap x')"
    if "(cam_step e (cap x) :: ('e, _) outcome) = Ok (cap x)"
  proof -
    have "observe (cap x) x = x" by (simp add: observe_def Let_def split: option.split)
    with that Cons.prems show ?thesis by (simp add: watch_step_def ring_state_def same_setup_def)
  qed
  have "\<exists>x'. (watch_step e x :: ('e, _) outcome) = Ok x' \<and> ring_state g len (length es) (cap x') \<and> in_step g x' \<and>
    same_setup (cap x) (cap x')"
  proof (cases e)
    case (Dma_done bytes)
    then show ?thesis using dma_step Cons.prems by simp
  next
    case Take_transfer
    then show ?thesis using take_step idle Cons.prems by (cases "copying (cap x)") simp_all
  next
    case (Finish_copy r)
    show ?thesis
    proof (cases "copying (cap x)")
      case None
      with Finish_copy idle show ?thesis by (simp add: finish_transfer_copy_def)
    next
      case (Some p)
      with Finish_copy finish_step Cons.prems show ?thesis by (cases p) simp
    qed
  qed
  then obtain x1 where x1: "(watch_step e x :: ('e, _) outcome) = Ok x1" "ring_state g len (length es) (cap x1)" "in_step g x1"
      "same_setup (cap x) (cap x1)" by blast
  with Cons.IH [OF x1(2,3)] same_setup_trans [OF x1(4)] show ?case by auto
qed (simp add: same_setup_def)

section \<open>The capture is faithful\<close>

lemma capture_start:
  assumes "setup_ok w" "geometry_ok (length (ifram (cam w))) (ring_of w)" "copying w = None" "offered w = []"
    and room: "unat (slot_counter w) + (1 + 2 * n) * g_transfers (ring_of w) < 2 ^ 32"
  shows "\<exists>w1. (webcam_ring_start_frame (ring_of w) w :: ('e, _) outcome) = Ok w1 \<and> same_setup w w1 \<and>
    ring_state (ring_of w) (length (ifram (cam w))) n w1 \<and> in_step (ring_of w) \<lparr>cap = w1, expected = [], pictures = []\<rparr> \<and>
    copying w1 = None \<and> xfer_done w1 = 0 \<and> written (cam w1) = []"
proof -
  let ?g = "ring_of w" and ?len = "length (ifram (cam w))"
  have "unat (slot_counter w) + g_transfers ?g < 2 ^ 32" using room by (simp add: algebra_simps)
  then obtain w1 where w1: "(webcam_ring_start_frame ?g w :: ('e, _) outcome) = Ok w1" "ring_inv ?g ?len w1" "primed ?g w1"
      "xfer_done w1 = 0" "written (cam w1) = []" "ifram (cam w1) = ifram (cam w)" "unat (slot_counter w1) = unat (slot_counter w) + g_transfers ?g"
      "w1 = w\<lparr>cam := cam w1, slot_base := slot_base w1, slot_counter := slot_counter w1,
        xfer_queued := xfer_queued w1, xfer_done := xfer_done w1\<rparr>"
    using start_frame_inv [OF assms(2) refl, where 'e = 'e] by auto
  have same: "same_setup w w1" "copying w1 = None" "offered w1 = []"
    by (subst w1(8), simp add: same_setup_def w1(6) assms(3,4))+
  have "ring_state ?g ?len n w1"
    using w1(2,3,7) same assms(1,2) room same_setup_mode [OF same(1)] setup_same [OF same(1)]
    by (simp add: ring_state_def algebra_simps)
  moreover have "in_step ?g \<lparr>cap = w1, expected = [], pictures = []\<rparr>"
    using same w1(4) by (simp add: in_step_def joined_def good_chunks_def)
  ultimately show ?thesis using w1(1,4,5) same(1,2) by blast
qed

lemma capture_run:
  assumes "setup_ok w" "geometry_ok (length (ifram (cam w))) (ring_of w)" "copying w = None" "offered w = []"
    and "unat (slot_counter w) + (1 + 2 * length es) * g_transfers (ring_of w) < 2 ^ 32"
  shows "\<exists>w1 x. (webcam_ring_start_frame (ring_of w) w :: ('e, _) outcome) = Ok w1 \<and>
    (watch_steps es \<lparr>cap = w1, expected = [], pictures = []\<rparr> :: ('e, _) outcome) = Ok x \<and>
    ring_state (ring_of w) (length (ifram (cam w))) 0 (cap x) \<and> in_step (ring_of w) x \<and> same_setup w (cap x)"
proof -
  let ?g = "ring_of w" and ?len = "length (ifram (cam w))"
  obtain w1 where w1: "(webcam_ring_start_frame ?g w :: ('e, _) outcome) = Ok w1" "same_setup w w1" "ring_state ?g ?len (length es) w1"
      "in_step ?g \<lparr>cap = w1, expected = [], pictures = []\<rparr>"
    using capture_start [OF assms, where 'e = 'e] by blast
  then obtain x where "(watch_steps es \<lparr>cap = w1, expected = [], pictures = []\<rparr> :: ('e, _) outcome) = Ok x"
      "ring_state ?g ?len 0 (cap x)" "in_step ?g x" "same_setup w1 (cap x)"
    using watch_run [of ?g ?len es "\<lparr>cap = w1, expected = [], pictures = []\<rparr>", where 'e = 'e] by auto
  with w1(1) same_setup_trans [OF w1(2)] show ?thesis by blast
qed

text \<open>
  C11. The capture is faithful. Start a capture on a ring of at least two slots, or of one if a frame is a single transfer, and let the
  sensor finish transfers with any bytes at any moment while the handler passes over the ring, gives up frames and
  restarts. Nothing panics; every chunk offered to the USB service carries the cropped lines of the
  transfer it stands for exactly as the sensor delivered them, although the slots are reused all the time; and the frames these
  chunks make up are the pictures whose transfers all arrived, in order, while frames given up half way complete nothing.
\<close>

theorem capture_faithful:
  assumes "setup_ok w" "geometry_ok (length (ifram (cam w))) (ring_of w)" "copying w = None" "offered w = []"
    and "unat (slot_counter w) + (1 + 2 * length es) * g_transfers (ring_of w) < 2 ^ 32"
  shows "\<exists>w1 x rest. (webcam_ring_start_frame (ring_of w) w :: (unit, _) outcome) = Ok w1 \<and>
    (watch_steps es \<lparr>cap = w1, expected = [], pictures = []\<rparr> :: (unit, _) outcome) = Ok x \<and>
    expected x = offered (cap x) @ rest \<and> (if copying (cap x) = None then rest = [] else length rest = 1) \<and>
    pictures x = snd (joined (expected x))"
proof -
  obtain w1 x where x: "(webcam_ring_start_frame (ring_of w) w :: (unit, _) outcome) = Ok w1"
      "(watch_steps es \<lparr>cap = w1, expected = [], pictures = []\<rparr> :: (unit, _) outcome) = Ok x" "in_step (ring_of w) x"
    using capture_run [OF assms, where 'e = unit] by blast
  show ?thesis
  proof (cases "copying (cap x)")
    case None
    with x show ?thesis by (intro exI [of _ w1] exI [of _ x] exI [of _ "[]"]) (simp add: in_step_def Let_def)
  next
    case (Some p)
    with x show ?thesis by (cases p) (auto simp: in_step_def Let_def)
  qed
qed

text \<open>A webcam before its first frame.\<close>

definition webcam_idle :: "nat \<Rightarrow> WebcamState" where
  "webcam_idle i =
     \<lparr>cam = \<lparr>ifram = replicate CAM_IFRAM_LEN 0, dma_queue = [], written = []\<rparr>, frame = replicate (10 * 4096) 0,
      captured = 0, sent = 0, dropped = 0, session = 0, crop_words = 0, rowlen_override = 0, mode_index = i, custom = None,
      xfer_queued = 0, xfer_done = 0, slot_base = 0, slot_counter = 0, overruns = 0, first_session = True,
      copying = None, offered = []\<rparr>"

lemma modes_cases: "i < length UVC_MODES \<Longrightarrow> i = 0 \<or> i = 1 \<or> i = 2"
  by (auto simp: UVC_MODES_def)

lemma idle_ring:
  assumes "i < length UVC_MODES"
  shows "setup_ok (webcam_idle i)" "geometry_ok CAM_IFRAM_LEN (ring_of (webcam_idle i))" "g_depth (ring_of (webcam_idle i)) = 3"
    "g_transfers (ring_of (webcam_idle i)) \<le> 24"
proof -
  show "setup_ok (webcam_idle i)"
    using modes_cases [OF assms] by (auto simp: setup_ok_def webcam_idle_def cam_mode_def webcam_line_px_def line_px_def UVC_MODES_def Let_def)
  have g: "ring_of (webcam_idle i) = webcam_ring_geometry CAM_IFRAM_LEN (UVC_MODES ! i) (line_px (UVC_MODES ! i))"
    by (simp add: ring_of_def webcam_idle_def cam_mode_def webcam_line_px_def)
  show "geometry_ok CAM_IFRAM_LEN (ring_of (webcam_idle i))" "g_depth (ring_of (webcam_idle i)) = 3"
    "g_transfers (ring_of (webcam_idle i)) \<le> 24"
    using modes_cases [OF assms]
    by (auto simp: g webcam_ring_geometry_def geometry_ok_def line_px_def transfers_def UVC_MODES_def CAM_IFRAM_LEN_def
        UVC_RING_DEPTH_def Let_def)
qed

theorem capture_faithful_witness:
  "\<exists>w1 x rest. (webcam_ring_start_frame (ring_of (webcam_idle 0)) (webcam_idle 0) :: (unit, _) outcome) = Ok w1 \<and>
    (watch_steps [Dma_done (replicate 37344 7), Take_transfer, Finish_copy (Some Sent)] \<lparr>cap = w1, expected = [], pictures = []\<rparr>
       :: (unit, _) outcome) = Ok x \<and>
    expected x = offered (cap x) @ rest \<and> pictures x = snd (joined (expected x))"
proof -
  have "0 < length UVC_MODES" by (simp add: UVC_MODES_def)
  note r = idle_ring [OF this]
  have "length (ifram (cam (webcam_idle 0))) = CAM_IFRAM_LEN" "copying (webcam_idle 0) = None" "offered (webcam_idle 0) = []"
      "unat (slot_counter (webcam_idle 0)) + (1 + 2 * length [Dma_done (replicate 37344 7), Take_transfer, Finish_copy (Some Sent)]) *
        g_transfers (ring_of (webcam_idle 0)) < 2 ^ 32"
    using r(4) by (simp_all add: webcam_idle_def)
  with capture_faithful [of "webcam_idle 0" "[Dma_done (replicate 37344 7), Take_transfer, Finish_copy (Some Sent)]"] r(1,2)
  show ?thesis by metis
qed

section \<open>A prompt handler captures every frame\<close>

text \<open>The handler runs after every transfer.\<close>

definition prompt :: "u8 list \<times> UvcFrameResult option \<Rightarrow> cam_event list" where
  "prompt t = [Dma_done (fst t), Take_transfer, Finish_copy (snd t)]"

lemma prompt_length: "length (concat (map prompt ts)) = 3 * length ts"
  by (induction ts) (simp_all add: prompt_def)

definition at_transfer :: "RingGeometry \<Rightarrow> nat \<Rightarrow> nat \<Rightarrow> nat \<Rightarrow> Watch \<Rightarrow> bool" where
  "at_transfer g len n k x =
     (ring_state g len n (cap x) \<and> in_step g x \<and> copying (cap x) = None \<and>
      (k < g_transfers g \<longrightarrow> xfer_done (cap x) = k \<and> length (written (cam (cap x))) = k))"

lemma prompt_dma:
  assumes "at_transfer g len (Suc n) k x" "k < g_transfers g" "length bytes = rows_of g k * g_line_bytes g"
  shows "\<exists>x'. (watch_step (Dma_done bytes) x :: ('e, _) outcome) = Ok x' \<and> ring_state g len n (cap x') \<and> in_step g x' \<and>
    copying (cap x') = None \<and> ready_transfer g len (cap x') \<and> xfer_done (cap x') = k \<and> written (cam (cap x')) = written (cam (cap x)) @ [bytes] \<and>
    expected x' = expected x \<and> same_setup (cap x) (cap x') \<and> completed (cap x') = 1"
proof -
  let ?w = "cap x" and ?w' = "(cap x)\<lparr>cam := dma_done bytes (cam (cap x))\<rparr>"
  have a: "ring_state g len (Suc n) ?w" "in_step g x" "copying ?w = None" "xfer_done ?w = k" "length (written (cam ?w)) = k"
    using assms(1,2) by (simp_all add: at_transfer_def)
  have g: "geometry_ok len g" "ring_inv g len ?w" "primed g ?w" using a(1,3) by (simp_all add: ring_state_def)
  have q: "k < xfer_queued ?w" using g(3) a(4) assms(2) by (simp add: primed_def)
  have wr: "written (dma_done bytes (cam ?w)) = written (cam ?w) @ [bytes]"
    using dma_done_head [OF g(2), of bytes] q a(5) assms(3) by simp
  have obs: "observe ?w' x = x\<lparr>cap := ?w'\<rparr>" using a(3) by (simp add: observe_def Let_def)
  then have step: "(watch_step (Dma_done bytes) x :: ('e, _) outcome) = Ok (x\<lparr>cap := ?w'\<rparr>)" by (simp add: watch_step_def)
  have inv: "ring_inv g len ?w'" "primed g ?w'" using dma_ring_inv [OF g(1,2)] g(3) by (simp_all add: primed_def)
  then have "ready_transfer g len ?w'" using g(1) wr a(4,5) by (simp add: ready_transfer_def)
  moreover have "completed ?w' = 1" using completed_count [OF inv] wr a(4,5) by simp
  ultimately show ?thesis using step dma_step [OF a(1,2), of bytes, where 'e = 'e] wr a(3,4) by auto
qed

lemma prompt_round:
  assumes at: "at_transfer g len (Suc (Suc (Suc n))) k x" and k: "k < g_transfers g"
    and len: "length (fst t) = rows_of g k * g_line_bytes g"
  shows "\<exists>x'. (watch_steps (prompt t) x :: ('e, _) outcome) = Ok x' \<and> at_transfer g len n (Suc k) x' \<and> same_setup (cap x) (cap x') \<and>
    expected x' = expected x @ [(k = 0, k + 1 = g_transfers g, payload_data (cam_mode (cap x)), image_lines (cap x) k (fst t))]"
proof -
  obtain x1 where x1: "(watch_step (Dma_done (fst t)) x :: ('e, _) outcome) = Ok x1" "ring_state g len (Suc (Suc n)) (cap x1)" "in_step g x1"
      "copying (cap x1) = None" "ready_transfer g len (cap x1)" "xfer_done (cap x1) = k"
      "written (cam (cap x1)) = written (cam (cap x)) @ [fst t]" "expected x1 = expected x" "same_setup (cap x) (cap x1)" "completed (cap x1) = 1"
    using prompt_dma [OF at k len, where 'e = 'e] by blast
  have lenw: "length (written (cam (cap x))) = k" using at k by (simp add: at_transfer_def)
  have r1: "ring_of (cap x1) = g" "unat (slot_counter (cap x1)) + g_transfers g < 2 ^ 32"
    using x1(2) by (simp_all add: ring_state_def)
  obtain w2 slot where w2: "(take_transfer (cap x1) :: ('e, _) outcome) = Ok w2" "same_setup (cap x1) w2"
      "copying w2 = Some (k, slot)" "took g (cap x1) k slot w2"
    using take_ready [OF x1(5) r1(2) _ r1(1) x1(4), where 'e = 'e] x1(6,10) by auto
  let ?x2 = "observe w2 x1"
  have part: "part (cap x1) k = image_lines (cap x) k (fst t)"
    using x1(7) lenw image_lines_same [OF x1(9)] by (simp add: part_def nth_append)
  have x2: "cap ?x2 = w2"
      "expected ?x2 = expected x @ [(k = 0, k + 1 = g_transfers g, payload_data (cam_mode (cap x)), image_lines (cap x) k (fst t))]"
    using w2(3) x1(4,8) r1(1) part same_setup_mode(1) [OF x1(9)] by (simp_all add: observe_def Let_def)
  have step2: "(watch_step Take_transfer x1 :: ('e, _) outcome) = Ok ?x2" using w2(1) x1(4) by (simp add: watch_step_def)
  then have i2: "ring_state g len (Suc n) w2" "in_step g ?x2" using take_step [OF x1(2-4), where 'e = 'e] x2(1) by auto
  obtain x3 where x3: "(watch_step (Finish_copy (snd t)) ?x2 :: ('e, _) outcome) = Ok x3" "ring_state g len n (cap x3)" "in_step g x3"
      "same_setup w2 (cap x3)"
    using finish_step [of g len n ?x2 k slot "snd t", where 'e = 'e] i2 w2(3) x2(1) by auto
  have f: "geometry_ok len g" "ring_inv g len w2" "ring_of w2 = g" "setup_ok w2" "copy_state g k slot w2"
      "unat (slot_counter w2) + 2 * g_transfers g < 2 ^ 32"
    using i2(1) w2(3) by (simp_all add: ring_state_def)
  obtain w3 where w3: "(finish_transfer_copy (snd t) w2 :: ('e, _) outcome) = Ok w3" "copying w3 = None"
      "xfer_done w3 = xfer_done w2 \<and> written (cam w3) = written (cam w2) \<or> k + 1 = g_transfers g \<and> xfer_done w3 = 0"
    using finish_pass [OF f(1-4) w2(3) f(5,6), of "snd t", where 'e = 'e] by blast
  have "x3 = observe w3 ?x2" using x3(1) w3(1) x2(1) by (simp add: watch_step_def)
  then have v3: "cap x3 = w3" "expected x3 = expected ?x2" using w2(3) x2(1) by (simp_all add: observe_def Let_def)
  have "xfer_done w3 = Suc k \<and> length (written (cam w3)) = Suc k" if "Suc k < g_transfers g"
    using that w2(4) w3(3) x1(7) lenw by (auto simp: took_def)
  then have "at_transfer g len n (Suc k) x3" using x3(2,3) w3(2) v3(1) by (simp add: at_transfer_def)
  moreover have "same_setup (cap x) (cap x3)" using same_setup_trans x1(9) w2(2) x3(4) by blast
  moreover have "(watch_steps (prompt t) x :: ('e, _) outcome) = Ok x3" using x1(1) step2 x3(1) by (simp add: prompt_def)
  ultimately show ?thesis using v3(2) x2(2) by (intro exI [of _ x3]) simp
qed

definition frame_parts :: "WebcamState \<Rightarrow> nat \<Rightarrow> nat \<Rightarrow> u8 list list \<Rightarrow> sent_chunk list" where
  "frame_parts w T k bss =
     map (\<lambda>i. (k + i = 0, k + i + 1 = T, payload_data (cam_mode w), image_lines w (k + i) (bss ! i))) [0..<length bss]"

lemma frame_parts_Cons:
  "frame_parts w T k (bs # bss) = (k = 0, k + 1 = T, payload_data (cam_mode w), image_lines w k bs) # frame_parts w T (Suc k) bss"
proof -
  have "[0..<length (bs # bss)] = 0 # map Suc [0..<length bss]" by (simp add: upt_conv_Cons map_Suc_upt del: upt_Suc)
  then show ?thesis unfolding frame_parts_def by (simp add: comp_def)
qed

lemma prompt_rounds:
  assumes "at_transfer g len (3 * length ts) k x" "k + length ts \<le> g_transfers g"
    "\<forall>i < length ts. length (fst (ts ! i)) = rows_of g (k + i) * g_line_bytes g"
  shows "\<exists>x'. (watch_steps (concat (map prompt ts)) x :: ('e, _) outcome) = Ok x' \<and> at_transfer g len 0 (k + length ts) x' \<and>
    expected x' = expected x @ frame_parts (cap x) (g_transfers g) k (map fst ts)"
  using assms
proof (induction ts arbitrary: k x)
  case Nil
  then show ?case by (simp add: frame_parts_def)
next
  case (Cons t ts)
  have "at_transfer g len (Suc (Suc (Suc (3 * length ts)))) k x" using Cons.prems(1) by (simp add: eval_nat_numeral)
  moreover have "length (fst t) = rows_of g k * g_line_bytes g" using Cons.prems(3) by (auto dest: spec [of _ 0])
  ultimately obtain x1 where x1: "(watch_steps (prompt t) x :: ('e, _) outcome) = Ok x1" "at_transfer g len (3 * length ts) (Suc k) x1"
      "same_setup (cap x) (cap x1)"
      "expected x1 = expected x @ [(k = 0, k + 1 = g_transfers g, payload_data (cam_mode (cap x)), image_lines (cap x) k (fst t))]"
    using prompt_round [of g len "3 * length ts" k x t, where 'e = 'e] Cons.prems(2) by auto
  have lens: "\<forall>i < length ts. length (fst (ts ! i)) = rows_of g (Suc k + i) * g_line_bytes g"
  proof (intro allI impI)
    fix i assume "i < length ts"
    then show "length (fst (ts ! i)) = rows_of g (Suc k + i) * g_line_bytes g" using Cons.prems(3) [rule_format, of "Suc i"] by simp
  qed
  obtain x' where "(watch_steps (concat (map prompt ts)) x1 :: ('e, _) outcome) = Ok x'" "at_transfer g len 0 (Suc k + length ts) x'"
      "expected x' = expected x1 @ frame_parts (cap x1) (g_transfers g) (Suc k) (map fst ts)"
    using Cons.IH [OF x1(2) _ lens] Cons.prems(2) by auto
  moreover have "frame_parts (cap x1) = frame_parts (cap x)"
    using same_setup_mode(1) [OF x1(3)] image_lines_same [OF x1(3)] by (intro ext) (simp add: frame_parts_def)
  ultimately show ?case using x1(1,4) by (simp add: capture_events.run_append frame_parts_Cons)
qed

lemma join_parts:
  assumes "bss \<noteq> []" "k + length bss = T"
  shows "foldl join_chunk (buf, frs) (frame_parts w T k bss) =
    ([], frs @ [(if k = 0 then [] else buf) @ concat (map (\<lambda>i. image_lines w (k + i) (bss ! i)) [0..<length bss])])"
  using assms
proof (induction bss arbitrary: k buf)
  case (Cons bs bss)
  have upt: "[0..<length (bs # bss)] = 0 # map Suc [0..<length bss]" by (simp add: upt_conv_Cons map_Suc_upt del: upt_Suc)
  show ?case
  proof (cases "bss = []")
    case True
    with Cons.prems show ?thesis by (simp add: frame_parts_Cons) (simp add: frame_parts_def Let_def)
  next
    case False
    then have "k + 1 \<noteq> T" using Cons.prems(2) by (cases bss) auto
    then show ?thesis
      unfolding frame_parts_Cons upt using Cons.IH [OF False, of "Suc k"] Cons.prems(2) by (simp add: comp_def Let_def)
  qed
qed simp

end
