(* ===== verification/Webcam.thy ===== *)
theory Webcam
  imports Uvc_Video Uvc_Control Uvc_Session Capture_Stream
begin

text \<open>
  The webcam as a whole: from the pixels the sensor delivers to the frames the host assembles. And the geometries the console
  may set for bring-up.
\<close>

section \<open>From the sensor to the host\<close>

lemma assemble_toggle:
  "h \<noteq> Some (f AND 1) \<or> buf = [] \<Longrightarrow> chunk_payloads f e per d \<noteq> [] \<Longrightarrow>
   foldl assemble (h, buf, frs) (chunk_payloads f e per d) =
   foldl assemble (Some (f AND 1), [], frs) (chunk_payloads f e per d)"
  by (cases "chunk_payloads f e per d")
     (auto simp: chunk_payloads_def Let_def assemble_payload map_eq_Cons_conv)

lemma toggle_bit: "(f XOR 1) AND (1 :: u8) \<noteq> f AND 1"
proof
  assume "(f XOR 1) AND 1 = f AND 1"
  then have "bit ((f XOR 1) AND 1) 0 = bit (f AND 1) 0" by simp
  then show False by (simp add: bit_simps)
qed

definition fits :: "sent_chunk \<Rightarrow> bool" where
  "fits c = (case c of (first, final, per, d) \<Rightarrow> 0 < per \<and> d \<noteq> [] \<and> length d \<le> UVC_CHUNK_PAYLOADS * per)"

lemma assemble_step:
  assumes "fits (first, final, per, d)" "h = Some (f AND 1) \<or> h = None \<and> buf = []"
  shows "foldl assemble (h, buf, frs) (chunk_payloads (next_fid first f) final per d) =
    (case join_chunk (buf, frs) (first, final, per, d) of (buf', frs') \<Rightarrow> (Some (next_fid first f AND 1), buf', frs'))"
proof -
  have c: "0 < per" "d \<noteq> []" "length d \<le> UVC_CHUNK_PAYLOADS * per" using assms(1) by (simp_all add: fits_def)
  have ne: "chunk_payloads (next_fid first f) final per d \<noteq> []"
    using chunk_pieces_pos [OF c(1,2)] by (auto simp: chunk_payloads_def Let_def)
  show ?thesis
  proof (cases "first \<or> h = None")
    case True
    have "h \<noteq> Some (next_fid first f AND 1) \<or> buf = []" using True assms(2) toggle_bit [of f] by (auto simp: next_fid_def)
    with True assms(2) assemble_toggle [OF _ ne] assemble_chunk [OF c] show ?thesis
      by (cases first) (auto simp: Let_def)
  next
    case False
    with assms(2) have "h = Some (f AND 1)" by auto
    with False assemble_chunk [OF c, of f buf frs final] show ?thesis by (simp add: next_fid_def Let_def)
  qed
qed

lemma assemble_joins:
  assumes "list_all fits cs" "h = Some (f AND 1) \<or> h = None \<and> buf = []"
  shows "\<exists>h'. foldl assemble (h, buf, frs) (wire f cs) = (h', foldl join_chunk (buf, frs) cs)"
  using assms
proof (induction cs arbitrary: h buf frs f)
  case (Cons c cs)
  obtain first final per d where c: "c = (first, final, per, d)" by (cases c)
  obtain buf' frs' where j: "join_chunk (buf, frs) c = (buf', frs')" by (cases "join_chunk (buf, frs) c")
  have "foldl assemble (h, buf, frs) (chunk_payloads (next_fid first f) final per d) = (Some (next_fid first f AND 1), buf', frs')"
    using assemble_step [of first final per d h f buf frs] Cons.prems j by (simp add: c)
  with Cons.IH [of "Some (next_fid first f AND 1)" "next_fid first f" buf' frs'] Cons.prems(1) j show ?case by (simp add: c)
qed simp

lemma host_joins: "list_all fits cs \<Longrightarrow> host_frames (wire f cs) = snd (joined cs)"
  using assemble_joins [of cs None f "[]" "[]"] by (auto simp: host_frames_def joined_def)

lemma mode_fits:
  assumes "i < length UVC_MODES"
  shows "0 < payload_data (UVC_MODES ! i)"
    "slot_rows (UVC_MODES ! i) * width (UVC_MODES ! i) * 2 \<le> UVC_CHUNK_PAYLOADS * payload_data (UVC_MODES ! i)"
  using modes_cases [OF assms] by (auto simp: UVC_MODES_def payload_data_def UVC_CHUNK_PAYLOADS_def)

lemma idle_camera:
  "length (ifram (cam (webcam_idle i))) = CAM_IFRAM_LEN" "copying (webcam_idle i) = None" "offered (webcam_idle i) = []"
  "slot_counter (webcam_idle i) = 0" "cam_mode (webcam_idle i) = UVC_MODES ! i"
  by (simp_all add: webcam_idle_def cam_mode_def)

lemma idle_room:
  assumes "i < length UVC_MODES" "(1 + 2 * n) * 24 < 2 ^ 32"
  shows "unat (slot_counter (webcam_idle i)) + (1 + 2 * n) * g_transfers (ring_of (webcam_idle i)) < 2 ^ 32"
proof -
  have "(1 + 2 * n) * g_transfers (ring_of (webcam_idle i)) \<le> (1 + 2 * n) * 24"
    using idle_ring(4) [OF assms(1)] by (intro mult_le_mono) simp_all
  then show ?thesis using assms(2) by (simp add: idle_camera)
qed

text \<open>The chunks of a capture, sent through an idle stream, make up the pictures on the host.\<close>

lemma stream_shows_pictures:
  assumes i: "i < length UVC_MODES" and x: "in_step (ring_of (webcam_idle i)) x" "same_setup (webcam_idle i) (cap x)" "copying (cap x) = None"
    and k: "idle_stream k" "\<forall>e \<in> set es. steady e" "(run_events es k :: (unit, _) outcome) = Ok k'" "\<not> frame_active (uvc (svc k'))"
    and sent: "sent_chunks (svc k') = offered (cap x)"
  shows "host_frames (received k') = pictures x"
proof -
  have io: "expected x = offered (cap x)" "pictures x = snd (joined (expected x))" "good_chunks (cap x)"
    using x(1,3) by (simp_all add: in_step_def Let_def)
  have mode: "cam_mode (cap x) = UVC_MODES ! i" using same_setup_mode(1) [OF x(2)] by (simp add: idle_camera)
  have "list_all fits (offered (cap x))"
    using io(3) mode_fits [OF i] unfolding good_chunks_def mode by (auto simp: list_all_iff fits_def)
  moreover have "received k' = wire (uvc_fid (svc k)) (offered (cap x))"
    using events_in_order [OF idle_in_order [OF k(1)] k(2), where 'e = unit] k(3,4) sent by (auto simp: in_order_def Let_def)
  ultimately show ?thesis using host_joins io by simp
qed

text \<open>A frame captured by a prompt handler and sent.\<close>

lemma prompt_frame:
  assumes i: "i < length UVC_MODES" and ts: "length ts = g_transfers (ring_of (webcam_idle i))"
    "\<forall>j < length ts. length (fst (ts ! j)) = rows_of (ring_of (webcam_idle i)) j * g_line_bytes (ring_of (webcam_idle i))"
  shows "\<exists>w1 x. (webcam_ring_start_frame (ring_of (webcam_idle i)) (webcam_idle i) :: (unit, _) outcome) = Ok w1 \<and>
    (watch_steps (concat (map prompt ts)) \<lparr>cap = w1, expected = [], pictures = []\<rparr> :: (unit, _) outcome) = Ok x \<and>
    in_step (ring_of (webcam_idle i)) x \<and> same_setup (webcam_idle i) (cap x) \<and> copying (cap x) = None \<and>
    pictures x = [concat (map (\<lambda>j. image_lines (webcam_idle i) j (fst (ts ! j))) [0..<length ts])]"
proof -
  let ?w = "webcam_idle i" and ?g = "ring_of (webcam_idle i)"
  note ring = idle_ring [OF i]
  have room: "(1 + 2 * (3 * length ts)) * 24 < (2 :: nat) ^ 32" using ring(4) ts(1) by simp
  obtain w1 where w1: "(webcam_ring_start_frame ?g ?w :: (unit, _) outcome) = Ok w1" "same_setup ?w w1"
      "ring_state ?g CAM_IFRAM_LEN (3 * length ts) w1" "in_step ?g \<lparr>cap = w1, expected = [], pictures = []\<rparr>" "copying w1 = None"
      "xfer_done w1 = 0" "written (cam w1) = []"
    using capture_start [OF ring(1) ring(2) [folded idle_camera(1) [of i]] idle_camera(2,3) idle_room [OF i room], where 'e = unit]
    by (auto simp: idle_camera)
  let ?x = "\<lparr>cap = w1, expected = [], pictures = []\<rparr>"
  have "at_transfer ?g CAM_IFRAM_LEN (3 * length ts) 0 ?x" using w1 by (simp add: at_transfer_def)
  then obtain x where x: "(watch_steps (concat (map prompt ts)) ?x :: (unit, _) outcome) = Ok x" "at_transfer ?g CAM_IFRAM_LEN 0 (length ts) x"
      "expected x = frame_parts w1 (g_transfers ?g) 0 (map fst ts)"
    using prompt_rounds [of ?g CAM_IFRAM_LEN ts 0 ?x, where 'e = unit] ts by auto
  have "same_setup w1 (cap x)"
    using watch_run [of ?g CAM_IFRAM_LEN "concat (map prompt ts)" ?x, where 'e = unit] x(1) w1(3,4)
    by (auto simp: prompt_length)
  then have same: "same_setup ?w (cap x)" by (rule same_setup_trans [OF w1(2)])
  have "0 < g_transfers ?g" using ring(2) by (simp add: geometry_ok_def)
  then have ne: "map fst ts \<noteq> []" using ts(1) by auto
  have "concat (map (\<lambda>j. image_lines ?w j (map fst ts ! j)) [0..<length ts]) =
      concat (map (\<lambda>j. image_lines ?w j (fst (ts ! j))) [0..<length ts])"
    by (intro arg_cong [where f = concat] map_cong) simp_all
  then have "joined (expected x) = ([], [concat (map (\<lambda>j. image_lines ?w j (fst (ts ! j))) [0..<length ts])])"
    unfolding joined_def x(3) using join_parts [OF ne, of 0 "g_transfers ?g" "[]" "[]" w1] ts(1) image_lines_same [OF w1(2)]
    by simp
  moreover have io: "in_step ?g x" "copying (cap x) = None" using x(2) by (simp_all add: at_transfer_def)
  moreover have "pictures x = snd (joined (expected x))" using io(1) by (simp add: in_step_def Let_def)
  ultimately show ?thesis using w1(1) x(1) same by (intro exI [of _ w1] exI [of _ x]) simp
qed

lemma captured_good:
  assumes "i < length UVC_MODES" "in_step (ring_of (webcam_idle i)) x" "same_setup (webcam_idle i) (cap x)"
  shows "list_all good_chunk (offered (cap x))"
proof -
  have mode: "cam_mode (cap x) = UVC_MODES ! i" using same_setup_mode(1) [OF assms(3)] by (simp add: idle_camera)
  have "payload_data (UVC_MODES ! i) \<le> UVC_MAX_PAYLOAD_DATA"
    using modes_cases [OF assms(1)] by (auto simp: UVC_MODES_def payload_data_def UVC_MAX_PAYLOAD_DATA_def)
  moreover from this have "UVC_CHUNK_PAYLOADS * payload_data (UVC_MODES ! i) \<le> UVC_CHUNK_MAX_BYTES" by (simp add: UVC_CHUNK_MAX_BYTES_def)
  ultimately show ?thesis
    using assms(2) mode_fits [OF assms(1)] by (auto simp: in_step_def good_chunks_def good_chunk_def mode list_all_iff Let_def)
qed

lemma frame_delivered:
  assumes i: "i < length UVC_MODES" and ts: "length ts = g_transfers (ring_of (webcam_idle i))"
    "\<forall>j < length ts. length (fst (ts ! j)) = rows_of (ring_of (webcam_idle i)) j * g_line_bytes (ring_of (webcam_idle i))"
    and k: "idle_stream k" "uvc_pending (svc k) = None"
  shows "\<exists>w1 x es k'. (webcam_ring_start_frame (ring_of (webcam_idle i)) (webcam_idle i) :: (unit, _) outcome) = Ok w1 \<and>
    (watch_steps (concat (map prompt ts)) \<lparr>cap = w1, expected = [], pictures = []\<rparr> :: (unit, _) outcome) = Ok x \<and>
    copying (cap x) = None \<and> pictures x = [concat (map (\<lambda>j. image_lines (webcam_idle i) j (fst (ts ! j))) [0..<length ts])] \<and>
    (\<forall>e \<in> set es. steady e) \<and> (run_events es k :: (unit, _) outcome) = Ok k' \<and> \<not> frame_active (uvc (svc k')) \<and>
    sent_chunks (svc k') = offered (cap x) \<and> host_frames (received k') = pictures x"
proof -
  obtain w1 x where x: "(webcam_ring_start_frame (ring_of (webcam_idle i)) (webcam_idle i) :: (unit, _) outcome) = Ok w1"
      "(watch_steps (concat (map prompt ts)) \<lparr>cap = w1, expected = [], pictures = []\<rparr> :: (unit, _) outcome) = Ok x"
      "in_step (ring_of (webcam_idle i)) x" "same_setup (webcam_idle i) (cap x)" "copying (cap x) = None"
      "pictures x = [concat (map (\<lambda>j. image_lines (webcam_idle i) j (fst (ts ! j))) [0..<length ts])]"
    using prompt_frame [OF i ts] by blast
  obtain es k' where es: "\<forall>e \<in> set es. steady e" "(run_events es k :: (unit, _) outcome) = Ok k'" "\<not> frame_active (uvc (svc k'))"
      "sent_chunks (svc k') = offered (cap x)"
    using all_sent [OF k captured_good [OF i x(3,4)], where 'e = unit] by blast
  from stream_shows_pictures [OF i x(3-5) k(1) es] x es show ?thesis by blast
qed

text \<open>
  C3. The webcam from end to end. Capture any of the modes of the webcam with any behaviour of the sensor and the handler; let the USB
  service run with any interleaving of its main loop, its interrupt and the host, and let the chunks it has acknowledged be the chunks
  the capture offered, all of them sent. Then the host, following only the bits in the payload headers, has assembled exactly
  the pictures that were captured completely: the bytes the sensor delivered for each, cut to the width of the
  image, in order. A frame that the capture gave up half way never appears.
\<close>

theorem webcam_end_to_end:
  assumes "i < length UVC_MODES" "(1 + 2 * length ces) * 24 < 2 ^ 32"
    and "(webcam_ring_start_frame (ring_of (webcam_idle i)) (webcam_idle i) :: (unit, _) outcome) = Ok w1"
    and "(watch_steps ces \<lparr>cap = w1, expected = [], pictures = []\<rparr> :: (unit, _) outcome) = Ok x" "copying (cap x) = None"
    and "idle_stream k" "\<forall>e \<in> set es. steady e" "(run_events es k :: (unit, _) outcome) = Ok k'" "\<not> frame_active (uvc (svc k'))"
    and "sent_chunks (svc k') = offered (cap x)"
  shows "host_frames (received k') = pictures x"
proof -
  note ring = idle_ring [OF assms(1)]
  have "in_step (ring_of (webcam_idle i)) x" "same_setup (webcam_idle i) (cap x)"
    using capture_run [OF ring(1) ring(2) [folded idle_camera(1) [of i]] idle_camera(2,3) idle_room [OF assms(1,2)], where 'e = unit] assms(3,4)
    by auto
  then show ?thesis using assms(5-10) by (intro stream_shows_pictures [OF assms(1)])
qed

text \<open>The 160 by 120 mode: two transfers of sixty lines of 184 pixels.\<close>

definition demo_transfers :: "(u8 list \<times> UvcFrameResult option) list" where
  "demo_transfers = [(replicate 22080 16, Some Sent), (replicate 22080 235, Some Sent)]"

lemma demo_ring:
  "2 < length UVC_MODES" "length demo_transfers = g_transfers (ring_of (webcam_idle 2))"
  "\<forall>j < length demo_transfers. length (fst (demo_transfers ! j)) = rows_of (ring_of (webcam_idle 2)) j * g_line_bytes (ring_of (webcam_idle 2))"
proof -
  have g: "g_transfers (ring_of (webcam_idle 2)) = 2" "g_slot_rows (ring_of (webcam_idle 2)) = 60" "g_height (ring_of (webcam_idle 2)) = 120"
      "g_line_bytes (ring_of (webcam_idle 2)) = 368"
    by (simp_all add: ring_of_def webcam_ring_geometry_def idle_camera webcam_line_px_def line_px_def transfers_def UVC_MODES_def Let_def)
      (simp_all add: webcam_idle_def)
  show "2 < length UVC_MODES" by (simp add: UVC_MODES_def)
  show "length demo_transfers = g_transfers (ring_of (webcam_idle 2))" by (simp add: g demo_transfers_def)
  show "\<forall>j < length demo_transfers. length (fst (demo_transfers ! j)) = rows_of (ring_of (webcam_idle 2)) j * g_line_bytes (ring_of (webcam_idle 2))"
    by (simp add: demo_transfers_def rows_of_def g less_Suc_eq All_less_Suc)
qed

lemma demo_pending: "uvc_pending (svc demo_link) = None"
  by (simp add: demo_link_def)

theorem webcam_end_to_end_witness:
  "\<exists>w1 x es k'. (webcam_ring_start_frame (ring_of (webcam_idle 2)) (webcam_idle 2) :: (unit, _) outcome) = Ok w1 \<and>
     (watch_steps (concat (map prompt demo_transfers)) \<lparr>cap = w1, expected = [], pictures = []\<rparr> :: (unit, _) outcome) = Ok x \<and>
     (run_events es demo_link :: (unit, _) outcome) = Ok k' \<and> length (pictures x) = 1 \<and>
     host_frames (received k') = pictures x"
proof -
  obtain w1 x es k' where x: "(webcam_ring_start_frame (ring_of (webcam_idle 2)) (webcam_idle 2) :: (unit, _) outcome) = Ok w1"
      "(watch_steps (concat (map prompt demo_transfers)) \<lparr>cap = w1, expected = [], pictures = []\<rparr> :: (unit, _) outcome) = Ok x"
      "copying (cap x) = None" "length (pictures x) = 1"
      "\<forall>e \<in> set es. steady e" "(run_events es demo_link :: (unit, _) outcome) = Ok k'" "\<not> frame_active (uvc (svc k'))"
      "sent_chunks (svc k') = offered (cap x)"
    using frame_delivered [OF demo_ring demo_idle demo_pending] by auto
  have "host_frames (received k') = pictures x"
    by (rule webcam_end_to_end [OF demo_ring(1) _ x(1-3) demo_idle x(5-8)]) (simp add: demo_transfers_def prompt_def)
  with x(1,2,4,6) show ?thesis by blast
qed

text \<open>
  C22. A picture gets through. If the sensor delivers the transfers of a whole frame in any of the modes and the handler runs after each of
  them, then the frame is captured completely, and through any idle stream there is a run of the USB service that sends its chunks
  and leaves the host with exactly this picture.
\<close>

theorem picture_gets_through:
  assumes "i < length UVC_MODES" "length ts = g_transfers (ring_of (webcam_idle i))"
    "\<forall>j < length ts. length (fst (ts ! j)) = rows_of (ring_of (webcam_idle i)) j * g_line_bytes (ring_of (webcam_idle i))"
    and "idle_stream k" "uvc_pending (svc k) = None"
  shows "\<exists>w1 x es k'. (webcam_ring_start_frame (ring_of (webcam_idle i)) (webcam_idle i) :: (unit, _) outcome) = Ok w1 \<and>
    (watch_steps (concat (map prompt ts)) \<lparr>cap = w1, expected = [], pictures = []\<rparr> :: (unit, _) outcome) = Ok x \<and>
    (run_events es k :: (unit, _) outcome) = Ok k' \<and> sent_chunks (svc k') = offered (cap x) \<and>
    host_frames (received k') = [concat (map (\<lambda>j. image_lines (webcam_idle i) j (fst (ts ! j))) [0..<length ts])]"
  using frame_delivered [OF assms] by metis

theorem picture_gets_through_witness:
  "\<exists>w1 x es k'. (webcam_ring_start_frame (ring_of (webcam_idle 2)) (webcam_idle 2) :: (unit, _) outcome) = Ok w1 \<and>
    (watch_steps (concat (map prompt demo_transfers)) \<lparr>cap = w1, expected = [], pictures = []\<rparr> :: (unit, _) outcome) = Ok x \<and>
    (run_events es demo_link :: (unit, _) outcome) = Ok k' \<and> sent_chunks (svc k') = offered (cap x) \<and>
    length (host_frames (received k')) = 1"
proof -
  obtain w1 x es k' where "(webcam_ring_start_frame (ring_of (webcam_idle 2)) (webcam_idle 2) :: (unit, _) outcome) = Ok w1"
      "(watch_steps (concat (map prompt demo_transfers)) \<lparr>cap = w1, expected = [], pictures = []\<rparr> :: (unit, _) outcome) = Ok x"
      "(run_events es demo_link :: (unit, _) outcome) = Ok k'" "sent_chunks (svc k') = offered (cap x)"
      "length (host_frames (received k')) = 1"
    using picture_gets_through [OF demo_ring demo_idle demo_pending] by auto
  then show ?thesis by blast
qed

section \<open>Geometries from the console\<close>

definition raw_line :: "UvcMode \<times> nat \<Rightarrow> nat" where
  "raw_line r = (if snd r \<noteq> 0 then snd r else line_px (fst r))"

lemma raw_geometry_accepted:
  assumes "raw_geometry w h rowlen rat pad len = Inr (m, rl)"
  shows "2 \<le> width m" "even (width m)" "width m \<le> UVC_MAX_PAYLOAD_DATA div 2" "0 < height m" "width m \<le> raw_line (m, rl)"
    "payload_rows m = max (UVC_MAX_PAYLOAD_DATA div (width m * 2)) 1"
    "slot_rows m = min (UVC_CHUNK_PAYLOADS * payload_rows m) (max (height m) (payload_rows m))"
    "slot_rows m * raw_line (m, rl) * 2 \<le> len"
    "(width m + line_pad m) * ratio m \<le> SENSOR_W" "(height m + 1) * ratio m \<le> SENSOR_H"
proof -
  have ok: "2 \<le> w \<and> \<not> w mod 2 \<noteq> 0 \<and> w \<le> UVC_MAX_PAYLOAD_DATA div 2" "h \<noteq> 0"
      "(w + pad) * rat \<le> SENSOR_W" "(h + 1) * rat \<le> SENSOR_H" "rowlen = 0 \<or> w \<le> rowlen"
      "min (UVC_CHUNK_PAYLOADS * max (UVC_MAX_PAYLOAD_DATA div (w * 2)) 1) (max h (max (UVC_MAX_PAYLOAD_DATA div (w * 2)) 1)) *
        (if rowlen \<noteq> 0 then rowlen else w + pad) * 2 \<le> len"
    and m: "m = \<lparr>width = w, height = h, ratio = rat, line_pad = pad, interval = 10000000,
        payload_rows = max (UVC_MAX_PAYLOAD_DATA div (w * 2)) 1,
        slot_rows = min (UVC_CHUNK_PAYLOADS * max (UVC_MAX_PAYLOAD_DATA div (w * 2)) 1)
          (max h (max (UVC_MAX_PAYLOAD_DATA div (w * 2)) 1))\<rparr>" and rl: "rl = rowlen"
    using assms unfolding raw_geometry_def Let_def by (simp_all only: not_less de_Morgan_disj if_split sum.distinct sum.inject prod.inject simp_thms split: if_splits)
  show "2 \<le> width m" "even (width m)" "width m \<le> UVC_MAX_PAYLOAD_DATA div 2" "0 < height m" "width m \<le> raw_line (m, rl)"
    using ok by (auto simp: m rl raw_line_def line_px_def)
  show "payload_rows m = max (UVC_MAX_PAYLOAD_DATA div (width m * 2)) 1"
    "slot_rows m = min (UVC_CHUNK_PAYLOADS * payload_rows m) (max (height m) (payload_rows m))"
    "(width m + line_pad m) * ratio m \<le> SENSOR_W" "(height m + 1) * ratio m \<le> SENSOR_H"
    using ok(3,4) by (simp_all add: m)
  show "slot_rows m * raw_line (m, rl) * 2 \<le> len" using ok(6) by (simp only: m rl raw_line_def line_px_def fst_conv snd_conv UvcMode.simps)
qed

lemmas raw_accepted = raw_geometry_accepted [OF webcam_raw_mode_def [symmetric, THEN trans]]

lemma raw_payload:
  assumes "webcam_raw_mode arg3 arg4 len = Inr (m, rl)"
  shows "0 < payload_data m" "payload_data m \<le> UVC_MAX_PAYLOAD_DATA"
proof -
  note a = raw_accepted [OF assms]
  show "0 < payload_data m" using a(1,6) by (simp add: payload_data_def)
  have "width m * 2 \<le> UVC_MAX_PAYLOAD_DATA" using a(3) by (simp add: UVC_MAX_PAYLOAD_DATA_def)
  moreover have "UVC_MAX_PAYLOAD_DATA div (width m * 2) * (width m * 2) \<le> UVC_MAX_PAYLOAD_DATA" by simp
  ultimately show "payload_data m \<le> UVC_MAX_PAYLOAD_DATA"
    using a(6) by (simp add: payload_data_def max_def mult.assoc)
qed

lemma raw_rows:
  assumes "webcam_raw_mode arg3 arg4 len = Inr (m, rl)"
  shows "0 < slot_rows m" "slot_rows m * width m * 2 \<le> UVC_CHUNK_PAYLOADS * payload_data m" "0 < raw_line (m, rl)"
proof -
  note a = raw_accepted [OF assms]
  have "0 < payload_rows m" using a(6) by simp
  then show "0 < slot_rows m" using a(7) by (simp add: UVC_CHUNK_PAYLOADS_def less_max_iff_disj)
  show "0 < raw_line (m, rl)" using a(1,5) by simp
  have "slot_rows m * (width m * 2) \<le> UVC_CHUNK_PAYLOADS * payload_rows m * (width m * 2)"
    using a(7) by (intro mult_le_mono) simp_all
  then show "slot_rows m * width m * 2 \<le> UVC_CHUNK_PAYLOADS * payload_data m" by (simp add: payload_data_def mult.assoc)
qed

lemma raw_ring:
  assumes "webcam_raw_mode arg3 arg4 len = Inr (m, rl)" and g: "g = webcam_ring_geometry len m (raw_line (m, rl))"
  shows "0 < g_depth g" "g_depth g \<le> UVC_RING_DEPTH" "g_depth g * g_slot_bytes g \<le> len" "0 < g_slot_bytes g" "0 < g_transfers g"
    "g_slot_bytes g = g_slot_rows g * g_line_bytes g"
proof -
  note a = raw_accepted [OF assms(1)] and r = raw_rows [OF assms(1)]
  show d: "0 < g_depth g" "g_depth g \<le> UVC_RING_DEPTH"
    by (simp_all add: g webcam_ring_geometry_def Let_def UVC_RING_DEPTH_def)
  show sl: "0 < g_slot_bytes g" "g_slot_bytes g = g_slot_rows g * g_line_bytes g"
    using r(1,3) by (simp_all add: g webcam_ring_geometry_def Let_def)
  have le: "g_slot_bytes g \<le> len" using a(8) by (simp add: g webcam_ring_geometry_def Let_def mult.assoc)
  have "g_depth g \<le> max 1 (len div g_slot_bytes g)" by (simp add: g webcam_ring_geometry_def Let_def)
  moreover have "max 1 (len div g_slot_bytes g) = len div g_slot_bytes g"
    using le sl(1) by (simp add: div_greater_zero_iff max_absorb2 Suc_leI)
  ultimately have "g_depth g * g_slot_bytes g \<le> len div g_slot_bytes g * g_slot_bytes g" by (intro mult_le_mono) simp_all
  then show "g_depth g * g_slot_bytes g \<le> len" by (meson div_times_less_eq_dividend le_trans)
  have "slot_rows m \<le> height m + slot_rows m - 1" using a(4) by linarith
  then show "0 < g_transfers g"
    using r(1) by (simp add: g webcam_ring_geometry_def Let_def transfers_def div_greater_zero_iff)
qed

text \<open>
  C27. The console cannot set a geometry that writes past a buffer. Whenever \<open>webcam_raw_mode\<close> accepts the two packed arguments, for
  a camera memory of any size, the slots of the ring lie in that memory, the lines of a slot fit the buffer that is lent to
  the USB service, the chunk and the payload size pass the service's checks, no chunk needs more than eight payloads, and
  the window fits the sensor.
\<close>

theorem raw_mode_in_bounds:
  assumes "webcam_raw_mode arg3 arg4 len = Inr (m, rl)"
  defines "g \<equiv> webcam_ring_geometry len m (raw_line (m, rl))"
  shows "g_depth g * g_slot_bytes g \<le> len \<and> 0 < g_depth g \<and> g_depth g \<le> UVC_RING_DEPTH \<and>
    0 < payload_data m \<and> payload_data m \<le> UVC_MAX_PAYLOAD_DATA \<and>
    slot_rows m * width m * 2 \<le> UVC_CHUNK_PAYLOADS * payload_data m \<and> slot_rows m * width m * 2 \<le> UVC_CHUNK_MAX_BYTES \<and>
    width m \<le> raw_line (m, rl) \<and> (width m + line_pad m) * ratio m \<le> SENSOR_W \<and> (height m + 1) * ratio m \<le> SENSOR_H"
proof -
  note p = raw_payload [OF assms(1)] and r = raw_rows(2) [OF assms(1)]
  have "UVC_CHUNK_PAYLOADS * payload_data m \<le> UVC_CHUNK_MAX_BYTES" using p(2) by (simp add: UVC_CHUNK_MAX_BYTES_def)
  with r have "slot_rows m * width m * 2 \<le> UVC_CHUNK_MAX_BYTES" by (rule le_trans)
  with p r raw_ring [OF assms(1) g_def [THEN meta_eq_to_obj_eq]] raw_accepted [OF assms(1)] show ?thesis by blast
qed

definition demo_raw :: UvcMode where
  "demo_raw = \<lparr>width = 160, height = 200, ratio = 4, line_pad = 0, interval = 10000000, payload_rows = 15, slot_rows = 120\<rparr>"

text \<open>160 by 200 pixels at ratio 4 with a DMA row length of 400.\<close>

lemma demo_raw_accepted: "webcam_raw_mode 0xA000C8 0x1900400 CAM_IFRAM_LEN = Inr (demo_raw, 400)"
  by (simp add: webcam_raw_mode_def raw_geometry_def demo_raw_def CAM_IFRAM_LEN_def SENSOR_W_def SENSOR_H_def uvc_sizes Let_def)

theorem raw_mode_in_bounds_witness:
  "webcam_raw_mode 0xA000C8 0x1900400 CAM_IFRAM_LEN = Inr (demo_raw, 400) \<and>
   slot_rows demo_raw * width demo_raw * 2 \<le> UVC_CHUNK_MAX_BYTES \<and> payload_data demo_raw \<le> UVC_MAX_PAYLOAD_DATA"
  using demo_raw_accepted raw_mode_in_bounds [OF demo_raw_accepted] by simp

text \<open>
  C40. A ring of one slot overlaps. For an accepted geometry whose slots are so large that the ring has a single slot while a frame takes
  more than one transfer, starting a frame queues two transfers into the same bytes: the second group of lines is written over the
  first while it waits to be copied. The comment at \<open>webcam_ring_enqueue\<close> promises that slots are queued again only after
  their contents were copied out.
\<close>

theorem one_slot_ring_overlaps:
  assumes "webcam_raw_mode arg3 arg4 (length (ifram (cam w))) = Inr (m, rl)"
    and g: "g = webcam_ring_geometry (length (ifram (cam w))) m (raw_line (m, rl))" "g_depth g = 1" "1 < g_transfers g"
  shows "\<exists>w'. (webcam_ring_start_frame g w :: (unit, _) outcome) = Ok w' \<and>
    dma_queue (cam w') = [(0, rows_of g 0 * g_line_bytes g), (0, rows_of g 1 * g_line_bytes g)] \<and>
    0 < rows_of g 0 * g_line_bytes g \<and> 0 < rows_of g 1 * g_line_bytes g"
proof -
  note r = raw_ring [OF assms(1) g(1)]
  have fit: "rows_of g k * g_line_bytes g \<le> length (ifram (cam w))" for k
  proof -
    have "rows_of g k * g_line_bytes g \<le> g_slot_rows g * g_line_bytes g" by (intro mult_le_mono) (simp_all add: rows_of_def)
    also have "\<dots> = g_slot_bytes g" using r(6) by simp
    also have "\<dots> \<le> length (ifram (cam w))" using r(3) g(2) by simp
    finally show ?thesis .
  qed
  have slot: "slot_of g base k = 0" for base k using g(2) by (simp add: slot_of_def)
  have gm: "g_slot_rows g = slot_rows m" "g_height g = height m" "g_transfers g = transfers m"
    by (simp_all add: g(1) webcam_ring_geometry_def Let_def)
  have "slot_rows m < height m"
  proof (rule ccontr)
    assume "\<not> slot_rows m < height m"
    then have "height m + slot_rows m - 1 < 2 * slot_rows m" using raw_rows(1) [OF assms(1)] by linarith
    then have "transfers m < 2" unfolding transfers_def by (simp add: less_mult_imp_div_less)
    with g(3) gm(3) show False by simp
  qed
  then have "0 < rows_of g 0" "0 < rows_of g 1" using raw_rows(1) [OF assms(1)] by (simp_all add: rows_of_def gm)
  moreover have "0 < g_line_bytes g" using r(4,6) by simp
  ultimately show ?thesis
    using fit g(3) by (simp add: webcam_ring_start_frame_def webcam_ring_enqueue_def enqueue_rx_def dma_clear_def slot Let_def)
qed

theorem one_slot_ring_overlaps_witness:
  "let g = webcam_ring_geometry CAM_IFRAM_LEN demo_raw 400 in
   webcam_raw_mode 0xA000C8 0x1900400 CAM_IFRAM_LEN = Inr (demo_raw, 400) \<and>
   (\<exists>w'. (webcam_ring_start_frame g (webcam_idle 0) :: (unit, _) outcome) = Ok w' \<and>
     map fst (dma_queue (cam w')) = [0, 0])"
proof -
  let ?g = "webcam_ring_geometry CAM_IFRAM_LEN demo_raw 400"
  have len: "length (ifram (cam (webcam_idle 0))) = CAM_IFRAM_LEN" by (simp add: webcam_idle_def)
  have "?g = webcam_ring_geometry (length (ifram (cam (webcam_idle 0)))) demo_raw (raw_line (demo_raw, 400))"
    by (simp add: len raw_line_def)
  moreover have "g_depth ?g = 1" "1 < g_transfers ?g"
    by (simp_all add: webcam_ring_geometry_def demo_raw_def CAM_IFRAM_LEN_def transfers_def UVC_RING_DEPTH_def Let_def)
  ultimately obtain w' where "(webcam_ring_start_frame ?g (webcam_idle 0) :: (unit, _) outcome) = Ok w'"
      "dma_queue (cam w') = [(0, rows_of ?g 0 * g_line_bytes ?g), (0, rows_of ?g 1 * g_line_bytes ?g)]"
    using one_slot_ring_overlaps [OF demo_raw_accepted [folded len]] by blast
  then show ?thesis unfolding Let_def using demo_raw_accepted by simp
qed

end
