(* ===== verification/Spec2Isabelle.thy ===== *)
theory Spec2Isabelle
  imports SysCall Server_Queue Process_Memory Main_Loop Interrupt_Delivery Message_Calls Webcam
begin

text \<open>
  Verification development of the Xous microkernel for the Baochip-1x and of the USB webcam that runs on it.

  \<^bold>\<open>The program.\<close> The kernel (kernel/src) gives processes memory and threads and passes messages between them. A process talks to it by
  system calls whose arguments and results are packed into eight registers (xous-rs/src). A server is a message queue that lives in one page;
  messages are scalars, or ranges of pages that are moved or lent with the message and returned with the answer.
  Physical pages have owners; address spaces are Sv32 page tables; pages can be reserved and filled on the
  first access, and a swapper in user space is called when memory runs out. The webcam consists of the capture in
  the video service (services/bao-video/src/main.rs), which takes frames from the camera through a ring of DMA slots, and of the USB video
  class in the USB service (services/usb-bao1x/src), which receives them as chunks in lent memory and sends them to the host.

  \<^bold>\<open>Conventions.\<close> \<open>usize\<close> and \<open>u32\<close> are words of 32 bits, and arithmetic wraps as it does in the
  release build. Fallible code returns \<open>Ok\<close>, \<open>Err\<close> or \<open>Panic\<close> (theory \<open>Prelude\<close>). Stateful kernel code is written in the state monad of
  \<open>Kernel_Monad\<close>, in which a routine can also end by calling the swapper. The webcam passes its state explicitly, and there sizes and offsets
  are natural numbers, which stay below \<open>2 ^ 20\<close>. Definitions have the names of the source, with the type in front or a suffix where a name is taken.

  \<^bold>\<open>Interface of the kernel.\<close>
  \<^item> \<open>Xous_Defs\<close>: error codes, identifiers, memory ranges and flags, allocation advice (xous-rs/src/definitions.rs and definitions/).
  \<^item> \<open>Messages\<close>: messages, envelopes, senders and the register encoding of results (definitions/messages, definitions.rs). Every
    well-formed result but two survives the encoding, and the two are shown to be misread.
  \<^item> \<open>SysCall\<close>: the system calls and their register encoding (xous-rs/src/syscall.rs). Encoding and decoding are inverse, and
    whatever is decoded is well formed.

  \<^bold>\<open>Servers.\<close>
  \<^item> \<open>Server\<close>: the queue of a server (kernel/src/server.rs). The queue page is a list of entries in the server's record.
  \<^item> \<open>Queue_Spec\<close>: the contracts \<open>fifo_queue\<close> and \<open>token_queue\<close>, and what follows from them for every sequence of operations.
  \<^item> \<open>Server_Queue\<close>: the invariant of the ring with its generations, and the interpretation of both contracts on it. Messages
    arrive in order, tokens reach the sender, and capacity tests are exact.

  \<^bold>\<open>Memory.\<close>
  \<^item> \<open>Swap_Tracking\<close>: entries of the allocation table, the epoch counter and its renormalisation (kernel/src/swap.rs), which is proved equal to
    ranking the stamps.
  \<^item> \<open>Mem_Alloc\<close>, \<open>Alloc_Spec\<close>, \<open>Mem_Ownership\<close>: owners of physical pages (kernel/src/mem.rs), the contract \<open>page_allocator\<close> and its
    interpretation. An allocated page belongs to one process until it is given up.
  \<^item> \<open>Page_Table\<close>, \<open>Page_Spaces\<close>, \<open>Page_Lending\<close>, \<open>Page_Mapping\<close>: the page tables (kernel/src/arch/riscv/mem.rs), address spaces as trees of
    tables, and the effect of mapping, lending, reserving and demand paging on all entries of all spaces. The kernel reads
    the tables of the active space through the addresses at which each space maps its own tables; that
    every space does so is the invariant \<open>self_mapped\<close>, which mapping and lending keep. \<open>Demo_Machine\<close> is a machine with two spaces for the instances.
  \<^item> \<open>Mem_Ranges\<close>, \<open>Mem_Syscalls\<close>, \<open>Mem_Range_Props\<close>, \<open>Process_Memory\<close>: ranges of pages, the memory system calls, and the release of memory when
    a process ends.

  \<^bold>\<open>Processes.\<close>
  \<^item> \<open>Kernel_State\<close>, \<open>Irq\<close>, \<open>Scheduler\<close>, \<open>Services\<close>: the process table, thread contexts, interrupts, scheduling, and servers and connections
    (kernel/src/services.rs, irq.rs, arch/riscv/process.rs and irq.rs).
  \<^item> \<open>Handlers\<close>, \<open>Swapper\<close>, \<open>Process_Creation\<close>, \<open>Traps\<close>: the system calls on messages and threads (kernel/src/syscall.rs), the calls into the swapper
    and the return from them (kernel/src/swap.rs), new processes, and the trap handler (arch/riscv/irq.rs). A trap that ends in
    code outside the model is the exit \<open>Outside\<close>.
  \<^item> \<open>Thread_Choice\<close>, \<open>Sched_Runs\<close>, \<open>Main_Loop\<close>: the choice of a thread is round robin, and the main loop (kernel/src/main.rs) is fair.
  \<^item> \<open>Interrupt_Delivery\<close>, \<open>Message_Calls\<close>: an interrupt and a blocking call, from the trap or the call to the return, on the whole kernel
    state. \<open>Demo_Kernel\<close> is a kernel with three processes for the instances.

  \<^bold>\<open>Webcam.\<close>
  \<^item> \<open>Uvc\<close>, \<open>Uvc_Staging\<close>: modes, payload headers, the stream state machine and control requests (services/usb-bao1x/src/uvc.rs and
    api.rs) and the transfer blocks of the controller (libs/bao1x-hal/src/usb/driver.rs). The staging buffer holds the cut and headed
    chunk, and the blocks of a transfer cover exactly its payload.
  \<^item> \<open>Uvc_Service\<close>: the main loop of the USB service, the software interrupt and the client call (main.rs, hw.rs, lib.rs). A run is any
    sequence of messages, interrupts, reads of the host, control requests and resets.
  \<^item> \<open>Event_Spec\<close>: the contracts \<open>event_machine\<close> and \<open>safe_machine\<close> of components that are driven by events. They are interpreted on the USB service, with
    the invariant of a running stream and with the one that survives anything, and on the capture.
  \<^item> \<open>Uvc_Stream\<close>, \<open>Uvc_Video\<close>, \<open>Uvc_Control\<close>, \<open>Uvc_Session\<close>: over all runs the stream is complete and in order, nothing panics, nothing
    outside the staging buffer is sent, deferred chunks are answered, and the negotiated mode is used.
  \<^item> \<open>Capture\<close>, \<open>Capture_Ring\<close>, \<open>Capture_Stream\<close>: the ring of DMA slots and the handler of the camera interrupt
    (services/bao-video/src/main.rs). Over all interleavings with the sensor no slot is overwritten before it is copied.
  \<^item> \<open>Webcam\<close>: both halves together, from the sensor to the host, and the geometries of the console.

  \<^bold>\<open>Bounds and granularity.\<close> \<open>map_page_inner\<close> calls itself through the allocation of a leaf table; its fuel is 3, and more makes no difference
  (\<open>map_page_fuel_enough\<close>). \<open>wake_waiting\<close> has fuel 33 for the at most 32 threads of a process. The loops over the queue are bounded
  by its length. The slot counter of the capture is a 32-bit word, and the theorems about captures assume that it does not wrap within
  the run. A handler of the USB service's main loop is one step, so the interrupt comes between
  handlers; a pass of the camera handler is two steps, split at the copy, so that transfers may finish before it. The soft interrupt that
  starts the streamer is a flag that the step \<open>Soft_irq\<close> serves.

  \<^bold>\<open>Not modelled.\<close> The start of the kernel from the loader's tables, the debugger and console, and other architectures: the theorems start from a
  kernel that is set up. The assembly that saves and restores registers, and the copy of the kernel stack around a call of the swapper. The
  user-space wrappers of the system calls and the serialiser. Of the USB service: descriptors (constant tables), keyboard, serial and
  mass storage, and the threads that watch the main loop for debugging. Of the capture: exposure, white balance, preview and the
  power sequence of the sensor, which are register writes. The loader, the boot chain, the other services, the libraries for
  graphics and cryptography, the applications and the tools have no part in what is proved.
\<close>

end
